(* ===== verification/FR_Prelude.thy ===== *)
theory FR_Prelude
  imports Main "HOL-Library.Word" "HOL-Library.Monad_Syntax"
begin

text \<open>
  The vocabulary every component shares: machine integers, byte strings of a little-endian
  host (the daemon is compiled with \<open>-march=native\<close> for x86-64), the C library's
  \<open>memcmp\<close>, and the assertion macros of \<open>src/common.h\<close>.

  A computation that may stop the process is a value of an option type. \<open>None\<close> means
  that the run does not continue: an \<open>AN\<close>/\<open>AZ\<close> assertion aborts, or the code
  touches memory it does not own. The option monad's \<open>do\<close> blocks keep the statement
  order of the C code.
\<close>

unbundle bit_operations_syntax

named_theorems codec_simps "unfolding of the netlink encoders and decoders"
named_theorems inv_intros "preservation of component invariants"

section \<open>Machine integers and byte strings\<close>

type_synonym u8 = "8 word"
type_synonym u16 = "16 word"
type_synonym u32 = "32 word"
type_synonym bytes = "8 word list"

definition be16 :: "u16 \<Rightarrow> bytes" where
  "be16 w = [ucast (drop_bit 8 w), ucast w]"

definition be32 :: "u32 \<Rightarrow> bytes" where
  "be32 w = [ucast (drop_bit 24 w), ucast (drop_bit 16 w), ucast (drop_bit 8 w), ucast w]"

definition le16 :: "u16 \<Rightarrow> bytes" where
  "le16 w = rev (be16 w)"

definition le32 :: "u32 \<Rightarrow> bytes" where
  "le32 w = rev (be32 w)"

definition of_be16 :: "u8 \<Rightarrow> u8 \<Rightarrow> u16" where
  "of_be16 a b = push_bit 8 (ucast a) OR ucast b"

definition of_be32 :: "u8 \<Rightarrow> u8 \<Rightarrow> u8 \<Rightarrow> u8 \<Rightarrow> u32" where
  "of_be32 a b c d = push_bit 24 (ucast a) OR push_bit 16 (ucast b)
     OR push_bit 8 (ucast c) OR ucast d"

text \<open>\<open>htons\<close> and \<open>htonl\<close> swap the bytes on this host, and so do their inverses.\<close>

definition htons :: "u16 \<Rightarrow> u16" where
  "htons w = of_be16 (ucast w) (ucast (drop_bit 8 w))"

definition htonl :: "u32 \<Rightarrow> u32" where
  "htonl w = of_be32 (ucast w) (ucast (drop_bit 8 w)) (ucast (drop_bit 16 w)) (ucast (drop_bit 24 w))"

abbreviation ntohs :: "u16 \<Rightarrow> u16" where
  "ntohs \<equiv> htons"

lemma length_be_le [simp]:
  "length (be16 v) = 2" "length (le16 v) = 2" "length (be32 w) = 4" "length (le32 w) = 4"
  by (simp_all add: be16_def le16_def be32_def le32_def)

lemma bit_of_be32:
  "bit (of_be32 a b c d) n \<longleftrightarrow>
     (if n < 8 then bit d n else if n < 16 then bit c (n - 8)
      else if n < 24 then bit b (n - 16) else n < 32 \<and> bit a (n - 24))"
  by (auto simp: of_be32_def bit_simps dest: bit_imp_le_length)

lemma bit_of_be16:
  "bit (of_be16 a b) n \<longleftrightarrow> (if n < 8 then bit b n else n < 16 \<and> bit a (n - 8))"
  by (auto simp: of_be16_def bit_simps dest: bit_imp_le_length)

lemma of_be32_be32:
  "of_be32 (ucast (drop_bit 24 w)) (ucast (drop_bit 16 w)) (ucast (drop_bit 8 w)) (ucast w) = w"
  by (rule bit_word_eqI) (auto simp: bit_of_be32 bit_simps)

lemma of_be16_be16: "of_be16 (ucast (drop_bit 8 w)) (ucast w) = w"
  by (rule bit_word_eqI) (auto simp: bit_of_be16 bit_simps)

lemma htons_htons [simp]: "htons (htons w) = w"
  by (rule bit_word_eqI) (auto simp: htons_def bit_of_be16 bit_simps)

lemma htonl_htonl [simp]: "htonl (htonl w) = w"
  by (rule bit_word_eqI) (auto simp: htonl_def bit_of_be32 bit_simps)

lemma le32_htonl: "le32 (htonl w) = be32 w"
proof -
  have "ucast (drop_bit 24 (htonl w)) = (ucast w :: u8)"
    "ucast (drop_bit 16 (htonl w)) = (ucast (drop_bit 8 w) :: u8)"
    "ucast (drop_bit 8 (htonl w)) = (ucast (drop_bit 16 w) :: u8)"
    "ucast (htonl w) = (ucast (drop_bit 24 w) :: u8)"
    by (rule bit_word_eqI, auto simp: htonl_def bit_of_be32 bit_simps dest: bit_imp_le_length)+
  then show ?thesis by (simp add: le32_def be32_def)
qed

lemma be32_inject [simp]: "be32 v = be32 w \<longleftrightarrow> v = w"
proof
  let ?b = "\<lambda>n x. ucast (drop_bit n x) :: u8"
  assume "be32 v = be32 w"
  then have eq: "?b 24 v = ?b 24 w" "?b 16 v = ?b 16 w" "?b 8 v = ?b 8 w"
    "(ucast v :: u8) = ucast w"
    by (simp_all only: be32_def list.inject)
  show "v = w"
    using of_be32_be32 [of v] of_be32_be32 [of w] unfolding eq by (rule subst)
qed simp

lemma be16_inject [simp]: "be16 v = be16 w \<longleftrightarrow> v = w"
proof
  assume "be16 v = be16 w"
  then have eq: "(ucast (drop_bit 8 v) :: u8) = ucast (drop_bit 8 w)" "(ucast v :: u8) = ucast w"
    by (simp_all only: be16_def list.inject)
  show "v = w"
    using of_be16_be16 [of v] of_be16_be16 [of w] unfolding eq by (rule subst)
qed simp

lemma le_inject [simp]: "le32 v = le32 w \<longleftrightarrow> v = w" "le16 x = le16 y \<longleftrightarrow> x = y"
  by (simp_all add: le32_def le16_def)

section \<open>The C library: memcmp\<close>

text \<open>
  \<open>memcmp\<close> compares unsigned bytes; the standard fixes only the sign of its result, and
  the code uses only the sign.
\<close>

fun memcmp :: "bytes \<Rightarrow> bytes \<Rightarrow> int" where
  "memcmp (x # xs) (y # ys) = (if x < y then - 1 else if y < x then 1 else memcmp xs ys)"
| "memcmp _ _ = 0"

lemma memcmp_0_iff: "length xs = length ys \<Longrightarrow> memcmp xs ys = 0 \<longleftrightarrow> xs = ys"
  by (induction xs ys rule: memcmp.induct) auto

lemma memcmp_refl [simp]: "memcmp xs xs = 0"
  by (induction xs) auto

lemma memcmp_antisym: "memcmp ys xs = - memcmp xs ys"
  by (induction xs ys rule: memcmp.induct) auto

lemma memcmp_trans:
  "length xs = length ys \<Longrightarrow> length ys = length zs \<Longrightarrow>
   memcmp xs ys < 0 \<Longrightarrow> memcmp ys zs < 0 \<Longrightarrow> memcmp xs zs < 0"
proof (induction xs ys arbitrary: zs rule: memcmp.induct)
  case (1 x xs y ys)
  then obtain z zs' where zs: "zs = z # zs'" by (cases zs) auto
  with 1 show ?case by (auto split: if_splits)
qed auto

section \<open>Assertions\<close>

text \<open>\<open>AN\<close> of \<open>common.h\<close>: the process aborts when its argument is zero.\<close>

definition AN :: "bool \<Rightarrow> unit option" where
  "AN b = (if b then Some () else None)"

lemma AN_simps [simp]: "AN True = Some ()" "AN False = None"
  by (simp_all add: AN_def)

lemma AN_eq_Some [simp]: "AN b = Some u \<longleftrightarrow> b"
  by (simp add: AN_def)

lemma AN_bind_eq_Some [simp]: "(AN b \<bind> f) = Some x \<longleftrightarrow> b \<and> f () = Some x"
  by (cases b) auto

lemma bind_SomeE:
  assumes "(m \<bind> f) = Some x"
  obtains y where "m = Some y" "f y = Some x"
  using assms by (cases m) auto

end
