(* ===== verification/FR_Common.thy ===== *)
theory FR_Common
  imports FR_Prelude
begin

text \<open>
  \<open>src/common.h\<close>, \<open>src/common.c\<close>, \<open>src/config.h\<close> and \<open>src/config.c\<close>: the
  address structure that keys every table of the daemon, and the configuration.

  \<open>struct af_addr\<close> is compared with \<open>memcmp\<close> over its whole size, so the model keeps
  its memory layout: one byte \<open>af\<close>, one byte \<open>mask_len\<close>, two bytes of padding (the union
  is aligned to four) and the sixteen bytes of the union \<open>some_in_addr\<close>.
\<close>

section \<open>Addresses\<close>

record af_addr =
  aa_af :: u8
  aa_mask_len :: u8
  aa_pad :: bytes
  aa_in :: bytes

definition wf_af_addr :: "af_addr \<Rightarrow> bool" where
  "wf_af_addr a \<longleftrightarrow> length (aa_pad a) = 2 \<and> length (aa_in a) = 16"

definition af_addr_bytes :: "af_addr \<Rightarrow> bytes" where
  "af_addr_bytes a = aa_af a # aa_mask_len a # aa_pad a @ aa_in a"

definition af_addr_of_bytes :: "bytes \<Rightarrow> af_addr" where
  "af_addr_of_bytes bs = \<lparr>aa_af = bs ! 0, aa_mask_len = bs ! 1,
     aa_pad = take 2 (drop 2 bs), aa_in = drop 4 bs\<rparr>"

definition AF_UNSPEC :: u8 where "AF_UNSPEC = 0"
definition AF_INET :: u8 where "AF_INET = 2"
definition AF_INET6 :: u8 where "AF_INET6 = 10"

lemmas af_defs = AF_UNSPEC_def AF_INET_def AF_INET6_def

lemma af_distinct [simp]: "AF_INET \<noteq> AF_INET6" "AF_INET6 \<noteq> AF_INET"
  "AF_INET \<noteq> 0" "AF_INET6 \<noteq> 0"
  by (simp_all add: af_defs)

text \<open>\<open>sizeof(struct af_addr)\<close> bytes of zeros, as \<open>memset\<close> or \<open>= {0}\<close> leaves them.\<close>

definition zero_af_addr :: af_addr where
  "zero_af_addr = \<lparr>aa_af = 0, aa_mask_len = 0, aa_pad = replicate 2 0, aa_in = replicate 16 0\<rparr>"

text \<open>
  \<open>build_af_addr\<close>: the structure is zeroed, and the address, when there is one, is
  copied from the memory behind \<open>addr\<close>: four bytes for IPv4, sixteen for IPv6. Reading
  past the end of that memory, or any other family, ends the run.
\<close>

definition build_af_addr :: "u8 \<Rightarrow> bytes option \<Rightarrow> u8 \<Rightarrow> af_addr option" where
  "build_af_addr f addr m =
     (let a = zero_af_addr\<lparr>aa_mask_len := m, aa_af := f\<rparr> in
      case addr of
        None \<Rightarrow> Some a
      | Some bs \<Rightarrow>
          (if f = AF_INET then
             do { AN (4 \<le> length bs); Some (a\<lparr>aa_in := take 4 bs @ replicate 12 0\<rparr>) }
           else if f = AF_INET6 then
             do { AN (16 \<le> length bs); Some (a\<lparr>aa_in := take 16 bs\<rparr>) }
           else None))"

text \<open>\<open>build_af_addr2\<close> parses the address with \<open>inet_pton\<close> and aborts when it is not one.\<close>

definition build_af_addr2 :: "(u8 \<Rightarrow> string \<Rightarrow> bytes option) \<Rightarrow> u8 \<Rightarrow> string \<Rightarrow> u8 \<Rightarrow> af_addr option" where
  "build_af_addr2 inet_pton f s m = do { addr \<leftarrow> inet_pton f s; build_af_addr f (Some addr) m }"

lemma wf_zero_af_addr [simp]: "wf_af_addr zero_af_addr"
  by (simp add: wf_af_addr_def zero_af_addr_def)

lemma zero_af_addr_sel [simp]:
  "aa_af zero_af_addr = 0" "aa_mask_len zero_af_addr = 0"
  "aa_pad zero_af_addr = replicate 2 0" "aa_in zero_af_addr = replicate 16 0"
  by (simp_all add: zero_af_addr_def)

lemma wf_af_addr_update [simp]:
  "wf_af_addr (a\<lparr>aa_af := x\<rparr>) = wf_af_addr a" "wf_af_addr (a\<lparr>aa_mask_len := x\<rparr>) = wf_af_addr a"
  "wf_af_addr (a\<lparr>aa_in := bs\<rparr>) \<longleftrightarrow> length (aa_pad a) = 2 \<and> length bs = 16"
  by (simp_all add: wf_af_addr_def)

lemma build_af_addr_wf:
  assumes "build_af_addr f addr m = Some a"
  shows "wf_af_addr a \<and> aa_af a = f \<and> aa_mask_len a = m \<and> aa_pad a = replicate 2 0"
  using assms by (auto simp: build_af_addr_def Let_def split: option.splits if_splits)

lemma build_af_addr2_wf:
  "build_af_addr2 inet_pton f s m = Some a \<Longrightarrow> wf_af_addr a \<and> aa_af a = f \<and> aa_mask_len a = m"
  by (auto simp: build_af_addr2_def bind_eq_Some_conv dest: build_af_addr_wf)

lemma build_af_addr_total:
  "build_af_addr f addr m \<noteq> None \<longleftrightarrow>
     (case addr of None \<Rightarrow> True
      | Some bs \<Rightarrow> f = AF_INET \<and> 4 \<le> length bs \<or> f = AF_INET6 \<and> 16 \<le> length bs)"
  by (auto simp: build_af_addr_def Let_def AN_def split: option.splits)

lemma length_af_addr_bytes: "wf_af_addr a \<Longrightarrow> length (af_addr_bytes a) = 20"
  by (simp add: wf_af_addr_def af_addr_bytes_def)

lemma af_addr_bytes_inject:
  "wf_af_addr a \<Longrightarrow> wf_af_addr b \<Longrightarrow> af_addr_bytes a = af_addr_bytes b \<longleftrightarrow> a = b"
  by (cases a; cases b) (auto simp: wf_af_addr_def af_addr_bytes_def)

lemma af_addr_of_bytes_bytes: "wf_af_addr a \<Longrightarrow> af_addr_of_bytes (af_addr_bytes a) = a"
  by (cases a) (simp add: wf_af_addr_def af_addr_bytes_def af_addr_of_bytes_def)

text \<open>Addresses that \<open>memcmp\<close> cannot tell apart are equal.\<close>

lemma af_addr_memcmp_0:
  "wf_af_addr a \<Longrightarrow> wf_af_addr b \<Longrightarrow> memcmp (af_addr_bytes a) (af_addr_bytes b) = 0 \<longleftrightarrow> a = b"
  by (simp add: memcmp_0_iff length_af_addr_bytes af_addr_bytes_inject)

section \<open>Configuration\<close>

text \<open>
  The prefix lists are private singly linked lists with a tail pointer: the model keeps
  their elements in order.
\<close>

record config_prefix_list =
  pl_name :: string
  pl_entries :: "af_addr list"

record config =
  cfg_table_id :: u32
  cfg_ifidx :: u32
  cfg_scan_interval :: u32
  cfg_timeout :: u32
  cfg_ifname :: "string option"
  cfg_prog_name :: string
  cfg_prefix_lists :: "config_prefix_list list"
  cfg_dry_run :: u8
  cfg_flower_flags :: u32
  cfg_verbosity :: u8
  cfg_exit_after_first_sync :: bool

definition TCA_CLS_FLAGS_SKIP_HW :: u32 where "TCA_CLS_FLAGS_SKIP_HW = 1"
definition TCA_CLS_FLAGS_SKIP_SW :: u32 where "TCA_CLS_FLAGS_SKIP_SW = 2"
definition TCA_CLS_FLAGS_IN_HW :: u32 where "TCA_CLS_FLAGS_IN_HW = 4"

lemmas cls_flags_defs = TCA_CLS_FLAGS_SKIP_HW_def TCA_CLS_FLAGS_SKIP_SW_def TCA_CLS_FLAGS_IN_HW_def

definition config_init :: "string \<Rightarrow> config" where
  "config_init prog = \<lparr>cfg_table_id = 0, cfg_ifidx = 0, cfg_scan_interval = 10,
     cfg_timeout = 0, cfg_ifname = None, cfg_prog_name = prog, cfg_prefix_lists = [],
     cfg_dry_run = 0, cfg_flower_flags = TCA_CLS_FLAGS_SKIP_SW OR TCA_CLS_FLAGS_IN_HW,
     cfg_verbosity = 0, cfg_exit_after_first_sync = False\<rparr>"

end
