(* ===== verification/TC_Rule.thy ===== *)
theory TC_Rule
  imports FR_Common
begin

text \<open>
  \<open>src/tc_rule.h\<close> and \<open>src/tc_rule.c\<close>: the daemon's own view of a TC flower rule, its
  type, the traits that characterise each type, and the detection of a type from traits.
\<close>

section \<open>Rule types and traits\<close>

datatype tc_rule_types =
    TC_RULE_TYPE_UNSPEC
  | TC_RULE_TYPE_ALIEN
  | TC_RULE_TYPE_FORWARD
  | TC_RULE_TYPE_ROUTE_TRAP
  | TC_RULE_TYPE_ROUTE_GOTO
  | TC_RULE_TYPE_ROUTE_DFT_GOTO
  | TC_RULE_TYPE_TTL_CHECK

text \<open>The enumerators below \<open>TC_RULE_TYPE_MAX\<close>, in their order; their numbers are positions.\<close>

definition tc_rule_types_all :: "tc_rule_types list" where
  "tc_rule_types_all = [TC_RULE_TYPE_UNSPEC, TC_RULE_TYPE_ALIEN, TC_RULE_TYPE_FORWARD,
     TC_RULE_TYPE_ROUTE_TRAP, TC_RULE_TYPE_ROUTE_GOTO, TC_RULE_TYPE_ROUTE_DFT_GOTO,
     TC_RULE_TYPE_TTL_CHECK]"

fun tc_rule_type_no :: "tc_rule_types \<Rightarrow> u32" where
  "tc_rule_type_no TC_RULE_TYPE_UNSPEC = 0"
| "tc_rule_type_no TC_RULE_TYPE_ALIEN = 1"
| "tc_rule_type_no TC_RULE_TYPE_FORWARD = 2"
| "tc_rule_type_no TC_RULE_TYPE_ROUTE_TRAP = 3"
| "tc_rule_type_no TC_RULE_TYPE_ROUTE_GOTO = 4"
| "tc_rule_type_no TC_RULE_TYPE_ROUTE_DFT_GOTO = 5"
| "tc_rule_type_no TC_RULE_TYPE_TTL_CHECK = 6"

definition TC_RULE_HAVE_AF :: u32 where "TC_RULE_HAVE_AF = 1"
definition TC_RULE_HAVE_IP :: u32 where "TC_RULE_HAVE_IP = 2"
definition TC_RULE_HAVE_GOTO :: u32 where "TC_RULE_HAVE_GOTO = 4"
definition TC_RULE_HAVE_TRAP :: u32 where "TC_RULE_HAVE_TRAP = 8"
definition TC_RULE_HAVE_TTL_CHECK :: u32 where "TC_RULE_HAVE_TTL_CHECK = 16"
definition TC_RULE_HAVE_TTL_DEC :: u32 where "TC_RULE_HAVE_TTL_DEC = 32"
definition TC_RULE_HAVE_LLADDR :: u32 where "TC_RULE_HAVE_LLADDR = 64"
definition TC_RULE_HAVE_VLAN_MOD :: u32 where "TC_RULE_HAVE_VLAN_MOD = 128"
definition TC_RULE_HAVE_AF_IP :: u32 where
  "TC_RULE_HAVE_AF_IP = TC_RULE_HAVE_AF OR TC_RULE_HAVE_IP"

lemmas trait_defs = TC_RULE_HAVE_AF_def TC_RULE_HAVE_IP_def TC_RULE_HAVE_GOTO_def
  TC_RULE_HAVE_TRAP_def TC_RULE_HAVE_TTL_CHECK_def TC_RULE_HAVE_TTL_DEC_def
  TC_RULE_HAVE_LLADDR_def TC_RULE_HAVE_VLAN_MOD_def TC_RULE_HAVE_AF_IP_def

text \<open>The table \<open>type_traits\<close>; the types it does not name have no traits.\<close>

fun type_traits :: "tc_rule_types \<Rightarrow> u32" where
  "type_traits TC_RULE_TYPE_FORWARD =
     TC_RULE_HAVE_AF OR TC_RULE_HAVE_LLADDR OR TC_RULE_HAVE_TTL_DEC OR TC_RULE_HAVE_VLAN_MOD"
| "type_traits TC_RULE_TYPE_TTL_CHECK =
     TC_RULE_HAVE_AF OR TC_RULE_HAVE_TTL_CHECK OR TC_RULE_HAVE_TRAP"
| "type_traits TC_RULE_TYPE_ROUTE_GOTO = TC_RULE_HAVE_AF_IP OR TC_RULE_HAVE_GOTO"
| "type_traits TC_RULE_TYPE_ROUTE_DFT_GOTO = TC_RULE_HAVE_AF OR TC_RULE_HAVE_GOTO"
| "type_traits TC_RULE_TYPE_ROUTE_TRAP = TC_RULE_HAVE_AF_IP OR TC_RULE_HAVE_TRAP"
| "type_traits _ = 0"

section \<open>The rule structure\<close>

text \<open>
  The union \<open>lladdr\<close> is its twelve bytes: six of \<open>dst\<close>, then six of \<open>src\<close>; the
  member \<open>raw[i]\<close> reads the little-endian word at offset \<open>4 * i\<close>.
\<close>

record tc_rule =
  tcr_type :: tc_rule_types
  tcr_vlan_id :: u16
  tcr_flower_flags :: u32
  tcr_goto_target :: u32
  tcr_traits :: u32
  tcr_af_addr :: af_addr
  tcr_ttl :: u8
  tcr_lladdr :: bytes

definition wf_tc_rule :: "tc_rule \<Rightarrow> bool" where
  "wf_tc_rule r \<longleftrightarrow> wf_af_addr (tcr_af_addr r) \<and> length (tcr_lladdr r) = 12"

definition lladdr_raw :: "bytes \<Rightarrow> nat \<Rightarrow> u32" where
  "lladdr_raw l i = of_be32 (l ! (4 * i + 3)) (l ! (4 * i + 2)) (l ! (4 * i + 1)) (l ! (4 * i))"

definition lladdr_set_raw :: "bytes \<Rightarrow> nat \<Rightarrow> u32 \<Rightarrow> bytes" where
  "lladdr_set_raw l i w = take (4 * i) l @ le32 w @ drop (4 * i + 4) l"

definition zero_tc_rule :: tc_rule where
  "zero_tc_rule = \<lparr>tcr_type = TC_RULE_TYPE_UNSPEC, tcr_vlan_id = 0, tcr_flower_flags = 0,
     tcr_goto_target = 0, tcr_traits = 0, tcr_af_addr = zero_af_addr, tcr_ttl = 0,
     tcr_lladdr = replicate 12 0\<rparr>"

text \<open>
  The memory of a rule, with the padding after \<open>vlan_id\<close> and \<open>ttl\<close> (every rule is
  built in zeroed memory). \<open>memcmp\<close> over \<open>sizeof(struct tc_rule)\<close> compares these bytes.
\<close>

definition tc_rule_bytes :: "tc_rule \<Rightarrow> bytes" where
  "tc_rule_bytes r = le32 (tc_rule_type_no (tcr_type r)) @ le16 (tcr_vlan_id r) @ [0, 0]
     @ le32 (tcr_flower_flags r) @ le32 (tcr_goto_target r) @ le32 (tcr_traits r)
     @ af_addr_bytes (tcr_af_addr r) @ [tcr_ttl r] @ [0, 0, 0] @ tcr_lladdr r"

definition tc_rule_cmp :: "tc_rule \<Rightarrow> tc_rule \<Rightarrow> int" where
  "tc_rule_cmp a b = memcmp (tc_rule_bytes a) (tc_rule_bytes b)"

section \<open>Operations\<close>

definition tc_rule_init :: "config \<Rightarrow> tc_rule \<Rightarrow> tc_rule" where
  "tc_rule_init cfg r = r\<lparr>tcr_flower_flags := cfg_flower_flags cfg\<rparr>"

text \<open>An alien rule stays alien; any other rule may be given a type once.\<close>

definition tc_rule_set_type :: "tc_rule \<Rightarrow> tc_rule_types \<Rightarrow> tc_rule option" where
  "tc_rule_set_type r t =
     (if tcr_type r = TC_RULE_TYPE_ALIEN then Some r
      else do {
        AN (tcr_type r = TC_RULE_TYPE_UNSPEC);
        Some (r\<lparr>tcr_type := t\<rparr>)
      })"

definition tc_rule_set_type_and_traits :: "tc_rule \<Rightarrow> tc_rule_types \<Rightarrow> tc_rule option" where
  "tc_rule_set_type_and_traits r t = do {
     r \<leftarrow> tc_rule_set_type r t;
     let r = (if tcr_traits r = 0 then r\<lparr>tcr_traits := type_traits t\<rparr> else r);
     AN (tcr_traits r \<noteq> 0);
     Some r
   }"

text \<open>
  \<open>tc_rule_detect\<close> searches the table in the order of the types. A default route's goto
  rule carries no address; it is reported, and its traits rewritten, as a route's.
\<close>

fun tc_rule_detect_from :: "tc_rule_types list \<Rightarrow> tc_rule \<Rightarrow> tc_rule_types \<times> tc_rule" where
  "tc_rule_detect_from [] r = (TC_RULE_TYPE_ALIEN, r)"
| "tc_rule_detect_from (t # ts) r =
     (if type_traits t > 0 \<and> type_traits t = tcr_traits r then
        (if t = TC_RULE_TYPE_ROUTE_DFT_GOTO then
           (TC_RULE_TYPE_ROUTE_GOTO, r\<lparr>tcr_traits := type_traits TC_RULE_TYPE_ROUTE_GOTO\<rparr>)
         else (t, r))
      else tc_rule_detect_from ts r)"

definition tc_rule_detect :: "tc_rule \<Rightarrow> tc_rule_types \<times> tc_rule" where
  "tc_rule_detect r = tc_rule_detect_from tc_rule_types_all r"

definition tc_rule_validate :: "tc_rule \<Rightarrow> bool \<times> tc_rule" where
  "tc_rule_validate r =
     (let (detected, r) = tc_rule_detect r in
      if tcr_type r \<noteq> detected then (False, r\<lparr>tcr_type := TC_RULE_TYPE_ALIEN\<rparr>) else (True, r))"

fun tc_rule_state_str :: "tc_rule_types \<Rightarrow> string" where
  "tc_rule_state_str TC_RULE_TYPE_UNSPEC = ''unspec''"
| "tc_rule_state_str TC_RULE_TYPE_ALIEN = ''alien''"
| "tc_rule_state_str TC_RULE_TYPE_FORWARD = ''forward''"
| "tc_rule_state_str TC_RULE_TYPE_ROUTE_TRAP = ''route_trap''"
| "tc_rule_state_str TC_RULE_TYPE_ROUTE_GOTO = ''route_goto''"
| "tc_rule_state_str TC_RULE_TYPE_ROUTE_DFT_GOTO = ''route_goto''"
| "tc_rule_state_str TC_RULE_TYPE_TTL_CHECK = ''ttl_check''"

definition tc_rule_mark_alien :: "tc_rule \<Rightarrow> tc_rule option" where
  "tc_rule_mark_alien r = tc_rule_set_type r TC_RULE_TYPE_ALIEN"

text \<open>
  \<open>tc_rule_set_dst\<close> parses an address with the C library's \<open>inet_pton\<close>, a parameter
  here: the bytes it stores, or \<open>None\<close> when the text is not an address of the family.
\<close>

definition tc_rule_set_dst ::
  "(u8 \<Rightarrow> string \<Rightarrow> bytes option) \<Rightarrow> tc_rule \<Rightarrow> string \<Rightarrow> u8 \<Rightarrow> tc_rule option" where
  "tc_rule_set_dst inet_pton r ipstr m =
     (let f = (if CHR '':'' \<in> set ipstr then AF_INET6 else AF_INET) in
      case inet_pton f ipstr of
        None \<Rightarrow> None
      | Some bs \<Rightarrow>
          Some (r\<lparr>tcr_af_addr := (tcr_af_addr r)\<lparr>
            aa_in := bs @ drop (length bs) (aa_in (tcr_af_addr r)),
            aa_af := f, aa_mask_len := m\<rparr>\<rparr>))"

section \<open>Correctness\<close>

text \<open>The traits of each type as numbers: the table has no two equal entries.\<close>

lemma type_traits_values:
  "type_traits TC_RULE_TYPE_UNSPEC = 0" "type_traits TC_RULE_TYPE_ALIEN = 0"
  "type_traits TC_RULE_TYPE_FORWARD = 225" "type_traits TC_RULE_TYPE_ROUTE_TRAP = 11"
  "type_traits TC_RULE_TYPE_ROUTE_GOTO = 7" "type_traits TC_RULE_TYPE_ROUTE_DFT_GOTO = 5"
  "type_traits TC_RULE_TYPE_TTL_CHECK = 25"
  by (simp_all add: trait_defs)

declare type_traits.simps [simp del]
declare type_traits_values [simp]

lemma type_traits_inject:
  "type_traits t = type_traits u \<Longrightarrow> type_traits t \<noteq> 0 \<Longrightarrow> t = u"
  by (cases t; cases u) simp_all

lemma tc_rule_detect_unfold:
  "tc_rule_detect r =
     (if tcr_traits r = 225 then (TC_RULE_TYPE_FORWARD, r)
      else if tcr_traits r = 11 then (TC_RULE_TYPE_ROUTE_TRAP, r)
      else if tcr_traits r = 7 then (TC_RULE_TYPE_ROUTE_GOTO, r)
      else if tcr_traits r = 5 then (TC_RULE_TYPE_ROUTE_GOTO, r\<lparr>tcr_traits := 7\<rparr>)
      else if tcr_traits r = 25 then (TC_RULE_TYPE_TTL_CHECK, r)
      else (TC_RULE_TYPE_ALIEN, r))"
  by (simp add: tc_rule_detect_def tc_rule_types_all_def)

lemma tc_rule_types_all: "t \<in> set tc_rule_types_all"
  by (cases t) (simp_all add: tc_rule_types_all_def)

lemma length_tc_rule_bytes: "wf_tc_rule r \<Longrightarrow> length (tc_rule_bytes r) = 56"
  by (simp add: tc_rule_bytes_def wf_tc_rule_def length_af_addr_bytes)

lemma tc_rule_type_no_inject: "tc_rule_type_no t = tc_rule_type_no u \<longleftrightarrow> t = u"
  by (cases t; cases u) simp_all

text \<open>The types are ordered by their numbers, and the table lists them in this order.\<close>

instantiation tc_rule_types :: linorder
begin

definition less_eq_tc_rule_types :: "tc_rule_types \<Rightarrow> tc_rule_types \<Rightarrow> bool" where
  "less_eq_tc_rule_types t u \<longleftrightarrow> tc_rule_type_no t \<le> tc_rule_type_no u"

definition less_tc_rule_types :: "tc_rule_types \<Rightarrow> tc_rule_types \<Rightarrow> bool" where
  "less_tc_rule_types t u \<longleftrightarrow> tc_rule_type_no t < tc_rule_type_no u"

instance
  by standard (auto simp: less_eq_tc_rule_types_def less_tc_rule_types_def less_le_not_le linear tc_rule_type_no_inject)

end

lemma tc_rule_types_sorted: "sorted_wrt (<) tc_rule_types_all" "length tc_rule_types_all = 7"
  by (simp_all add: tc_rule_types_all_def less_tc_rule_types_def)

lemma tc_rule_bytes_inject:
  assumes "wf_tc_rule r" "wf_tc_rule q"
  shows "tc_rule_bytes r = tc_rule_bytes q \<longleftrightarrow> r = q"
proof
  assume "tc_rule_bytes r = tc_rule_bytes q"
  moreover have "length (af_addr_bytes (tcr_af_addr r)) = length (af_addr_bytes (tcr_af_addr q))"
    using assms by (simp add: wf_tc_rule_def length_af_addr_bytes)
  ultimately show "r = q"
    using assms
    by (cases r; cases q)
      (simp add: tc_rule_bytes_def tc_rule_type_no_inject af_addr_bytes_inject wf_tc_rule_def)
qed simp

lemma wf_zero_tc_rule [simp]: "wf_tc_rule zero_tc_rule"
  by (simp add: wf_tc_rule_def zero_tc_rule_def)

lemma zero_tc_rule_sel [simp]:
  "tcr_type zero_tc_rule = TC_RULE_TYPE_UNSPEC" "tcr_vlan_id zero_tc_rule = 0"
  "tcr_flower_flags zero_tc_rule = 0" "tcr_goto_target zero_tc_rule = 0"
  "tcr_traits zero_tc_rule = 0" "tcr_af_addr zero_tc_rule = zero_af_addr"
  "tcr_ttl zero_tc_rule = 0" "tcr_lladdr zero_tc_rule = replicate 12 0"
  by (simp_all add: zero_tc_rule_def)

lemma wf_tc_rule_update [simp]:
  "wf_tc_rule (r\<lparr>tcr_type := t\<rparr>) = wf_tc_rule r" "wf_tc_rule (r\<lparr>tcr_vlan_id := v\<rparr>) = wf_tc_rule r"
  "wf_tc_rule (r\<lparr>tcr_flower_flags := f\<rparr>) = wf_tc_rule r"
  "wf_tc_rule (r\<lparr>tcr_goto_target := f\<rparr>) = wf_tc_rule r"
  "wf_tc_rule (r\<lparr>tcr_traits := f\<rparr>) = wf_tc_rule r" "wf_tc_rule (r\<lparr>tcr_ttl := b\<rparr>) = wf_tc_rule r"
  "wf_tc_rule (r\<lparr>tcr_lladdr := l\<rparr>) \<longleftrightarrow> wf_af_addr (tcr_af_addr r) \<and> length l = 12"
  "wf_tc_rule (r\<lparr>tcr_af_addr := a\<rparr>) \<longleftrightarrow> wf_af_addr a \<and> length (tcr_lladdr r) = 12"
  by (simp_all add: wf_tc_rule_def)

lemma length_lladdr_set_raw: "length l = 12 \<Longrightarrow> i < 3 \<Longrightarrow> length (lladdr_set_raw l i w) = 12"
  by (simp add: lladdr_set_raw_def)

lemma lladdr_raw_set_raw: "length l = 12 \<Longrightarrow> i < 3 \<Longrightarrow> lladdr_raw (lladdr_set_raw l i w) i = w"
  by (simp add: lladdr_raw_def lladdr_set_raw_def le32_def be32_def nth_append of_be32_be32 min_def)

text \<open>Marking a rule alien succeeds exactly on rules that have no other type yet.\<close>

lemma tc_rule_mark_alien_eq:
  "tc_rule_mark_alien r =
     (if tcr_type r \<in> {TC_RULE_TYPE_UNSPEC, TC_RULE_TYPE_ALIEN}
      then Some (r\<lparr>tcr_type := TC_RULE_TYPE_ALIEN\<rparr>) else None)"
  by (cases r) (auto simp: tc_rule_mark_alien_def tc_rule_set_type_def AN_def)

lemma ex_tc_rule_types:
  "(\<exists>t. P t) \<longleftrightarrow> P TC_RULE_TYPE_UNSPEC \<or> P TC_RULE_TYPE_ALIEN \<or> P TC_RULE_TYPE_FORWARD
     \<or> P TC_RULE_TYPE_ROUTE_TRAP \<or> P TC_RULE_TYPE_ROUTE_GOTO
     \<or> P TC_RULE_TYPE_ROUTE_DFT_GOTO \<or> P TC_RULE_TYPE_TTL_CHECK"
  by (metis tc_rule_types.exhaust)

text \<open>C29. \<open>tc_rule_detect\<close> reports a type exactly when the rule's traits are that type's entry of
  the table, reports alien exactly when they are no type's, counts the traits of a default
  route's goto as a route's goto, and changes nothing of the rule but those traits.\<close>

theorem tc_rule_detect_correct:
  "(fst (tc_rule_detect r) = t \<longleftrightarrow>
      (case t of
         TC_RULE_TYPE_UNSPEC \<Rightarrow> False
       | TC_RULE_TYPE_ROUTE_DFT_GOTO \<Rightarrow> False
       | TC_RULE_TYPE_ROUTE_GOTO \<Rightarrow>
           tcr_traits r \<in> {type_traits TC_RULE_TYPE_ROUTE_GOTO,
             type_traits TC_RULE_TYPE_ROUTE_DFT_GOTO}
       | TC_RULE_TYPE_ALIEN \<Rightarrow>
           (\<nexists>u. type_traits u \<noteq> 0 \<and> type_traits u = tcr_traits r)
       | _ \<Rightarrow> tcr_traits r = type_traits t))
   \<and> snd (tc_rule_detect r) =
      (if tcr_traits r = type_traits TC_RULE_TYPE_ROUTE_DFT_GOTO
       then r\<lparr>tcr_traits := type_traits TC_RULE_TYPE_ROUTE_GOTO\<rparr> else r)"
  by (cases t) (auto simp: tc_rule_detect_unfold ex_tc_rule_types)

end
