(* ===== verification/NL_Attr.thy ===== *)
theory NL_Attr
  imports FR_Common
begin

text \<open>
  Netlink messages as the daemon sees them: \<open>src/nl_common.c\<close>, \<open>src/nl_decode_common.h\<close>
  and \<open>src/nl_decode_common.c\<close>, over libmnl, which is not part of the repository.

  libmnl is a parameter. On the receiving side it is a record of accessors over an abstract
  attribute type \<open>'a\<close>; on the sending side a message under construction is the sequence of
  libmnl calls that the code makes. The relation \<open>presents\<close> states libmnl's documented
  behaviour between the two: the attributes of a message, read in order, are those that
  the calls put there.
\<close>

section \<open>Kernel structures carried as attribute payloads\<close>

text \<open>
  The fields the daemon reads or writes of the structures of \<open>linux/tc_act/*.h\<close>; the
  daemon zeroes all other fields before sending and never reads them.
\<close>

record tc_gact =
  gact_action :: u32

record tc_vlan =
  vlan_v_action :: u32
  vlan_action :: u32

record tc_pedit_key =
  key_mask :: u32
  key_val :: u32
  key_off :: u32

record tc_pedit_sel =
  sel_action :: u32
  sel_nkeys :: u8
  sel_keys :: "tc_pedit_key list"

record tc_mirred =
  mirred_eaction :: u32
  mirred_action :: u32
  mirred_ifindex :: u32

record tc_csum =
  csum_update_flags :: u32
  csum_action :: u32

record tcmsg =
  tcm_family :: u8
  tcm_ifindex :: u32
  tcm_handle :: u32
  tcm_parent :: u32
  tcm_info :: u32

section \<open>libmnl, receiving side\<close>

datatype mnl_attr_data_type =
  MNL_TYPE_U8 | MNL_TYPE_U16 | MNL_TYPE_U32 | MNL_TYPE_NUL_STRING | MNL_TYPE_NESTED
  | MNL_TYPE_BINARY

datatype mnl_cb = MNL_CB_ERROR | MNL_CB_STOP | MNL_CB_OK

text \<open>
  The accessors: an attribute's type, its validation against a data type, its payload as
  bytes, as an integer, as a string, as a nest of attributes, or as one of the kernel
  structures. \<open>None\<close> is a read past the end of the payload.
\<close>

record 'a libmnl =
  mnl_type :: "'a \<Rightarrow> nat"
  mnl_validate :: "'a \<Rightarrow> mnl_attr_data_type \<Rightarrow> bool"
  mnl_bytes :: "'a \<Rightarrow> bytes"
  mnl_u8 :: "'a \<Rightarrow> u8 option"
  mnl_u16 :: "'a \<Rightarrow> u16 option"
  mnl_u32 :: "'a \<Rightarrow> u32 option"
  mnl_str :: "'a \<Rightarrow> string"
  mnl_nested :: "'a \<Rightarrow> 'a list"
  mnl_gact :: "'a \<Rightarrow> tc_gact option"
  mnl_vlan :: "'a \<Rightarrow> tc_vlan option"
  mnl_pedit :: "'a \<Rightarrow> tc_pedit_sel option"
  mnl_mirred :: "'a \<Rightarrow> tc_mirred option"

text \<open>
  \<open>mnl_attr_parse\<close> and \<open>mnl_attr_parse_nested\<close> call back for each attribute in order and
  stop at the first callback result that is not \<open>MNL_CB_OK\<close>.
\<close>

fun mnl_attr_parse :: "('a \<Rightarrow> 's \<Rightarrow> (mnl_cb \<times> 's) option) \<Rightarrow> 'a list \<Rightarrow> 's \<Rightarrow> (mnl_cb \<times> 's) option" where
  "mnl_attr_parse cb [] s = Some (MNL_CB_OK, s)"
| "mnl_attr_parse cb (a # as) s = do {
     (ret, s) \<leftarrow> cb a s;
     if ret = MNL_CB_OK then mnl_attr_parse cb as s else Some (ret, s)
   }"

text \<open>
  \<open>decode_nlattr\<close>: an attribute above the table's maximum, or without an entry in it, is
  skipped; one that fails validation is an error; any other is stored in the table \<open>tb\<close>.
\<close>

type_synonym type_map = "(nat \<times> mnl_attr_data_type) list"

definition decode_nlattr ::
  "'a libmnl \<Rightarrow> nat \<Rightarrow> type_map \<Rightarrow> 'a \<Rightarrow> (nat \<rightharpoonup> 'a) \<Rightarrow> (mnl_cb \<times> (nat \<rightharpoonup> 'a)) option" where
  "decode_nlattr L mx typemap attr tb =
     (if mnl_type L attr > mx then Some (MNL_CB_OK, tb)
      else case map_of typemap (mnl_type L attr) of
        None \<Rightarrow> Some (MNL_CB_OK, tb)
      | Some datatyp \<Rightarrow>
          if mnl_validate L attr datatyp then Some (MNL_CB_OK, tb(mnl_type L attr \<mapsto> attr))
          else Some (MNL_CB_ERROR, tb))"

definition parse_table ::
  "'a libmnl \<Rightarrow> nat \<Rightarrow> type_map \<Rightarrow> 'a list \<Rightarrow> (mnl_cb \<times> (nat \<rightharpoonup> 'a)) option" where
  "parse_table L mx typemap as = mnl_attr_parse (decode_nlattr L mx typemap) as Map.empty"

lemma parse_table_total: "parse_table L mx tm as \<noteq> None"
proof -
  have "mnl_attr_parse (decode_nlattr L mx tm) as tb \<noteq> None" for tb
    by (induction as arbitrary: tb) (auto simp: decode_nlattr_def split: option.splits)
  then show ?thesis by (simp add: parse_table_def)
qed

section \<open>libmnl, sending side\<close>

text \<open>One constructor per libmnl call that adds to a message.\<close>

datatype mnl_put =
    Put_u8 nat u8
  | Put_u16 nat u16
  | Put_u32 nat u32
  | Put_strz nat string
  | Put nat bytes
  | Put_gact nat tc_gact
  | Put_vlan nat tc_vlan
  | Put_pedit nat tc_pedit_sel
  | Put_mirred nat tc_mirred
  | Put_csum nat tc_csum
  | Nest_start nat
  | Nest_end

record nlmsg =
  nlmsg_type :: u16
  nlmsg_flags :: u16
  nlmsg_tcm :: tcmsg
  nlmsg_puts :: "mnl_put list"

text \<open>The attribute that one \<open>put\<close> leaves in the message.\<close>

fun put_type :: "mnl_put \<Rightarrow> nat" where
  "put_type (Put_u8 t _) = t" | "put_type (Put_u16 t _) = t" | "put_type (Put_u32 t _) = t"
| "put_type (Put_strz t _) = t" | "put_type (Put t _) = t" | "put_type (Put_gact t _) = t"
| "put_type (Put_vlan t _) = t" | "put_type (Put_pedit t _) = t"
| "put_type (Put_mirred t _) = t" | "put_type (Put_csum t _) = t"
| "put_type (Nest_start t) = t" | "put_type Nest_end = 0"

fun put_payload :: "'a libmnl \<Rightarrow> mnl_put \<Rightarrow> 'a \<Rightarrow> bool" where
  "put_payload L (Put_u8 t v) a \<longleftrightarrow>
     mnl_u8 L a = Some v \<and> mnl_bytes L a = [v] \<and> mnl_validate L a MNL_TYPE_U8"
| "put_payload L (Put_u16 t v) a \<longleftrightarrow>
     mnl_u16 L a = Some v \<and> mnl_bytes L a = le16 v \<and> mnl_validate L a MNL_TYPE_U16"
| "put_payload L (Put_u32 t v) a \<longleftrightarrow>
     mnl_u32 L a = Some v \<and> mnl_bytes L a = le32 v \<and> mnl_validate L a MNL_TYPE_U32"
| "put_payload L (Put_strz t v) a \<longleftrightarrow> mnl_str L a = v \<and> mnl_validate L a MNL_TYPE_NUL_STRING"
| "put_payload L (Put t bs) a \<longleftrightarrow> mnl_bytes L a = bs"
| "put_payload L (Put_gact t p) a \<longleftrightarrow> mnl_gact L a = Some p"
| "put_payload L (Put_vlan t p) a \<longleftrightarrow> mnl_vlan L a = Some p"
| "put_payload L (Put_pedit t p) a \<longleftrightarrow> mnl_pedit L a = Some p"
| "put_payload L (Put_mirred t p) a \<longleftrightarrow> mnl_mirred L a = Some p"
| "put_payload L (Put_csum t p) a \<longleftrightarrow> True"
| "put_payload L (Nest_start t) a \<longleftrightarrow> False"
| "put_payload L Nest_end a \<longleftrightarrow> False"

text \<open>
  The attributes read back from a message are those put, in order, a nest around those
  put between its start and its end; every attribute validates as binary data.
\<close>

inductive presents :: "'a libmnl \<Rightarrow> mnl_put list \<Rightarrow> 'a list \<Rightarrow> bool" for L where
  presents_nil: "presents L [] []"
| presents_put: "put_payload L p a \<Longrightarrow> mnl_type L a = put_type p \<Longrightarrow>
    mnl_validate L a MNL_TYPE_BINARY \<Longrightarrow> presents L ps as \<Longrightarrow> presents L (p # ps) (a # as)"
| presents_nest: "mnl_type L a = t \<Longrightarrow> mnl_validate L a MNL_TYPE_NESTED \<Longrightarrow>
    mnl_validate L a MNL_TYPE_BINARY \<Longrightarrow> presents L inner (mnl_nested L a) \<Longrightarrow>
    presents L ps as \<Longrightarrow> presents L (Nest_start t # inner @ Nest_end # ps) (a # as)"

section \<open>Sequence numbers\<close>

text \<open>\<open>common_netlink_set_seq\<close> numbers the requests of a connection; the counter wraps.\<close>

record conn =
  conn_portid :: u32
  conn_seq :: u32
  conn_name :: "string option"

definition common_netlink_set_seq :: "conn \<Rightarrow> (u32 \<times> conn) option" where
  "common_netlink_set_seq c = do {
     AN (conn_seq c > 0);
     let seq = conn_seq c + 1;
     Some (seq, c\<lparr>conn_seq := seq\<rparr>)
   }"

end
