(* ===== verification/TC_Encode.thy ===== *)
theory TC_Encode
  imports TC_Rule NL_Attr
begin

text \<open>
  \<open>src/tc_encode.h\<close> and \<open>src/tc_encode.c\<close>: the netlink requests that add a flower rule,
  drop a rule and drop a chain, as the sequence of libmnl calls that build them. The
  numbers are those of the kernel's user-space headers.
\<close>

section \<open>Constants\<close>

abbreviation (input) "TCA_KIND \<equiv> 1 :: nat"
abbreviation (input) "TCA_OPTIONS \<equiv> 2 :: nat"
abbreviation (input) "TCA_STATS \<equiv> 3 :: nat"
abbreviation (input) "TCA_XSTATS \<equiv> 4 :: nat"
abbreviation (input) "TCA_STATS2 \<equiv> 7 :: nat"
abbreviation (input) "TCA_CHAIN \<equiv> 11 :: nat"
abbreviation (input) "TCA_HW_OFFLOAD \<equiv> 12 :: nat"
abbreviation (input) "TCA_MAX \<equiv> 16 :: nat"

abbreviation (input) "TCA_FLOWER_ACT \<equiv> 3 :: nat"
abbreviation (input) "TCA_FLOWER_KEY_ETH_TYPE \<equiv> 8 :: nat"
abbreviation (input) "TCA_FLOWER_KEY_IPV4_SRC \<equiv> 10 :: nat"
abbreviation (input) "TCA_FLOWER_KEY_IPV4_SRC_MASK \<equiv> 11 :: nat"
abbreviation (input) "TCA_FLOWER_KEY_IPV4_DST \<equiv> 12 :: nat"
abbreviation (input) "TCA_FLOWER_KEY_IPV4_DST_MASK \<equiv> 13 :: nat"
abbreviation (input) "TCA_FLOWER_KEY_IPV6_DST \<equiv> 16 :: nat"
abbreviation (input) "TCA_FLOWER_KEY_IPV6_DST_MASK \<equiv> 17 :: nat"
abbreviation (input) "TCA_FLOWER_FLAGS \<equiv> 22 :: nat"
abbreviation (input) "TCA_FLOWER_KEY_VLAN_ETH_TYPE \<equiv> 25 :: nat"
abbreviation (input) "TCA_FLOWER_KEY_IP_TTL \<equiv> 75 :: nat"
abbreviation (input) "TCA_FLOWER_KEY_IP_TTL_MASK \<equiv> 76 :: nat"
abbreviation (input) "TCA_FLOWER_IN_HW_COUNT \<equiv> 86 :: nat"
abbreviation (input) "TCA_FLOWER_MAX \<equiv> 111 :: nat"

abbreviation (input) "TCA_ACT_KIND \<equiv> 1 :: nat"
abbreviation (input) "TCA_ACT_OPTIONS \<equiv> 2 :: nat"
abbreviation (input) "TCA_ACT_INDEX \<equiv> 3 :: nat"
abbreviation (input) "TCA_ACT_STATS \<equiv> 4 :: nat"
abbreviation (input) "TCA_ACT_USED_HW_STATS \<equiv> 9 :: nat"
abbreviation (input) "TCA_ACT_IN_HW_COUNT \<equiv> 10 :: nat"
abbreviation (input) "TCA_ACT_MAX \<equiv> 10 :: nat"

abbreviation (input) "TCA_GACT_TM \<equiv> 1 :: nat"
abbreviation (input) "TCA_GACT_PARMS \<equiv> 2 :: nat"
abbreviation (input) "TCA_GACT_PROB \<equiv> 3 :: nat"
abbreviation (input) "TCA_GACT_MAX \<equiv> 4 :: nat"
abbreviation (input) "TCA_VLAN_TM \<equiv> 1 :: nat"
abbreviation (input) "TCA_VLAN_PARMS \<equiv> 2 :: nat"
abbreviation (input) "TCA_VLAN_PUSH_VLAN_ID \<equiv> 3 :: nat"
abbreviation (input) "TCA_VLAN_PUSH_VLAN_PROTOCOL \<equiv> 4 :: nat"
abbreviation (input) "TCA_VLAN_MAX \<equiv> 8 :: nat"
abbreviation (input) "TCA_PEDIT_TM \<equiv> 1 :: nat"
abbreviation (input) "TCA_PEDIT_PARMS_EX \<equiv> 4 :: nat"
abbreviation (input) "TCA_PEDIT_KEYS_EX \<equiv> 5 :: nat"
abbreviation (input) "TCA_PEDIT_KEY_EX \<equiv> 6 :: nat"
abbreviation (input) "TCA_PEDIT_MAX \<equiv> 6 :: nat"
abbreviation (input) "TCA_PEDIT_KEY_EX_HTYPE \<equiv> 1 :: nat"
abbreviation (input) "TCA_PEDIT_KEY_EX_CMD \<equiv> 2 :: nat"
abbreviation (input) "TCA_PEDIT_KEY_EX_MAX \<equiv> 2 :: nat"
abbreviation (input) "TCA_CSUM_PARMS \<equiv> 1 :: nat"
abbreviation (input) "TCA_MIRRED_TM \<equiv> 1 :: nat"
abbreviation (input) "TCA_MIRRED_PARMS \<equiv> 2 :: nat"
abbreviation (input) "TCA_MIRRED_MAX \<equiv> 4 :: nat"

definition TC_ACT_PIPE :: u32 where "TC_ACT_PIPE = 3"
definition TC_ACT_STOLEN :: u32 where "TC_ACT_STOLEN = 4"
definition TC_ACT_TRAP :: u32 where "TC_ACT_TRAP = 8"
definition TC_ACT_JUMP :: u32 where "TC_ACT_JUMP = 0x10000000"
definition TC_ACT_GOTO_CHAIN :: u32 where "TC_ACT_GOTO_CHAIN = 0x20000000"
definition TC_ACT_EXT_VAL_MASK :: u32 where "TC_ACT_EXT_VAL_MASK = 0x0FFFFFFF"
definition TCA_VLAN_ACT_MODIFY :: u32 where "TCA_VLAN_ACT_MODIFY = 3"
definition TCA_EGRESS_REDIR :: u32 where "TCA_EGRESS_REDIR = 1"
definition TCA_CSUM_UPDATE_FLAG_IPV4HDR :: u32 where "TCA_CSUM_UPDATE_FLAG_IPV4HDR = 1"
definition PEDIT_CMD_SET :: u16 where "PEDIT_CMD_SET = 0"
definition PEDIT_CMD_ADD :: u16 where "PEDIT_CMD_ADD = 1"
definition PEDIT_HDR_TYPE_ETH :: u16 where "PEDIT_HDR_TYPE_ETH = 1"
definition PEDIT_HDR_TYPE_IP4 :: u16 where "PEDIT_HDR_TYPE_IP4 = 2"
definition PEDIT_HDR_TYPE_IP6 :: u16 where "PEDIT_HDR_TYPE_IP6 = 3"

lemmas act_defs = TC_ACT_PIPE_def TC_ACT_STOLEN_def TC_ACT_TRAP_def TC_ACT_JUMP_def
  TC_ACT_GOTO_CHAIN_def TC_ACT_EXT_VAL_MASK_def TCA_VLAN_ACT_MODIFY_def TCA_EGRESS_REDIR_def
lemmas pedit_defs = PEDIT_CMD_SET_def PEDIT_CMD_ADD_def PEDIT_HDR_TYPE_ETH_def
  PEDIT_HDR_TYPE_IP4_def PEDIT_HDR_TYPE_IP6_def

definition ETH_P_IP :: u16 where "ETH_P_IP = 0x0800"
definition ETH_P_8021Q :: u16 where "ETH_P_8021Q = 0x8100"
definition ETH_P_IPV6 :: u16 where "ETH_P_IPV6 = 0x86DD"

lemmas eth_defs = ETH_P_IP_def ETH_P_8021Q_def ETH_P_IPV6_def

definition RTM_NEWTFILTER :: u16 where "RTM_NEWTFILTER = 44"
definition RTM_DELTFILTER :: u16 where "RTM_DELTFILTER = 45"

lemma rtm_tfilter_distinct [simp]:
  "RTM_NEWTFILTER \<noteq> RTM_DELTFILTER" "RTM_DELTFILTER \<noteq> RTM_NEWTFILTER"
  by (simp_all add: RTM_NEWTFILTER_def RTM_DELTFILTER_def)

definition NLM_F_REQUEST :: u16 where "NLM_F_REQUEST = 1"
definition NLM_F_ACK :: u16 where "NLM_F_ACK = 4"
definition NLM_F_EXCL :: u16 where "NLM_F_EXCL = 0x200"
definition NLM_F_CREATE :: u16 where "NLM_F_CREATE = 0x400"

text \<open>Traffic control handles: sixteen bits of major and sixteen of minor number.\<close>

definition TC_H_MAJ :: "u32 \<Rightarrow> u32" where "TC_H_MAJ h = h AND 0xFFFF0000"
definition TC_H_MIN :: "u32 \<Rightarrow> u32" where "TC_H_MIN h = h AND 0x0000FFFF"
definition TC_H_MAKE :: "u32 \<Rightarrow> u32 \<Rightarrow> u32" where
  "TC_H_MAKE maj mi = (maj AND 0xFFFF0000) OR (mi AND 0x0000FFFF)"
definition TC_H_CLSACT :: u32 where "TC_H_CLSACT = 0xFFFFFFF1"
definition TC_H_MIN_INGRESS :: u32 where "TC_H_MIN_INGRESS = 0xFFF2"

definition NO_TCE_FLAGS :: nat where "NO_TCE_FLAGS = 0"
definition TCE_FLAG_LOOPBACK :: nat where "TCE_FLAG_LOOPBACK = 1"

text \<open>\<open>flags & TCE_FLAG_LOOPBACK\<close>\<close>

definition is_loopback :: "nat \<Rightarrow> bool" where
  "is_loopback flags \<longleftrightarrow> odd flags"

section \<open>Building blocks\<close>

definition tce_set_tcm :: "config \<Rightarrow> u32 \<Rightarrow> nat \<Rightarrow> tcmsg" where
  "tce_set_tcm cfg info flags = \<lparr>tcm_family = AF_UNSPEC, tcm_ifindex = cfg_ifidx cfg,
     tcm_handle = (if is_loopback flags then 1 else 0),
     tcm_parent = TC_H_MAKE TC_H_CLSACT TC_H_MIN_INGRESS, tcm_info = info\<rparr>"

definition tce_flower_set_eth_type :: "u8 \<Rightarrow> nat \<Rightarrow> mnl_put list option" where
  "tce_flower_set_eth_type f flags = do {
     vlan_eth_type \<leftarrow> (if f = AF_INET then Some ETH_P_IP
                       else if f = AF_INET6 then Some ETH_P_IPV6 else None);
     let eth_type = (if is_loopback flags then vlan_eth_type else ETH_P_8021Q);
     Some [Put_u16 TCA_FLOWER_KEY_VLAN_ETH_TYPE (htons vlan_eth_type),
           Put_u16 TCA_FLOWER_KEY_ETH_TYPE (htons eth_type)]
   }"

definition tce_new_flower_rule :: "tc_rule \<Rightarrow> nat \<Rightarrow> mnl_put list option" where
  "tce_new_flower_rule r flags = do {
     let flower_flags = (if is_loopback flags then tcr_flower_flags r
                         else tcr_flower_flags r AND NOT TCA_CLS_FLAGS_IN_HW);
     eth \<leftarrow> tce_flower_set_eth_type (aa_af (tcr_af_addr r)) flags;
     Some ([Put_strz TCA_KIND ''flower'', Nest_start TCA_OPTIONS,
            Put_u32 TCA_FLOWER_FLAGS flower_flags] @ eth)
   }"

text \<open>An action: \<open>tce_action_start\<close>, its options, \<open>tce_action_end\<close>.\<close>

definition tce_action_start :: "nat \<Rightarrow> string \<Rightarrow> mnl_put list" where
  "tce_action_start act_no kind =
     [Nest_start act_no, Put_strz TCA_ACT_KIND kind, Nest_start TCA_ACT_OPTIONS]"

definition tce_action_end :: "mnl_put list" where
  "tce_action_end = [Nest_end, Nest_end]"

definition tce_simple_gact :: "u32 \<Rightarrow> mnl_put list" where
  "tce_simple_gact action =
     [Nest_start TCA_FLOWER_ACT] @ tce_action_start 1 ''gact''
     @ [Put_gact TCA_GACT_PARMS \<lparr>gact_action = action\<rparr>] @ tce_action_end @ [Nest_end]"

definition tce_add_tll_check_rule :: "mnl_put list" where
  "tce_add_tll_check_rule =
     [Put_u8 TCA_FLOWER_KEY_IP_TTL 0x01, Put_u8 TCA_FLOWER_KEY_IP_TTL_MASK 0xff]
     @ tce_simple_gact TC_ACT_TRAP"

text \<open>
  \<open>tce_build_ipv6_mask\<close> fills the sixteen bytes from the last to the first; \<open>rem\<close> is
  the number of zero bits still to place, a \<open>uint8_t\<close>.
\<close>

fun tce_ipv6_mask_loop :: "nat \<Rightarrow> u8 \<Rightarrow> bytes \<Rightarrow> bytes" where
  "tce_ipv6_mask_loop 0 rem acc = acc"
| "tce_ipv6_mask_loop (Suc i) rem acc =
     (if rem \<ge> 8 then tce_ipv6_mask_loop i (rem - 8) (0x00 # acc)
      else tce_ipv6_mask_loop i 0 (push_bit (unat rem) 0xff # acc))"

definition tce_build_ipv6_mask :: "u8 \<Rightarrow> bytes" where
  "tce_build_ipv6_mask m = tce_ipv6_mask_loop 16 (128 - m) []"

text \<open>
  The IPv4 mask is a shift of a 32-bit word by \<open>32 - mask_len\<close>, done only for a non-zero
  length. A length above 32 would shift by a negative amount, which C leaves undefined.
\<close>

definition tce_ipv4_mask :: "u8 \<Rightarrow> u32 option" where
  "tce_ipv4_mask m =
     (if m > 0 then do { AN (m \<le> 32); Some (htonl (push_bit (32 - unat m) 0xffffffff)) }
      else Some 0)"

definition tce_match_prefix :: "tc_rule \<Rightarrow> nat \<Rightarrow> mnl_put list option" where
  "tce_match_prefix r flags =
     (let pfx = tcr_af_addr r; m = aa_mask_len pfx in
      if aa_af pfx = AF_INET then
        (if is_loopback flags \<and> m = 0 then Some []
         else do {
           ip4_mask \<leftarrow> tce_ipv4_mask m;
           Some [Put_u32 TCA_FLOWER_KEY_IPV4_DST
                   (of_be32 (aa_in pfx ! 3) (aa_in pfx ! 2) (aa_in pfx ! 1) (aa_in pfx ! 0)),
                 Put_u32 TCA_FLOWER_KEY_IPV4_DST_MASK ip4_mask]
         })
      else if aa_af pfx = AF_INET6 then
        Some [Put TCA_FLOWER_KEY_IPV6_DST (take 16 (aa_in pfx)),
              Put TCA_FLOWER_KEY_IPV6_DST_MASK (tce_build_ipv6_mask m)]
      else Some [])"

definition tce_add_ip_gact_rule :: "tc_rule \<Rightarrow> nat \<Rightarrow> u32 \<Rightarrow> mnl_put list option" where
  "tce_add_ip_gact_rule r flags action = do {
     m \<leftarrow> tce_match_prefix r flags;
     Some (m @ tce_simple_gact action)
   }"

section \<open>Actions of a forwarding rule\<close>

definition tce_modify_vlan_action :: "nat \<Rightarrow> u16 \<Rightarrow> mnl_put list" where
  "tce_modify_vlan_action act_no vlan_id =
     tce_action_start act_no ''vlan''
     @ [Put_vlan TCA_VLAN_PARMS \<lparr>vlan_v_action = TCA_VLAN_ACT_MODIFY, vlan_action = TC_ACT_PIPE\<rparr>,
        Put_u16 TCA_VLAN_PUSH_VLAN_ID vlan_id] @ tce_action_end"

text \<open>Three keys set the link-layer addresses, a fourth decrements the TTL or hop limit.\<close>

definition tce_pedit_eth_key :: "tc_rule \<Rightarrow> nat \<Rightarrow> tc_pedit_key" where
  "tce_pedit_eth_key r i = \<lparr>key_mask = 0, key_val = lladdr_raw (tcr_lladdr r) i,
     key_off = push_bit 2 (of_nat i)\<rparr>"

definition tce_pedit_ttl_key :: "u8 \<Rightarrow> tc_pedit_key" where
  "tce_pedit_ttl_key f =
     (if f = AF_INET then
        \<lparr>key_mask = htonl 0x00ffffff, key_val = htonl 0xff000000, key_off = 8\<rparr>
      else if f = AF_INET6 then
        \<lparr>key_mask = htonl 0xffffff00, key_val = htonl 0x000000ff, key_off = 4\<rparr>
      else \<lparr>key_mask = 0, key_val = 0, key_off = 0\<rparr>)"

definition tce_pedit_ex_eth :: "mnl_put list" where
  "tce_pedit_ex_eth = [Nest_start TCA_PEDIT_KEY_EX,
     Put_u16 TCA_PEDIT_KEY_EX_CMD PEDIT_CMD_SET,
     Put_u16 TCA_PEDIT_KEY_EX_HTYPE PEDIT_HDR_TYPE_ETH, Nest_end]"

definition tce_pedit_ex_ttl :: "u8 \<Rightarrow> mnl_put list" where
  "tce_pedit_ex_ttl f = [Nest_start TCA_PEDIT_KEY_EX, Put_u16 TCA_PEDIT_KEY_EX_CMD PEDIT_CMD_ADD]
     @ (if f = AF_INET then [Put_u16 TCA_PEDIT_KEY_EX_HTYPE PEDIT_HDR_TYPE_IP4]
        else if f = AF_INET6 then [Put_u16 TCA_PEDIT_KEY_EX_HTYPE PEDIT_HDR_TYPE_IP6]
        else []) @ [Nest_end]"

definition tce_pedit_action :: "nat \<Rightarrow> tc_rule \<Rightarrow> mnl_put list" where
  "tce_pedit_action act_no r =
     (let f = aa_af (tcr_af_addr r) in
      tce_action_start act_no ''pedit''
      @ [Nest_start TCA_PEDIT_KEYS_EX]
      @ tce_pedit_ex_eth @ tce_pedit_ex_eth @ tce_pedit_ex_eth @ tce_pedit_ex_ttl f
      @ [Nest_end]
      @ [Put_pedit TCA_PEDIT_PARMS_EX \<lparr>sel_action = TC_ACT_PIPE, sel_nkeys = 4,
           sel_keys = [tce_pedit_eth_key r 0, tce_pedit_eth_key r 1, tce_pedit_eth_key r 2,
             tce_pedit_ttl_key f]\<rparr>]
      @ tce_action_end)"

definition tce_redirect_action :: "config \<Rightarrow> nat \<Rightarrow> mnl_put list" where
  "tce_redirect_action cfg act_no =
     tce_action_start act_no ''mirred''
     @ [Put_mirred TCA_MIRRED_PARMS \<lparr>mirred_eaction = TCA_EGRESS_REDIR,
          mirred_action = TC_ACT_STOLEN, mirred_ifindex = cfg_ifidx cfg\<rparr>] @ tce_action_end"

definition tce_csum_action :: "nat \<Rightarrow> mnl_put list" where
  "tce_csum_action act_no =
     tce_action_start act_no ''csum''
     @ [Put_csum TCA_CSUM_PARMS \<lparr>csum_update_flags = TCA_CSUM_UPDATE_FLAG_IPV4HDR,
          csum_action = TC_ACT_PIPE\<rparr>] @ tce_action_end"

text \<open>The actions are numbered from one; only IPv4 needs its header checksum updated.\<close>

definition tce_add_ip_forward_rule :: "config \<Rightarrow> tc_rule \<Rightarrow> mnl_put list" where
  "tce_add_ip_forward_rule cfg r =
     [Nest_start TCA_FLOWER_ACT]
     @ tce_modify_vlan_action 1 (tcr_vlan_id r)
     @ tce_pedit_action 2 r
     @ (if aa_af (tcr_af_addr r) = AF_INET
        then tce_csum_action 3 @ tce_redirect_action cfg 4
        else tce_redirect_action cfg 3)
     @ [Nest_end]"

section \<open>Requests\<close>

definition tc_encode_add_rule :: "config \<Rightarrow> u32 \<Rightarrow> u16 \<Rightarrow> tc_rule \<Rightarrow> nat \<Rightarrow> nlmsg option" where
  "tc_encode_add_rule cfg chain_no prio r flags = do {
     flower \<leftarrow> tce_new_flower_rule r flags;
     body \<leftarrow> (case tcr_type r of
         TC_RULE_TYPE_FORWARD \<Rightarrow> Some (tce_add_ip_forward_rule cfg r)
       | TC_RULE_TYPE_ROUTE_TRAP \<Rightarrow> tce_add_ip_gact_rule r flags TC_ACT_TRAP
       | TC_RULE_TYPE_ROUTE_GOTO \<Rightarrow>
           tce_add_ip_gact_rule r flags (TC_ACT_GOTO_CHAIN OR tcr_goto_target r)
       | TC_RULE_TYPE_TTL_CHECK \<Rightarrow> Some tce_add_tll_check_rule
       | _ \<Rightarrow> None);
     Some \<lparr>nlmsg_type = RTM_NEWTFILTER,
       nlmsg_flags = NLM_F_REQUEST OR NLM_F_ACK OR NLM_F_EXCL OR NLM_F_CREATE,
       nlmsg_tcm = tce_set_tcm cfg
         (TC_H_MAKE (push_bit 16 (ucast prio)) (ucast (htons ETH_P_8021Q))) flags,
       nlmsg_puts = [Put_u32 TCA_CHAIN chain_no] @ flower @ body @ [Nest_end]\<rparr>
   }"

definition tc_encode_drop_chain :: "config \<Rightarrow> u32 \<Rightarrow> nat \<Rightarrow> nlmsg" where
  "tc_encode_drop_chain cfg chain_no flags =
     \<lparr>nlmsg_type = RTM_DELTFILTER, nlmsg_flags = NLM_F_REQUEST OR NLM_F_ACK,
      nlmsg_tcm = tce_set_tcm cfg 0 flags, nlmsg_puts = [Put_u32 TCA_CHAIN chain_no]\<rparr>"

definition tc_encode_drop_rule :: "config \<Rightarrow> u32 \<Rightarrow> u16 \<Rightarrow> nat \<Rightarrow> nlmsg" where
  "tc_encode_drop_rule cfg chain_no prio flags =
     \<lparr>nlmsg_type = RTM_DELTFILTER, nlmsg_flags = NLM_F_REQUEST OR NLM_F_ACK,
      nlmsg_tcm = tce_set_tcm cfg (TC_H_MAKE (push_bit 16 (ucast prio)) 0) flags,
      nlmsg_puts = [Put_u32 TCA_CHAIN chain_no]\<rparr>"

definition tc_encode_rule ::
  "config \<Rightarrow> u32 \<Rightarrow> u16 \<Rightarrow> tc_rule option \<Rightarrow> nat \<Rightarrow> nlmsg option" where
  "tc_encode_rule cfg chain_no prio tcr flags =
     (case tcr of
        Some r \<Rightarrow> tc_encode_add_rule cfg chain_no prio r flags
      | None \<Rightarrow> Some (tc_encode_drop_rule cfg chain_no prio flags))"

end
