(* ===== verification/TC_Decode.thy ===== *)
theory TC_Decode
  imports TC_Encode
begin

text \<open>
  \<open>src/tc_decode.h\<close> and \<open>src/tc_decode.c\<close>: the decoding of the kernel's traffic control
  messages (qdiscs, chains, filters) into rules. Every function takes the libmnl
  accessors \<open>L\<close>. \<open>None\<close> is an aborted run: a failed \<open>AN\<close>, a NULL attribute that is
  dereferenced, or a payload read past its end.
\<close>

section \<open>Attribute tables\<close>

definition tc_attr_types :: type_map where
  "tc_attr_types = [(TCA_CHAIN, MNL_TYPE_U32), (TCA_KIND, MNL_TYPE_NUL_STRING),
     (TCA_OPTIONS, MNL_TYPE_NESTED), (TCA_STATS, MNL_TYPE_BINARY),
     (TCA_XSTATS, MNL_TYPE_BINARY), (TCA_STATS2, MNL_TYPE_NESTED),
     (TCA_HW_OFFLOAD, MNL_TYPE_U8)]"

definition tc_flower_attr_types :: type_map where
  "tc_flower_attr_types = [(TCA_FLOWER_ACT, MNL_TYPE_NESTED),
     (TCA_FLOWER_KEY_ETH_TYPE, MNL_TYPE_U16), (TCA_FLOWER_KEY_IPV4_SRC, MNL_TYPE_U32),
     (TCA_FLOWER_KEY_IPV4_SRC_MASK, MNL_TYPE_U32), (TCA_FLOWER_KEY_IPV4_DST, MNL_TYPE_U32),
     (TCA_FLOWER_KEY_IPV4_DST_MASK, MNL_TYPE_U32), (TCA_FLOWER_KEY_IPV6_DST, MNL_TYPE_BINARY),
     (TCA_FLOWER_KEY_IPV6_DST_MASK, MNL_TYPE_BINARY), (TCA_FLOWER_FLAGS, MNL_TYPE_U32),
     (TCA_FLOWER_KEY_VLAN_ETH_TYPE, MNL_TYPE_U16), (TCA_FLOWER_KEY_IP_TTL, MNL_TYPE_U8),
     (TCA_FLOWER_KEY_IP_TTL_MASK, MNL_TYPE_U8), (TCA_FLOWER_IN_HW_COUNT, MNL_TYPE_U32)]"

definition tc_act_attr_types :: type_map where
  "tc_act_attr_types = [(TCA_ACT_KIND, MNL_TYPE_NUL_STRING), (TCA_ACT_OPTIONS, MNL_TYPE_NESTED),
     (TCA_ACT_INDEX, MNL_TYPE_U32), (TCA_ACT_STATS, MNL_TYPE_NESTED),
     (TCA_ACT_USED_HW_STATS, MNL_TYPE_BINARY), (TCA_ACT_IN_HW_COUNT, MNL_TYPE_U32)]"

definition tca_gact_attr_types :: type_map where
  "tca_gact_attr_types = [(TCA_GACT_TM, MNL_TYPE_BINARY), (TCA_GACT_PARMS, MNL_TYPE_BINARY),
     (TCA_GACT_PROB, MNL_TYPE_BINARY)]"

definition tca_vlan_attr_types :: type_map where
  "tca_vlan_attr_types = [(TCA_VLAN_TM, MNL_TYPE_BINARY), (TCA_VLAN_PARMS, MNL_TYPE_BINARY),
     (TCA_VLAN_PUSH_VLAN_ID, MNL_TYPE_U16), (TCA_VLAN_PUSH_VLAN_PROTOCOL, MNL_TYPE_U16)]"

definition tca_pedit_attr_types :: type_map where
  "tca_pedit_attr_types = [(TCA_PEDIT_TM, MNL_TYPE_BINARY), (TCA_PEDIT_PARMS_EX, MNL_TYPE_BINARY),
     (TCA_PEDIT_KEYS_EX, MNL_TYPE_BINARY)]"

definition tca_pedit_key_ex_attr_types :: type_map where
  "tca_pedit_key_ex_attr_types = [(TCA_PEDIT_KEY_EX_HTYPE, MNL_TYPE_U16),
     (TCA_PEDIT_KEY_EX_CMD, MNL_TYPE_U16)]"

definition tca_mirred_attr_types :: type_map where
  "tca_mirred_attr_types = [(TCA_MIRRED_TM, MNL_TYPE_BINARY), (TCA_MIRRED_PARMS, MNL_TYPE_BINARY)]"

lemmas attr_table_defs = tc_attr_types_def tc_flower_attr_types_def tc_act_attr_types_def
  tca_gact_attr_types_def tca_vlan_attr_types_def tca_pedit_attr_types_def
  tca_pedit_key_ex_attr_types_def tca_mirred_attr_types_def

definition act_ext_cmp :: "u32 \<Rightarrow> u32 \<Rightarrow> bool" where
  \<comment> \<open>the macro \<open>TC_ACT_EXT_CMP\<close>\<close>
  "act_ext_cmp combined opcode \<longleftrightarrow> combined AND NOT TC_ACT_EXT_VAL_MASK = opcode"

definition add_trait :: "u32 \<Rightarrow> tc_rule \<Rightarrow> tc_rule" where
  "add_trait t r = r\<lparr>tcr_traits := tcr_traits r OR t\<rparr>"

section \<open>Actions\<close>

definition decode_nlattr_tc_act_attr_cb ::
  "'a libmnl \<Rightarrow> 'a \<Rightarrow> (nat \<rightharpoonup> 'a) \<Rightarrow> (mnl_cb \<times> (nat \<rightharpoonup> 'a)) option" where
  \<comment> \<open>indexes \<open>tc_act_attr_types\<close> by the attribute's type before checking it\<close>
  "decode_nlattr_tc_act_attr_cb L attr tb = do {
     AN (mnl_type L attr \<le> TCA_ACT_MAX);
     decode_nlattr L TCA_ACT_MAX tc_act_attr_types attr tb
   }"

definition decode_nlattr_tc_act_gact_cb ::
  "'a libmnl \<Rightarrow> 'a \<Rightarrow> tc_rule \<Rightarrow> (mnl_cb \<times> tc_rule) option" where
  "decode_nlattr_tc_act_gact_cb L attr r = do {
     (ret, tb) \<leftarrow> parse_table L TCA_GACT_MAX tca_gact_attr_types (mnl_nested L attr);
     if ret \<noteq> MNL_CB_OK then Some (ret, r) else do {
       parms \<leftarrow> tb TCA_GACT_PARMS;
       p \<leftarrow> mnl_gact L parms;
       if act_ext_cmp (gact_action p) TC_ACT_GOTO_CHAIN then
         Some (MNL_CB_OK, (add_trait TC_RULE_HAVE_GOTO r)
           \<lparr>tcr_goto_target := gact_action p AND TC_ACT_EXT_VAL_MASK\<rparr>)
       else if gact_action p = TC_ACT_TRAP then Some (MNL_CB_OK, add_trait TC_RULE_HAVE_TRAP r)
       else Some (MNL_CB_OK, r)
     }
   }"

definition decode_nlattr_tc_act_vlan_cb ::
  "'a libmnl \<Rightarrow> 'a \<Rightarrow> tc_rule \<Rightarrow> (mnl_cb \<times> tc_rule) option" where
  "decode_nlattr_tc_act_vlan_cb L attr r = do {
     (ret, tb) \<leftarrow> parse_table L TCA_VLAN_MAX tca_vlan_attr_types (mnl_nested L attr);
     if ret \<noteq> MNL_CB_OK then Some (ret, r) else do {
       parms \<leftarrow> tb TCA_VLAN_PARMS;
       p \<leftarrow> mnl_vlan L parms;
       r \<leftarrow> (if vlan_v_action p \<noteq> TCA_VLAN_ACT_MODIFY then tc_rule_mark_alien r else Some r);
       vlan_id \<leftarrow> (case tb TCA_VLAN_PUSH_VLAN_ID of None \<Rightarrow> Some 0 | Some a \<Rightarrow> mnl_u16 L a);
       if vlan_id > 0 then
         Some (MNL_CB_OK, (add_trait TC_RULE_HAVE_VLAN_MOD r)\<lparr>tcr_vlan_id := vlan_id\<rparr>)
       else Some (MNL_CB_OK, r)
     }
   }"

text \<open>
  \<open>decode_nlattr_tc_act_pedit_keys_ex\<close> fills an array of \<open>nkeys\<close> entries with one entry
  per nested attribute. The accumulator holds the entries filled so far; a further
  attribute when the array is full writes past its end. Entries never filled are zero.
\<close>

type_synonym m_pedit_key_ex = "u16 \<times> u16"

fun decode_nlattr_tc_act_pedit_keys_ex ::
  "'a libmnl \<Rightarrow> nat \<Rightarrow> 'a list \<Rightarrow> m_pedit_key_ex list \<Rightarrow> (mnl_cb \<times> m_pedit_key_ex list) option" where
  "decode_nlattr_tc_act_pedit_keys_ex L nkeys [] filled =
     Some (MNL_CB_OK, filled @ replicate (nkeys - length filled) (0, 0))"
| "decode_nlattr_tc_act_pedit_keys_ex L nkeys (a # as) filled = do {
     (ret, tb) \<leftarrow> parse_table L TCA_PEDIT_KEY_EX_MAX tca_pedit_key_ex_attr_types (mnl_nested L a);
     if ret \<noteq> MNL_CB_OK then Some (ret, filled) else do {
       AN (length filled < nkeys);
       ahtype \<leftarrow> tb TCA_PEDIT_KEY_EX_HTYPE;
       htype \<leftarrow> mnl_u16 L ahtype;
       acmd \<leftarrow> tb TCA_PEDIT_KEY_EX_CMD;
       cmd \<leftarrow> mnl_u16 L acmd;
       decode_nlattr_tc_act_pedit_keys_ex L nkeys as (filled @ [(htype, cmd)])
     }
   }"

text \<open>
  The loop over the keys. Leaving it by \<open>goto mark_alien\<close> keeps what earlier keys did.
  A key past the end of the payload is read out of bounds.
\<close>

fun pedit_keys_loop :: "nat \<Rightarrow> tc_pedit_key list \<Rightarrow> m_pedit_key_ex list \<Rightarrow> tc_rule \<Rightarrow> tc_rule option" where
  "pedit_keys_loop 0 keys kex r = Some r"
| "pedit_keys_loop (Suc n) keys ((htype, cmd) # kex) r =
     (if htype = PEDIT_HDR_TYPE_ETH then
        (if cmd \<noteq> PEDIT_CMD_SET then tc_rule_mark_alien r
         else case keys of
           [] \<Rightarrow> None
         | key # _ \<Rightarrow>
             if key_off key mod 4 \<noteq> 0 \<or> key_off key > 8 then tc_rule_mark_alien r
             else let i = unat (drop_bit 2 (key_off key));
                      word = (lladdr_raw (tcr_lladdr r) i AND key_mask key) XOR key_val key in
                  pedit_keys_loop n (tl keys) kex (add_trait TC_RULE_HAVE_LLADDR
                    (r\<lparr>tcr_lladdr := lladdr_set_raw (tcr_lladdr r) i word\<rparr>)))
      else if htype = PEDIT_HDR_TYPE_IP4 \<or> htype = PEDIT_HDR_TYPE_IP6 then
        (if cmd \<noteq> PEDIT_CMD_ADD then tc_rule_mark_alien r
         else pedit_keys_loop n (tl keys) kex (add_trait TC_RULE_HAVE_TTL_DEC r))
      else tc_rule_mark_alien r)"
| "pedit_keys_loop (Suc n) keys [] r = None"

definition decode_nlattr_tc_act_pedit_cb ::
  "'a libmnl \<Rightarrow> 'a \<Rightarrow> tc_rule \<Rightarrow> (mnl_cb \<times> tc_rule) option" where
  "decode_nlattr_tc_act_pedit_cb L attr r = do {
     (ret, tb) \<leftarrow> parse_table L TCA_PEDIT_MAX tca_pedit_attr_types (mnl_nested L attr);
     if ret \<noteq> MNL_CB_OK then Some (ret, r) else do {
       parms \<leftarrow> tb TCA_PEDIT_PARMS_EX;
       akeys \<leftarrow> tb TCA_PEDIT_KEYS_EX;
       sel \<leftarrow> mnl_pedit L parms;
       let nkeys = unat (sel_nkeys sel);
       (ret, keys_ex) \<leftarrow> decode_nlattr_tc_act_pedit_keys_ex L nkeys (mnl_nested L akeys) [];
       if ret \<noteq> MNL_CB_OK then Some (ret, r)
       else if nkeys = 0 then do { r \<leftarrow> tc_rule_mark_alien r; Some (MNL_CB_OK, r) }
       else do { r \<leftarrow> pedit_keys_loop nkeys (sel_keys sel) keys_ex r; Some (MNL_CB_OK, r) }
     }
   }"

definition decode_nlattr_tc_act_mirred_cb ::
  "'a libmnl \<Rightarrow> 'a \<Rightarrow> tc_rule \<Rightarrow> (mnl_cb \<times> tc_rule) option" where
  "decode_nlattr_tc_act_mirred_cb L attr r = do {
     (ret, tb) \<leftarrow> parse_table L TCA_MIRRED_MAX tca_mirred_attr_types (mnl_nested L attr);
     if ret \<noteq> MNL_CB_OK then Some (ret, r) else do {
       parms \<leftarrow> tb TCA_MIRRED_PARMS;
       p \<leftarrow> mnl_mirred L parms;
       r \<leftarrow> (if mirred_eaction p \<noteq> TCA_EGRESS_REDIR then tc_rule_mark_alien r else Some r);
       Some (MNL_CB_OK, r)
     }
   }"

definition decode_nlattr_tc_act_csum_cb ::
  "'a libmnl \<Rightarrow> 'a option \<Rightarrow> tc_rule \<Rightarrow> (mnl_cb \<times> tc_rule) option" where
  "decode_nlattr_tc_act_csum_cb L attr r = Some (MNL_CB_OK, r)"

text \<open>The table \<open>tc_act_helpers\<close>: an action of a kind it does not name is passed over.\<close>

definition tc_act_helper ::
  "'a libmnl \<Rightarrow> string \<Rightarrow> 'a option \<Rightarrow> tc_rule \<Rightarrow> (mnl_cb \<times> tc_rule) option" where
  "tc_act_helper L kind opts r =
     (if kind = ''gact'' then do { a \<leftarrow> opts; decode_nlattr_tc_act_gact_cb L a r }
      else if kind = ''vlan'' then do { a \<leftarrow> opts; decode_nlattr_tc_act_vlan_cb L a r }
      else if kind = ''pedit'' then do { a \<leftarrow> opts; decode_nlattr_tc_act_pedit_cb L a r }
      else if kind = ''mirred'' then do { a \<leftarrow> opts; decode_nlattr_tc_act_mirred_cb L a r }
      else if kind = ''csum'' then decode_nlattr_tc_act_csum_cb L opts r
      else Some (MNL_CB_OK, r))"

definition decode_nlattr_tc_act_cb ::
  "'a libmnl \<Rightarrow> 'a \<Rightarrow> tc_rule \<Rightarrow> (mnl_cb \<times> tc_rule) option" where
  "decode_nlattr_tc_act_cb L attr r = do {
     (ret, tb) \<leftarrow> mnl_attr_parse (decode_nlattr_tc_act_attr_cb L) (mnl_nested L attr) Map.empty;
     if ret \<noteq> MNL_CB_OK then Some (ret, r)
     else case tb TCA_ACT_KIND of
       None \<Rightarrow> do { r \<leftarrow> tc_rule_mark_alien r; Some (MNL_CB_OK, r) }
     | Some a \<Rightarrow> do {
         (ret, r) \<leftarrow> tc_act_helper L (mnl_str L a) (tb TCA_ACT_OPTIONS) r;
         Some (ret, r)
       }
   }"

section \<open>Filters\<close>

text \<open>
  \<open>count_ones\<close> reads a mask octet by octet and returns at the first octet that is not
  all ones; the sum is a \<open>uint8_t\<close>. An octet that is not a run of leading ones makes
  the rule alien.
\<close>

definition octet_ones :: "u8 \<Rightarrow> u8 option" where
  "octet_ones octet =
     (if octet = 0xfe then Some 7 else if octet = 0xfc then Some 6
      else if octet = 0xf8 then Some 5 else if octet = 0xf0 then Some 4
      else if octet = 0xe0 then Some 3 else if octet = 0xc0 then Some 2
      else if octet = 0x80 then Some 1 else if octet = 0x00 then Some 0 else None)"

fun count_ones_loop :: "bytes \<Rightarrow> u8 \<Rightarrow> tc_rule \<Rightarrow> (u8 \<times> tc_rule) option" where
  "count_ones_loop [] ret r = Some (ret, r)"
| "count_ones_loop (octet # os) ret r =
     (if octet = 0xff then count_ones_loop os (ret + 8) r
      else case octet_ones octet of
        Some n \<Rightarrow> Some (ret + n, r)
      | None \<Rightarrow> do { r \<leftarrow> tc_rule_mark_alien r; Some (0, r) })"

definition count_ones :: "'a libmnl \<Rightarrow> 'a option \<Rightarrow> tc_rule \<Rightarrow> (u8 \<times> tc_rule) option" where
  "count_ones L attr r =
     (case attr of
        None \<Rightarrow> do { r \<leftarrow> tc_rule_mark_alien r; Some (0, r) }
      | Some a \<Rightarrow> count_ones_loop (mnl_bytes L a) 0 r)"

text \<open>The destination prefix of one family, from its address and mask attributes.\<close>

definition decode_flower_dst ::
  "'a libmnl \<Rightarrow> u8 \<Rightarrow> 'a option \<Rightarrow> 'a option \<Rightarrow> tc_rule \<Rightarrow> tc_rule option" where
  "decode_flower_dst L f dst msk r = do {
     let r = add_trait TC_RULE_HAVE_AF (r\<lparr>tcr_af_addr := (tcr_af_addr r)\<lparr>aa_af := f\<rparr>\<rparr>);
     case dst of
       None \<Rightarrow> Some r
     | Some a \<Rightarrow> do {
         (m, r) \<leftarrow> count_ones L msk r;
         addr \<leftarrow> build_af_addr f (Some (mnl_bytes L a)) m;
         Some (add_trait TC_RULE_HAVE_IP (r\<lparr>tcr_af_addr := addr\<rparr>))
       }
   }"

definition decode_ttl :: "'a libmnl \<Rightarrow> 'a option \<Rightarrow> tc_rule \<Rightarrow> tc_rule option" where
  "decode_ttl L attr r =
     (case attr of
        None \<Rightarrow> Some r
      | Some a \<Rightarrow> do {
          ttl \<leftarrow> mnl_u8 L a;
          if ttl = 1 then Some (add_trait TC_RULE_HAVE_TTL_CHECK r) else tc_rule_mark_alien r
        })"

definition ntohs_or_zero :: "'a libmnl \<Rightarrow> 'a option \<Rightarrow> u16 option" where
  "ntohs_or_zero L attr =
     (case attr of None \<Rightarrow> Some 0 | Some a \<Rightarrow> do { v \<leftarrow> mnl_u16 L a; Some (ntohs v) })"

definition decode_flower :: "'a libmnl \<Rightarrow> 'a \<Rightarrow> tc_rule \<Rightarrow> (mnl_cb \<times> tc_rule) option" where
  "decode_flower L attr r = do {
     (ret, tb) \<leftarrow> parse_table L TCA_FLOWER_MAX tc_flower_attr_types (mnl_nested L attr);
     if ret \<noteq> MNL_CB_OK then Some (ret, r) else do {
       (ret, r) \<leftarrow> (case tb TCA_FLOWER_ACT of
           Some a \<Rightarrow> mnl_attr_parse (decode_nlattr_tc_act_cb L) (mnl_nested L a) r
         | None \<Rightarrow> do { r \<leftarrow> tc_rule_mark_alien r; Some (MNL_CB_OK, r) });
       if ret \<noteq> MNL_CB_OK then Some (ret, r) else do {
         r \<leftarrow> (case tb TCA_FLOWER_FLAGS of
             Some a \<Rightarrow> do { v \<leftarrow> mnl_u32 L a; Some (r\<lparr>tcr_flower_flags := v\<rparr>) }
           | None \<Rightarrow> Some r);
         r \<leftarrow> decode_ttl L (tb TCA_FLOWER_KEY_IP_TTL) r;
         vlan_ethertype \<leftarrow> ntohs_or_zero L (tb TCA_FLOWER_KEY_VLAN_ETH_TYPE);
         ethertype \<leftarrow> ntohs_or_zero L (tb TCA_FLOWER_KEY_ETH_TYPE);
         r \<leftarrow> (if vlan_ethertype > 0 \<and> vlan_ethertype = ethertype then
             (if vlan_ethertype = ETH_P_IP then
                decode_flower_dst L AF_INET (tb TCA_FLOWER_KEY_IPV4_DST)
                  (tb TCA_FLOWER_KEY_IPV4_DST_MASK) r
              else if vlan_ethertype = ETH_P_IPV6 then
                decode_flower_dst L AF_INET6 (tb TCA_FLOWER_KEY_IPV6_DST)
                  (tb TCA_FLOWER_KEY_IPV6_DST_MASK) r
              else tc_rule_mark_alien r)
           else tc_rule_mark_alien r);
         Some (MNL_CB_OK, r)
       }
     }
   }"

section \<open>Messages\<close>

record 'a rx_msg =
  rx_type :: u16
  rx_flags :: u16
  rx_tcm :: tcmsg
  rx_attrs :: "'a list"

record tc_decoded_rule =
  tdr_is_done :: bool
  tdr_chain_no :: u32
  tdr_prio :: u16
  tdr_tcr :: tc_rule

definition zero_tdr :: tc_decoded_rule where
  "zero_tdr = \<lparr>tdr_is_done = False, tdr_chain_no = 0, tdr_prio = 0, tdr_tcr = zero_tc_rule\<rparr>"

text \<open>A qdisc message is only reported: \<open>filter_got_qdisc\<close> prints.\<close>

definition decode_qdisc :: "'a libmnl \<Rightarrow> config \<Rightarrow> 'a rx_msg \<Rightarrow> (mnl_cb \<times> bool) option" where
  "decode_qdisc L cfg m = do {
     (ret, tb) \<leftarrow> parse_table L TCA_MAX tc_attr_types (rx_attrs m);
     if ret \<noteq> MNL_CB_OK then Some (ret, False)
     else if tcm_ifindex (rx_tcm m) \<noteq> cfg_ifidx cfg then Some (MNL_CB_OK, False)
     else do {
       chain_no \<leftarrow> (case tb TCA_CHAIN of None \<Rightarrow> Some 0 | Some a \<Rightarrow> mnl_u32 L a);
       case tb TCA_KIND of
         None \<Rightarrow> Some (MNL_CB_OK, False)
       | Some a \<Rightarrow> Some (MNL_CB_OK, mnl_str L a = ''ingress'')
     }
   }"

text \<open>\<open>decode_chain\<close>: the number handed to \<open>filter_got_chain\<close>, if any.\<close>

definition decode_chain :: "'a libmnl \<Rightarrow> config \<Rightarrow> 'a rx_msg \<Rightarrow> (mnl_cb \<times> u32 option) option" where
  "decode_chain L cfg m = do {
     (ret, tb) \<leftarrow> parse_table L TCA_MAX tc_attr_types (rx_attrs m);
     if ret \<noteq> MNL_CB_OK then Some (ret, None) else do {
       chain_no \<leftarrow> (case tb TCA_CHAIN of None \<Rightarrow> Some 0 | Some a \<Rightarrow> mnl_u32 L a);
       if tcm_ifindex (rx_tcm m) \<noteq> cfg_ifidx cfg then Some (MNL_CB_OK, None)
       else if tcm_parent (rx_tcm m) \<noteq> TC_H_MAJ TC_H_CLSACT then Some (MNL_CB_OK, None)
       else Some (MNL_CB_OK, Some chain_no)
     }
   }"

definition try_decode_filter ::
  "'a libmnl \<Rightarrow> 'a rx_msg \<Rightarrow> (mnl_cb \<times> tc_decoded_rule) option" where
  "try_decode_filter L m = do {
     let ext = zero_tdr;
     let tcm = rx_tcm m;
     if tcm_handle tcm = 0 then Some (MNL_CB_OK, ext) else do {
       AN (tcm_handle tcm = 1);
       (ret, tb) \<leftarrow> parse_table L TCA_MAX tc_attr_types (rx_attrs m);
       if ret \<noteq> MNL_CB_OK then Some (ret, ext) else do {
         (ret, r) \<leftarrow> (case (tb TCA_KIND, tb TCA_OPTIONS) of
             (Some k, Some opts) \<Rightarrow>
               if mnl_str L k = ''flower'' then decode_flower L opts (tdr_tcr ext)
               else if rx_type m = RTM_NEWTFILTER
               then do { r \<leftarrow> tc_rule_mark_alien (tdr_tcr ext); Some (MNL_CB_OK, r) }
               else Some (MNL_CB_OK, tdr_tcr ext)
           | _ \<Rightarrow>
               if rx_type m = RTM_NEWTFILTER
               then do { r \<leftarrow> tc_rule_mark_alien (tdr_tcr ext); Some (MNL_CB_OK, r) }
               else Some (MNL_CB_OK, tdr_tcr ext));
         if ret \<noteq> MNL_CB_OK then Some (ret, ext\<lparr>tdr_tcr := r\<rparr>) else do {
           chain_no \<leftarrow> (case tb TCA_CHAIN of None \<Rightarrow> Some 0 | Some a \<Rightarrow> mnl_u32 L a);
           let prio = ucast (drop_bit 16 (TC_H_MAJ (tcm_info tcm)));
           r \<leftarrow> (if rx_type m = RTM_NEWTFILTER
                then (let (t, r) = tc_rule_detect r in tc_rule_set_type r t) else Some r);
           Some (MNL_CB_OK, \<lparr>tdr_is_done = True, tdr_chain_no = chain_no, tdr_prio = prio,
             tdr_tcr = r\<rparr>)
         }
       }
     }
   }"

definition decode_filter2 :: "'a libmnl \<Rightarrow> 'a rx_msg \<Rightarrow> tc_decoded_rule option option" where
  \<comment> \<open>the inner \<open>None\<close> is the NULL returned on a parse error\<close>
  "decode_filter2 L m = do {
     (ret, tdr) \<leftarrow> try_decode_filter L m;
     Some (if ret \<noteq> MNL_CB_OK then None else Some tdr)
   }"

end
