(* ===== verification/MNL_Tree.thy ===== *)
theory MNL_Tree
  imports NL_Attr
begin

text \<open>
  One concrete libmnl: attributes are trees whose leaves remember the call that put them.
  It shows that the documented behaviour stated by \<open>presents\<close> can be had, and gives the
  codec's theorems concrete messages to run on.
\<close>

datatype mnl_tree = Leaf mnl_put | Node nat "mnl_tree list"

fun tree_type :: "mnl_tree \<Rightarrow> nat" where
  "tree_type (Leaf p) = put_type p"
| "tree_type (Node t ts) = t"

fun tree_validate :: "mnl_tree \<Rightarrow> mnl_attr_data_type \<Rightarrow> bool" where
  "tree_validate _ MNL_TYPE_BINARY = True"
| "tree_validate (Node t ts) d = (d = MNL_TYPE_NESTED)"
| "tree_validate (Leaf (Put_u8 t v)) d = (d = MNL_TYPE_U8)"
| "tree_validate (Leaf (Put_u16 t v)) d = (d = MNL_TYPE_U16)"
| "tree_validate (Leaf (Put_u32 t v)) d = (d = MNL_TYPE_U32)"
| "tree_validate (Leaf (Put_strz t v)) d = (d = MNL_TYPE_NUL_STRING)"
| "tree_validate (Leaf _) d = False"

definition tree_libmnl :: "mnl_tree libmnl" where
  "tree_libmnl = \<lparr>mnl_type = tree_type, mnl_validate = tree_validate,
     mnl_bytes = (\<lambda>a. case a of Leaf (Put_u8 t v) \<Rightarrow> [v] | Leaf (Put_u16 t v) \<Rightarrow> le16 v
        | Leaf (Put_u32 t v) \<Rightarrow> le32 v | Leaf (Put t v) \<Rightarrow> v | _ \<Rightarrow> []),
     mnl_u8 = (\<lambda>a. case a of Leaf (Put_u8 t v) \<Rightarrow> Some v | _ \<Rightarrow> None),
     mnl_u16 = (\<lambda>a. case a of Leaf (Put_u16 t v) \<Rightarrow> Some v | _ \<Rightarrow> None),
     mnl_u32 = (\<lambda>a. case a of Leaf (Put_u32 t v) \<Rightarrow> Some v | _ \<Rightarrow> None),
     mnl_str = (\<lambda>a. case a of Leaf (Put_strz t v) \<Rightarrow> v | _ \<Rightarrow> []),
     mnl_nested = (\<lambda>a. case a of Node t ts \<Rightarrow> ts | _ \<Rightarrow> []),
     mnl_gact = (\<lambda>a. case a of Leaf (Put_gact t p) \<Rightarrow> Some p | _ \<Rightarrow> None),
     mnl_vlan = (\<lambda>a. case a of Leaf (Put_vlan t p) \<Rightarrow> Some p | _ \<Rightarrow> None),
     mnl_pedit = (\<lambda>a. case a of Leaf (Put_pedit t p) \<Rightarrow> Some p | _ \<Rightarrow> None),
     mnl_mirred = (\<lambda>a. case a of Leaf (Put_mirred t p) \<Rightarrow> Some p | _ \<Rightarrow> None)\<rparr>"

text \<open>The trees of a sequence of calls: a stack holds the nests that are still open.\<close>

fun build_trees ::
  "mnl_put list \<Rightarrow> mnl_tree list \<Rightarrow> (nat \<times> mnl_tree list) list \<Rightarrow> mnl_tree list" where
  "build_trees [] acc st = rev acc"
| "build_trees (Nest_start t # ps) acc st = build_trees ps [] ((t, acc) # st)"
| "build_trees (Nest_end # ps) acc ((t, acc') # st) = build_trees ps (Node t (rev acc) # acc') st"
| "build_trees (p # ps) acc st = build_trees ps (Leaf p # acc) st"

definition trees_of :: "mnl_put list \<Rightarrow> mnl_tree list" where
  "trees_of ps = build_trees ps [] []"

fun puts_of :: "mnl_tree \<Rightarrow> mnl_put list" where
  "puts_of (Leaf p) = [p]"
| "puts_of (Node t ts) = Nest_start t # concat (map puts_of ts) @ [Nest_end]"

fun leaves_ok :: "mnl_tree \<Rightarrow> bool" where
  "leaves_ok (Leaf p) = (case p of Nest_start _ \<Rightarrow> False | Nest_end \<Rightarrow> False | _ \<Rightarrow> True)"
| "leaves_ok (Node t ts) = list_all leaves_ok ts"

lemma presents_puts_of:
  "leaves_ok t \<Longrightarrow> presents tree_libmnl ps ts \<Longrightarrow> presents tree_libmnl (puts_of t @ ps) (t # ts)"
proof (induction t arbitrary: ps ts)
  case (Leaf p)
  then show ?case
    by (cases p) (auto simp: tree_libmnl_def intro!: presents_put)
next
  case (Node t us)
  have "presents tree_libmnl (concat (map puts_of us)) us"
    using Node.IH Node.prems(1) by (induction us) (auto intro: presents.intros)
  with Node.prems(2) show ?case
    using presents_nest [of tree_libmnl "Node t us" t "concat (map puts_of us)" ps ts]
    by (simp add: tree_libmnl_def)
qed

lemma presents_trees:
  assumes "concat (map puts_of ts) = ps" "list_all leaves_ok ts"
  shows "presents tree_libmnl ps ts"
proof -
  have "presents tree_libmnl (concat (map puts_of ts)) ts"
    using assms(2) by (induction ts) (auto intro: presents.intros presents_puts_of)
  with assms(1) show ?thesis by simp
qed

end
