(* ===== verification/TC_Codec.thy ===== *)
theory TC_Codec
  imports TC_Decode MNL_Tree
begin

text \<open>
  The contract between \<open>src/tc_encode.c\<close> and \<open>src/tc_decode.c\<close>: a rule encoded as the kernel
  would dump it (\<open>TCE_FLAG_LOOPBACK\<close>) is decoded to itself, if it is \<open>encodable\<close>. The daemon depends on this to
  recognise its own rules when it scans the kernel and when it runs without one.

  The sections follow the layers of a message: nests of attributes, the payload of each
  action, prefix masks, the flower options, and the whole filter message.
\<close>

section \<open>Nests of attributes\<close>

fun split_nest :: "nat \<Rightarrow> mnl_put list \<Rightarrow> mnl_put list \<times> mnl_put list" where
  "split_nest n [] = ([], [])"
| "split_nest n (p # ps) =
     (let step = \<lambda>n. (p # fst (split_nest n ps), snd (split_nest n ps)) in
      case p of
        Nest_end \<Rightarrow> (if n = 0 then ([], ps) else step (n - 1))
      | Nest_start _ \<Rightarrow> step (Suc n)
      | _ \<Rightarrow> step n)"

lemma presents_split_nest:
  "presents L inner as \<Longrightarrow>
   split_nest n (inner @ ps) = (inner @ fst (split_nest n ps), snd (split_nest n ps))"
proof (induction inner as arbitrary: n ps rule: presents.induct)
  case (presents_put p a qs as)
  then show ?case by (cases p) simp_all
qed simp_all

lemma split_nest_presents:
  "presents L inner as \<Longrightarrow> split_nest 0 (inner @ Nest_end # ps) = (inner, ps)"
  by (simp add: presents_split_nest)

inductive_cases presents_NilE: "presents L [] as"
inductive_cases presents_ConsE: "presents L (p # ps) as"

lemma presents_Nil_iff [simp]: "presents L [] as \<longleftrightarrow> as = []"
  by (auto elim: presents_NilE intro: presents.intros)

definition is_leaf_put :: "mnl_put \<Rightarrow> bool" where
  "is_leaf_put p \<longleftrightarrow> (case p of Nest_start _ \<Rightarrow> False | Nest_end \<Rightarrow> False | _ \<Rightarrow> True)"

lemma presents_put_iff:
  "is_leaf_put p \<Longrightarrow> presents L (p # ps) as \<longleftrightarrow>
     (\<exists>a as'. as = a # as' \<and> put_payload L p a \<and> mnl_type L a = put_type p
        \<and> mnl_validate L a MNL_TYPE_BINARY \<and> presents L ps as')"
  by (auto simp: is_leaf_put_def elim!: presents_ConsE intro: presents.intros)

lemma presents_nest_iff:
  "presents L (Nest_start t # ps) as \<longleftrightarrow>
     (case split_nest 0 ps of (inner, rest) \<Rightarrow> ps = inner @ Nest_end # rest \<and>
        (\<exists>a as'. as = a # as' \<and> mnl_type L a = t \<and> mnl_validate L a MNL_TYPE_NESTED
           \<and> mnl_validate L a MNL_TYPE_BINARY \<and> presents L inner (mnl_nested L a)
           \<and> presents L rest as'))"
proof
  assume "presents L (Nest_start t # ps) as"
  then show "case split_nest 0 ps of (inner, rest) \<Rightarrow> ps = inner @ Nest_end # rest \<and>
        (\<exists>a as'. as = a # as' \<and> mnl_type L a = t \<and> mnl_validate L a MNL_TYPE_NESTED
           \<and> mnl_validate L a MNL_TYPE_BINARY \<and> presents L inner (mnl_nested L a)
           \<and> presents L rest as')"
    by (cases rule: presents_ConsE) (auto simp: split_nest_presents)
qed (auto intro: presents.intros)

section \<open>Actions\<close>

lemmas presents_simps = presents_put_iff presents_nest_iff is_leaf_put_def Let_def
lemmas parse_simps = parse_table_def decode_nlattr_def attr_table_defs

lemma presents_nested_leaf:
  "presents L (Nest_start t # inner @ Nest_end # ps) as \<Longrightarrow> (\<And>n qs. split_nest n (inner @ qs) = (inner @ fst (split_nest n qs), snd (split_nest n qs))) \<Longrightarrow>
    (\<exists>a as'. as = a # as' \<and> mnl_type L a = t \<and> mnl_validate L a MNL_TYPE_NESTED
           \<and> mnl_validate L a MNL_TYPE_BINARY \<and> presents L inner (mnl_nested L a)
           \<and> presents L ps as')"
  by (simp add: presents_nest_iff)

lemma decode_gact_presents:
  assumes "presents L [Put_gact TCA_GACT_PARMS p] (mnl_nested L a)"
  shows "decode_nlattr_tc_act_gact_cb L a r = Some (MNL_CB_OK,
    if act_ext_cmp (gact_action p) TC_ACT_GOTO_CHAIN
    then (add_trait TC_RULE_HAVE_GOTO r)\<lparr>tcr_goto_target := gact_action p AND TC_ACT_EXT_VAL_MASK\<rparr>
    else if gact_action p = TC_ACT_TRAP then add_trait TC_RULE_HAVE_TRAP r else r)"
  using assms by (auto simp: decode_nlattr_tc_act_gact_cb_def presents_simps parse_simps)

lemma decode_vlan_presents:
  assumes "presents L [Put_vlan TCA_VLAN_PARMS p, Put_u16 TCA_VLAN_PUSH_VLAN_ID v] (mnl_nested L a)"
    and "vlan_v_action p = TCA_VLAN_ACT_MODIFY" "v > 0"
  shows "decode_nlattr_tc_act_vlan_cb L a r =
    Some (MNL_CB_OK, (add_trait TC_RULE_HAVE_VLAN_MOD r)\<lparr>tcr_vlan_id := v\<rparr>)"
  using assms by (auto simp: decode_nlattr_tc_act_vlan_cb_def presents_simps parse_simps)

lemma decode_mirred_presents:
  assumes "presents L [Put_mirred TCA_MIRRED_PARMS p] (mnl_nested L a)"
    and "mirred_eaction p = TCA_EGRESS_REDIR"
  shows "decode_nlattr_tc_act_mirred_cb L a r = Some (MNL_CB_OK, r)"
  using assms by (auto simp: decode_nlattr_tc_act_mirred_cb_def presents_simps parse_simps)

lemma pedit_keys_ex_presents:
  assumes "presents L (Nest_start TCA_PEDIT_KEY_EX # Put_u16 TCA_PEDIT_KEY_EX_CMD cmd #
      Put_u16 TCA_PEDIT_KEY_EX_HTYPE htype # Nest_end # ps) as"
    and "length filled < nkeys"
  obtains as' where "presents L ps as'"
    "decode_nlattr_tc_act_pedit_keys_ex L nkeys as filled =
     decode_nlattr_tc_act_pedit_keys_ex L nkeys as' (filled @ [(htype, cmd)])"
  using assms by (auto simp: presents_simps parse_simps)

lemma decode_act_presents:
  assumes "presents L (tce_action_start n kind @ body @ tce_action_end @ ps) as"
    and bal: "\<And>n qs. split_nest n (body @ qs) = (body @ fst (split_nest n qs), snd (split_nest n qs))"
  obtains a opts as' where "as = a # as'" "presents L body (mnl_nested L opts)" "presents L ps as'"
    "mnl_type L a = n" "mnl_validate L a MNL_TYPE_NESTED"
    "\<And>r. decode_nlattr_tc_act_cb L a r = tc_act_helper L kind (Some opts) r"
  using assms
  by (auto simp: tce_action_start_def tce_action_end_def presents_simps parse_simps
      decode_nlattr_tc_act_cb_def decode_nlattr_tc_act_attr_cb_def)

lemma le32_of_be32: "le32 (of_be32 a b c d) = [d, c, b, a]"
proof -
  have "ucast (drop_bit 24 (of_be32 a b c d)) = a" "ucast (drop_bit 16 (of_be32 a b c d)) = b"
    "ucast (drop_bit 8 (of_be32 a b c d)) = c" "ucast (of_be32 a b c d) = d"
    by (rule bit_word_eqI, auto simp: bit_of_be32 bit_simps dest: bit_imp_le_length)+
  then show ?thesis by (simp add: le32_def be32_def)
qed

lemma length_12_conv:
  "length l = 12 \<Longrightarrow> \<exists>a b c d e f g h i j k m. l = [a,b,c,d,e,f,g,h,i,j,k,m]"
  by (auto simp: eval_nat_numeral length_Suc_conv)

lemma lladdr_words_complete:
  assumes "length l = 12" "length z = 12"
  shows "lladdr_set_raw (lladdr_set_raw (lladdr_set_raw z 0 (lladdr_raw l 0)) 1 (lladdr_raw l 1)) 2
    (lladdr_raw l 2) = l"
proof -
  obtain a b c d e f g h i j k m where "l = [a,b,c,d,e,f,g,h,i,j,k,m]"
    using length_12_conv [OF assms(1)] by blast
  moreover obtain a' b' c' d' e' f' g' h' i' j' k' m' where "z = [a',b',c',d',e',f',g',h',i',j',k',m']"
    using length_12_conv [OF assms(2)] by blast
  ultimately show ?thesis
    by (simp add: lladdr_raw_def lladdr_set_raw_def le32_of_be32)
qed

lemma add_trait_idem [simp]:
  "add_trait t (add_trait t r) = add_trait t r"
  by (cases r) (simp add: add_trait_def or.assoc)

lemma add_trait_lladdr:
  "add_trait t (r\<lparr>tcr_lladdr := l\<rparr>) = (add_trait t r)\<lparr>tcr_lladdr := l\<rparr>"
  "tcr_lladdr (add_trait t r) = tcr_lladdr r"
  by (simp_all add: add_trait_def)

definition pedit_body :: "tc_rule \<Rightarrow> mnl_put list" where
  "pedit_body r = [Nest_start TCA_PEDIT_KEYS_EX]
      @ tce_pedit_ex_eth @ tce_pedit_ex_eth @ tce_pedit_ex_eth @ tce_pedit_ex_ttl (aa_af (tcr_af_addr r))
      @ [Nest_end]
      @ [Put_pedit TCA_PEDIT_PARMS_EX \<lparr>sel_action = TC_ACT_PIPE, sel_nkeys = 4,
           sel_keys = [tce_pedit_eth_key r 0, tce_pedit_eth_key r 1, tce_pedit_eth_key r 2,
             tce_pedit_ttl_key (aa_af (tcr_af_addr r))]\<rparr>]"

lemma tce_pedit_eth_key_off:
  "i < 3 \<Longrightarrow> key_off (tce_pedit_eth_key r i) mod 4 = 0 \<and> \<not> key_off (tce_pedit_eth_key r i) > 8
     \<and> unat (drop_bit 2 (key_off (tce_pedit_eth_key r i))) = i"
  by (auto simp: tce_pedit_eth_key_def less_Suc_eq numeral_3_eq_3)

lemma pedit_keys_loop_eth:
  assumes "i < 3"
  shows "pedit_keys_loop (Suc n) (tce_pedit_eth_key r i # keys) ((PEDIT_HDR_TYPE_ETH, PEDIT_CMD_SET) # kex) q =
    pedit_keys_loop n keys kex (add_trait TC_RULE_HAVE_LLADDR
      (q\<lparr>tcr_lladdr := lladdr_set_raw (tcr_lladdr q) i (lladdr_raw (tcr_lladdr r) i)\<rparr>))"
proof -
  have "key_mask (tce_pedit_eth_key r i) = 0"
    "key_val (tce_pedit_eth_key r i) = lladdr_raw (tcr_lladdr r) i"
    by (simp_all add: tce_pedit_eth_key_def)
  with tce_pedit_eth_key_off [OF assms, of r] show ?thesis by (simp add: Let_def)
qed

lemma pedit_keys_loop_ttl:
  assumes "htype \<in> {PEDIT_HDR_TYPE_IP4, PEDIT_HDR_TYPE_IP6}"
  shows "pedit_keys_loop (Suc n) keys ((htype, PEDIT_CMD_ADD) # kex) q =
    pedit_keys_loop n (tl keys) kex (add_trait TC_RULE_HAVE_TTL_DEC q)"
  using assms by (auto simp: pedit_defs)

lemma pedit_keys_loop_encoded:
  assumes "length (tcr_lladdr q) = 12" "length (tcr_lladdr r) = 12"
    and "htype \<in> {PEDIT_HDR_TYPE_IP4, PEDIT_HDR_TYPE_IP6}"
  shows "pedit_keys_loop 4 [tce_pedit_eth_key r 0, tce_pedit_eth_key r (Suc 0),
      tce_pedit_eth_key r 2, k]
     [(PEDIT_HDR_TYPE_ETH, PEDIT_CMD_SET), (PEDIT_HDR_TYPE_ETH, PEDIT_CMD_SET),
      (PEDIT_HDR_TYPE_ETH, PEDIT_CMD_SET), (htype, PEDIT_CMD_ADD)] q =
     Some (add_trait TC_RULE_HAVE_TTL_DEC (add_trait TC_RULE_HAVE_LLADDR q)\<lparr>tcr_lladdr := tcr_lladdr r\<rparr>)"
proof -
  have four: "4 = Suc (Suc (Suc (Suc 0)))" by simp
  show ?thesis
    using lladdr_words_complete [of "tcr_lladdr r" "tcr_lladdr q"] assms
    unfolding four
    by (simp add: pedit_keys_loop_eth pedit_keys_loop_ttl add_trait_lladdr del: pedit_keys_loop.simps(2))
qed

lemma decode_pedit_presents:
  assumes "presents L (pedit_body r) (mnl_nested L a)"
    and "aa_af (tcr_af_addr r) \<in> {AF_INET, AF_INET6}"
    and "length (tcr_lladdr q) = 12" "length (tcr_lladdr r) = 12"
  shows "decode_nlattr_tc_act_pedit_cb L a q = Some (MNL_CB_OK,
    add_trait TC_RULE_HAVE_TTL_DEC (add_trait TC_RULE_HAVE_LLADDR q)\<lparr>tcr_lladdr := tcr_lladdr r\<rparr>)"
  using assms
  by (auto simp: decode_nlattr_tc_act_pedit_cb_def pedit_body_def presents_simps parse_simps
     tce_pedit_ex_eth_def tce_pedit_ex_ttl_def pedit_keys_loop_encoded)

section \<open>Prefix masks\<close>

lemma count_ones_loop_ff:
  "count_ones_loop (replicate n 0xff @ os) c r = count_ones_loop os (c + 8 * of_nat n) r"
  by (induction n arbitrary: c) (simp_all add: algebra_simps)

lemma octet_ones_shift:
  assumes "k < 8" "0 < k"
  shows "octet_ones (push_bit k 0xff) = Some (of_nat (8 - k)) \<and> push_bit k 0xff \<noteq> (0xff :: u8)"
proof -
  have "k = 1 \<or> k = 2 \<or> k = 3 \<or> k = 4 \<or> k = 5 \<or> k = 6 \<or> k = 7" using assms by linarith
  then show ?thesis by (elim disjE) (simp_all add: octet_ones_def push_bit_eq_mult)
qed

lemma tce_ipv6_mask_loop_0:
  "tce_ipv6_mask_loop i 0 acc = replicate i 0xff @ acc"
  by (induction i arbitrary: acc) (simp_all add: replicate_app_Cons_same)

text \<open>\<open>rem = 8 * q + k\<close> zero bits end in \<open>q\<close> zero bytes after a partial one.\<close>

lemma tce_ipv6_mask_loop_closed:
  assumes "unat rem = 8 * q + k" "k < 8" "q < i"
  shows "tce_ipv6_mask_loop i rem acc =
    replicate (i - Suc q) 0xff @ push_bit k 0xff # replicate q 0 @ acc"
  using assms
proof (induction q arbitrary: i rem acc)
  case 0
  then obtain j where i: "i = Suc j" by (cases i) auto
  have "\<not> rem \<ge> 8" using 0 by (simp add: word_le_nat_alt)
  with i 0 show ?case by (simp add: tce_ipv6_mask_loop_0)
next
  case (Suc q)
  then obtain j where i: "i = Suc j" by (cases i) auto
  have ge: "rem \<ge> 8" using Suc by (simp add: word_le_nat_alt)
  then have "unat (rem - 8) = 8 * q + k" using Suc by (simp add: unat_sub)
  from Suc.IH [OF this] Suc.prems i ge show ?case
    by (simp add: replicate_app_Cons_same)
qed

lemma tce_ipv6_mask_loop_all:
  "unat rem = 8 * i \<Longrightarrow> tce_ipv6_mask_loop i rem acc = replicate i 0 @ acc"
proof (induction i arbitrary: rem acc)
  case (Suc i)
  then have ge: "rem \<ge> 8" by (simp add: word_le_nat_alt)
  then have "unat (rem - 8) = 8 * i" using Suc by (simp add: unat_sub)
  from Suc.IH [OF this] ge show ?case by (simp add: replicate_app_Cons_same)
qed simp

lemma tce_build_ipv6_mask_closed:
  assumes "m \<le> 128" "unat m = 8 * p + b" "b < 8" "p < 16"
  shows "tce_build_ipv6_mask m =
    replicate p 0xff @ (if b = 0 then 0 else push_bit (8 - b) 0xff) # replicate (15 - p) 0"
proof -
  have rem: "unat (128 - m) = 128 - (8 * p + b)"
    using assms by (simp add: unat_sub)
  show ?thesis
  proof (cases "b = 0")
    case True
    show ?thesis
    proof (cases "p = 0")
      case True
      with \<open>b = 0\<close> assms have "m = 0" by (simp add: unat_eq_zero)
      with True \<open>b = 0\<close> show ?thesis
        using tce_ipv6_mask_loop_all [of "128" 16 "[]"] by (simp add: tce_build_ipv6_mask_def flip: replicate_Suc)
    next
      case False
      with rem True assms have "unat (128 - m) = 8 * (16 - p) + 0" "16 - p < 16" by auto
      from tce_ipv6_mask_loop_closed [OF this(1) _ this(2), of "[]"] False True assms
      have "tce_build_ipv6_mask m = replicate (p - 1) 0xff @ 0xff # replicate (16 - p) 0"
        by (simp add: tce_build_ipv6_mask_def)
      moreover have "16 - p = Suc (15 - p)" using assms by simp
      moreover have "replicate p (0xff :: u8) = replicate (p - 1) 0xff @ [0xff]"
        using False by (cases p) (simp_all add: replicate_append_same)
      ultimately show ?thesis using True by simp
    qed
  next
    case False
    with rem assms have "unat (128 - m) = 8 * (15 - p) + (8 - b)" "8 - b < 8" "15 - p < 16" by auto
    from tce_ipv6_mask_loop_closed [OF this, of "[]"] False assms show ?thesis
      by (simp add: tce_build_ipv6_mask_def)
  qed
qed

lemma tce_build_ipv6_mask_128: "tce_build_ipv6_mask 128 = replicate 16 0xff"
  by (simp add: tce_build_ipv6_mask_def tce_ipv6_mask_loop_0)

lemma u8_div8: 
  assumes "(m :: u8) \<le> 128" "m \<noteq> 128"
  obtains p b where "unat m = 8 * p + b" "b < 8" "p < 16"
proof -
  have "unat m < 128"
    using assms by (simp add: word_le_nat_alt order_less_le word_unat_eq_iff)
  then show thesis by (intro that [of "unat m div 8" "unat m mod 8"]) auto
qed


text \<open>Every prefix length survives the mask: what \<open>tce_build_ipv6_mask\<close> writes, \<open>count_ones\<close> reads.\<close>

lemma count_ones_ipv6_mask:
  assumes "m \<le> 128"
  shows "count_ones_loop (tce_build_ipv6_mask m) 0 r = Some (m, r)"
proof (cases "m = 128")
  case True
  then show ?thesis
    using count_ones_loop_ff [of 16 "[]" 0 r] by (simp add: tce_build_ipv6_mask_128)
next
  case False
  then obtain p b where pb: "unat m = 8 * p + b" "b < 8" "p < 16"
    using assms by (rule_tac u8_div8)
  have "of_nat (unat m) = m" by simp
  then have m: "8 * of_nat p + of_nat b = m" using pb by simp
  show ?thesis
  proof (cases "b = 0")
    case True
    with m pb show ?thesis
      by (simp add: tce_build_ipv6_mask_closed [OF assms pb] count_ones_loop_ff octet_ones_def)
  next
    case False
    with pb octet_ones_shift [of "8 - b"] m show ?thesis
      by (simp add: tce_build_ipv6_mask_closed [OF assms pb] count_ones_loop_ff)
  qed
qed

lemma length_tce_ipv6_mask_loop: "length (tce_ipv6_mask_loop i rem acc) = i + length acc"
  by (induction i arbitrary: rem acc) auto

lemma count_ones_ipv4_mask:
  assumes "k \<le> 32" "0 < k"
  shows "count_ones_loop (be32 (push_bit (32 - k) 0xffffffff)) 0 r = Some (of_nat k, r)"
proof -
  have "k \<in> set [1..<33]" using assms by auto
  then show ?thesis
    by (simp add: upt_conv_Cons) (elim disjE; simp add: be32_def push_bit_eq_mult drop_bit_eq_div octet_ones_def)
qed

section \<open>Words of the message header\<close>

lemma prio_of_tcm_info:
  "ucast (drop_bit 16 (TC_H_MAJ (TC_H_MAKE (push_bit 16 (ucast prio)) low))) = (prio :: u16)"
proof -
  have hi: "(0xFFFF0000 :: u32) = push_bit 16 (mask 16)" by (simp add: mask_eq_exp_minus_1 push_bit_eq_mult)
  have lo: "(0x0000FFFF :: u32) = mask 16" by (simp add: mask_eq_exp_minus_1)
  show ?thesis
    unfolding TC_H_MAJ_def TC_H_MAKE_def hi lo
    by (rule bit_word_eqI) (auto simp: bit_simps dest: bit_imp_le_length)
qed

lemma val_mask_eq: "TC_ACT_EXT_VAL_MASK = mask 28"
  by (simp add: TC_ACT_EXT_VAL_MASK_def mask_eq_exp_minus_1)

lemma goto_action:
  assumes "g \<le> TC_ACT_EXT_VAL_MASK"
  shows "act_ext_cmp (TC_ACT_GOTO_CHAIN OR g) TC_ACT_GOTO_CHAIN"
    "(TC_ACT_GOTO_CHAIN OR g) AND TC_ACT_EXT_VAL_MASK = g"
proof -
  have "g < 2 ^ 28"
    using assms by (simp add: TC_ACT_EXT_VAL_MASK_def word_le_nat_alt word_less_nat_alt)
  then have gm: "g AND mask 28 = g" by (simp add: less_mask_eq)
  have "g AND NOT (mask 28) = (g AND mask 28) AND NOT (mask 28)" unfolding gm ..
  then have z: "g AND NOT (mask 28) = 0" by (simp only: and.assoc word_and_not and_zero_eq)
  show "(TC_ACT_GOTO_CHAIN OR g) AND TC_ACT_EXT_VAL_MASK = g"
    unfolding val_mask_eq using gm
    by (simp add: bit.conj_disj_distrib2 TC_ACT_GOTO_CHAIN_def mask_eq_exp_minus_1)
  show "act_ext_cmp (TC_ACT_GOTO_CHAIN OR g) TC_ACT_GOTO_CHAIN"
    unfolding act_ext_cmp_def val_mask_eq using z
    by (simp add: bit.conj_disj_distrib2 TC_ACT_GOTO_CHAIN_def mask_eq_exp_minus_1)
qed

section \<open>Rules that survive the codec\<close>

definition received :: "nlmsg \<Rightarrow> 'a libmnl \<Rightarrow> 'a rx_msg \<Rightarrow> bool" where
  "received m L rx \<longleftrightarrow> rx_type rx = nlmsg_type m \<and> rx_tcm rx = nlmsg_tcm m
     \<and> presents L (nlmsg_puts m) (rx_attrs rx)"

definition prefix_ok :: "af_addr \<Rightarrow> bool" where
  "prefix_ok a \<longleftrightarrow> wf_af_addr a \<and> aa_pad a = [0, 0]
     \<and> (aa_af a = AF_INET \<and> aa_mask_len a \<le> 32 \<and> drop 4 (aa_in a) = replicate 12 0
          \<and> (aa_mask_len a = 0 \<longrightarrow> aa_in a = replicate 16 0)
        \<or> aa_af a = AF_INET6 \<and> aa_mask_len a \<le> 128)"

definition family_only :: "af_addr \<Rightarrow> bool" where
  "family_only a \<longleftrightarrow> aa_af a \<in> {AF_INET, AF_INET6} \<and> a = zero_af_addr\<lparr>aa_af := aa_af a\<rparr>"

definition encodable :: "tc_rule \<Rightarrow> bool" where
  "encodable r \<longleftrightarrow> tcr_traits r = type_traits (tcr_type r) \<and> tcr_ttl r = 0
     \<and> (case tcr_type r of
          TC_RULE_TYPE_FORWARD \<Rightarrow> family_only (tcr_af_addr r) \<and> tcr_vlan_id r > 0
            \<and> tcr_goto_target r = 0 \<and> length (tcr_lladdr r) = 12
        | TC_RULE_TYPE_ROUTE_TRAP \<Rightarrow> prefix_ok (tcr_af_addr r) \<and> tcr_vlan_id r = 0
            \<and> tcr_goto_target r = 0 \<and> tcr_lladdr r = replicate 12 0
            \<and> \<not> (aa_af (tcr_af_addr r) = AF_INET \<and> aa_mask_len (tcr_af_addr r) = 0)
        | TC_RULE_TYPE_ROUTE_GOTO \<Rightarrow> prefix_ok (tcr_af_addr r) \<and> tcr_vlan_id r = 0
            \<and> tcr_goto_target r \<le> TC_ACT_EXT_VAL_MASK \<and> tcr_lladdr r = replicate 12 0
        | TC_RULE_TYPE_TTL_CHECK \<Rightarrow> family_only (tcr_af_addr r) \<and> tcr_vlan_id r = 0
            \<and> tcr_goto_target r = 0 \<and> tcr_lladdr r = replicate 12 0
        | _ \<Rightarrow> False)"

definition eth_of :: "u8 \<Rightarrow> u16" where
  "eth_of f = (if f = AF_INET then ETH_P_IP else ETH_P_IPV6)"

lemma eth_of_pos [simp]: "eth_of f \<noteq> 0" "0 < eth_of f"
  by (simp_all add: eth_of_def eth_defs word_gt_0)

text \<open>The attributes of every loopback add request around its type-specific part.\<close>

definition add_puts :: "u32 \<Rightarrow> tc_rule \<Rightarrow> mnl_put list \<Rightarrow> mnl_put list" where
  "add_puts chain_no r body = Put_u32 TCA_CHAIN chain_no # Put_strz TCA_KIND ''flower''
     # Nest_start TCA_OPTIONS # Put_u32 TCA_FLOWER_FLAGS (tcr_flower_flags r)
     # Put_u16 TCA_FLOWER_KEY_VLAN_ETH_TYPE (htons (eth_of (aa_af (tcr_af_addr r))))
     # Put_u16 TCA_FLOWER_KEY_ETH_TYPE (htons (eth_of (aa_af (tcr_af_addr r))))
     # body @ [Nest_end]"

definition type_body :: "config \<Rightarrow> tc_rule \<Rightarrow> nat \<Rightarrow> mnl_put list option" where
  "type_body cfg r flags = (case tcr_type r of
         TC_RULE_TYPE_FORWARD \<Rightarrow> Some (tce_add_ip_forward_rule cfg r)
       | TC_RULE_TYPE_ROUTE_TRAP \<Rightarrow> tce_add_ip_gact_rule r flags TC_ACT_TRAP
       | TC_RULE_TYPE_ROUTE_GOTO \<Rightarrow>
           tce_add_ip_gact_rule r flags (TC_ACT_GOTO_CHAIN OR tcr_goto_target r)
       | TC_RULE_TYPE_TTL_CHECK \<Rightarrow> Some tce_add_tll_check_rule
       | _ \<Rightarrow> None)"

lemma tc_encode_add_rule_eq:
  assumes "tc_encode_add_rule cfg chain_no prio r TCE_FLAG_LOOPBACK = Some m"
  obtains body where "type_body cfg r TCE_FLAG_LOOPBACK = Some body"
    "nlmsg_type m = RTM_NEWTFILTER" "nlmsg_puts m = add_puts chain_no r body"
    "tcm_handle (nlmsg_tcm m) = 1"
    "ucast (drop_bit 16 (TC_H_MAJ (tcm_info (nlmsg_tcm m)))) = prio"
    "aa_af (tcr_af_addr r) \<in> {AF_INET, AF_INET6}"
  using assms
  by (auto simp: tc_encode_add_rule_def tce_new_flower_rule_def tce_flower_set_eth_type_def
      is_loopback_def TCE_FLAG_LOOPBACK_def add_puts_def tce_set_tcm_def prio_of_tcm_info
      eth_of_def type_body_def Let_def split: if_splits elim!: bind_SomeE)

text \<open>What the decoder makes of the flower options, given what it makes of the body.\<close>

definition balanced :: "mnl_put list \<Rightarrow> bool" where
  "balanced ps \<longleftrightarrow>
     (\<forall>n qs. split_nest n (ps @ qs) = (ps @ fst (split_nest n qs), snd (split_nest n qs)))"


section \<open>Flower options\<close>

definition flower_puts :: "tc_rule \<Rightarrow> mnl_put list \<Rightarrow> mnl_put list" where
  "flower_puts r body = Put_u32 TCA_FLOWER_FLAGS (tcr_flower_flags r)
     # Put_u16 TCA_FLOWER_KEY_VLAN_ETH_TYPE (htons (eth_of (aa_af (tcr_af_addr r))))
     # Put_u16 TCA_FLOWER_KEY_ETH_TYPE (htons (eth_of (aa_af (tcr_af_addr r))))
     # body"

lemma balancedD: "balanced ps \<Longrightarrow> split_nest n (ps @ qs) = (ps @ fst (split_nest n qs), snd (split_nest n qs))"
  unfolding balanced_def by blast

lemma try_decode_filter_add:
  assumes "presents L (add_puts chain_no r body) (rx_attrs rx)" "balanced body"
    and "tcm_handle (rx_tcm rx) = 1" "rx_type rx = RTM_NEWTFILTER"
    and prio: "ucast (drop_bit 16 (TC_H_MAJ (tcm_info (rx_tcm rx)))) = prio"
  obtains opts where "presents L (flower_puts r body) (mnl_nested L opts)"
    "\<And>q q'. decode_flower L opts zero_tc_rule = Some (MNL_CB_OK, q) \<Longrightarrow>
       tc_rule_set_type (snd (tc_rule_detect q)) (fst (tc_rule_detect q)) = Some q' \<Longrightarrow>
       try_decode_filter L rx = Some (MNL_CB_OK, \<lparr>tdr_is_done = True, tdr_chain_no = chain_no,
         tdr_prio = prio, tdr_tcr = q'\<rparr>)"
proof -
  have bal: "split_nest 0 (flower_puts r body @ [Nest_end]) = (flower_puts r body, [])"
    using balancedD [OF assms(2)] by (simp add: flower_puts_def Let_def)
  have "add_puts chain_no r body = Put_u32 TCA_CHAIN chain_no # Put_strz TCA_KIND ''flower''
     # Nest_start TCA_OPTIONS # flower_puts r body @ [Nest_end]"
    by (simp add: add_puts_def flower_puts_def)
  with assms(1) obtain c k opts where as: "rx_attrs rx = [c, k, opts]"
    and p: "mnl_type L c = TCA_CHAIN" "mnl_u32 L c = Some chain_no" "mnl_validate L c MNL_TYPE_U32"
      "mnl_type L k = TCA_KIND" "mnl_str L k = ''flower''" "mnl_validate L k MNL_TYPE_NUL_STRING"
      "mnl_type L opts = TCA_OPTIONS" "mnl_validate L opts MNL_TYPE_NESTED"
    and inner: "presents L (flower_puts r body) (mnl_nested L opts)"
    using bal by (auto simp: presents_simps)
  show thesis
    by (rule that [OF inner])
      (simp add: try_decode_filter_def as p parse_simps zero_tdr_def assms split_beta prio)
qed

lemma decode_simple_gact:
  assumes "presents L (tce_simple_gact action @ ps) as"
  obtains a as' where "as = a # as'" "presents L ps as'" "mnl_type L a = TCA_FLOWER_ACT" "mnl_validate L a MNL_TYPE_NESTED"
    "\<And>q. mnl_attr_parse (decode_nlattr_tc_act_cb L) (mnl_nested L a) q = Some (MNL_CB_OK,
       if act_ext_cmp action TC_ACT_GOTO_CHAIN
       then (add_trait TC_RULE_HAVE_GOTO q)\<lparr>tcr_goto_target := action AND TC_ACT_EXT_VAL_MASK\<rparr>
       else if action = TC_ACT_TRAP then add_trait TC_RULE_HAVE_TRAP q else q)"
proof -
  obtain a as' where a: "as = a # as'" "presents L ps as'" "mnl_type L a = TCA_FLOWER_ACT" "mnl_validate L a MNL_TYPE_NESTED"
    and p: "presents L (tce_action_start 1 ''gact'' @ [Put_gact TCA_GACT_PARMS \<lparr>gact_action = action\<rparr>]
       @ tce_action_end @ []) (mnl_nested L a)"
    using assms by (auto simp: tce_simple_gact_def tce_action_start_def tce_action_end_def presents_simps)
  obtain b opts where
    b: "mnl_nested L a = [b]" "presents L [Put_gact TCA_GACT_PARMS \<lparr>gact_action = action\<rparr>] (mnl_nested L opts)"
    "\<And>r. decode_nlattr_tc_act_cb L b r = tc_act_helper L ''gact'' (Some opts) r"
    by (rule decode_act_presents [OF p]) (auto simp: Let_def)
  show thesis
    by (rule that [OF a]) (simp add: b tc_act_helper_def decode_gact_presents [OF b(2)])
qed

lemma balanced_simple_gact: "balanced (tce_simple_gact action)"
  by (simp add: balanced_def tce_simple_gact_def tce_action_start_def tce_action_end_def Let_def)

text \<open>
  The common part of a flower option nest. \<open>tb0\<close> is the table after its three attributes;
  the rest of the nest must leave them alone, and decides the outcome by \<open>flower_tail\<close>.
\<close>

definition flower_tail :: "'a libmnl \<Rightarrow> tc_rule \<Rightarrow> (nat \<rightharpoonup> 'a) \<Rightarrow> tc_rule \<Rightarrow> tc_rule option" where
  "flower_tail L r tb q = do {
     a \<leftarrow> tb TCA_FLOWER_ACT;
     (ret, q) \<leftarrow> mnl_attr_parse (decode_nlattr_tc_act_cb L) (mnl_nested L a) q;
     AN (ret = MNL_CB_OK);
     q \<leftarrow> decode_ttl L (tb TCA_FLOWER_KEY_IP_TTL) (q\<lparr>tcr_flower_flags := tcr_flower_flags r\<rparr>);
     if aa_af (tcr_af_addr r) = AF_INET
     then decode_flower_dst L AF_INET (tb TCA_FLOWER_KEY_IPV4_DST) (tb TCA_FLOWER_KEY_IPV4_DST_MASK) q
     else decode_flower_dst L AF_INET6 (tb TCA_FLOWER_KEY_IPV6_DST) (tb TCA_FLOWER_KEY_IPV6_DST_MASK) q
   }"

definition flower_rest :: "'a libmnl \<Rightarrow> tc_rule \<Rightarrow> 'a \<Rightarrow> 'a list \<Rightarrow> (nat \<rightharpoonup> 'a) \<Rightarrow> bool" where
  "flower_rest L r opts as tb0 \<longleftrightarrow> (\<forall>tb q q'.
      mnl_attr_parse (decode_nlattr L TCA_FLOWER_MAX tc_flower_attr_types) as tb0 = Some (MNL_CB_OK, tb) \<longrightarrow>
      tb TCA_FLOWER_FLAGS = tb0 TCA_FLOWER_FLAGS \<longrightarrow>
      tb TCA_FLOWER_KEY_VLAN_ETH_TYPE = tb0 TCA_FLOWER_KEY_VLAN_ETH_TYPE \<longrightarrow>
      tb TCA_FLOWER_KEY_ETH_TYPE = tb0 TCA_FLOWER_KEY_ETH_TYPE \<longrightarrow>
      flower_tail L r tb q = Some q' \<longrightarrow> decode_flower L opts q = Some (MNL_CB_OK, q'))"

lemma flower_restD:
  "flower_rest L r opts as tb0 \<Longrightarrow>
      mnl_attr_parse (decode_nlattr L TCA_FLOWER_MAX tc_flower_attr_types) as tb0 = Some (MNL_CB_OK, tb) \<Longrightarrow>
      tb TCA_FLOWER_FLAGS = tb0 TCA_FLOWER_FLAGS \<Longrightarrow>
      tb TCA_FLOWER_KEY_VLAN_ETH_TYPE = tb0 TCA_FLOWER_KEY_VLAN_ETH_TYPE \<Longrightarrow>
      tb TCA_FLOWER_KEY_ETH_TYPE = tb0 TCA_FLOWER_KEY_ETH_TYPE \<Longrightarrow>
      flower_tail L r tb q = Some q' \<Longrightarrow> decode_flower L opts q = Some (MNL_CB_OK, q')"
  unfolding flower_rest_def by blast

lemma decode_flower_puts:
  assumes "presents L (flower_puts r body) (mnl_nested L opts)"
    and af: "aa_af (tcr_af_addr r) \<in> {AF_INET, AF_INET6}"
  obtains as tb0 where "presents L body as" "tb0 TCA_FLOWER_KEY_IP_TTL = None"
    "tb0 TCA_FLOWER_KEY_IPV4_DST = None" "tb0 TCA_FLOWER_KEY_IPV6_DST = None"
    "flower_rest L r opts as tb0"
proof -
  let ?eth = "eth_of (aa_af (tcr_af_addr r))"
  from assms(1) obtain fl ve et as where n: "mnl_nested L opts = fl # ve # et # as"
    and p: "mnl_type L fl = TCA_FLOWER_FLAGS" "mnl_u32 L fl = Some (tcr_flower_flags r)"
      "mnl_validate L fl MNL_TYPE_U32"
      "mnl_type L ve = TCA_FLOWER_KEY_VLAN_ETH_TYPE" "mnl_u16 L ve = Some (htons ?eth)"
      "mnl_validate L ve MNL_TYPE_U16"
      "mnl_type L et = TCA_FLOWER_KEY_ETH_TYPE" "mnl_u16 L et = Some (htons ?eth)"
      "mnl_validate L et MNL_TYPE_U16"
    and body: "presents L body as"
    by (auto simp: flower_puts_def presents_put_iff is_leaf_put_def)
  let ?tb0 = "Map.empty(TCA_FLOWER_FLAGS \<mapsto> fl, TCA_FLOWER_KEY_VLAN_ETH_TYPE \<mapsto> ve,
    TCA_FLOWER_KEY_ETH_TYPE \<mapsto> et)"
  have parse: "parse_table L TCA_FLOWER_MAX tc_flower_attr_types (mnl_nested L opts) =
      mnl_attr_parse (decode_nlattr L TCA_FLOWER_MAX tc_flower_attr_types) as ?tb0"
    by (simp add: n p parse_table_def decode_nlattr_def tc_flower_attr_types_def)
  show thesis
    by (rule that [OF body, of ?tb0])
      (insert af, auto simp: p parse flower_rest_def decode_flower_def flower_tail_def ntohs_or_zero_def eth_of_def
        ETH_P_IP_def ETH_P_IPV6_def elim!: bind_SomeE)
qed

lemma decode_flower_ttl_check:
  assumes "presents L (flower_puts r tce_add_tll_check_rule) (mnl_nested L opts)"
    and af: "aa_af (tcr_af_addr r) \<in> {AF_INET, AF_INET6}"
  shows "decode_flower L opts q = Some (MNL_CB_OK, add_trait TC_RULE_HAVE_AF
    (add_trait TC_RULE_HAVE_TTL_CHECK (add_trait TC_RULE_HAVE_TRAP q)
      \<lparr>tcr_flower_flags := tcr_flower_flags r,
       tcr_af_addr := (tcr_af_addr q)\<lparr>aa_af := aa_af (tcr_af_addr r)\<rparr>\<rparr>))"
proof -
  obtain as tb0 where p: "presents L tce_add_tll_check_rule as" 
    and tb0: "tb0 TCA_FLOWER_KEY_IPV4_DST = None" "tb0 TCA_FLOWER_KEY_IPV6_DST = None"
    and decode: "flower_rest L r opts as tb0"
    using decode_flower_puts [OF assms] by blast
  obtain ttl tm rest where as: "as = ttl # tm # rest"
    and a: "mnl_type L ttl = TCA_FLOWER_KEY_IP_TTL" "mnl_u8 L ttl = Some 1" "mnl_validate L ttl MNL_TYPE_U8"
      "mnl_type L tm = TCA_FLOWER_KEY_IP_TTL_MASK" "mnl_validate L tm MNL_TYPE_U8"
    and g: "presents L (tce_simple_gact TC_ACT_TRAP @ []) rest"
    using p by (auto simp: tce_add_tll_check_rule_def presents_put_iff is_leaf_put_def)
  from decode_simple_gact [OF g] obtain b where b: "rest = [b]" "mnl_type L b = TCA_FLOWER_ACT"
    "mnl_validate L b MNL_TYPE_NESTED" "\<And>q. mnl_attr_parse (decode_nlattr_tc_act_cb L) (mnl_nested L b) q
      = Some (MNL_CB_OK, add_trait TC_RULE_HAVE_TRAP q)"
    by (auto simp: act_ext_cmp_def act_defs)
  show ?thesis
    by (rule flower_restD [OF decode, of "tb0(TCA_FLOWER_KEY_IP_TTL \<mapsto> ttl, TCA_FLOWER_KEY_IP_TTL_MASK \<mapsto> tm, TCA_FLOWER_ACT \<mapsto> b)"])
       (insert af, auto simp: as a b parse_simps flower_tail_def decode_ttl_def decode_flower_dst_def add_trait_def tb0 Let_def)
qed

text \<open>A rule without an IP match.\<close>

definition gact_traits :: "u32 \<Rightarrow> tc_rule \<Rightarrow> tc_rule" where
  "gact_traits action q =
     (if act_ext_cmp action TC_ACT_GOTO_CHAIN
       then (add_trait TC_RULE_HAVE_GOTO q)\<lparr>tcr_goto_target := action AND TC_ACT_EXT_VAL_MASK\<rparr>
       else if action = TC_ACT_TRAP then add_trait TC_RULE_HAVE_TRAP q else q)"

lemma decode_flower_gact_no_ip:
  assumes "presents L (flower_puts r (tce_simple_gact action)) (mnl_nested L opts)"
    and af: "aa_af (tcr_af_addr r) \<in> {AF_INET, AF_INET6}"
  shows "decode_flower L opts q = Some (MNL_CB_OK, add_trait TC_RULE_HAVE_AF
      ((gact_traits action q)\<lparr>tcr_flower_flags := tcr_flower_flags r,
       tcr_af_addr := (tcr_af_addr q)\<lparr>aa_af := aa_af (tcr_af_addr r)\<rparr>\<rparr>))"
proof -
  obtain as tb0 where p: "presents L (tce_simple_gact action @ []) as" 
    and tb0: "tb0 TCA_FLOWER_KEY_IP_TTL = None" "tb0 TCA_FLOWER_KEY_IPV4_DST = None" "tb0 TCA_FLOWER_KEY_IPV6_DST = None"
    and decode: "flower_rest L r opts as tb0"
    using decode_flower_puts [OF assms] by (metis append_Nil2)
  from decode_simple_gact [OF p] obtain b where b: "as = [b]" "mnl_type L b = TCA_FLOWER_ACT"
    "mnl_validate L b MNL_TYPE_NESTED" "\<And>q. mnl_attr_parse (decode_nlattr_tc_act_cb L) (mnl_nested L b) q
      = Some (MNL_CB_OK, gact_traits action q)"
    by (auto simp: gact_traits_def)
  show ?thesis
    by (rule flower_restD [OF decode, of "tb0(TCA_FLOWER_ACT \<mapsto> b)"])
       (insert af, auto simp: b parse_simps flower_tail_def decode_ttl_def decode_flower_dst_def
         add_trait_def tb0 Let_def gact_traits_def)
qed

lemma decode_flower_dst_v4:
  assumes "prefix_ok a" "aa_af a = AF_INET" "aa_mask_len a \<noteq> 0"
    and "mnl_bytes L d = [aa_in a ! 0, aa_in a ! 1, aa_in a ! 2, aa_in a ! 3]"
    and "mnl_bytes L m = be32 (push_bit (32 - unat (aa_mask_len a)) 0xffffffff)"
  shows "decode_flower_dst L AF_INET (Some d) (Some m) q = Some (add_trait TC_RULE_HAVE_IP
    (add_trait TC_RULE_HAVE_AF (q\<lparr>tcr_af_addr := a\<rparr>)))"
proof -
  let ?k = "unat (aa_mask_len a)"
  have k: "?k \<le> 32" "0 < ?k"
    using assms by (auto simp: prefix_ok_def word_le_nat_alt unat_gt_0)
  have "of_nat ?k = aa_mask_len a" by simp
  with count_ones_ipv4_mask [OF k] have ones: "count_ones_loop (mnl_bytes L m) 0 q' = Some (aa_mask_len a, q')" for q'
    by (simp add: assms(5))
  have len: "length (aa_in a) = 16" and z: "drop 4 (aa_in a) = replicate 12 0" "aa_pad a = [0, 0]"
    using assms by (auto simp: prefix_ok_def wf_af_addr_def)
  have t: "take 4 (aa_in a) = [aa_in a ! 0, aa_in a ! 1, aa_in a ! 2, aa_in a ! 3]"
    using len by (auto simp: length_Suc_conv numeral_eq_Suc)
  have "aa_in a = mnl_bytes L d @ replicate 12 0"
    using append_take_drop_id [of 4 "aa_in a"] by (simp only: assms(4) t z)
  then have "build_af_addr AF_INET (Some (mnl_bytes L d)) (aa_mask_len a) = Some a"
    using assms(2) z(2) by (simp add: build_af_addr_def assms(4) zero_af_addr_def numeral_2_eq_2)
  then show ?thesis
    by (simp add: decode_flower_dst_def count_ones_def ones add_trait_def Let_def)
qed

lemma decode_flower_dst_v6:
  assumes "prefix_ok a" "aa_af a = AF_INET6"
    and "mnl_bytes L d = aa_in a" "mnl_bytes L m = tce_build_ipv6_mask (aa_mask_len a)"
  shows "decode_flower_dst L AF_INET6 (Some d) (Some m) q = Some (add_trait TC_RULE_HAVE_IP
    (add_trait TC_RULE_HAVE_AF (q\<lparr>tcr_af_addr := a\<rparr>)))"
proof -
  have ones: "count_ones_loop (mnl_bytes L m) 0 q' = Some (aa_mask_len a, q')" for q'
    using assms by (auto simp: prefix_ok_def count_ones_ipv6_mask)
  have "build_af_addr AF_INET6 (Some (mnl_bytes L d)) (aa_mask_len a) = Some a"
    using assms by (auto simp: prefix_ok_def wf_af_addr_def build_af_addr_def zero_af_addr_def numeral_2_eq_2)
  then show ?thesis
    by (simp add: decode_flower_dst_def count_ones_def ones add_trait_def Let_def)
qed

lemma decode_flower_gact_v4:
  assumes "presents L (flower_puts r (Put_u32 TCA_FLOWER_KEY_IPV4_DST d # Put_u32 TCA_FLOWER_KEY_IPV4_DST_MASK m
      # tce_simple_gact action)) (mnl_nested L opts)"
    and ok: "prefix_ok (tcr_af_addr r)" "aa_af (tcr_af_addr r) = AF_INET" "aa_mask_len (tcr_af_addr r) \<noteq> 0"
    and d: "d = of_be32 (aa_in (tcr_af_addr r) ! 3) (aa_in (tcr_af_addr r) ! 2) (aa_in (tcr_af_addr r) ! 1) (aa_in (tcr_af_addr r) ! 0)"
    and m: "m = htonl (push_bit (32 - unat (aa_mask_len (tcr_af_addr r))) 0xffffffff)"
  shows "decode_flower L opts q = Some (MNL_CB_OK, add_trait TC_RULE_HAVE_IP (add_trait TC_RULE_HAVE_AF
      ((gact_traits action q)\<lparr>tcr_flower_flags := tcr_flower_flags r, tcr_af_addr := tcr_af_addr r\<rparr>)))"
proof -
  have af: "aa_af (tcr_af_addr r) \<in> {AF_INET, AF_INET6}" using ok by simp
  obtain as tb0 where p: "presents L (Put_u32 TCA_FLOWER_KEY_IPV4_DST d # Put_u32 TCA_FLOWER_KEY_IPV4_DST_MASK m
      # tce_simple_gact action @ []) as" and tb0: "tb0 TCA_FLOWER_KEY_IP_TTL = None"
    and decode: "flower_rest L r opts as tb0"
    using decode_flower_puts [OF assms(1) af] by (metis append_Nil2)
  obtain ad am rest where as: "as = ad # am # rest"
    and a: "mnl_type L ad = TCA_FLOWER_KEY_IPV4_DST" "mnl_bytes L ad = le32 d" "mnl_validate L ad MNL_TYPE_U32"
      "mnl_type L am = TCA_FLOWER_KEY_IPV4_DST_MASK" "mnl_bytes L am = le32 m" "mnl_validate L am MNL_TYPE_U32"
    and g: "presents L (tce_simple_gact action @ []) rest"
    using p by (auto simp: presents_put_iff is_leaf_put_def)
  from decode_simple_gact [OF g] obtain b where b: "rest = [b]" "mnl_type L b = TCA_FLOWER_ACT"
    "mnl_validate L b MNL_TYPE_NESTED" "\<And>q. mnl_attr_parse (decode_nlattr_tc_act_cb L) (mnl_nested L b) q
      = Some (MNL_CB_OK, gact_traits action q)"
    by (auto simp: gact_traits_def)
  have dst: "decode_flower_dst L AF_INET (Some ad) (Some am) q = Some (add_trait TC_RULE_HAVE_IP
    (add_trait TC_RULE_HAVE_AF (q\<lparr>tcr_af_addr := tcr_af_addr r\<rparr>)))" for q
    by (rule decode_flower_dst_v4 [OF ok]) (simp_all add: a d m le32_of_be32 le32_htonl)
  show ?thesis
    by (rule flower_restD [OF decode, of "tb0(TCA_FLOWER_KEY_IPV4_DST \<mapsto> ad, TCA_FLOWER_KEY_IPV4_DST_MASK \<mapsto> am, TCA_FLOWER_ACT \<mapsto> b)"])
       (simp_all add: as a b parse_simps flower_tail_def decode_ttl_def ok dst tb0)
qed

lemma decode_flower_gact_v6:
  assumes "presents L (flower_puts r (Put TCA_FLOWER_KEY_IPV6_DST (aa_in (tcr_af_addr r))
      # Put TCA_FLOWER_KEY_IPV6_DST_MASK (tce_build_ipv6_mask (aa_mask_len (tcr_af_addr r)))
      # tce_simple_gact action)) (mnl_nested L opts)"
    and ok: "prefix_ok (tcr_af_addr r)" "aa_af (tcr_af_addr r) = AF_INET6"
  shows "decode_flower L opts q = Some (MNL_CB_OK, add_trait TC_RULE_HAVE_IP (add_trait TC_RULE_HAVE_AF
      ((gact_traits action q)\<lparr>tcr_flower_flags := tcr_flower_flags r, tcr_af_addr := tcr_af_addr r\<rparr>)))"
proof -
  have af: "aa_af (tcr_af_addr r) \<in> {AF_INET, AF_INET6}" using ok by simp
  obtain as tb0 where p: "presents L (Put TCA_FLOWER_KEY_IPV6_DST (aa_in (tcr_af_addr r))
      # Put TCA_FLOWER_KEY_IPV6_DST_MASK (tce_build_ipv6_mask (aa_mask_len (tcr_af_addr r)))
      # tce_simple_gact action @ []) as" and tb0: "tb0 TCA_FLOWER_KEY_IP_TTL = None"
    and decode: "flower_rest L r opts as tb0"
    using decode_flower_puts [OF assms(1) af] by (metis append_Nil2)
  obtain ad am rest where as: "as = ad # am # rest"
    and a: "mnl_type L ad = TCA_FLOWER_KEY_IPV6_DST" "mnl_bytes L ad = aa_in (tcr_af_addr r)" "mnl_validate L ad MNL_TYPE_BINARY"
      "mnl_type L am = TCA_FLOWER_KEY_IPV6_DST_MASK" "mnl_bytes L am = tce_build_ipv6_mask (aa_mask_len (tcr_af_addr r))" "mnl_validate L am MNL_TYPE_BINARY"
    and g: "presents L (tce_simple_gact action @ []) rest"
    using p by (auto simp: presents_put_iff is_leaf_put_def)
  from decode_simple_gact [OF g] obtain b where b: "rest = [b]" "mnl_type L b = TCA_FLOWER_ACT"
    "mnl_validate L b MNL_TYPE_NESTED" "\<And>q. mnl_attr_parse (decode_nlattr_tc_act_cb L) (mnl_nested L b) q
      = Some (MNL_CB_OK, gact_traits action q)"
    by (auto simp: gact_traits_def)
  show ?thesis
    by (rule flower_restD [OF decode, of "tb0(TCA_FLOWER_KEY_IPV6_DST \<mapsto> ad, TCA_FLOWER_KEY_IPV6_DST_MASK \<mapsto> am, TCA_FLOWER_ACT \<mapsto> b)"])
       (simp_all add: as a b parse_simps flower_tail_def decode_ttl_def ok decode_flower_dst_v6 tb0)
qed

section \<open>Forwarding rules\<close>

definition forward_actions :: "config \<Rightarrow> tc_rule \<Rightarrow> mnl_put list" where
  "forward_actions cfg r = tce_modify_vlan_action 1 (tcr_vlan_id r) @ tce_pedit_action 2 r
     @ (if aa_af (tcr_af_addr r) = AF_INET
        then tce_csum_action 3 @ tce_redirect_action cfg 4
        else tce_redirect_action cfg 3)"

lemma tce_add_ip_forward_rule_eq:
  "tce_add_ip_forward_rule cfg r = Nest_start TCA_FLOWER_ACT # forward_actions cfg r @ [Nest_end]"
  by (simp add: tce_add_ip_forward_rule_def forward_actions_def)

lemma tce_pedit_action_eq:
  "tce_pedit_action n r = tce_action_start n ''pedit'' @ pedit_body r @ tce_action_end"
  by (simp add: tce_pedit_action_def pedit_body_def Let_def)

lemma balanced_Nil [simp]: "balanced []"
  by (simp add: balanced_def)

lemma balanced_append: "balanced ps \<Longrightarrow> balanced qs \<Longrightarrow> balanced (ps @ qs)"
  by (simp add: balanced_def)

lemma balanced_leaf: "is_leaf_put p \<Longrightarrow> balanced ps \<Longrightarrow> balanced (p # ps)"
  by (cases p) (simp_all add: balanced_def is_leaf_put_def Let_def)

lemma balanced_nest:
  assumes "balanced body"
  shows "balanced (Nest_start t # body @ [Nest_end])"
  using balancedD [OF assms] by (simp add: balanced_def Let_def)

lemma balanced_action:
  assumes "balanced body"
  shows "balanced (tce_action_start n kind @ body @ tce_action_end)"
  using balanced_nest [OF balanced_leaf [OF _ balanced_nest [OF assms]], of "Put_strz TCA_ACT_KIND kind" n TCA_ACT_OPTIONS]
  by (simp add: tce_action_start_def tce_action_end_def is_leaf_put_def)

lemma balanced_pedit_body: "balanced (pedit_body r)"
proof -
  have eth: "balanced tce_pedit_ex_eth"
    unfolding tce_pedit_ex_eth_def
    using balanced_nest [of "[Put_u16 TCA_PEDIT_KEY_EX_CMD PEDIT_CMD_SET,
     Put_u16 TCA_PEDIT_KEY_EX_HTYPE PEDIT_HDR_TYPE_ETH]" TCA_PEDIT_KEY_EX]
    by (simp add: balanced_leaf is_leaf_put_def)
  have ttl: "balanced (tce_pedit_ex_ttl f)" for f
    by (auto simp: tce_pedit_ex_ttl_def balanced_def Let_def)
  have sel: "balanced [Put_pedit t s]" for t s
    by (simp add: balanced_leaf is_leaf_put_def)
  from balanced_append [OF balanced_nest [OF balanced_append [OF eth balanced_append [OF eth
    balanced_append [OF eth ttl]]]] sel] show ?thesis
    by (simp add: pedit_body_def)
qed

lemma balanced_forward_actions: "balanced (forward_actions cfg r)"
proof -
  have "balanced (tce_modify_vlan_action n v)" "balanced (tce_csum_action n)"
    "balanced (tce_redirect_action cfg n)" for n v
    unfolding tce_modify_vlan_action_def tce_csum_action_def tce_redirect_action_def
    by (rule balanced_action, simp add: balanced_leaf is_leaf_put_def)+
  moreover have "balanced (tce_pedit_action n r)" for n
    unfolding tce_pedit_action_eq by (rule balanced_action [OF balanced_pedit_body])
  ultimately show ?thesis
    by (simp add: forward_actions_def balanced_append)
qed

lemma presents_nest_balanced:
  assumes "presents L (Nest_start t # inner @ Nest_end # ps) as" "balanced inner"
  obtains a as' where "as = a # as'" "mnl_type L a = t" "mnl_validate L a MNL_TYPE_NESTED"
    "mnl_validate L a MNL_TYPE_BINARY" "presents L inner (mnl_nested L a)" "presents L ps as'"
  using presents_nested_leaf [OF assms(1)] balancedD [OF assms(2)] by blast

text \<open>One action of a known kind, from the front of a list of actions.\<close>

lemma parse_action:
  assumes "presents L (tce_action_start n kind @ body @ tce_action_end @ ps) as" "balanced body"
    and "\<And>opts. presents L body (mnl_nested L opts) \<Longrightarrow> tc_act_helper L kind (Some opts) q = Some (MNL_CB_OK, q')"
  obtains as' where "presents L ps as'"
    "mnl_attr_parse (decode_nlattr_tc_act_cb L) as q = mnl_attr_parse (decode_nlattr_tc_act_cb L) as' q'"
  by (rule decode_act_presents [OF assms(1) balancedD [OF assms(2)]]) (auto simp: assms(3) intro: that)

lemma decode_forward_actions:
  assumes p: "presents L (forward_actions cfg r) as"
    and r: "aa_af (tcr_af_addr r) \<in> {AF_INET, AF_INET6}" "length (tcr_lladdr r) = 12" "tcr_vlan_id r > 0"
    and q: "length (tcr_lladdr q) = 12"
  shows "mnl_attr_parse (decode_nlattr_tc_act_cb L) as q = Some (MNL_CB_OK,
    add_trait TC_RULE_HAVE_TTL_DEC (add_trait TC_RULE_HAVE_LLADDR
      ((add_trait TC_RULE_HAVE_VLAN_MOD q)\<lparr>tcr_vlan_id := tcr_vlan_id r\<rparr>))\<lparr>tcr_lladdr := tcr_lladdr r\<rparr>)"
    (is "_ = Some (MNL_CB_OK, ?r2)")
proof -
  let ?r1 = "(add_trait TC_RULE_HAVE_VLAN_MOD q)\<lparr>tcr_vlan_id := tcr_vlan_id r\<rparr>"
  let ?mirred = "\<lambda>n ps. tce_action_start n ''mirred'' @ [Put_mirred TCA_MIRRED_PARMS \<lparr>mirred_eaction = TCA_EGRESS_REDIR,
          mirred_action = TC_ACT_STOLEN, mirred_ifindex = cfg_ifidx cfg\<rparr>] @ tce_action_end @ ps"
  let ?rest = "if aa_af (tcr_af_addr r) = AF_INET then tce_csum_action 3 @ ?mirred 4 [] else ?mirred 3 []"
  have "presents L (tce_action_start 1 ''vlan'' @ [Put_vlan TCA_VLAN_PARMS \<lparr>vlan_v_action = TCA_VLAN_ACT_MODIFY, vlan_action = TC_ACT_PIPE\<rparr>,
        Put_u16 TCA_VLAN_PUSH_VLAN_ID (tcr_vlan_id r)] @ tce_action_end @ tce_pedit_action 2 r @ ?rest) as"
    using p by (simp add: forward_actions_def tce_modify_vlan_action_def tce_redirect_action_def split: if_splits)
  then obtain as1 where "presents L (tce_pedit_action 2 r @ ?rest) as1"
    and 1: "mnl_attr_parse (decode_nlattr_tc_act_cb L) as q = mnl_attr_parse (decode_nlattr_tc_act_cb L) as1 ?r1"
    by (rule parse_action [where q = q and q' = ?r1])
      (use r in \<open>simp_all add: balanced_leaf is_leaf_put_def tc_act_helper_def decode_vlan_presents\<close>)
  then have "presents L (tce_action_start 2 ''pedit'' @ pedit_body r @ tce_action_end @ ?rest) as1"
    by (simp add: tce_pedit_action_eq)
  then obtain as2 where p2: "presents L ?rest as2"
    and 2: "mnl_attr_parse (decode_nlattr_tc_act_cb L) as1 ?r1 = mnl_attr_parse (decode_nlattr_tc_act_cb L) as2 ?r2"
    by (rule parse_action [OF _ balanced_pedit_body, where q = ?r1 and q' = ?r2])
      (use r q in \<open>simp_all add: tc_act_helper_def decode_pedit_presents add_trait_lladdr\<close>)
  obtain n as3 where p3: "presents L (?mirred n []) as3"
    and 3: "mnl_attr_parse (decode_nlattr_tc_act_cb L) as2 ?r2 = mnl_attr_parse (decode_nlattr_tc_act_cb L) as3 ?r2"
  proof (cases "aa_af (tcr_af_addr r) = AF_INET")
    case True
    then have "presents L (tce_action_start 3 ''csum'' @ [Put_csum TCA_CSUM_PARMS \<lparr>csum_update_flags = TCA_CSUM_UPDATE_FLAG_IPV4HDR,
          csum_action = TC_ACT_PIPE\<rparr>] @ tce_action_end @ ?mirred 4 []) as2"
      using p2 by (simp add: tce_csum_action_def)
    then show ?thesis
      by (rule parse_action [where q = ?r2 and q' = ?r2])
        (auto simp: balanced_leaf is_leaf_put_def tc_act_helper_def decode_nlattr_tc_act_csum_cb_def intro: that)
  next
    case False
    then show ?thesis using p2 that by simp
  qed
  obtain as4 where "presents L [] as4"
    and 4: "mnl_attr_parse (decode_nlattr_tc_act_cb L) as3 ?r2 = mnl_attr_parse (decode_nlattr_tc_act_cb L) as4 ?r2"
    by (rule parse_action [OF p3, where q = ?r2 and q' = ?r2])
      (simp_all add: balanced_leaf is_leaf_put_def tc_act_helper_def decode_mirred_presents)
  then show ?thesis using 1 2 3 4 by simp
qed

lemma decode_flower_forward:
  assumes "presents L (flower_puts r (tce_add_ip_forward_rule cfg r)) (mnl_nested L opts)"
    and r: "aa_af (tcr_af_addr r) \<in> {AF_INET, AF_INET6}" "length (tcr_lladdr r) = 12" "tcr_vlan_id r > 0"
    and q: "length (tcr_lladdr q) = 12"
  shows "decode_flower L opts q = Some (MNL_CB_OK, add_trait TC_RULE_HAVE_AF
    ((add_trait TC_RULE_HAVE_TTL_DEC (add_trait TC_RULE_HAVE_LLADDR
      ((add_trait TC_RULE_HAVE_VLAN_MOD q)\<lparr>tcr_vlan_id := tcr_vlan_id r\<rparr>)))
      \<lparr>tcr_lladdr := tcr_lladdr r, tcr_flower_flags := tcr_flower_flags r,
       tcr_af_addr := (tcr_af_addr q)\<lparr>aa_af := aa_af (tcr_af_addr r)\<rparr>\<rparr>))"
proof -
  obtain as tb0 where p: "presents L (tce_add_ip_forward_rule cfg r) as"
    and tb0: "tb0 TCA_FLOWER_KEY_IP_TTL = None" "tb0 TCA_FLOWER_KEY_IPV4_DST = None" "tb0 TCA_FLOWER_KEY_IPV6_DST = None"
    and decode: "flower_rest L r opts as tb0"
    using decode_flower_puts [OF assms(1) r(1)] by blast
  obtain a where a: "as = [a]" "mnl_type L a = TCA_FLOWER_ACT" "mnl_validate L a MNL_TYPE_NESTED"
    and acts: "presents L (forward_actions cfg r) (mnl_nested L a)"
    by (rule presents_nest_balanced [OF p [unfolded tce_add_ip_forward_rule_eq] balanced_forward_actions]) auto
  show ?thesis
    by (rule flower_restD [OF decode, of "tb0(TCA_FLOWER_ACT \<mapsto> a)"])
       (insert r(1), auto simp: a parse_simps flower_tail_def decode_ttl_def tb0 decode_flower_dst_def add_trait_def
          decode_forward_actions [OF acts r q] Let_def)
qed

section \<open>The round trip\<close>

lemma balanced_match_prefix: "tce_match_prefix r flags = Some m \<Longrightarrow> balanced m"
  by (auto simp: tce_match_prefix_def is_leaf_put_def Let_def intro!: balanced_leaf
      split: if_splits elim!: bind_SomeE)

lemma balanced_tll_check: "balanced tce_add_tll_check_rule"
  unfolding tce_add_tll_check_rule_def
  by (intro balanced_append balanced_simple_gact) (simp add: balanced_leaf is_leaf_put_def)

lemma balanced_type_body:
  assumes "type_body cfg r flags = Some body"
  shows "balanced body"
proof -
  have "balanced (tce_add_ip_forward_rule cfg r)"
    unfolding tce_add_ip_forward_rule_eq by (rule balanced_nest [OF balanced_forward_actions])
  with assms show ?thesis
    by (auto simp: type_body_def tce_add_ip_gact_rule_def balanced_tll_check
        balanced_append balanced_simple_gact dest: balanced_match_prefix
      split: tc_rule_types.splits elim!: bind_SomeE)
qed

lemma tc_rule_eqI:
  "tcr_type r = tcr_type q \<Longrightarrow> tcr_vlan_id r = tcr_vlan_id q \<Longrightarrow> tcr_flower_flags r = tcr_flower_flags q \<Longrightarrow>
   tcr_goto_target r = tcr_goto_target q \<Longrightarrow> tcr_traits r = tcr_traits q \<Longrightarrow> tcr_af_addr r = tcr_af_addr q \<Longrightarrow>
   tcr_ttl r = tcr_ttl q \<Longrightarrow> tcr_lladdr r = tcr_lladdr q \<Longrightarrow> r = (q :: tc_rule)"
  by (cases r; cases q) simp

lemma family_only_addr: "family_only a \<Longrightarrow> zero_af_addr\<lparr>aa_af := aa_af a\<rparr> = a"
  by (simp add: family_only_def)

text \<open>What detection makes of a decoded rule.\<close>

definition detected :: "tc_rule \<Rightarrow> tc_rule \<Rightarrow> bool" where
  "detected q r \<longleftrightarrow> tc_rule_set_type (snd (tc_rule_detect q)) (fst (tc_rule_detect q)) = Some r"

lemma detected_ttl_check:
  assumes "encodable r" "tcr_type r = TC_RULE_TYPE_TTL_CHECK"
  shows "detected (add_trait TC_RULE_HAVE_AF
    (add_trait TC_RULE_HAVE_TTL_CHECK (add_trait TC_RULE_HAVE_TRAP zero_tc_rule)
      \<lparr>tcr_flower_flags := tcr_flower_flags r,
       tcr_af_addr := zero_af_addr\<lparr>aa_af := aa_af (tcr_af_addr r)\<rparr>\<rparr>)) r"
  using assms
  by (auto simp: detected_def tc_rule_detect_unfold tc_rule_set_type_def encodable_def add_trait_def
      trait_defs family_only_addr intro!: tc_rule_eqI)

lemma detected_forward:
  assumes "encodable r" "tcr_type r = TC_RULE_TYPE_FORWARD"
  shows "detected (add_trait TC_RULE_HAVE_AF
    ((add_trait TC_RULE_HAVE_TTL_DEC (add_trait TC_RULE_HAVE_LLADDR
      ((add_trait TC_RULE_HAVE_VLAN_MOD zero_tc_rule)\<lparr>tcr_vlan_id := tcr_vlan_id r\<rparr>)))
      \<lparr>tcr_lladdr := tcr_lladdr r, tcr_flower_flags := tcr_flower_flags r,
       tcr_af_addr := zero_af_addr\<lparr>aa_af := aa_af (tcr_af_addr r)\<rparr>\<rparr>)) r"
  using assms
  by (auto simp: detected_def tc_rule_detect_unfold tc_rule_set_type_def encodable_def add_trait_def
      trait_defs family_only_addr intro!: tc_rule_eqI)

definition route_action :: "tc_rule \<Rightarrow> u32" where
  "route_action r = (if tcr_type r = TC_RULE_TYPE_ROUTE_TRAP then TC_ACT_TRAP
     else TC_ACT_GOTO_CHAIN OR tcr_goto_target r)"

lemma gact_traits_route:
  assumes "encodable r" "tcr_type r \<in> {TC_RULE_TYPE_ROUTE_TRAP, TC_RULE_TYPE_ROUTE_GOTO}"
  shows "gact_traits (route_action r) zero_tc_rule = zero_tc_rule\<lparr>tcr_goto_target := tcr_goto_target r,
    tcr_traits := if tcr_type r = TC_RULE_TYPE_ROUTE_TRAP then TC_RULE_HAVE_TRAP else TC_RULE_HAVE_GOTO\<rparr>"
proof (cases "tcr_type r = TC_RULE_TYPE_ROUTE_TRAP")
  case True
  with assms(1) show ?thesis
    by (auto simp: route_action_def gact_traits_def encodable_def act_ext_cmp_def act_defs add_trait_def
      intro!: tc_rule_eqI)
next
  case False
  with assms have "tcr_goto_target r \<le> TC_ACT_EXT_VAL_MASK" by (auto simp: encodable_def)
  from goto_action [OF this] False show ?thesis
    by (simp add: route_action_def gact_traits_def add_trait_def)
qed

lemma detected_route:
  assumes "encodable r" "tcr_type r \<in> {TC_RULE_TYPE_ROUTE_TRAP, TC_RULE_TYPE_ROUTE_GOTO}"
  shows "detected (add_trait TC_RULE_HAVE_IP (add_trait TC_RULE_HAVE_AF
      ((gact_traits (route_action r) zero_tc_rule)\<lparr>tcr_flower_flags := tcr_flower_flags r, tcr_af_addr := tcr_af_addr r\<rparr>))) r"
  unfolding gact_traits_route [OF assms] using assms
  by (auto simp: detected_def tc_rule_detect_unfold tc_rule_set_type_def encodable_def add_trait_def
      trait_defs intro!: tc_rule_eqI)

lemma detected_default_route:
  assumes "encodable r" "tcr_type r = TC_RULE_TYPE_ROUTE_GOTO"
    and "aa_af (tcr_af_addr r) = AF_INET" "aa_mask_len (tcr_af_addr r) = 0"
  shows "detected (add_trait TC_RULE_HAVE_AF
      ((gact_traits (route_action r) zero_tc_rule)\<lparr>tcr_flower_flags := tcr_flower_flags r,
       tcr_af_addr := zero_af_addr\<lparr>aa_af := aa_af (tcr_af_addr r)\<rparr>\<rparr>)) r"
proof -
  have "gact_traits (route_action r) zero_tc_rule =
    zero_tc_rule\<lparr>tcr_goto_target := tcr_goto_target r, tcr_traits := TC_RULE_HAVE_GOTO\<rparr>"
    using gact_traits_route [OF assms(1)] assms(2) by simp
  moreover have "tcr_af_addr r = zero_af_addr\<lparr>aa_af := AF_INET\<rparr>"
    using assms by (cases "tcr_af_addr r")
      (auto simp: encodable_def prefix_ok_def zero_af_addr_def numeral_2_eq_2)
  ultimately show ?thesis using assms
    by (auto simp: detected_def tc_rule_detect_unfold tc_rule_set_type_def encodable_def add_trait_def
      trait_defs intro!: tc_rule_eqI)
qed

lemma tce_match_prefix_cases:
  assumes "prefix_ok (tcr_af_addr r)" "tce_match_prefix r TCE_FLAG_LOOPBACK = Some m"
  obtains (default) "aa_af (tcr_af_addr r) = AF_INET" "aa_mask_len (tcr_af_addr r) = 0" "m = []"
  | (v4) "aa_af (tcr_af_addr r) = AF_INET" "aa_mask_len (tcr_af_addr r) \<noteq> 0"
      "m = [Put_u32 TCA_FLOWER_KEY_IPV4_DST (of_be32 (aa_in (tcr_af_addr r) ! 3)
         (aa_in (tcr_af_addr r) ! 2) (aa_in (tcr_af_addr r) ! 1) (aa_in (tcr_af_addr r) ! 0)),
        Put_u32 TCA_FLOWER_KEY_IPV4_DST_MASK (htonl (push_bit (32 - unat (aa_mask_len (tcr_af_addr r))) 0xffffffff))]"
  | (v6) "aa_af (tcr_af_addr r) = AF_INET6"
      "m = [Put TCA_FLOWER_KEY_IPV6_DST (aa_in (tcr_af_addr r)),
            Put TCA_FLOWER_KEY_IPV6_DST_MASK (tce_build_ipv6_mask (aa_mask_len (tcr_af_addr r)))]"
  using assms
  by (auto simp: tce_match_prefix_def prefix_ok_def wf_af_addr_def is_loopback_def TCE_FLAG_LOOPBACK_def
      tce_ipv4_mask_def Let_def word_gt_0 split: if_splits elim!: bind_SomeE)

lemma decode_flower_route:
  assumes r: "encodable r" "tcr_type r \<in> {TC_RULE_TYPE_ROUTE_TRAP, TC_RULE_TYPE_ROUTE_GOTO}"
    and body: "type_body cfg r TCE_FLAG_LOOPBACK = Some body"
    and opts: "presents L (flower_puts r body) (mnl_nested L opts)"
  obtains q where "decode_flower L opts zero_tc_rule = Some (MNL_CB_OK, q)" "detected q r"
proof -
  have ok: "prefix_ok (tcr_af_addr r)" using r by (auto simp: encodable_def)
  obtain m where m: "tce_match_prefix r TCE_FLAG_LOOPBACK = Some m"
    and b: "body = m @ tce_simple_gact (route_action r)"
    using body r(2) by (auto simp: type_body_def tce_add_ip_gact_rule_def route_action_def elim!: bind_SomeE)
  from ok m show thesis
  proof (cases rule: tce_match_prefix_cases)
    case default
    then have "tcr_type r = TC_RULE_TYPE_ROUTE_GOTO" using r by (auto simp: encodable_def)
    from detected_default_route [OF r(1) this default(1,2)] show thesis
      using decode_flower_gact_no_ip [of L r "route_action r" opts zero_tc_rule] opts b default
      by (intro that) simp_all
  next
    case v4
    with decode_flower_gact_v4 [OF _ ok v4(1,2) refl refl, of L "route_action r" opts zero_tc_rule]
      opts b show thesis
      by (intro that [OF _ detected_route [OF r]]) simp
  next
    case v6
    with decode_flower_gact_v6 [OF _ ok v6(1), of L "route_action r" opts zero_tc_rule]
      opts b show thesis
      by (intro that [OF _ detected_route [OF r]]) simp
  qed
qed

text \<open>C12. A rule in the form \<open>encodable\<close>, encoded as the kernel would dump it and read back through any
  libmnl that presents the attributes that were put, decodes to exactly that rule, its chain and
  its priority. Such a rule forwards, checks the TTL, goes to a chain or traps; it has the traits of
  its type and nothing in the fields that its type does not use; the first two name a family and
  no address, the others a prefix, whose padding and, for IPv4, whose unused bytes are zero, and
  a trap is not for the zero-length IPv4 prefix. The forwarding rules and route rules of \<open>Forwarding\<close>
  are such rules, and so are the static rules but the traps for onloaded prefixes, whose
  padding holds two octets of the address (\<open>TC_Codec_Props.onloaded_trap_changes\<close>).\<close>

theorem tc_encode_decode_roundtrip:
  assumes "encodable r"
    and enc: "tc_encode_rule cfg chain_no prio (Some r) TCE_FLAG_LOOPBACK = Some m"
    and rx: "received m L rx"
  shows "try_decode_filter L rx = Some (MNL_CB_OK,
    \<lparr>tdr_is_done = True, tdr_chain_no = chain_no, tdr_prio = prio, tdr_tcr = r\<rparr>)"
proof -
  obtain body where body: "type_body cfg r TCE_FLAG_LOOPBACK = Some body"
    and m: "nlmsg_type m = RTM_NEWTFILTER" "nlmsg_puts m = add_puts chain_no r body"
      "tcm_handle (nlmsg_tcm m) = 1"
      "ucast (drop_bit 16 (TC_H_MAJ (tcm_info (nlmsg_tcm m)))) = prio"
    and af: "aa_af (tcr_af_addr r) \<in> {AF_INET, AF_INET6}"
    by (rule tc_encode_add_rule_eq [of cfg chain_no prio r m]) (use enc in \<open>simp_all add: tc_encode_rule_def\<close>)
  have bal: "balanced body" using body by (rule balanced_type_body)
  have "presents L (add_puts chain_no r body) (rx_attrs rx)" "tcm_handle (rx_tcm rx) = 1"
    "rx_type rx = RTM_NEWTFILTER" "ucast (drop_bit 16 (TC_H_MAJ (tcm_info (rx_tcm rx)))) = prio"
    using rx m by (auto simp: received_def)
  then obtain opts where opts: "presents L (flower_puts r body) (mnl_nested L opts)"
    and decode: "\<And>q q'. decode_flower L opts zero_tc_rule = Some (MNL_CB_OK, q) \<Longrightarrow>
       detected q q' \<Longrightarrow> try_decode_filter L rx = Some (MNL_CB_OK,
         \<lparr>tdr_is_done = True, tdr_chain_no = chain_no, tdr_prio = prio, tdr_tcr = q'\<rparr>)"
    unfolding detected_def using bal by (elim try_decode_filter_add) blast+
  show ?thesis
  proof (cases "tcr_type r")
    case TC_RULE_TYPE_TTL_CHECK
    then have "body = tce_add_tll_check_rule" using body by (simp add: type_body_def)
    with opts decode_flower_ttl_check [of L r opts zero_tc_rule] af
    show ?thesis
      by (intro decode [OF _ detected_ttl_check [OF assms(1) TC_RULE_TYPE_TTL_CHECK]]) simp
  next
    case TC_RULE_TYPE_FORWARD
    then have "body = tce_add_ip_forward_rule cfg r" using body by (simp add: type_body_def)
    with opts decode_flower_forward [of L r cfg opts zero_tc_rule] af assms(1) TC_RULE_TYPE_FORWARD
    show ?thesis
      by (intro decode [OF _ detected_forward [OF assms(1) TC_RULE_TYPE_FORWARD]])
         (simp add: encodable_def)
  next
    case TC_RULE_TYPE_ROUTE_TRAP
    with decode_flower_route [OF assms(1) _ body opts] decode show ?thesis by blast
  next
    case TC_RULE_TYPE_ROUTE_GOTO
    with decode_flower_route [OF assms(1) _ body opts] decode show ?thesis by blast
  qed (use assms(1) in \<open>simp_all add: encodable_def\<close>)
qed

end
