(* ===== verification/TC_Codec_Props.thy ===== *)
theory TC_Codec_Props
  imports TC_Codec
begin

text \<open>
  What holds of the TC codec as a whole: every encodable rule is encoded, and decoded to itself, two
  traps that are not encodable are not; whatever the kernel sends is decoded to a well-formed rule
  whose type agrees with its traits, and prefix lengths survive their masks. Each theorem is
  applied to a concrete message.
\<close>

section \<open>What decoding keeps of a rule\<close>

text \<open>While a filter is decoded its rule is well formed and has no type but alien.\<close>

definition decoding_ok :: "tc_rule \<Rightarrow> bool" where
  "decoding_ok r \<longleftrightarrow> wf_tc_rule r \<and> tcr_type r \<in> {TC_RULE_TYPE_UNSPEC, TC_RULE_TYPE_ALIEN}"

lemma decoding_ok_update [simp]:
  "decoding_ok (add_trait t r) = decoding_ok r" "decoding_ok (r\<lparr>tcr_goto_target := g\<rparr>) = decoding_ok r"
  "decoding_ok (r\<lparr>tcr_vlan_id := v\<rparr>) = decoding_ok r"
  "decoding_ok (r\<lparr>tcr_flower_flags := f\<rparr>) = decoding_ok r"
  by (simp_all add: decoding_ok_def add_trait_def)

lemma decoding_ok_mark_alien:
  "tc_rule_mark_alien r = Some q \<Longrightarrow> decoding_ok r \<Longrightarrow> decoding_ok q"
  by (auto simp: tc_rule_mark_alien_eq decoding_ok_def split: if_splits)

lemma decoding_ok_lladdr:
  "decoding_ok r \<Longrightarrow> i < 3 \<Longrightarrow> decoding_ok (r\<lparr>tcr_lladdr := lladdr_set_raw (tcr_lladdr r) i w\<rparr>)"
  by (auto simp: decoding_ok_def wf_tc_rule_def length_lladdr_set_raw)

lemma mnl_attr_parse_inv:
  assumes "\<And>a s ret s'. cb a s = Some (ret, s') \<Longrightarrow> P s \<Longrightarrow> P s'"
  shows "mnl_attr_parse cb as s = Some (ret, s') \<Longrightarrow> P s \<Longrightarrow> P s'"
  by (induction as arbitrary: s) (auto split: if_splits elim!: bind_SomeE dest: assms)

lemma key_off_index: "\<not> (off :: u32) > 8 \<Longrightarrow> unat (drop_bit 2 off) < 3"
proof -
  assume "\<not> off > 8"
  then have "unat off \<le> 8" by (simp add: word_le_nat_alt not_less)
  then have "unat off div 4 < 3" by simp
  then show ?thesis by (simp add: unat_drop_bit_eq) (simp add: drop_bit_eq_div)
qed

lemma pedit_keys_loop_ok:
  "pedit_keys_loop n keys kex r = Some q \<Longrightarrow> decoding_ok r \<Longrightarrow> decoding_ok q"
proof (induction n keys kex r rule: pedit_keys_loop.induct)
  case (2 n keys htype cmd kex r)
  show ?case
  proof (cases "htype = PEDIT_HDR_TYPE_ETH \<and> cmd = PEDIT_CMD_SET")
    case True
    show ?thesis
    proof (cases keys)
      case Nil
      with True 2 show ?thesis by simp
    next
      case (Cons key ks)
      show ?thesis
      proof (cases "key_off key mod 4 \<noteq> 0 \<or> key_off key > 8")
        case True
        with 2(3,4) Cons \<open>htype = _ \<and> _\<close> show ?thesis by (auto dest: decoding_ok_mark_alien)
      next
        case False
        then have "decoding_ok (r\<lparr>tcr_lladdr := lladdr_set_raw (tcr_lladdr r) (unat (drop_bit 2 (key_off key))) w\<rparr>)" for w
          using 2(4) by (intro decoding_ok_lladdr key_off_index) simp_all
        with 2(1) 2(3) True Cons False show ?thesis by (simp add: Let_def)
      qed
    qed
  next
    case False
    with 2(2-4) show ?thesis by (auto dest: decoding_ok_mark_alien split: if_splits)
  qed
qed auto

lemmas decoding_ok_dests = decoding_ok_mark_alien pedit_keys_loop_ok

lemma decode_gact_ok:
  "decode_nlattr_tc_act_gact_cb L a r = Some (ret, q) \<Longrightarrow> decoding_ok r \<Longrightarrow> decoding_ok q"
  by (auto simp: decode_nlattr_tc_act_gact_cb_def split: if_splits elim!: bind_SomeE)

lemma decode_vlan_ok:
  "decode_nlattr_tc_act_vlan_cb L a r = Some (ret, q) \<Longrightarrow> decoding_ok r \<Longrightarrow> decoding_ok q"
  by (auto simp: decode_nlattr_tc_act_vlan_cb_def dest!: decoding_ok_dests split: if_splits elim!: bind_SomeE)

lemma decode_mirred_ok:
  "decode_nlattr_tc_act_mirred_cb L a r = Some (ret, q) \<Longrightarrow> decoding_ok r \<Longrightarrow> decoding_ok q"
  by (auto simp: decode_nlattr_tc_act_mirred_cb_def dest!: decoding_ok_dests split: if_splits elim!: bind_SomeE)

lemma decode_pedit_ok:
  "decode_nlattr_tc_act_pedit_cb L a r = Some (ret, q) \<Longrightarrow> decoding_ok r \<Longrightarrow> decoding_ok q"
  by (auto simp: decode_nlattr_tc_act_pedit_cb_def Let_def dest!: decoding_ok_dests split: if_splits elim!: bind_SomeE)

lemma tc_act_helper_ok:
  "tc_act_helper L kind opts r = Some (ret, q) \<Longrightarrow> decoding_ok r \<Longrightarrow> decoding_ok q"
  by (auto simp: tc_act_helper_def decode_nlattr_tc_act_csum_cb_def
      dest!: decode_gact_ok decode_vlan_ok decode_mirred_ok decode_pedit_ok split: if_splits elim!: bind_SomeE)

lemma decode_nlattr_tc_act_cb_ok:
  "decode_nlattr_tc_act_cb L a r = Some (ret, q) \<Longrightarrow> decoding_ok r \<Longrightarrow> decoding_ok q"
  by (auto simp: decode_nlattr_tc_act_cb_def dest!: decoding_ok_mark_alien tc_act_helper_ok
      split: if_splits option.splits elim!: bind_SomeE)

lemma count_ones_loop_ok:
  "count_ones_loop os n r = Some (m, q) \<Longrightarrow> decoding_ok r \<Longrightarrow> decoding_ok q"
  by (induction os n r rule: count_ones_loop.induct)
    (auto dest: decoding_ok_mark_alien split: if_splits option.splits elim!: bind_SomeE)

lemma decoding_ok_af:
  "decoding_ok r \<Longrightarrow> wf_af_addr a \<Longrightarrow> decoding_ok (r\<lparr>tcr_af_addr := a\<rparr>)"
  by (simp add: decoding_ok_def wf_tc_rule_def)

lemma decode_flower_dst_ok:
  "decode_flower_dst L f d m r = Some q \<Longrightarrow> decoding_ok r \<Longrightarrow> decoding_ok q"
  by (auto simp: decode_flower_dst_def count_ones_def Let_def intro!: decoding_ok_af
      dest!: build_af_addr_wf count_ones_loop_ok decoding_ok_mark_alien
      split: option.splits elim!: bind_SomeE)
    (auto simp: decoding_ok_def wf_tc_rule_def)

lemma decode_acts_ok:
  "mnl_attr_parse (decode_nlattr_tc_act_cb L) as r = Some (ret, q) \<Longrightarrow> decoding_ok r \<Longrightarrow> decoding_ok q"
  using mnl_attr_parse_inv [where P = decoding_ok, OF decode_nlattr_tc_act_cb_ok] .

lemma decode_ttl_ok: "decode_ttl L a r = Some q \<Longrightarrow> decoding_ok r \<Longrightarrow> decoding_ok q"
  by (auto simp: decode_ttl_def dest!: decoding_ok_mark_alien split: if_splits option.splits elim!: bind_SomeE)

lemma decode_flower_ok:
  assumes "decode_flower L a r = Some (ret, q)" "decoding_ok r"
  shows "decoding_ok q"
  using assms
  by (auto simp: decode_flower_def
      dest!: decoding_ok_mark_alien decode_flower_dst_ok decode_ttl_ok decode_acts_ok
      split: if_splits option.splits elim!: bind_SomeE)

lemma detect_decoding_ok:
  assumes "decoding_ok q" "tc_rule_set_type (snd (tc_rule_detect q)) (fst (tc_rule_detect q)) = Some r"
  shows "wf_tc_rule r \<and> tcr_type r \<noteq> TC_RULE_TYPE_UNSPEC \<and> tcr_type r \<noteq> TC_RULE_TYPE_ROUTE_DFT_GOTO
    \<and> (tcr_type r = TC_RULE_TYPE_ALIEN \<or> tcr_traits r = type_traits (tcr_type r))"
  using assms
  by (auto simp: tc_rule_detect_unfold tc_rule_set_type_def decoding_ok_def split: if_splits)

text \<open>C28. Whatever a filter message contains, a decode that succeeds yields a well-formed
  rule that has a type, and unless the type is alien the traits found are exactly the traits
  that the type requires.\<close>

theorem try_decode_filter_sound:
  assumes "try_decode_filter L m = Some (MNL_CB_OK, tdr)" "rx_type m = RTM_NEWTFILTER" "tdr_is_done tdr"
  shows "wf_tc_rule (tdr_tcr tdr)
    \<and> tcr_type (tdr_tcr tdr) \<notin> {TC_RULE_TYPE_UNSPEC, TC_RULE_TYPE_ROUTE_DFT_GOTO}
    \<and> (tcr_type (tdr_tcr tdr) = TC_RULE_TYPE_ALIEN \<or>
       tcr_traits (tdr_tcr tdr) = type_traits (tcr_type (tdr_tcr tdr)))"
proof -
  have z: "decoding_ok zero_tc_rule" by (simp add: decoding_ok_def)
  from assms obtain q where "decoding_ok q"
    "tc_rule_set_type (snd (tc_rule_detect q)) (fst (tc_rule_detect q)) = Some (tdr_tcr tdr)"
    using z by (auto simp: try_decode_filter_def zero_tdr_def Let_def split_beta
      dest!: decode_flower_ok [OF _ z] decoding_ok_mark_alien [OF _ z]
      split: if_splits option.splits elim!: bind_SomeE)
  from detect_decoding_ok [OF this] show ?thesis by simp
qed

lemma encodable_encodes:
  assumes "encodable r"
  shows "\<exists>m. tc_encode_rule cfg chain_no prio (Some r) flags = Some m"
proof -
  have af: "aa_af (tcr_af_addr r) \<in> {AF_INET, AF_INET6}"
    using assms by (auto simp: encodable_def prefix_ok_def family_only_def split: tc_rule_types.splits)
  then have "\<exists>f. tce_new_flower_rule r flags = Some f"
    by (auto simp: tce_new_flower_rule_def tce_flower_set_eth_type_def Let_def)
  moreover have "\<exists>b. tce_match_prefix r flags = Some b" if "prefix_ok (tcr_af_addr r)"
    using that by (auto simp: tce_match_prefix_def prefix_ok_def tce_ipv4_mask_def Let_def)
  moreover have "tcr_type r \<in> {TC_RULE_TYPE_FORWARD, TC_RULE_TYPE_ROUTE_TRAP, TC_RULE_TYPE_ROUTE_GOTO, TC_RULE_TYPE_TTL_CHECK}"
    using assms by (auto simp: encodable_def split: tc_rule_types.splits)
  ultimately show ?thesis
    using assms by (auto simp: tc_encode_rule_def tc_encode_add_rule_def tce_add_ip_gact_rule_def encodable_def)
qed

text \<open>Every encodable rule can be encoded, for sending and for loopback.\<close>

theorem tc_encode_total:
  assumes "encodable r"
  shows "\<exists>m. tc_encode_rule cfg chain_no prio (Some r) flags = Some m"
  using assms by (rule encodable_encodes)

text \<open>A request to drop a rule is decoded to its chain and priority and an empty rule.\<close>

theorem tc_encode_decode_drop:
  assumes "tc_encode_rule cfg chain_no prio None TCE_FLAG_LOOPBACK = Some m" "received m L rx"
  shows "try_decode_filter L rx = Some (MNL_CB_OK,
    \<lparr>tdr_is_done = True, tdr_chain_no = chain_no, tdr_prio = prio, tdr_tcr = zero_tc_rule\<rparr>)"
proof -
  have m: "nlmsg_type m = RTM_DELTFILTER" "tcm_handle (nlmsg_tcm m) = 1"
    "ucast (drop_bit 16 (TC_H_MAJ (tcm_info (nlmsg_tcm m)))) = prio" "nlmsg_puts m = [Put_u32 TCA_CHAIN chain_no]"
    using assms(1) by (auto simp: tc_encode_rule_def tc_encode_drop_rule_def tce_set_tcm_def is_loopback_def
      TCE_FLAG_LOOPBACK_def prio_of_tcm_info)
  with assms(2) show ?thesis
    by (auto simp: received_def try_decode_filter_def zero_tdr_def presents_simps parse_simps)
qed

text \<open>C32. The match on the zero-length IPv4 prefix is left out of the loopback message (as
  the kernel leaves it out of its dumps), so a trapping IPv4 default route comes back alien:
  only the goto of a default route has a type of its own.\<close>

theorem tc_encode_decode_default_trap:
  assumes "tcr_type r = TC_RULE_TYPE_ROUTE_TRAP" "aa_af (tcr_af_addr r) = AF_INET" "aa_mask_len (tcr_af_addr r) = 0"
    and enc: "tc_encode_rule cfg chain_no prio (Some r) TCE_FLAG_LOOPBACK = Some m"
    and rx: "received m L rx"
  shows "\<exists>q. try_decode_filter L rx = Some (MNL_CB_OK,
    \<lparr>tdr_is_done = True, tdr_chain_no = chain_no, tdr_prio = prio, tdr_tcr = q\<rparr>)
     \<and> tcr_type q = TC_RULE_TYPE_ALIEN"
proof -
  obtain body where body: "type_body cfg r TCE_FLAG_LOOPBACK = Some body"
    and m: "nlmsg_type m = RTM_NEWTFILTER" "nlmsg_puts m = add_puts chain_no r body"
      "tcm_handle (nlmsg_tcm m) = 1"
      "ucast (drop_bit 16 (TC_H_MAJ (tcm_info (nlmsg_tcm m)))) = prio"
    by (rule tc_encode_add_rule_eq [of cfg chain_no prio r m]) (use enc in \<open>simp_all add: tc_encode_rule_def\<close>)
  have b: "body = tce_simple_gact TC_ACT_TRAP"
    using body assms(1-3) by (simp add: type_body_def tce_add_ip_gact_rule_def tce_match_prefix_def
      is_loopback_def TCE_FLAG_LOOPBACK_def)
  have "presents L (add_puts chain_no r body) (rx_attrs rx)" "tcm_handle (rx_tcm rx) = 1"
    "rx_type rx = RTM_NEWTFILTER" "ucast (drop_bit 16 (TC_H_MAJ (tcm_info (rx_tcm rx)))) = prio"
    using rx m by (auto simp: received_def)
  then obtain opts where opts: "presents L (flower_puts r body) (mnl_nested L opts)"
    and decode: "\<And>q q'. decode_flower L opts zero_tc_rule = Some (MNL_CB_OK, q) \<Longrightarrow>
       detected q q' \<Longrightarrow> try_decode_filter L rx = Some (MNL_CB_OK,
         \<lparr>tdr_is_done = True, tdr_chain_no = chain_no, tdr_prio = prio, tdr_tcr = q'\<rparr>)"
    unfolding detected_def using balanced_type_body [OF body] by (elim try_decode_filter_add) blast+
  let ?q = "add_trait TC_RULE_HAVE_AF ((gact_traits TC_ACT_TRAP zero_tc_rule)\<lparr>tcr_flower_flags := tcr_flower_flags r,
       tcr_af_addr := zero_af_addr\<lparr>aa_af := AF_INET\<rparr>\<rparr>)"
  have "tcr_traits ?q = 9"
    by (simp add: add_trait_def gact_traits_def act_ext_cmp_def act_defs trait_defs)
  then have "detected ?q (?q\<lparr>tcr_type := TC_RULE_TYPE_ALIEN\<rparr>)"
    by (simp add: detected_def tc_rule_detect_unfold tc_rule_set_type_def add_trait_def gact_traits_def
      act_ext_cmp_def act_defs)
  with decode decode_flower_gact_no_ip [of L r TC_ACT_TRAP opts zero_tc_rule] opts b assms
  show ?thesis by (intro exI [of _ "?q\<lparr>tcr_type := TC_RULE_TYPE_ALIEN\<rparr>"]) simp
qed

section \<open>Witnesses\<close>

definition rx_of :: "nlmsg \<Rightarrow> mnl_tree rx_msg" where
  "rx_of m = \<lparr>rx_type = nlmsg_type m, rx_flags = 0, rx_tcm = nlmsg_tcm m,
     rx_attrs = trees_of (nlmsg_puts m)\<rparr>"

definition puts_ok :: "mnl_put list \<Rightarrow> bool" where
  "puts_ok ps \<longleftrightarrow> concat (map puts_of (trees_of ps)) = ps \<and> list_all leaves_ok (trees_of ps)"

lemma received_rx_of: "puts_ok (nlmsg_puts m) \<Longrightarrow> received m tree_libmnl (rx_of m)"
  by (simp add: received_def rx_of_def puts_ok_def presents_trees)

definition demo_forward :: tc_rule where
  "demo_forward = zero_tc_rule\<lparr>tcr_type := TC_RULE_TYPE_FORWARD, tcr_vlan_id := 42,
     tcr_traits := 225, tcr_flower_flags := 5, tcr_af_addr := zero_af_addr\<lparr>aa_af := AF_INET6\<rparr>,
     tcr_lladdr := [2, 0, 0, 0, 0, 1, 2, 0, 0, 0, 0, 2]\<rparr>"

definition demo_trap :: tc_rule where
  "demo_trap = zero_tc_rule\<lparr>tcr_type := TC_RULE_TYPE_ROUTE_TRAP,
     tcr_traits := 11, tcr_af_addr := zero_af_addr\<lparr>aa_af := AF_INET\<rparr>\<rparr>"

definition msg_ok :: "nlmsg option \<Rightarrow> bool" where
  "msg_ok m = (case m of Some m \<Rightarrow> puts_ok (nlmsg_puts m) | None \<Rightarrow> False)"

lemma msg_okE:
  assumes "msg_ok x"
  obtains m where "x = Some m" "received m tree_libmnl (rx_of m)"
  using assms received_rx_of by (auto simp: msg_ok_def split: option.splits)

lemma demo_forward_encodable: "encodable demo_forward"
  by (simp add: encodable_def demo_forward_def family_only_def)

lemma demo_msgs_ok:
  "msg_ok (tc_encode_rule (config_init []) 5 7 (Some demo_forward) TCE_FLAG_LOOPBACK)"
  "msg_ok (tc_encode_rule (config_init []) 5 7 (Some demo_trap) TCE_FLAG_LOOPBACK)"
  "msg_ok (tc_encode_rule (config_init []) 5 7 None TCE_FLAG_LOOPBACK)"
  by code_simp+

lemma tc_encode_decode_roundtrip_witness:
  "\<exists>m. tc_encode_rule (config_init []) 5 7 (Some demo_forward) TCE_FLAG_LOOPBACK = Some m \<and>
     try_decode_filter tree_libmnl (rx_of m) = Some (MNL_CB_OK,
       \<lparr>tdr_is_done = True, tdr_chain_no = 5, tdr_prio = 7, tdr_tcr = demo_forward\<rparr>)"
  using tc_encode_decode_roundtrip [OF demo_forward_encodable]
  by (rule_tac msg_okE [OF demo_msgs_ok(1)]) blast

lemma tc_encode_decode_default_trap_witness:
  "\<exists>m q. tc_encode_rule (config_init []) 5 7 (Some demo_trap) TCE_FLAG_LOOPBACK = Some m \<and>
     try_decode_filter tree_libmnl (rx_of m) = Some (MNL_CB_OK,
       \<lparr>tdr_is_done = True, tdr_chain_no = 5, tdr_prio = 7, tdr_tcr = q\<rparr>) \<and> tcr_type q = TC_RULE_TYPE_ALIEN"
proof -
  have "tcr_type demo_trap = TC_RULE_TYPE_ROUTE_TRAP" "aa_af (tcr_af_addr demo_trap) = AF_INET"
    "aa_mask_len (tcr_af_addr demo_trap) = 0" by (simp_all add: demo_trap_def)
  from tc_encode_decode_default_trap [OF this] show ?thesis
    by (rule_tac msg_okE [OF demo_msgs_ok(2)]) blast
qed

lemma tc_encode_decode_drop_witness:
  "\<exists>m. tc_encode_rule (config_init []) 5 7 None TCE_FLAG_LOOPBACK = Some m \<and>
     try_decode_filter tree_libmnl (rx_of m) = Some (MNL_CB_OK,
       \<lparr>tdr_is_done = True, tdr_chain_no = 5, tdr_prio = 7, tdr_tcr = zero_tc_rule\<rparr>)"
  using tc_encode_decode_drop by (rule_tac msg_okE [OF demo_msgs_ok(3)]) blast

lemma tc_encode_total_witness: "\<exists>m. tc_encode_rule (config_init []) 5 7 (Some demo_forward) 0 = Some m"
  by (rule tc_encode_total [OF demo_forward_encodable])

lemma bit_ff: "bit (0xff :: u8) j \<longleftrightarrow> j < 8"
proof -
  have "(0xff :: u8) = mask 8" by (simp add: mask_eq_exp_minus_1)
  then show ?thesis by (simp only: bit_mask_iff possible_bit_word) simp
qed

lemma bit_partial_octet:
  "j < 8 \<Longrightarrow> b < 8 \<Longrightarrow> bit (if b = 0 then 0 else push_bit (8 - b) 0xff :: u8) (7 - j) \<longleftrightarrow> j < b"
  by (auto simp: bit_push_bit_iff bit_ff simp del: push_bit_numeral bit_numeral_word_iff)

lemma bit_ipv6_mask:
  assumes "m \<le> 128" "i < 128"
  shows "bit (tce_build_ipv6_mask m ! (i div 8)) (7 - i mod 8) \<longleftrightarrow> i < unat m"
proof (cases "m = 128")
  case True
  then show ?thesis using assms(2) by (simp add: tce_build_ipv6_mask_128 bit_ff del: bit_numeral_word_iff)
next
  case False
  then obtain p b where pb: "unat m = 8 * p + b" "b < 8" "p < 16"
    using assms(1) by (rule_tac u8_div8)
  have i: "i = 8 * (i div 8) + i mod 8" "i mod 8 < 8" "i div 8 < 16" using assms(2) by auto
  consider "i div 8 < p" | "i div 8 = p" | "i div 8 > p" by linarith
  then show ?thesis
  proof cases
    case 1
    then have "i < unat m" using pb i by linarith
    with 1 show ?thesis by (simp add: tce_build_ipv6_mask_closed [OF assms(1) pb] nth_append bit_ff del: bit_numeral_word_iff)
  next
    case 2
    then have "i < unat m \<longleftrightarrow> i mod 8 < b" using pb i by linarith
    with 2 pb bit_partial_octet [of "i mod 8" b] show ?thesis
      by (simp add: tce_build_ipv6_mask_closed [OF assms(1) pb] nth_append)
  next
    case 3
    then have "\<not> i < unat m" using pb i by linarith
    moreover have "i div 8 - Suc p < 15 - p" using 3 i by linarith
    ultimately show ?thesis
      using 3 by (auto simp: tce_build_ipv6_mask_closed [OF assms(1) pb] nth_append nth_Cons')
  qed
qed

text \<open>The IPv6 mask has exactly its first \<open>m\<close> bits set, in network order, and \<open>count_ones\<close>
  reads \<open>m\<close> back from it; so it does from the IPv4 mask of every length from 1 to 32.\<close>

theorem prefix_mask_roundtrip:
  "(m \<le> 128 \<longrightarrow> length (tce_build_ipv6_mask m) = 16
      \<and> (\<forall>i<128. bit (tce_build_ipv6_mask m ! (i div 8)) (7 - i mod 8) \<longleftrightarrow> i < unat m)
      \<and> count_ones_loop (tce_build_ipv6_mask m) 0 r = Some (m, r))
   \<and> (0 < m \<and> m \<le> 32 \<longrightarrow>
        (\<exists>w. tce_ipv4_mask m = Some w \<and> count_ones_loop (le32 w) 0 r = Some (m, r)))"
proof (intro conjI impI)
  assume m: "m \<le> 128"
  show "length (tce_build_ipv6_mask m) = 16"
    by (simp add: tce_build_ipv6_mask_def length_tce_ipv6_mask_loop)
  show "\<forall>i<128. bit (tce_build_ipv6_mask m ! (i div 8)) (7 - i mod 8) \<longleftrightarrow> i < unat m"
    using bit_ipv6_mask [OF m] by blast
  show "count_ones_loop (tce_build_ipv6_mask m) 0 r = Some (m, r)"
    by (rule count_ones_ipv6_mask [OF m])
next
  assume m: "0 < m \<and> m \<le> 32"
  then have "unat m \<le> 32" "0 < unat m" by (auto simp: word_le_nat_alt unat_gt_0)
  from count_ones_ipv4_mask [OF this] m
  show "\<exists>w. tce_ipv4_mask m = Some w \<and> count_ones_loop (le32 w) 0 r = Some (m, r)"
    by (simp add: tce_ipv4_mask_def le32_htonl)
qed

lemma prefix_mask_roundtrip_witness:
  "count_ones_loop (tce_build_ipv6_mask 20) 0 zero_tc_rule = Some (20, zero_tc_rule) \<and>
   (\<exists>w. tce_ipv4_mask 20 = Some w \<and> count_ones_loop (le32 w) 0 zero_tc_rule = Some (20, zero_tc_rule))"
proof -
  have "(20::u8) \<le> 128" "0 < (20::u8) \<and> 20 \<le> (32::u8)" by simp_all
  with prefix_mask_roundtrip [of 20 zero_tc_rule] show ?thesis by blast
qed

definition demo_rx :: "mnl_tree rx_msg" where
  "demo_rx = rx_of (the (tc_encode_rule (config_init []) 5 7 (Some demo_trap) TCE_FLAG_LOOPBACK))"

lemma demo_rx_decoded:
  "(case try_decode_filter tree_libmnl demo_rx of
      Some (ret, tdr) \<Rightarrow> ret = MNL_CB_OK \<and> tdr_is_done tdr | None \<Rightarrow> False)"
  "rx_type demo_rx = RTM_NEWTFILTER"
  by code_simp+

lemma try_decode_filter_sound_witness:
  "\<exists>tdr. try_decode_filter tree_libmnl demo_rx = Some (MNL_CB_OK, tdr) \<and> wf_tc_rule (tdr_tcr tdr)
     \<and> tcr_type (tdr_tcr tdr) \<notin> {TC_RULE_TYPE_UNSPEC, TC_RULE_TYPE_ROUTE_DFT_GOTO}"
proof -
  obtain tdr where "try_decode_filter tree_libmnl demo_rx = Some (MNL_CB_OK, tdr)" "tdr_is_done tdr"
    using demo_rx_decoded(1) by (auto split: option.splits prod.splits)
  from try_decode_filter_sound [OF this(1) demo_rx_decoded(2) this(2)] this show ?thesis by blast
qed

text \<open>
  The trap that the start builds from the onloaded prefix 192.0.2.0/24: the last two octets are in
  the padding, which is not sent, so the rule is read back as another one.
\<close>

definition onloaded_trap :: tc_rule where
  "onloaded_trap = zero_tc_rule\<lparr>tcr_type := TC_RULE_TYPE_ROUTE_TRAP, tcr_flower_flags := 6, tcr_traits := 11,
     tcr_af_addr := zero_af_addr\<lparr>aa_af := AF_INET, aa_mask_len := 24, aa_pad := [2, 0]\<rparr>\<rparr>"

lemma onloaded_trap_changes:
  "(case tc_encode_rule (config_init []) 1 10 (Some onloaded_trap) TCE_FLAG_LOOPBACK of
      None \<Rightarrow> False
    | Some m \<Rightarrow> (case try_decode_filter tree_libmnl (rx_of m) of
          None \<Rightarrow> False
        | Some (ret, tdr) \<Rightarrow> ret = MNL_CB_OK \<and> tdr_is_done tdr \<and> tdr_tcr tdr \<noteq> onloaded_trap))"
  by code_simp

end
