(* ===== verification/RB_Tree.thy ===== *)
theory RB_Tree
  imports FR_Prelude
begin

text \<open>
  \<open>src/rbtree.h\<close> and \<open>src/rbtree.c\<close>: the red-black trees that index every table of the daemon.

  A tree is a datatype, \<open>Null\<close> for the null pointer. A pointer into a tree is a zipper: the
  subtree at the node and the path from its parent up to the root, which is what the code's
  \<open>rb_parent\<close> links give. A loop that climbs through \<open>rb_parent\<close> consumes the path, and storing
  through the parent or the root is \<open>plug\<close>. \<open>None\<close> is a dereferenced null pointer or a failed
  \<open>AN\<close>; the theorems show that neither happens on a tree that satisfies the invariant.
\<close>

section \<open>Trees and positions\<close>

datatype color = RB_RED | RB_BLACK

datatype 'a rb = Null | Nd "'a rb" color 'a "'a rb"

datatype 'a step =
    InLeft color 'a "'a rb"   \<comment> \<open>the node is its parent's left child\<close>
  | InRight "'a rb" color 'a

type_synonym 'a path = "'a step list"

fun step_up :: "'a step \<Rightarrow> 'a rb \<Rightarrow> 'a rb" where
  "step_up (InLeft c x r) t = Nd t c x r"
| "step_up (InRight l c x) t = Nd l c x t"

fun plug :: "'a path \<Rightarrow> 'a rb \<Rightarrow> 'a rb" where
  "plug [] t = t"
| "plug (s # ps) t = plug ps (step_up s t)"

fun step_color :: "'a step \<Rightarrow> color" where
  "step_color (InLeft c x r) = c"
| "step_color (InRight l c x) = c"

fun rb_is_red :: "'a rb \<Rightarrow> bool" where
  "rb_is_red Null = False"
| "rb_is_red (Nd l c x r) = (c = RB_RED)"

text \<open>\<open>!n || rb_is_black(n)\<close>\<close>

definition null_or_black :: "'a rb \<Rightarrow> bool" where
  "null_or_black t = (\<not> rb_is_red t)"

fun rb_set_black :: "'a rb \<Rightarrow> 'a rb option" where
  "rb_set_black Null = None"
| "rb_set_black (Nd l c x r) = Some (Nd l RB_BLACK x r)"

fun rb_rotate_left :: "'a rb \<Rightarrow> 'a rb option" where
  "rb_rotate_left (Nd a c x (Nd b d y e)) = Some (Nd (Nd a c x b) d y e)"
| "rb_rotate_left _ = None"

fun rb_rotate_right :: "'a rb \<Rightarrow> 'a rb option" where
  "rb_rotate_right (Nd (Nd a c x b) d y e) = Some (Nd a c x (Nd b d y e))"
| "rb_rotate_right _ = None"

fun rb_inorder :: "'a rb \<Rightarrow> 'a list" where
  "rb_inorder Null = []"
| "rb_inorder (Nd l c x r) = rb_inorder l @ x # rb_inorder r"

section \<open>Insertion\<close>

text \<open>
  \<open>rb_insert_color\<close> climbs from the new red node. A red uncle moves the violation two levels
  up; otherwise one or two rotations put the black former parent above the node, and the
  loop's condition fails the next time round.
\<close>

function (sequential) rb_insert_color :: "'a rb \<Rightarrow> 'a path \<Rightarrow> 'a rb option" where
  "rb_insert_color node (InLeft RB_RED p pr # InLeft gc g uncle # ps) =
     (if rb_is_red uncle then do {
        uncle \<leftarrow> rb_set_black uncle;
        rb_insert_color (Nd (Nd node RB_BLACK p pr) RB_RED g uncle) ps
      } else rb_insert_color node (InLeft RB_BLACK p (Nd pr RB_RED g uncle) # ps))"
| "rb_insert_color node (InRight pl RB_RED p # InLeft gc g uncle # ps) =
     (if rb_is_red uncle then do {
        uncle \<leftarrow> rb_set_black uncle;
        rb_insert_color (Nd (Nd pl RB_BLACK p node) RB_RED g uncle) ps
      } else do {
        rotated \<leftarrow> rb_rotate_left (Nd pl RB_RED p node);
        case rotated of
          Nd node' _ p' pr \<Rightarrow> rb_insert_color node' (InLeft RB_BLACK p' (Nd pr RB_RED g uncle) # ps)
        | Null \<Rightarrow> None
      })"
| "rb_insert_color node (InRight pl RB_RED p # InRight uncle gc g # ps) =
     (if rb_is_red uncle then do {
        uncle \<leftarrow> rb_set_black uncle;
        rb_insert_color (Nd uncle RB_RED g (Nd pl RB_BLACK p node)) ps
      } else rb_insert_color node (InRight (Nd uncle RB_RED g pl) RB_BLACK p # ps))"
| "rb_insert_color node (InLeft RB_RED p pr # InRight uncle gc g # ps) =
     (if rb_is_red uncle then do {
        uncle \<leftarrow> rb_set_black uncle;
        rb_insert_color (Nd uncle RB_RED g (Nd node RB_BLACK p pr)) ps
      } else do {
        rotated \<leftarrow> rb_rotate_right (Nd node RB_RED p pr);
        case rotated of
          Nd pl _ p' node' \<Rightarrow> rb_insert_color node' (InRight (Nd uncle RB_RED g pl) RB_BLACK p' # ps)
        | Null \<Rightarrow> None
      })"
| "rb_insert_color node (InLeft RB_RED p pr # []) = None"   \<comment> \<open>the grandparent is null\<close>
| "rb_insert_color node (InRight pl RB_RED p # []) = None"
| "rb_insert_color node ps = rb_set_black (plug ps node)"
  by pat_completeness auto
termination by (relation "measure (\<lambda>(node, ps). length ps)") auto

section \<open>Removal\<close>

text \<open>
  One turn of the loop of \<open>__rb_erase_color\<close> below a sibling that is not red: either the
  missing black moves up one level, or rotations settle it and the loop is left by \<open>break\<close>
  with \<open>node\<close> the root.
\<close>

datatype 'a turn = Up "'a rb" "'a path" | Settled "'a rb"

definition erase_turn_left :: "'a rb \<Rightarrow> color \<Rightarrow> 'a \<Rightarrow> 'a rb \<Rightarrow> 'a path \<Rightarrow> 'a turn option" where
  "erase_turn_left node pc p other ps =
     (case other of
        Null \<Rightarrow> None
      | Nd lt oc ok rt \<Rightarrow>
          if null_or_black lt \<and> null_or_black rt
          then Some (Up (Nd node pc p (Nd lt RB_RED ok rt)) ps)
          else do {
            other \<leftarrow> (if null_or_black rt
                       then do { lt \<leftarrow> rb_set_black lt; rb_rotate_right (Nd lt RB_RED ok rt) }
                       else Some other);
            case other of
              Null \<Rightarrow> None
            | Nd lt _ ok rt \<Rightarrow> do {
                rt \<leftarrow> rb_set_black rt;
                t \<leftarrow> rb_rotate_left (Nd node RB_BLACK p (Nd lt pc ok rt));
                Some (Settled (plug ps t))
              }
          })"

definition erase_turn_right :: "'a rb \<Rightarrow> 'a rb \<Rightarrow> color \<Rightarrow> 'a \<Rightarrow> 'a path \<Rightarrow> 'a turn option" where
  "erase_turn_right node other pc p ps =
     (case other of
        Null \<Rightarrow> None
      | Nd lt oc ok rt \<Rightarrow>
          if null_or_black lt \<and> null_or_black rt
          then Some (Up (Nd (Nd lt RB_RED ok rt) pc p node) ps)
          else do {
            other \<leftarrow> (if null_or_black lt
                       then do { rt \<leftarrow> rb_set_black rt; rb_rotate_left (Nd lt RB_RED ok rt) }
                       else Some other);
            case other of
              Null \<Rightarrow> None
            | Nd lt _ ok rt \<Rightarrow> do {
                lt \<leftarrow> rb_set_black lt;
                t \<leftarrow> rb_rotate_right (Nd (Nd lt pc ok rt) RB_BLACK p node);
                Some (Settled (plug ps t))
              }
          })"

text \<open>
  A red sibling is first rotated above the parent. The code finds the side by
  \<open>parent->rb_left == node\<close>; the one case where that disagrees with the path, two null
  children, fails the assertion on the sibling either way.
\<close>

fun erase_turn :: "'a rb \<Rightarrow> 'a step \<Rightarrow> 'a path \<Rightarrow> 'a turn option" where
  "erase_turn node (InLeft pc p (Nd lt RB_RED ok rt)) ps =
     erase_turn_left node RB_RED p lt (InLeft RB_BLACK ok rt # ps)"
| "erase_turn node (InLeft pc p other) ps = erase_turn_left node pc p other ps"
| "erase_turn node (InRight (Nd lt RB_RED ok rt) pc p) ps =
     erase_turn_right node rt RB_RED p (InRight lt RB_BLACK ok # ps)"
| "erase_turn node (InRight other pc p) ps = erase_turn_right node other pc p ps"

definition set_black_if_node :: "'a rb \<Rightarrow> 'a rb" where
  "set_black_if_node t = (case t of Null \<Rightarrow> Null | Nd l c x r \<Rightarrow> Nd l RB_BLACK x r)"

function (sequential) rb_erase_color :: "'a rb \<Rightarrow> 'a path \<Rightarrow> 'a rb option" where
  "rb_erase_color node [] = Some (set_black_if_node node)"
| "rb_erase_color node (s # ps) =
     (if rb_is_red node then Some (plug (s # ps) (set_black_if_node node))
      else case erase_turn node s ps of
        None \<Rightarrow> None
      | Some (Up node ps) \<Rightarrow> rb_erase_color node ps
      | Some (Settled t) \<Rightarrow> Some (set_black_if_node t))"
  by pat_completeness auto

lemma erase_turn_left_Up:
  "erase_turn_left node pc p other ps = Some (Up node' ps') \<Longrightarrow>
   ps' = ps \<and> (\<exists>r. node' = Nd node pc p r)"
  by (auto simp: erase_turn_left_def split: rb.splits if_splits elim!: bind_SomeE)

lemma erase_turn_right_Up:
  "erase_turn_right node other pc p ps = Some (Up node' ps') \<Longrightarrow>
   ps' = ps \<and> (\<exists>l. node' = Nd l pc p node)"
  by (auto simp: erase_turn_right_def split: rb.splits if_splits elim!: bind_SomeE)

lemma erase_turn_Up:
  assumes "erase_turn node s ps = Some (Up node' ps')"
  shows "length ps' = length ps \<or> length ps' = Suc (length ps) \<and> rb_is_red node'"
  using assms
  by (induction node s ps rule: erase_turn.induct)
    (auto dest!: erase_turn_left_Up erase_turn_right_Up)

text \<open>The missing black climbs, or the node reached is red and the loop ends.\<close>

termination rb_erase_color
  by (relation "measure (\<lambda>(node, ps). 2 * length ps + (if rb_is_red node then 0 else 1))")
    (auto dest!: erase_turn_Up)

text \<open>
  \<open>rb_erase\<close> of the node at a position. A node with two children is replaced by its
  successor, which takes its color and children; the color that is lost is the successor's.
\<close>

fun rb_leftmost :: "'a rb \<Rightarrow> color \<Rightarrow> 'a \<Rightarrow> 'a rb \<Rightarrow> 'a path \<Rightarrow> color \<times> 'a \<times> 'a rb \<times> 'a path" where
  "rb_leftmost Null c x r ps = (c, x, r, ps)"
| "rb_leftmost (Nd ll lc lx lr) c x r ps = rb_leftmost ll lc lx lr (InLeft c x r # ps)"

definition rb_erase_at :: "'a rb \<Rightarrow> 'a path \<Rightarrow> 'a rb option" where
  "rb_erase_at node ps =
     (case node of
        Null \<Rightarrow> None
      | Nd l c x r \<Rightarrow>
          (case (l, r) of
             (Null, _) \<Rightarrow> if c = RB_BLACK then rb_erase_color r ps else Some (plug ps r)
           | (_, Null) \<Rightarrow> if c = RB_BLACK then rb_erase_color l ps else Some (plug ps l)
           | (_, Nd rl rc rx rr) \<Rightarrow>
               (case rb_leftmost rl rc rx rr [] of
                  (sc, succ, child, down) \<Rightarrow>
                    let qs = down @ InRight l c succ # ps in
                    if sc = RB_BLACK then rb_erase_color child qs else Some (plug qs child))))"

text \<open>The position of the node that holds \<open>x\<close>: what the pointer to it stands for.\<close>

fun rb_locate :: "'a \<Rightarrow> 'a rb \<Rightarrow> 'a path \<Rightarrow> ('a rb \<times> 'a path) option" where
  "rb_locate x Null ps = None"
| "rb_locate x (Nd l c y r) ps =
     (if x = y then Some (Nd l c y r, ps)
      else case rb_locate x l (InLeft c y r # ps) of
        Some z \<Rightarrow> Some z
      | None \<Rightarrow> rb_locate x r (InRight l c y # ps))"

definition rb_erase :: "'a \<Rightarrow> 'a rb \<Rightarrow> 'a rb option" where
  "rb_erase x t = do { (node, ps) \<leftarrow> rb_locate x t []; rb_erase_at node ps }"

section \<open>Traversal\<close>

fun rb_first :: "'a rb \<Rightarrow> 'a option" where
  "rb_first Null = None"
| "rb_first (Nd Null c x r) = Some x"
| "rb_first (Nd l c x r) = rb_first l"

fun rb_last :: "'a rb \<Rightarrow> 'a option" where
  "rb_last Null = None"
| "rb_last (Nd l c x Null) = Some x"
| "rb_last (Nd l c x r) = rb_last r"

fun climb_next :: "'a path \<Rightarrow> 'a option" where
  "climb_next [] = None"
| "climb_next (InRight l c x # ps) = climb_next ps"
| "climb_next (InLeft c x r # ps) = Some x"

fun climb_prev :: "'a path \<Rightarrow> 'a option" where
  "climb_prev [] = None"
| "climb_prev (InLeft c x r # ps) = climb_prev ps"
| "climb_prev (InRight l c x # ps) = Some x"

text \<open>
  \<open>rb_next\<close> and \<open>rb_prev\<close> of a node that is in a tree. The outer option is a pointer that
  is not a node of the tree, the inner one the null pointer at either end.
\<close>

definition rb_next :: "'a \<Rightarrow> 'a rb \<Rightarrow> 'a option option" where
  "rb_next x t = do {
     (node, ps) \<leftarrow> rb_locate x t [];
     case node of
       Null \<Rightarrow> None
     | Nd l c y r \<Rightarrow> Some (if r \<noteq> Null then rb_first r else climb_next ps)
   }"

definition rb_prev :: "'a \<Rightarrow> 'a rb \<Rightarrow> 'a option option" where
  "rb_prev x t = do {
     (node, ps) \<leftarrow> rb_locate x t [];
     case node of
       Null \<Rightarrow> None
     | Nd l c y r \<Rightarrow> Some (if l \<noteq> Null then rb_last l else climb_prev ps)
   }"

text \<open>\<open>rb_replace_node\<close>: the new node takes the victim's place, links and color.\<close>

definition rb_replace_node :: "'a \<Rightarrow> 'a \<Rightarrow> 'a rb \<Rightarrow> 'a rb option" where
  "rb_replace_node victim new t = do {
     (node, ps) \<leftarrow> rb_locate victim t [];
     case node of
       Null \<Rightarrow> None
     | Nd l c _ r \<Rightarrow> Some (plug ps (Nd l c new r))
   }"

section \<open>Search and insertion loops\<close>

text \<open>
  Every table of the daemon has its own copy of these two loops; they differ only in the
  comparison of the key sought with the node's, here a function of the node. Descending to
  a null link gives the path at which the new node is linked as a red leaf; a node that
  compares equal ends the insertion with result 0.
\<close>

fun rb_search :: "('a \<Rightarrow> int) \<Rightarrow> 'a rb \<Rightarrow> 'a option" where
  "rb_search f Null = None"
| "rb_search f (Nd l c x r) =
     (if f x < 0 then rb_search f l else if f x > 0 then rb_search f r else Some x)"

fun rb_descend :: "('a \<Rightarrow> int) \<Rightarrow> 'a rb \<Rightarrow> 'a path \<Rightarrow> 'a path option" where
  "rb_descend f Null ps = Some ps"
| "rb_descend f (Nd l c x r) ps =
     (if f x < 0 then rb_descend f l (InLeft c x r # ps)
      else if f x > 0 then rb_descend f r (InRight l c x # ps) else None)"

definition rb_insert :: "('a \<Rightarrow> int) \<Rightarrow> 'a \<Rightarrow> 'a rb \<Rightarrow> ('a rb \<times> bool) option" where
  "rb_insert f x t =
     (case rb_descend f t [] of
        None \<Rightarrow> Some (t, False)
      | Some ps \<Rightarrow> do {
          t \<leftarrow> rb_insert_color (Nd Null RB_RED x Null) ps;
          Some (t, True)
        })"


section \<open>The order of the nodes\<close>

fun before :: "'a path \<Rightarrow> 'a list" where
  "before [] = []"
| "before (InLeft c x r # ps) = before ps"
| "before (InRight l c x # ps) = before ps @ rb_inorder l @ [x]"

fun after :: "'a path \<Rightarrow> 'a list" where
  "after [] = []"
| "after (InLeft c x r # ps) = x # rb_inorder r @ after ps"
| "after (InRight l c x # ps) = after ps"

lemma inorder_plug: "rb_inorder (plug ps t) = before ps @ rb_inorder t @ after ps"
proof (induction ps arbitrary: t)
  case (Cons s ps)
  then show ?case by (cases s) simp_all
qed simp

lemma before_append: "before (ps @ qs) = before qs @ before ps"
  by (induction ps rule: before.induct) simp_all

lemma after_append: "after (ps @ qs) = after ps @ after qs"
  by (induction ps rule: after.induct) simp_all

lemma rb_set_black_inorder: "rb_set_black t = Some u \<Longrightarrow> rb_inorder u = rb_inorder t"
  by (cases t) auto

lemma rb_rotate_left_inorder: "rb_rotate_left t = Some u \<Longrightarrow> rb_inorder u = rb_inorder t"
  by (cases t rule: rb_rotate_left.cases) auto

lemma rb_rotate_right_inorder: "rb_rotate_right t = Some u \<Longrightarrow> rb_inorder u = rb_inorder t"
  by (cases t rule: rb_rotate_right.cases) auto

lemmas node_inorder = rb_set_black_inorder rb_rotate_left_inorder rb_rotate_right_inorder

lemma rb_set_black_eq:
  "rb_set_black t = (case t of Null \<Rightarrow> None | Nd l c x r \<Rightarrow> Some (Nd l RB_BLACK x r))"
  by (cases t) auto

lemma rotate_Nd_inorder:
  "rb_rotate_left (Nd l c x r) = Some (Nd l' c' x' r') \<Longrightarrow>
     rb_inorder l' @ x' # rb_inorder r' = rb_inorder l @ x # rb_inorder r"
  "rb_rotate_right (Nd l c x r) = Some (Nd l' c' x' r') \<Longrightarrow>
     rb_inorder l' @ x' # rb_inorder r' = rb_inorder l @ x # rb_inorder r"
  using rb_rotate_left_inorder [of "Nd l c x r"] rb_rotate_right_inorder [of "Nd l c x r"] by auto

lemma plug_eq_Nd:
  "plug ps t = Nd l c x r \<Longrightarrow> rb_inorder l @ x # rb_inorder r = before ps @ rb_inorder t @ after ps"
  by (metis inorder_plug rb_inorder.simps(2))

lemma rb_insert_color_inorder:
  "rb_insert_color t ps = Some u \<Longrightarrow> rb_inorder u = rb_inorder (plug ps t)"
  by (induction t ps rule: rb_insert_color.induct)
    (auto simp: inorder_plug rb_set_black_eq dest!: rotate_Nd_inorder dest: plug_eq_Nd
      split: if_splits rb.splits elim!: bind_SomeE)

fun turn_inorder :: "'a turn \<Rightarrow> 'a list" where
  "turn_inorder (Up t ps) = rb_inorder (plug ps t)"
| "turn_inorder (Settled t) = rb_inorder t"

lemma erase_turn_left_inorder:
  "erase_turn_left node pc p other ps = Some u \<Longrightarrow>
   turn_inorder u = rb_inorder (plug ps (Nd node pc p other))"
  by (auto simp: erase_turn_left_def inorder_plug dest!: node_inorder split: rb.splits if_splits
      elim!: bind_SomeE)

lemma erase_turn_right_inorder:
  "erase_turn_right node other pc p ps = Some u \<Longrightarrow>
   turn_inorder u = rb_inorder (plug ps (Nd other pc p node))"
  by (auto simp: erase_turn_right_def inorder_plug dest!: node_inorder split: rb.splits if_splits
      elim!: bind_SomeE)

lemma erase_turn_inorder:
  "erase_turn node s ps = Some u \<Longrightarrow> turn_inorder u = rb_inorder (plug (s # ps) node)"
  by (induction node s ps rule: erase_turn.induct)
    (auto simp: inorder_plug dest!: erase_turn_left_inorder erase_turn_right_inorder)

lemma set_black_if_node_inorder [simp]: "rb_inorder (set_black_if_node t) = rb_inorder t"
  by (cases t) (simp_all add: set_black_if_node_def)

lemma rb_erase_color_inorder:
  "rb_erase_color t ps = Some u \<Longrightarrow> rb_inorder u = rb_inorder (plug ps t)"
proof (induction t ps rule: rb_erase_color.induct)
  case (2 node s ps)
  from 2(2) show ?case
    by (cases s) (auto simp: inorder_plug 2(1) dest!: erase_turn_inorder split: if_splits option.splits turn.splits)
qed auto

lemma rb_leftmost_inorder:
  "rb_leftmost l c x r ps = (sc, s, child, down) \<Longrightarrow>
   rb_inorder (plug ps (Nd l c x r)) = before down @ s # rb_inorder child @ after down \<and> before down = before ps"
  by (induction l c x r ps rule: rb_leftmost.induct) (auto simp: inorder_plug)

lemma rb_erase_at_inorder:
  assumes "rb_erase_at (Nd l c x r) ps = Some u"
  shows "rb_inorder u = before ps @ rb_inorder l @ rb_inorder r @ after ps"
  using assms
  by (auto simp: rb_erase_at_def inorder_plug before_append after_append Let_def
      dest!: rb_erase_color_inorder rb_leftmost_inorder split: rb.splits if_splits prod.splits)

lemma rb_locate_sound:
  "rb_locate x t ps = Some (u, qs) \<Longrightarrow> plug qs u = plug ps t \<and> (\<exists>l c r. u = Nd l c x r)"
  by (induction x t ps rule: rb_locate.induct) (auto split: if_splits option.splits)

lemma rb_locate_None: "rb_locate x t ps = None \<longleftrightarrow> x \<notin> set (rb_inorder t)"
  by (induction x t ps rule: rb_locate.induct) (auto split: option.splits)

lemma rb_locateE:
  assumes "x \<in> set (rb_inorder t)"
  obtains l c r qs where "rb_locate x t [] = Some (Nd l c x r, qs)" "plug qs (Nd l c x r) = t"
  using assms rb_locate_None [of x t "[]"] rb_locate_sound [of x t "[]"] by force

section \<open>The red-black invariant\<close>

fun bheight :: "'a rb \<Rightarrow> nat" where
  "bheight Null = 0"
| "bheight (Nd l c x r) = bheight l + (if c = RB_BLACK then 1 else 0)"

fun invh :: "'a rb \<Rightarrow> bool" where
  "invh Null = True"
| "invh (Nd l c x r) = (invh l \<and> invh r \<and> bheight l = bheight r)"

fun invc :: "'a rb \<Rightarrow> bool" where
  "invc Null = True"
| "invc (Nd l c x r) = (invc l \<and> invc r \<and> (c = RB_RED \<longrightarrow> \<not> rb_is_red l \<and> \<not> rb_is_red r))"

definition rbt_ok :: "'a rb \<Rightarrow> bool" where
  "rbt_ok t \<longleftrightarrow> invc t \<and> invh t \<and> \<not> rb_is_red t"

text \<open>The same of a path, for a subtree of black height \<open>n\<close>; no red node is the root.\<close>

fun path_h :: "'a path \<Rightarrow> nat \<Rightarrow> bool" where
  "path_h [] n = True"
| "path_h (InLeft c x r # ps) n = (invh r \<and> bheight r = n \<and> path_h ps (n + (if c = RB_BLACK then 1 else 0)))"
| "path_h (InRight l c x # ps) n = (invh l \<and> bheight l = n \<and> path_h ps (n + (if c = RB_BLACK then 1 else 0)))"

fun parent_black :: "'a path \<Rightarrow> bool" where
  "parent_black [] = False"
| "parent_black (s # ps) = (step_color s = RB_BLACK)"

fun path_c :: "'a path \<Rightarrow> bool" where
  "path_c [] = True"
| "path_c (InLeft c x r # ps) = (invc r \<and> (c = RB_RED \<longrightarrow> \<not> rb_is_red r \<and> parent_black ps) \<and> path_c ps)"
| "path_c (InRight l c x # ps) = (invc l \<and> (c = RB_RED \<longrightarrow> \<not> rb_is_red l \<and> parent_black ps) \<and> path_c ps)"

lemma color_cases: "c = RB_RED \<or> c = RB_BLACK"
  by (cases c) auto

lemma invh_plug: "invh (plug ps t) \<longleftrightarrow> invh t \<and> path_h ps (bheight t)"
proof (induction ps arbitrary: t)
  case (Cons s ps)
  have "invh (plug ps (step_up s t)) \<longleftrightarrow> invh (step_up s t) \<and> path_h ps (bheight (step_up s t))"
    by (rule Cons)
  then show ?case by (cases s) (simp; metis)+
qed simp

lemma invc_plug:
  "invc (plug ps t) \<and> \<not> rb_is_red (plug ps t) \<longleftrightarrow>
     invc t \<and> path_c ps \<and> (rb_is_red t \<longrightarrow> parent_black ps)"
proof (induction ps arbitrary: t)
  case (Cons s ps)
  show ?case
    by (cases s; cases "step_color s") (auto simp: Cons)
qed simp

lemma rbt_ok_plug:
  "rbt_ok (plug ps t) \<longleftrightarrow> invc t \<and> invh t \<and> path_c ps \<and> path_h ps (bheight t)
     \<and> (rb_is_red t \<longrightarrow> parent_black ps)"
  using invc_plug [of ps t] by (auto simp: rbt_ok_def invh_plug)

lemma plug_Null_iff: "plug ps t = Null \<longleftrightarrow> ps = [] \<and> t = Null"
proof (induction ps arbitrary: t)
  case (Cons s ps)
  then show ?case by (cases s) auto
qed simp

lemma rb_set_black_plug:
  assumes "rb_is_red t" "invc t" "invh t" "path_c ps" "path_h ps (bheight t)"
    and "parent_black ps \<or> ps = []"
  shows "\<exists>u. rb_set_black (plug ps t) = Some u \<and> rbt_ok u"
proof (cases ps)
  case Nil
  then show ?thesis using assms by (cases t) (auto simp: rbt_ok_def)
next
  case (Cons s qs)
  with assms have ok: "rbt_ok (plug ps t)" by (simp add: rbt_ok_plug del: plug.simps)
  moreover obtain l c x r where "plug ps t = Nd l c x r"
    using Cons plug_Null_iff [of ps t] by (cases "plug ps t") auto
  moreover from this ok have "c = RB_BLACK" by (cases c) (auto simp: rbt_ok_def)
  ultimately show ?thesis by simp
qed

lemma rb_set_black_root:
  "rb_is_red t \<Longrightarrow> invc t \<Longrightarrow> invh t \<Longrightarrow> \<exists>u. rb_set_black (plug [] t) = Some u \<and> rbt_ok u"
  by (rule rb_set_black_plug) simp_all

lemma redE:
  assumes "rb_is_red t"
  obtains l x r where "t = Nd l RB_RED x r"
  using assms by (cases t) auto

lemma rb_insert_color_ok:
  "\<lbrakk>rb_is_red t; invc t; invh t; path_c ps; path_h ps (bheight t)\<rbrakk> \<Longrightarrow>
   \<exists>u. rb_insert_color t ps = Some u \<and> rbt_ok u"
proof (induction t ps rule: rb_insert_color.induct)
  case (1 node p pr gc g uncle ps)
  then show ?case by (cases gc; cases "rb_is_red uncle") (auto elim!: redE)
next
  case (2 node pl p gc g uncle ps)
  then show ?case by (cases gc; cases "rb_is_red uncle") (auto elim!: redE)
next
  case (3 node pl p uncle gc g ps)
  then show ?case by (cases gc; cases "rb_is_red uncle") (auto elim!: redE)
next
  case (4 node p pr uncle gc g ps)
  then show ?case by (cases gc; cases "rb_is_red uncle") (auto elim!: redE)
qed (auto simp del: plug.simps intro!: rb_set_black_plug rb_set_black_root)

section \<open>Removal keeps it\<close>

fun turn_ok :: "'a turn \<Rightarrow> bool" where
  "turn_ok (Up t ps) \<longleftrightarrow> invc (set_black_if_node t) \<and> invh t \<and> path_c ps \<and> path_h ps (Suc (bheight t))"
| "turn_ok (Settled t) \<longleftrightarrow> rbt_ok t"

lemma set_black_if_node_simps [simp]:
  "set_black_if_node Null = Null" "set_black_if_node (Nd l c x r) = Nd l RB_BLACK x r"
  by (simp_all add: set_black_if_node_def)

lemma set_black_if_node_id: "\<not> rb_is_red t \<Longrightarrow> set_black_if_node t = t"
  by (cases t) (use color_cases in auto)

lemma erase_turn_left_ok:
  assumes "invc t" "\<not> rb_is_red t" "invh t" "\<not> rb_is_red other"
    and "path_c (InLeft pc p other # ps)" "path_h (InLeft pc p other # ps) (Suc (bheight t))"
  shows "\<exists>u. erase_turn_left t pc p other ps = Some u \<and> turn_ok u"
proof -
  obtain lt ok rt where o: "other = Nd lt RB_BLACK ok rt"
    using assms(4,6) by (cases other) (use color_cases in auto)
  show ?thesis
  proof (cases "null_or_black lt \<and> null_or_black rt")
    case True
    then show ?thesis using assms o by (auto simp: erase_turn_left_def null_or_black_def)
  next
    case False
    then show ?thesis using assms o
      by (cases "rb_is_red rt")
        (auto simp: erase_turn_left_def null_or_black_def rbt_ok_plug elim!: redE)
  qed
qed

lemma erase_turn_right_ok:
  assumes "invc t" "\<not> rb_is_red t" "invh t" "\<not> rb_is_red other"
    and "path_c (InRight other pc p # ps)" "path_h (InRight other pc p # ps) (Suc (bheight t))"
  shows "\<exists>u. erase_turn_right t other pc p ps = Some u \<and> turn_ok u"
proof -
  obtain lt ok rt where o: "other = Nd lt RB_BLACK ok rt"
    using assms(4,6) by (cases other) (use color_cases in auto)
  show ?thesis
  proof (cases "null_or_black lt \<and> null_or_black rt")
    case True
    then show ?thesis using assms o by (auto simp: erase_turn_right_def null_or_black_def)
  next
    case False
    then show ?thesis using assms o
      by (cases "rb_is_red lt")
        (auto simp: erase_turn_right_def null_or_black_def rbt_ok_plug elim!: redE)
  qed
qed

lemma erase_turn_ok:
  assumes "invc t" "\<not> rb_is_red t" "invh t" "path_c (s # ps)" "path_h (s # ps) (Suc (bheight t))"
  shows "\<exists>u. erase_turn t s ps = Some u \<and> turn_ok u"
  using assms
proof (induction t s ps rule: erase_turn.induct)
  case (1 node pc p lt ok rt ps)
  then show ?case
    by (cases pc) (auto intro!: erase_turn_left_ok)
next
  case (3 node lt ok rt pc p ps)
  then show ?case
    by (cases pc) (auto intro!: erase_turn_right_ok)
qed (auto simp del: path_c.simps path_h.simps intro!: erase_turn_left_ok erase_turn_right_ok)

lemma rb_erase_color_ok:
  "\<lbrakk>invc (set_black_if_node t); invh t; path_c ps; path_h ps (Suc (bheight t))\<rbrakk> \<Longrightarrow>
   \<exists>u. rb_erase_color t ps = Some u \<and> rbt_ok u"
proof (induction t ps rule: rb_erase_color.induct)
  case (1 node)
  then show ?case by (cases node) (auto simp: rbt_ok_def)
next
  case (2 node s ps)
  show ?case
  proof (cases "rb_is_red node")
    case True
    with 2(2-5) have "rbt_ok (plug (s # ps) (set_black_if_node node))"
      by (auto simp: rbt_ok_plug simp del: plug.simps elim!: redE)
    with True show ?thesis by simp
  next
    case False
    with 2(2-5) obtain u where u: "erase_turn node s ps = Some u" "turn_ok u"
      using erase_turn_ok [of node s ps] by (auto simp: set_black_if_node_id)
    show ?thesis
    proof (cases u)
      case (Up t qs)
      with 2(1) [OF False u(1)] u False show ?thesis by simp
    next
      case (Settled t)
      with u False show ?thesis by (simp add: set_black_if_node_id rbt_ok_def)
    qed
  qed
qed

lemma color_not [simp]: "c \<noteq> RB_RED \<longleftrightarrow> c = RB_BLACK" "c \<noteq> RB_BLACK \<longleftrightarrow> c = RB_RED"
  by (cases c; simp)+

lemma plug_append: "plug (ps @ qs) t = plug qs (plug ps t)"
  by (induction ps arbitrary: t) simp_all

lemma rb_leftmost_plug:
  "rb_leftmost l c x r ps = (sc, s, child, down) \<Longrightarrow>
   plug down (Nd Null sc s child) = plug ps (Nd l c x r)"
  by (induction l c x r ps rule: rb_leftmost.induct) simp_all

text \<open>The invariant does not depend on which elements the nodes hold.\<close>

lemma path_relabel:
  "path_c (down @ InRight l c x # ps) \<longleftrightarrow> path_c (down @ InRight l c y # ps)"
  "path_h (down @ InRight l c x # ps) n \<longleftrightarrow> path_h (down @ InRight l c y # ps) n"
  "parent_black (down @ InRight l c x # ps) \<longleftrightarrow> parent_black (down @ InRight l c y # ps)"
proof (induction down arbitrary: n)
  case (Cons s down)
  { case 1 then show ?case using Cons by (cases s; cases down) auto }
  { case 2 then show ?case using Cons by (cases s) auto }
  { case 3 then show ?case by simp }
qed simp_all

lemma bheight_0: "bheight t = 0 \<Longrightarrow> \<not> rb_is_red t \<Longrightarrow> t = Null"
  by (cases t) (auto split: if_splits)

lemma invc_set_black: "invc t \<Longrightarrow> invc (set_black_if_node t)"
  by (cases t) auto

lemma erase_one_child:
  assumes "rbt_ok (plug ps (Nd Null c x r)) \<or> rbt_ok (plug ps (Nd r c x Null))"
  shows "\<exists>u. (if c = RB_BLACK then rb_erase_color r ps else Some (plug ps r)) = Some u \<and> rbt_ok u"
proof -
  have inv: "invc r" "invh r" "bheight r = 0" "path_c ps"
    "path_h ps (if c = RB_BLACK then 1 else 0)" "c = RB_RED \<Longrightarrow> \<not> rb_is_red r"
    using assms by (auto simp: rbt_ok_plug)
  show ?thesis
  proof (cases c)
    case RB_BLACK
    with inv rb_erase_color_ok [of r ps] show ?thesis by (simp add: invc_set_black)
  next
    case RB_RED
    with inv bheight_0 have "r = Null" by blast
    with RB_RED inv show ?thesis by (simp add: rbt_ok_plug)
  qed
qed

lemma rb_erase_at_ok:
  assumes "rbt_ok (plug ps (Nd l c x r))"
  shows "\<exists>u. rb_erase_at (Nd l c x r) ps = Some u \<and> rbt_ok u"
proof (cases "l = Null \<or> r = Null")
  case True
  then show ?thesis
    using assms erase_one_child [of ps c x r] erase_one_child [of ps c x l]
    by (auto simp: rb_erase_at_def split: rb.splits)
next
  case False
  then obtain rl rc rx rr where r: "r = Nd rl rc rx rr" by (cases r) auto
  obtain sc s child down where lm: "rb_leftmost rl rc rx rr [] = (sc, s, child, down)"
    by (cases "rb_leftmost rl rc rx rr []") auto
  have "rbt_ok (plug (down @ InRight l c x # ps) (Nd Null sc s child))"
    using assms rb_leftmost_plug [OF lm] by (simp add: plug_append r)
  then have "rbt_ok (plug (down @ InRight l c s # ps) (Nd Null sc s child))"
    unfolding rbt_ok_plug
    using path_relabel [where down = down and l = l and c = c and x = x and y = s and ps = ps] by blast
  from erase_one_child [OF disjI1, OF this] False r lm show ?thesis
    by (auto simp: rb_erase_at_def Let_def split: rb.splits)
qed

lemma rb_erase_spec:
  assumes "rbt_ok t" "distinct (rb_inorder t)" "x \<in> set (rb_inorder t)"
  obtains u where "rb_erase x t = Some u" "rbt_ok u" "rb_inorder u = remove1 x (rb_inorder t)"
proof -
  obtain l c r ps where at: "rb_locate x t [] = Some (Nd l c x r, ps)" "plug ps (Nd l c x r) = t"
    using assms(3) by (rule rb_locateE)
  obtain u where u: "rb_erase_at (Nd l c x r) ps = Some u" "rbt_ok u"
    using rb_erase_at_ok [of ps l c x r] assms(1) at(2) by auto
  have t: "rb_inorder t = before ps @ rb_inorder l @ x # rb_inorder r @ after ps"
    using inorder_plug [of ps "Nd l c x r"] by (simp add: at(2))
  have "rb_inorder u = remove1 x (rb_inorder t)"
    using rb_erase_at_inorder [OF u(1)] assms(2) by (simp add: t remove1_append)
  with u at(1) show thesis by (intro that) (simp_all add: rb_erase_def)
qed

lemma rb_erase_None: "x \<notin> set (rb_inorder t) \<Longrightarrow> rb_erase x t = None"
  by (simp add: rb_erase_def rb_locate_None [THEN iffD2])

section \<open>Height\<close>

fun rb_height :: "'a rb \<Rightarrow> nat" where
  "rb_height Null = 0"
| "rb_height (Nd l c x r) = Suc (max (rb_height l) (rb_height r))"

lemma rb_height_bheight:
  "invc t \<Longrightarrow> invh t \<Longrightarrow> rb_height t \<le> 2 * bheight t + (if rb_is_red t then 1 else 0)"
  by (induction t) (auto split: if_splits)

lemma bheight_size: "invh t \<Longrightarrow> 2 ^ bheight t \<le> Suc (length (rb_inorder t))"
proof (induction t)
  case (Nd l c x r)
  then have "2 ^ bheight l \<le> Suc (length (rb_inorder l))" "2 ^ bheight l \<le> Suc (length (rb_inorder r))"
    by simp_all
  then show ?case by simp
qed simp

lemma rb_height_size:
  assumes "rbt_ok t"
  shows "2 ^ rb_height t \<le> (Suc (length (rb_inorder t)))\<^sup>2"
proof -
  have "rb_height t \<le> 2 * bheight t" using assms rb_height_bheight [of t] by (simp add: rbt_ok_def)
  then have "(2::nat) ^ rb_height t \<le> 2 ^ (2 * bheight t)" by (simp add: power_increasing)
  also have "\<dots> = (2 ^ bheight t)\<^sup>2" by (simp add: power_mult mult.commute power2_eq_square power_add mult_2)
  also have "\<dots> \<le> (Suc (length (rb_inorder t)))\<^sup>2"
    using assms bheight_size [of t] by (intro power_mono) (auto simp: rbt_ok_def)
  finally show ?thesis .
qed

section \<open>Traversal\<close>

lemma rb_inorder_Nil: "rb_inorder t = [] \<longleftrightarrow> t = Null"
  by (cases t) auto

lemma rb_first_eq: "rb_first t = (case rb_inorder t of [] \<Rightarrow> None | x # _ \<Rightarrow> Some x)"
  by (induction t rule: rb_first.induct) (auto split: list.splits simp: rb_inorder_Nil append_eq_Cons_conv)

lemma rb_last_eq: "rb_last t = (if t = Null then None else Some (last (rb_inorder t)))"
  by (induction t rule: rb_last.induct) (auto simp: rb_inorder_Nil)

lemma climb_next_eq: "climb_next ps = (case after ps of [] \<Rightarrow> None | x # _ \<Rightarrow> Some x)"
  by (induction ps rule: climb_next.induct) auto

lemma climb_prev_eq: "climb_prev ps = (if before ps = [] then None else Some (last (before ps)))"
  by (induction ps rule: climb_prev.induct) auto

lemma split_unique:
  assumes "distinct (xs @ x # ys)" "xs @ x # ys = xs' @ x # ys'"
  shows "xs = xs' \<and> ys = ys'"
proof -
  have "x \<notin> set xs" "x \<notin> set ys" using assms(1) by auto
  from append_Cons_eq_iff [OF this] assms(2) show ?thesis by blast
qed

lemma rb_next_prev:
  assumes "distinct (rb_inorder t)" "rb_inorder t = xs @ x # ys"
  shows "rb_next x t = Some (case ys of [] \<Rightarrow> None | y # _ \<Rightarrow> Some y)"
    and "rb_prev x t = Some (if xs = [] then None else Some (last xs))"
proof -
  have "x \<in> set (rb_inorder t)" using assms by simp
  then obtain l c r ps where at: "rb_locate x t [] = Some (Nd l c x r, ps)" "plug ps (Nd l c x r) = t"
    by (rule rb_locateE)
  have "xs @ x # ys = (before ps @ rb_inorder l) @ x # rb_inorder r @ after ps"
    using inorder_plug [of ps "Nd l c x r"] assms(2) by (simp add: at(2))
  from split_unique [OF _ this] assms have "xs = before ps @ rb_inorder l" "ys = rb_inorder r @ after ps"
    by simp_all
  then show "rb_next x t = Some (case ys of [] \<Rightarrow> None | y # _ \<Rightarrow> Some y)"
    "rb_prev x t = Some (if xs = [] then None else Some (last xs))"
    by (auto simp: rb_next_def rb_prev_def at(1) rb_first_eq rb_last_eq climb_next_eq climb_prev_eq
        rb_inorder_Nil split: list.splits)
qed

text \<open>
  The loop \<open>for (n = rb_first(t); n; n = rb_next(n))\<close> visits the nodes in order, so a loop
  of the daemon over a tree that it leaves alone is a recursion over \<open>rb_inorder\<close>.
\<close>

fun rb_walk :: "nat \<Rightarrow> 'a option \<Rightarrow> 'a rb \<Rightarrow> 'a list option" where
  "rb_walk n None t = Some []"
| "rb_walk 0 (Some x) t = None"
| "rb_walk (Suc n) (Some x) t = do {
     next \<leftarrow> rb_next x t;
     xs \<leftarrow> rb_walk n next t;
     Some (x # xs)
   }"

lemma rb_walk_suffix:
  assumes "distinct (rb_inorder t)"
  shows "rb_inorder t = xs @ ys \<Longrightarrow> length ys \<le> n \<Longrightarrow>
    rb_walk n (case ys of [] \<Rightarrow> None | y # _ \<Rightarrow> Some y) t = Some ys"
proof (induction ys arbitrary: n xs)
  case (Cons y ys)
  then obtain m where n: "n = Suc m" by (cases n) auto
  have "rb_inorder t = (xs @ [y]) @ ys" using Cons.prems by simp
  from Cons.IH [OF this, of m] Cons.prems n rb_next_prev(1) [OF assms Cons.prems(1)]
  show ?case by simp
qed simp

lemma rb_walk_inorder:
  "distinct (rb_inorder t) \<Longrightarrow> length (rb_inorder t) \<le> n \<Longrightarrow> rb_walk n (rb_first t) t = Some (rb_inorder t)"
  using rb_walk_suffix [of t "[]" "rb_inorder t" n] by (simp add: rb_first_eq)

section \<open>Updating a node in place\<close>

lemma rb_inorder_map [simp]: "rb_inorder (map_rb f t) = map f (rb_inorder t)"
  by (induction t) simp_all

lemma rb_is_red_map [simp]: "rb_is_red (map_rb f t) = rb_is_red t"
  by (cases t) simp_all

lemma bheight_map [simp]: "bheight (map_rb f t) = bheight t"
  by (induction t) simp_all

lemma rbt_ok_map [simp]: "rbt_ok (map_rb f t) = rbt_ok t"
proof -
  have "invc (map_rb f t) = invc t" "invh (map_rb f t) = invh t"
    by (induction t) simp_all
  then show ?thesis by (simp add: rbt_ok_def)
qed

end
