(* ===== verification/RB_Index.thy ===== *)
theory RB_Index
  imports RB_Tree
begin

text \<open>
  The contract of the daemon's tables. Each table is a red-black tree of nodes with a key, and
  its own copy of the search and insertion loops over its own comparison. \<open>key_order\<close> is what
  a comparison has to promise, \<open>rb_index\<close> a table over it, and \<open>keyed_table\<close> what a table then
  promises to its users: it is a finite map from keys to nodes.
\<close>

section \<open>Tables as finite maps\<close>

locale keyed_table =
  fixes inv :: "'t \<Rightarrow> bool"
    and abs :: "'t \<Rightarrow> 'k \<rightharpoonup> 'a"
    and key :: "'a \<Rightarrow> 'k"
    and keys :: "'k set"
    and lookup :: "'k \<Rightarrow> 't \<Rightarrow> 'a option"
    and insert :: "'a \<Rightarrow> 't \<Rightarrow> ('t \<times> bool) option"
    and erase :: "'a \<Rightarrow> 't \<Rightarrow> 't option"
  assumes lookup_abs: "inv t \<Longrightarrow> k \<in> keys \<Longrightarrow> lookup k t = abs t k"
    and abs_key: "inv t \<Longrightarrow> abs t k = Some x \<Longrightarrow> key x = k \<and> k \<in> keys"
    and insert_new: "inv t \<Longrightarrow> key x \<in> keys \<Longrightarrow> abs t (key x) = None \<Longrightarrow>
      \<exists>u. insert x t = Some (u, True) \<and> inv u \<and> abs u = (abs t)(key x \<mapsto> x)"
    and insert_old: "inv t \<Longrightarrow> key x \<in> keys \<Longrightarrow> abs t (key x) \<noteq> None \<Longrightarrow> insert x t = Some (t, False)"
    and erase_abs: "inv t \<Longrightarrow> abs t (key x) = Some x \<Longrightarrow>
      \<exists>u. erase x t = Some u \<and> inv u \<and> abs u = (abs t)(key x := None)"
begin

lemma insert_total: "inv t \<Longrightarrow> key x \<in> keys \<Longrightarrow> \<exists>u b. insert x t = Some (u, b) \<and> inv u"
  using insert_new insert_old by (cases "abs t (key x)") blast+

lemma lookup_insert:
  assumes "inv t" "key x \<in> keys" "k \<in> keys" "insert x t = Some (u, b)"
  shows "lookup k u = (if b \<and> k = key x then Some x else lookup k t)"
    and "b \<longleftrightarrow> lookup (key x) t = None"
proof -
  have "(b \<longleftrightarrow> abs t (key x) = None) \<and> inv u \<and> abs u = (if b then (abs t)(key x \<mapsto> x) else abs t)"
    using insert_new [OF assms(1,2)] insert_old [OF assms(1,2)] assms(1,4)
    by (cases "abs t (key x) = None") auto
  then show "lookup k u = (if b \<and> k = key x then Some x else lookup k t)"
    and "b \<longleftrightarrow> lookup (key x) t = None"
    using assms lookup_abs by auto
qed

lemma insert_erase:
  assumes "inv t" "key x \<in> keys" "abs t (key x) = None" "insert x t = Some (u, b)"
  shows "\<exists>v. erase x u = Some v \<and> inv v \<and> abs v = abs t"
  using insert_new [OF assms(1-3)] erase_abs [of u x] assms(3,4) by (auto simp: fun_upd_idem)

lemma lookup_erase:
  assumes "inv t" "lookup (key x) t = Some x" "key x \<in> keys" "k \<in> keys" "erase x t = Some u"
  shows "lookup k u = (if k = key x then None else lookup k t)" and "inv u"
  using erase_abs [of t x] assms lookup_abs by auto

end

section \<open>Comparisons\<close>

locale key_order =
  fixes cmp :: "'k \<Rightarrow> 'k \<Rightarrow> int" and keys :: "'k set"
  assumes cmp_eq: "k \<in> keys \<Longrightarrow> l \<in> keys \<Longrightarrow> cmp k l = 0 \<longleftrightarrow> k = l"
    and cmp_flip: "k \<in> keys \<Longrightarrow> l \<in> keys \<Longrightarrow> cmp k l < 0 \<longleftrightarrow> cmp l k > 0"
    and cmp_trans: "k \<in> keys \<Longrightarrow> l \<in> keys \<Longrightarrow> m \<in> keys \<Longrightarrow>
      cmp k l < 0 \<Longrightarrow> cmp l m < 0 \<Longrightarrow> cmp k m < 0"

definition index_ok :: "('k \<Rightarrow> 'k \<Rightarrow> int) \<Rightarrow> 'k set \<Rightarrow> ('a \<Rightarrow> 'k) \<Rightarrow> 'a rb \<Rightarrow> bool" where
  "index_ok cmp ks key t \<longleftrightarrow> rbt_ok t \<and> key ` set (rb_inorder t) \<subseteq> ks
     \<and> sorted_wrt (\<lambda>x y. cmp (key x) (key y) < 0) (rb_inorder t)"

definition index_map :: "('a \<Rightarrow> 'k) \<Rightarrow> 'a rb \<Rightarrow> 'k \<rightharpoonup> 'a" where
  "index_map key t = map_of (map (\<lambda>x. (key x, x)) (rb_inorder t))"

lemma index_ok_Null [simp]: "index_ok cmp ks key Null"
  by (simp add: index_ok_def rbt_ok_def)

lemma index_map_Null [simp]: "index_map key Null = Map.empty"
  by (simp add: index_map_def)

lemma map_eqI: "(\<And>k x. f k = Some x \<longleftrightarrow> g k = Some x) \<Longrightarrow> f = g"
  by (rule ext) (metis option.exhaust)

locale rb_index = key_order cmp keys for cmp :: "'k \<Rightarrow> 'k \<Rightarrow> int" and keys +
  fixes key :: "'a \<Rightarrow> 'k"
begin

abbreviation above :: "'k \<Rightarrow> 'a \<Rightarrow> int" where
  "above k \<equiv> (\<lambda>x. cmp k (key x))"

lemma cmp_self: "k \<in> keys \<Longrightarrow> cmp k k = 0"
  by (simp add: cmp_eq)

lemma sorted_distinct_keys:
  "sorted_wrt (\<lambda>x y. cmp (key x) (key y) < 0) xs \<Longrightarrow> key ` set xs \<subseteq> keys \<Longrightarrow> distinct (map key xs)"
  by (induction xs) (use cmp_self in force)+

lemma index_map_eq_Some:
  assumes "index_ok cmp keys key t"
  shows "index_map key t k = Some x \<longleftrightarrow> x \<in> set (rb_inorder t) \<and> key x = k"
proof -
  have "distinct (map key (rb_inorder t))"
    using assms sorted_distinct_keys by (auto simp: index_ok_def)
  then show ?thesis
    unfolding index_map_def by (subst map_of_eq_Some_iff) (auto simp: comp_def)
qed

lemma index_map_eq_None:
  "index_map key t k = None \<longleftrightarrow> k \<notin> key ` set (rb_inorder t)"
  by (auto simp: index_map_def map_of_eq_None_iff image_comp)

lemma search_sorted:
  assumes "k \<in> keys"
  shows "key ` set (rb_inorder t) \<subseteq> keys \<Longrightarrow> sorted_wrt (\<lambda>x y. cmp (key x) (key y) < 0) (rb_inorder t) \<Longrightarrow>
    rb_search (above k) t = index_map key t k"
proof (induction t)
  case (Nd l c x r)
  have kx: "key x \<in> keys" using Nd.prems by auto
  have lt: "cmp (key y) (key x) < 0" "key y \<in> keys" if "y \<in> set (rb_inorder l)" for y
    using Nd.prems that by (auto simp: sorted_wrt_append)
  have gt: "cmp (key x) (key y) < 0" "key y \<in> keys" if "y \<in> set (rb_inorder r)" for y
    using Nd.prems that by (auto simp: sorted_wrt_append)
  have IH: "rb_search (above k) l = index_map key l k" "rb_search (above k) r = index_map key r k"
    using Nd by (auto simp: sorted_wrt_append)
  have app: "index_map key (Nd l c x r) k =
    (case index_map key l k of Some y \<Rightarrow> Some y
     | None \<Rightarrow> if k = key x then Some x else index_map key r k)"
    by (auto simp: index_map_def map_add_def split: option.splits)
  have noleft: "index_map key l k = None" if "cmp k (key x) \<ge> 0"
  proof -
    have "cmp k (key y) \<noteq> 0" if y: "y \<in> set (rb_inorder l)" for y
      using lt [OF y] \<open>cmp k (key x) \<ge> 0\<close> kx assms cmp_eq [of k "key y"] by auto
    then show ?thesis using lt assms cmp_self by (auto simp: index_map_eq_None)
  qed
  have noright: "index_map key r k = None" if "cmp k (key x) < 0"
  proof -
    have "k \<noteq> key y" if y: "y \<in> set (rb_inorder r)" for y
      using gt [OF y] cmp_trans [OF assms kx gt(2) [OF y] \<open>cmp k (key x) < 0\<close>] cmp_self [OF assms] by auto
    then show ?thesis by (auto simp: index_map_eq_None)
  qed
  consider "cmp k (key x) < 0" | "cmp k (key x) = 0" | "cmp k (key x) > 0" by linarith
  then show ?case
  proof cases
    case 1
    then have "k \<noteq> key x" using cmp_self [OF assms] by auto
    with 1 noright show ?thesis by (simp add: IH app split: option.splits)
  next
    case 2
    then have "key x = k" using cmp_eq kx assms by blast
    from 2 noleft show ?thesis by (simp add: app \<open>key x = k\<close>)
  next
    case 3
    then have "k \<noteq> key x" using cmp_self [OF assms] by auto
    with 3 noleft show ?thesis by (simp add: IH app)
  qed
qed simp

text \<open>The path that the insertion loop finds splits the nodes at the key.\<close>

lemma descend_sorted:
  assumes "k \<in> keys"
  shows "key ` set (rb_inorder t) \<subseteq> keys \<Longrightarrow> sorted_wrt (\<lambda>x y. cmp (key x) (key y) < 0) (rb_inorder t) \<Longrightarrow>
    (case rb_descend (above k) t ps of
       None \<Rightarrow> k \<in> key ` set (rb_inorder t)
     | Some qs \<Rightarrow> k \<notin> key ` set (rb_inorder t) \<and> plug qs Null = plug ps t \<and>
         (\<exists>xs ys. before qs = before ps @ xs \<and> after qs = ys @ after ps \<and> rb_inorder t = xs @ ys \<and>
            (\<forall>x\<in>set xs. cmp (key x) k < 0) \<and> (\<forall>y\<in>set ys. cmp k (key y) < 0)))"
proof (induction t arbitrary: ps)
  case (Nd l c x r)
  have kx: "key x \<in> keys" using Nd.prems by auto
  have lt: "cmp (key y) (key x) < 0" "key y \<in> keys" if "y \<in> set (rb_inorder l)" for y
    using Nd.prems that by (auto simp: sorted_wrt_append)
  have gt: "cmp (key x) (key y) < 0" "key y \<in> keys" if "y \<in> set (rb_inorder r)" for y
    using Nd.prems that by (auto simp: sorted_wrt_append)
  consider "cmp k (key x) < 0" | "cmp k (key x) = 0" | "cmp k (key x) > 0" by linarith
  then show ?case
  proof cases
    case 1
    have r: "cmp k (key y) < 0" if "y \<in> set (rb_inorder r)" for y
      using cmp_trans [OF assms kx gt(2) [OF that] 1 gt(1) [OF that]] .
    have "k \<noteq> key y" if "y \<in> set (x # rb_inorder r)" for y
      using r [of y] 1 that cmp_self [OF assms] by auto
    then have nr: "k \<notin> key ` set (x # rb_inorder r)" by blast
    have IH: "case rb_descend (above k) l (InLeft c x r # ps) of
       None \<Rightarrow> k \<in> key ` set (rb_inorder l)
     | Some qs \<Rightarrow> k \<notin> key ` set (rb_inorder l) \<and> plug qs Null = plug (InLeft c x r # ps) l \<and>
         (\<exists>xs ys. before qs = before (InLeft c x r # ps) @ xs \<and> after qs = ys @ after (InLeft c x r # ps)
            \<and> rb_inorder l = xs @ ys \<and>
            (\<forall>x\<in>set xs. cmp (key x) k < 0) \<and> (\<forall>y\<in>set ys. cmp k (key y) < 0))"
      using Nd.prems by (intro Nd.IH(1)) (auto simp: sorted_wrt_append)
    from 1 nr IH show ?thesis
    proof (cases "rb_descend (above k) l (InLeft c x r # ps)")
      case (Some qs)
      then obtain xs ys where "before qs = before ps @ xs" "after qs = (ys @ x # rb_inorder r) @ after ps"
        "rb_inorder l = xs @ ys" "\<forall>x\<in>set xs. cmp (key x) k < 0" "\<forall>y\<in>set ys. cmp k (key y) < 0"
        "k \<notin> key ` set (rb_inorder l)" "plug qs Null = plug (InLeft c x r # ps) l"
        using IH by auto
      with 1 nr r Some show ?thesis
        by (auto intro!: exI [of _ "ys @ x # rb_inorder r"])
    qed auto
  next
    case 2
    then have "k = key x" using cmp_eq kx assms by blast
    with 2 show ?thesis by simp
  next
    case 3
    then have xk: "cmp (key x) k < 0" using cmp_flip [OF kx assms] by simp
    have l: "cmp (key y) k < 0" if "y \<in> set (rb_inorder l)" for y
      using cmp_trans [OF lt(2) [OF that] kx assms lt(1) [OF that] xk] .
    have "k \<noteq> key y" if "y \<in> set (x # rb_inorder l)" for y
      using l [of y] xk that cmp_self [OF assms] by auto
    then have nl: "k \<notin> key ` set (x # rb_inorder l)" by blast
    have IH: "case rb_descend (above k) r (InRight l c x # ps) of
       None \<Rightarrow> k \<in> key ` set (rb_inorder r)
     | Some qs \<Rightarrow> k \<notin> key ` set (rb_inorder r) \<and> plug qs Null = plug (InRight l c x # ps) r \<and>
         (\<exists>xs ys. before qs = before (InRight l c x # ps) @ xs \<and> after qs = ys @ after (InRight l c x # ps)
            \<and> rb_inorder r = xs @ ys \<and>
            (\<forall>x\<in>set xs. cmp (key x) k < 0) \<and> (\<forall>y\<in>set ys. cmp k (key y) < 0))"
      using Nd.prems by (intro Nd.IH(2)) (auto simp: sorted_wrt_append)
    from 3 nl IH show ?thesis
    proof (cases "rb_descend (above k) r (InRight l c x # ps)")
      case (Some qs)
      then obtain xs ys where "before qs = before ps @ (rb_inorder l @ x # xs)" "after qs = ys @ after ps"
        "rb_inorder r = xs @ ys" "\<forall>x\<in>set xs. cmp (key x) k < 0" "\<forall>y\<in>set ys. cmp k (key y) < 0"
        "k \<notin> key ` set (rb_inorder r)" "plug qs Null = plug (InRight l c x # ps) r"
        using IH by auto
      with 3 nl l xk Some show ?thesis
        by (auto intro!: exI [of _ "rb_inorder l @ x # xs"])
    qed auto
  qed
qed (auto simp: assms)

lemma insert_fresh:
  assumes t: "index_ok cmp keys key t" and k: "key x \<in> keys" and new: "index_map key t (key x) = None"
  obtains u xs ys where "rb_insert (above (key x)) x t = Some (u, True)" "index_ok cmp keys key u"
    "rb_inorder t = xs @ ys" "rb_inorder u = xs @ x # ys"
proof -
  have srt: "sorted_wrt (\<lambda>x y. cmp (key x) (key y) < 0) (rb_inorder t)" and ks: "key ` set (rb_inorder t) \<subseteq> keys"
    using t by (auto simp: index_ok_def)
  from new have "key x \<notin> key ` set (rb_inorder t)" by (simp add: index_map_eq_None)
  with descend_sorted [OF k ks srt, of "[]"] obtain qs xs ys where
    qs: "rb_descend (above (key x)) t [] = Some qs" "plug qs Null = t" "before qs = xs" "after qs = ys"
      "rb_inorder t = xs @ ys" "\<forall>z\<in>set xs. cmp (key z) (key x) < 0" "\<forall>y\<in>set ys. cmp (key x) (key y) < 0"
    by (auto split: option.splits)
  have "rbt_ok (plug qs Null)" using t qs(2) by (simp add: index_ok_def)
  then have "path_c qs" "path_h qs (bheight (Nd Null RB_RED x Null))" by (auto simp: rbt_ok_plug)
  with rb_insert_color_ok [of "Nd Null RB_RED x Null" qs] obtain u where
    u: "rb_insert_color (Nd Null RB_RED x Null) qs = Some u" "rbt_ok u" by auto
  from rb_insert_color_inorder [OF u(1)] have "rb_inorder u = xs @ x # ys"
    by (simp add: inorder_plug qs)
  moreover from this u(2) srt ks k qs have "index_ok cmp keys key u"
    by (auto simp: index_ok_def sorted_wrt_append)
  ultimately show thesis using u qs(1,5) by (intro that) (simp_all add: rb_insert_def)
qed

lemma insert_present:
  assumes t: "index_ok cmp keys key t" and k: "key x \<in> keys" and old: "index_map key t (key x) \<noteq> None"
  shows "rb_insert (above (key x)) x t = Some (t, False)"
  using descend_sorted [OF k, of t "[]"] t old
  by (auto simp: index_ok_def rb_insert_def index_map_eq_None split: option.splits)

lemma erase_present:
  assumes t: "index_ok cmp keys key t" and x: "x \<in> set (rb_inorder t)"
  obtains u where "rb_erase x t = Some u" "index_ok cmp keys key u" "rb_inorder u = remove1 x (rb_inorder t)"
proof -
  have srt: "sorted_wrt (\<lambda>x y. cmp (key x) (key y) < 0) (rb_inorder t)" and ks: "key ` set (rb_inorder t) \<subseteq> keys"
    using t by (auto simp: index_ok_def)
  have d: "distinct (rb_inorder t)" using sorted_distinct_keys [OF srt ks] by (simp add: distinct_map)
  obtain u where u: "rb_erase x t = Some u" "rbt_ok u" "rb_inorder u = remove1 x (rb_inorder t)"
    using t d x by (auto simp: index_ok_def elim: rb_erase_spec)
  obtain xs ys where xy: "rb_inorder t = xs @ x # ys" "rb_inorder u = xs @ ys"
    using split_list [OF x] d u(3) by (auto simp: remove1_append)
  with u(2) srt ks have "index_ok cmp keys key u"
    by (auto simp: index_ok_def sorted_wrt_append simp del: remove1_append)
  with u that show thesis by blast
qed

lemma distinct_inorder: "index_ok cmp keys key t \<Longrightarrow> distinct (rb_inorder t)"
  using sorted_distinct_keys by (auto simp: index_ok_def distinct_map)

end

sublocale rb_index \<subseteq> keyed_table
  "index_ok cmp keys key" "index_map key" key keys
  "\<lambda>k. rb_search (\<lambda>x. cmp k (key x))" "\<lambda>x. rb_insert (\<lambda>y. cmp (key x) (key y)) x" rb_erase
proof
  fix t k x
  assume t: "index_ok cmp keys key t"
  show "rb_search (\<lambda>x. cmp k (key x)) t = index_map key t k" if "k \<in> keys"
    using search_sorted [OF that] t by (simp add: index_ok_def)
  show "key x = k \<and> k \<in> keys" if "index_map key t k = Some x"
    using that t by (auto simp: index_map_eq_Some) (auto simp: index_ok_def)
  show "\<exists>u. rb_insert (\<lambda>y. cmp (key x) (key y)) x t = Some (u, True) \<and> index_ok cmp keys key u \<and>
    index_map key u = (index_map key t)(key x \<mapsto> x)" if k: "key x \<in> keys" and new: "index_map key t (key x) = None"
  proof -
    obtain u xs ys where u: "rb_insert (above (key x)) x t = Some (u, True)" "index_ok cmp keys key u"
      "rb_inorder t = xs @ ys" "rb_inorder u = xs @ x # ys" using t k new by (rule insert_fresh)
    have "key y \<noteq> key x" if "y \<in> set (rb_inorder t)" for y
      using new that by (metis imageI index_map_eq_None)
    then have "index_map key u = (index_map key t)(key x \<mapsto> x)"
      using u(3,4) by (intro map_eqI) (auto simp: index_map_eq_Some [OF t] index_map_eq_Some [OF u(2)])
    with u show ?thesis by blast
  qed
  show "rb_insert (\<lambda>y. cmp (key x) (key y)) x t = Some (t, False)"
    if "key x \<in> keys" "index_map key t (key x) \<noteq> None"
    using t that by (rule insert_present)
  show "\<exists>u. rb_erase x t = Some u \<and> index_ok cmp keys key u \<and> index_map key u = (index_map key t)(key x := None)"
    if "index_map key t (key x) = Some x"
  proof -
    have "x \<in> set (rb_inorder t)" using that t by (simp add: index_map_eq_Some)
    then obtain u where u: "rb_erase x t = Some u" "index_ok cmp keys key u" "rb_inorder u = remove1 x (rb_inorder t)"
      using t by (auto elim: erase_present)
    have "y = x" if "y \<in> set (rb_inorder t)" "key y = key x" for y
      using index_map_eq_Some [OF t, of "key x" y] that \<open>index_map key t (key x) = Some x\<close> by simp
    then have "index_map key u = (index_map key t)(key x := None)"
      using u(3) distinct_inorder [OF t]
      by (intro map_eqI) (auto simp: index_map_eq_Some [OF t] index_map_eq_Some [OF u(2)])
    with u show ?thesis by blast
  qed
qed

section \<open>Tables of pointers\<close>

text \<open>
  Where the nodes of a table are pointers into a store, the comparison follows the pointer of
  each node it meets, and a dangling one ends the run.
\<close>

fun rb_search_ptr :: "('a \<Rightarrow> int option) \<Rightarrow> 'a rb \<Rightarrow> 'a option option" where
  "rb_search_ptr f Null = Some None"
| "rb_search_ptr f (Nd l c x r) = do {
     ret \<leftarrow> f x;
     if ret < 0 then rb_search_ptr f l else if ret > 0 then rb_search_ptr f r else Some (Some x)
   }"

fun rb_descend_ptr :: "('a \<Rightarrow> int option) \<Rightarrow> 'a rb \<Rightarrow> 'a path \<Rightarrow> 'a path option option" where
  "rb_descend_ptr f Null ps = Some (Some ps)"
| "rb_descend_ptr f (Nd l c x r) ps = do {
     ret \<leftarrow> f x;
     if ret < 0 then rb_descend_ptr f l (InLeft c x r # ps)
     else if ret > 0 then rb_descend_ptr f r (InRight l c x # ps) else Some None
   }"

definition rb_insert_ptr :: "('a \<Rightarrow> int option) \<Rightarrow> 'a \<Rightarrow> 'a rb \<Rightarrow> ('a rb \<times> bool) option" where
  "rb_insert_ptr f x t = do {
     link \<leftarrow> rb_descend_ptr f t [];
     case link of
       None \<Rightarrow> Some (t, False)
     | Some ps \<Rightarrow> do {
         t \<leftarrow> rb_insert_color (Nd Null RB_RED x Null) ps;
         Some (t, True)
       }
   }"

lemma rb_search_ptr_eq:
  "\<forall>x\<in>set (rb_inorder t). f x = Some (g x) \<Longrightarrow> rb_search_ptr f t = Some (rb_search g t)"
  by (induction t) auto

lemma rb_descend_ptr_eq:
  "\<forall>x\<in>set (rb_inorder t). f x = Some (g x) \<Longrightarrow> rb_descend_ptr f t ps = Some (rb_descend g t ps)"
  by (induction t arbitrary: ps) auto

lemma rb_insert_ptr_eq:
  "\<forall>y\<in>set (rb_inorder t). f y = Some (g y) \<Longrightarrow> rb_insert_ptr f x t = rb_insert g x t"
  using rb_descend_ptr_eq [of t f g "[]"]
  by (auto simp: rb_insert_ptr_def rb_insert_def split: option.splits)

section \<open>The daemon's comparisons\<close>

text \<open>\<open>memcmp\<close> orders the byte strings of one length.\<close>

lemma memcmp_key_order: "key_order memcmp {bs. length bs = n}"
proof
  fix k l m :: bytes
  assume k: "k \<in> {bs. length bs = n}" and l: "l \<in> {bs. length bs = n}"
  then show "memcmp k l = 0 \<longleftrightarrow> k = l" by (simp add: memcmp_0_iff)
  show "memcmp k l < 0 \<longleftrightarrow> memcmp l k > 0" using memcmp_antisym [of l k] by linarith
  assume "m \<in> {bs. length bs = n}" "memcmp k l < 0" "memcmp l m < 0"
  with k l show "memcmp k m < 0" using memcmp_trans [of k l m] by simp
qed

end
