(* ===== verification/RB_Props.thy ===== *)
theory RB_Props
  imports RB_Index
begin

text \<open>
  What the red-black trees of \<open>src/rbtree.c\<close> promise to the tables built on them, and the
  augmentation hooks of the same file, which the daemon does not use. The nodes of a tree are
  pointers, so they are distinct.
\<close>

section \<open>Augmentation\<close>

text \<open>
  \<open>rb_augment_path\<close> calls \<open>func\<close> for the node, for its sibling, and so on up to the root; the
  model lists the nodes it is called for. A left child without a sibling is reported twice.
\<close>

fun node_value :: "'a rb \<Rightarrow> 'a list" where
  "node_value Null = []"
| "node_value (Nd l c x r) = [x]"

fun rb_augment_path :: "'a rb \<Rightarrow> 'a path \<Rightarrow> 'a list" where
  "rb_augment_path node [] = node_value node"
| "rb_augment_path node (InLeft c x r # ps) =
     node_value node @ node_value (if r \<noteq> Null then r else node)
     @ rb_augment_path (Nd node c x r) ps"
| "rb_augment_path node (InRight l c x # ps) =
     node_value node @ node_value l @ rb_augment_path (Nd l c x node) ps"

definition rb_augment_insert :: "'a rb \<Rightarrow> 'a path \<Rightarrow> 'a list" where
  "rb_augment_insert node ps =
     (case node of
        Null \<Rightarrow> []
      | Nd l c x r \<Rightarrow>
          if l \<noteq> Null then rb_augment_path l (InLeft c x r # ps)
          else if r \<noteq> Null then rb_augment_path r (InRight l c x # ps)
          else rb_augment_path node ps)"

fun path_values :: "'a path \<Rightarrow> 'a list" where
  "path_values [] = []"
| "path_values (InLeft c x r # ps) = x # path_values ps"
| "path_values (InRight l c x # ps) = x # path_values ps"

text \<open>The node and all its ancestors are visited, in this order.\<close>

lemma rb_augment_path_ancestors:
  "node \<noteq> Null \<Longrightarrow> \<exists>zs. rb_augment_path node ps = node_value node @ zs \<and> set (path_values ps) \<subseteq> set zs"
proof (induction node ps rule: rb_augment_path.induct)
  case (2 node c x r ps)
  from 2(1) obtain zs where "rb_augment_path (Nd node c x r) ps = [x] @ zs" "set (path_values ps) \<subseteq> set zs"
    by auto
  then show ?case by auto
next
  case (3 node l c x ps)
  from 3(1) obtain zs where "rb_augment_path (Nd l c x node) ps = [x] @ zs" "set (path_values ps) \<subseteq> set zs"
    by auto
  then show ?case by auto
qed simp

section \<open>Insertion and removal\<close>

lemma rb_descend_plug: "rb_descend f t ps = Some qs \<Longrightarrow> plug qs Null = plug ps t"
  by (induction f t ps rule: rb_descend.induct) (auto split: if_splits)

text \<open>Whatever the comparison answers, an insertion ends and leaves a valid red-black tree.\<close>

lemma rb_insert_total:
  assumes "rbt_ok t"
  shows "\<exists>u b. rb_insert f x t = Some (u, b) \<and> rbt_ok u
    \<and> set (rb_inorder u) = (if b then insert x (set (rb_inorder t)) else set (rb_inorder t))"
proof (cases "rb_descend f t []")
  case None
  then show ?thesis using assms by (auto simp: rb_insert_def)
next
  case (Some qs)
  then have qs: "plug qs Null = t" using rb_descend_plug [of f t "[]" qs] by simp
  then have "path_c qs" "path_h qs (bheight (Nd Null RB_RED x Null))" using assms by (auto simp: rbt_ok_plug)
  with rb_insert_color_ok [of "Nd Null RB_RED x Null" qs] obtain u where
    u: "rb_insert_color (Nd Null RB_RED x Null) qs = Some u" "rbt_ok u" by auto
  moreover have "rb_inorder t = before qs @ after qs" using inorder_plug [of qs Null] qs by simp
  ultimately show ?thesis
    using Some rb_insert_color_inorder [OF u(1)] by (auto simp: rb_insert_def inorder_plug)
qed

definition demo_tree :: "nat rb" where
  "demo_tree = Nd (Nd Null RB_BLACK 1 Null) RB_BLACK 3 (Nd (Nd Null RB_RED 4 Null) RB_BLACK 5 Null)"

definition demo_path :: "nat path" where
  "demo_path = [InRight Null RB_RED 4, InLeft RB_BLACK 5 Null, InRight (Nd Null RB_BLACK 1 Null) RB_BLACK 3]"

lemma demo_tree_ok: "rbt_ok demo_tree" "rb_inorder demo_tree = [1, 3, 4, 5]"
  by (simp_all add: demo_tree_def rbt_ok_def)

lemma plug_demo_path: "plug demo_path Null = demo_tree"
  by (simp add: demo_path_def demo_tree_def)

text \<open>C22. A node linked as a red leaf at any null link of a valid red-black tree: the rebalancing
  loop of \<open>rb_insert_color\<close> returns a valid red-black tree with the node at its place among
  the others, whose order does not change. No null link is followed on the way.\<close>

theorem rb_insert_color_correct:
  assumes "rbt_ok (plug ps Null)"
  shows "\<exists>u. rb_insert_color (Nd Null RB_RED x Null) ps = Some u \<and> rbt_ok u
    \<and> rb_inorder u = before ps @ x # after ps"
proof -
  have "path_c ps" "path_h ps (bheight (Nd Null RB_RED x Null))"
    using assms by (auto simp: rbt_ok_plug)
  with rb_insert_color_ok [of "Nd Null RB_RED x Null" ps] obtain u where
    u: "rb_insert_color (Nd Null RB_RED x Null) ps = Some u" "rbt_ok u" by auto
  from rb_insert_color_inorder [OF u(1)] u show ?thesis by (simp add: inorder_plug)
qed

lemma rb_insert_color_witness:
  "\<exists>u. rb_insert_color (Nd Null RB_RED 9 Null) demo_path = Some u \<and> rbt_ok u \<and> rb_inorder u = [1, 3, 4, 9, 5]"
  using rb_insert_color_correct [of demo_path 9] demo_tree_ok
  by (simp add: plug_demo_path) (simp add: demo_path_def)

text \<open>C23. Removing a node from a valid red-black tree returns: the assertions of
  \<open>__rb_erase_color\<close> hold, no null link is followed, and the result is a valid red-black tree
  of the other nodes in their order.\<close>

theorem rb_erase_correct:
  assumes "rbt_ok t" "distinct (rb_inorder t)" "x \<in> set (rb_inorder t)"
  shows "\<exists>u. rb_erase x t = Some u \<and> rbt_ok u \<and> rb_inorder u = remove1 x (rb_inorder t)"
  using assms by (auto elim: rb_erase_spec)

lemma rb_erase_witness:
  "\<exists>u. rb_erase 1 demo_tree = Some u \<and> rbt_ok u \<and> rb_inorder u = [3, 4, 5]"
  using rb_erase_correct [of demo_tree 1] demo_tree_ok by simp

section \<open>Cost and traversal\<close>

text \<open>The trees that the daemon can build: any insertions and removals, from the empty tree on.\<close>

datatype 'a rb_op = Op_insert 'a | Op_erase 'a

fun rb_run :: "('a \<Rightarrow> 'a \<Rightarrow> int) \<Rightarrow> 'a rb_op list \<Rightarrow> 'a rb \<Rightarrow> 'a rb option" where
  "rb_run cmp [] t = Some t"
| "rb_run cmp (Op_insert x # ops) t = do { (t, _) \<leftarrow> rb_insert (cmp x) x t; rb_run cmp ops t }"
| "rb_run cmp (Op_erase x # ops) t = do { t \<leftarrow> rb_erase x t; rb_run cmp ops t }"

lemma rb_run_append: "rb_run cmp (ops @ ops') t = rb_run cmp ops t \<bind> rb_run cmp ops'"
proof (induction ops arbitrary: t)
  case (Cons op ops)
  then have "rb_run cmp (ops @ ops') = (\<lambda>t. rb_run cmp ops t \<bind> rb_run cmp ops')" by (intro ext)
  then show ?case by (cases op) (simp_all add: bind_assoc split_def)
qed simp

lemma rb_erase_located:
  assumes "rbt_ok t" "x \<in> set (rb_inorder t)"
  obtains u where "rb_erase x t = Some u" "rbt_ok u"
proof -
  from assms(2) obtain l c r ps where at: "rb_locate x t [] = Some (Nd l c x r, ps)" "plug ps (Nd l c x r) = t"
    by (rule rb_locateE)
  with rb_erase_at_ok [of ps l c x r] assms(1) show ?thesis by (auto simp: rb_erase_def intro: that)
qed

lemma rb_erase_keeps: "rbt_ok t \<Longrightarrow> rb_erase x t = Some u \<Longrightarrow> rbt_ok u"
  using rb_erase_located [of t x] rb_locate_None [of x t "[]"] by (force simp: rb_erase_def)

lemma rb_run_ok: "rb_run cmp ops t = Some u \<Longrightarrow> rbt_ok t \<Longrightarrow> rbt_ok u"
proof (induction cmp ops t rule: rb_run.induct)
  case (2 cmp x ops t)
  with rb_insert_total [of t "cmp x" x] show ?case by auto
next
  case (3 cmp x ops t)
  then show ?case by (auto elim!: bind_SomeE dest: rb_erase_keeps)
qed simp

lemma rb_descend_height: "rb_descend f t ps = Some qs \<Longrightarrow> length qs \<le> length ps + rb_height t"
  by (induction f t ps rule: rb_descend.induct) (fastforce split: if_splits)+

text \<open>C30. Whatever insertions and removals have built a tree of \<open>n\<close> nodes, its height is at most
  \<open>2 log (n + 1)\<close>, and the search for the place of a new node takes at most that many turns; and
  the next insertion, or removal of a node in the tree, runs into no assertion.\<close>

theorem rb_run_balanced:
  assumes "rb_run cmp ops Null = Some t"
  shows "2 ^ rb_height t \<le> (length (rb_inorder t) + 1)\<^sup>2
    \<and> (\<forall>f ps. rb_descend f t [] = Some ps \<longrightarrow> length ps \<le> rb_height t)
    \<and> (\<forall>x. rb_run cmp (ops @ [Op_insert x]) Null \<noteq> None)
    \<and> (\<forall>x\<in>set (rb_inorder t). rb_run cmp (ops @ [Op_erase x]) Null \<noteq> None)"
proof -
  have ok: "rbt_ok t" using rb_run_ok [OF assms] by (simp add: rbt_ok_def)
  have "rb_erase x t \<noteq> None" if "x \<in> set (rb_inorder t)" for x
    using rb_erase_located [OF ok that] by auto
  moreover have "rb_insert (cmp x) x t \<noteq> None" for x using rb_insert_total [OF ok, of "cmp x" x] by auto
  ultimately show ?thesis
    using ok rb_height_size [of t] rb_descend_height [of _ t "[]"] assms by (auto simp: rb_run_append split_def bind_eq_Some_conv)
qed

lemma rb_run_balanced_witness:
  "\<exists>t. rb_run (\<lambda>x y. int x - int y) (map Op_insert [1..<8] @ [Op_erase 4]) Null = Some t
     \<and> length (rb_inorder t) = 6 \<and> 2 ^ rb_height t \<le> (49 :: nat)"
proof -
  have "map_option (\<lambda>t. length (rb_inorder t)) (rb_run (\<lambda>x y. int x - int y) (map Op_insert [1..<8] @ [Op_erase 4]) Null) = Some 6"
    by code_simp
  then obtain t where t: "rb_run (\<lambda>x y. int x - int y) (map Op_insert [1..<8] @ [Op_erase 4]) Null = Some t"
    "length (rb_inorder t) = 6" by auto
  with rb_run_balanced [OF t(1)] show ?thesis by (auto simp: power2_eq_square)
qed

text \<open>C31. The loop over \<open>rb_first\<close> and \<open>rb_next\<close> visits every node exactly once, in order, and ends;
  \<open>rb_prev\<close> is the inverse of \<open>rb_next\<close>.\<close>

theorem rb_walk_correct:
  assumes d: "distinct (rb_inorder t)"
  shows "rb_walk (length (rb_inorder t)) (rb_first t) t = Some (rb_inorder t)
    \<and> (\<forall>x y. rb_next x t = Some (Some y) \<longrightarrow> rb_prev y t = Some (Some x))"
proof (intro conjI allI impI)
  show "rb_walk (length (rb_inorder t)) (rb_first t) t = Some (rb_inorder t)"
    using d by (rule rb_walk_inorder) simp
  fix x y
  assume nx: "rb_next x t = Some (Some y)"
  then have "x \<in> set (rb_inorder t)"
    using rb_locate_None [of x t "[]"] by (auto simp: rb_next_def)
  then obtain xs ys where t: "rb_inorder t = xs @ x # ys" by (auto dest: split_list)
  with rb_next_prev(1) [OF d t] nx obtain zs where "rb_inorder t = (xs @ [x]) @ y # zs"
    by (auto split: list.splits)
  from rb_next_prev(2) [OF d this] show "rb_prev y t = Some (Some x)" by simp
qed

lemma rb_walk_witness:
  "rb_walk (length [1, 3, 4, 5 :: nat]) (rb_first demo_tree) demo_tree = Some [1, 3, 4, 5] \<and> rb_prev 4 demo_tree = Some (Some 3)"
proof -
  have "rb_next 3 demo_tree = Some (Some 4)" by (simp add: demo_tree_def rb_next_def)
  with rb_walk_correct [of demo_tree] demo_tree_ok show ?thesis by simp
qed

text \<open>\<open>rb_replace_node\<close> puts the new node in the place of the victim and keeps the tree valid.\<close>

theorem rb_replace_node_correct:
  assumes "rbt_ok t" "distinct (rb_inorder t)" "rb_inorder t = xs @ x # ys"
  shows "\<exists>u. rb_replace_node x y t = Some u \<and> rbt_ok u \<and> rb_inorder u = xs @ y # ys"
proof -
  have "x \<in> set (rb_inorder t)" using assms by simp
  then obtain l c r ps where at: "rb_locate x t [] = Some (Nd l c x r, ps)" "plug ps (Nd l c x r) = t"
    by (rule rb_locateE)
  have "xs @ x # ys = (before ps @ rb_inorder l) @ x # rb_inorder r @ after ps"
    using inorder_plug [of ps "Nd l c x r"] assms(3) by (simp add: at(2))
  from split_unique [OF _ this] assms have "xs = before ps @ rb_inorder l" "ys = rb_inorder r @ after ps"
    by simp_all
  moreover have "rbt_ok (plug ps (Nd l c y r))"
    using assms(1) at(2) [symmetric] by (cases c) (auto simp: rbt_ok_plug)
  ultimately show ?thesis using at(1) by (simp add: rb_replace_node_def inorder_plug)
qed

lemma rb_replace_node_witness:
  "\<exists>u. rb_replace_node 4 9 demo_tree = Some u \<and> rb_inorder u = [1, 3, 9, 5]"
  using rb_replace_node_correct [of demo_tree "[1, 3]" 4 "[5]" 9] demo_tree_ok by auto

end
