(* ===== verification/RB_Augment.thy ===== *)
theory RB_Augment
  imports RB_Props
begin

text \<open>
  The augmentation of an erasure (\<open>src/rbtree.c\<close>): before a node is erased, the deepest node is found that the
  rebalancing starts from and that is still there afterwards; then the function is called from it up to the root.
\<close>

definition root_value :: "'a rb \<Rightarrow> 'a option" where
  "root_value t = (case t of Null \<Rightarrow> None | Nd l c x r \<Rightarrow> Some x)"

definition parent_value :: "'a path \<Rightarrow> 'a option" where
  "parent_value ps = (case ps of [] \<Rightarrow> None | InLeft c x r # _ \<Rightarrow> Some x | InRight l c x # _ \<Rightarrow> Some x)"

text \<open>\<open>rb_augment_erase_begin\<close>: the inner \<open>None\<close> is the null pointer, when the only node is erased.\<close>

definition rb_augment_erase_begin :: "'a \<Rightarrow> 'a rb \<Rightarrow> 'a option option" where
  "rb_augment_erase_begin x t = do {
     (node, ps) \<leftarrow> rb_locate x t [];
     case node of
       Null \<Rightarrow> None
     | Nd l c y r \<Rightarrow>
         if r = Null \<and> l = Null then Some (parent_value ps)
         else if r = Null then Some (root_value l)
         else if l = Null then Some (root_value r)
         else do {
           deepest \<leftarrow> rb_next x t;
           AN (deepest \<noteq> None);
           d \<leftarrow> deepest;
           (dnode, dps) \<leftarrow> rb_locate d t [];
           case dnode of
             Null \<Rightarrow> None
           | Nd dl dc dy dr \<Rightarrow>
               Some (if dr \<noteq> Null then root_value dr
                     else if parent_value dps \<noteq> Some x then parent_value dps
                     else Some d)
         }
   }"

definition rb_augment_erase_end :: "'a option \<Rightarrow> 'a rb \<Rightarrow> 'a list option" where
  "rb_augment_erase_end node t =
     (case node of
        None \<Rightarrow> Some []
      | Some d \<Rightarrow> do { (n, ps) \<leftarrow> rb_locate d t []; Some (rb_augment_path n ps) })"

text \<open>What the erasure starts from is not the node erased, so that it is still there afterwards.\<close>

lemma root_value_in: "root_value t = Some d \<Longrightarrow> d \<in> set (rb_inorder t)"
  by (auto simp: root_value_def split: rb.splits)

lemma parent_value_in: "parent_value ps = Some d \<Longrightarrow> d \<in> set (before ps) \<union> set (after ps)"
  by (cases ps rule: before.cases) (auto simp: parent_value_def)

lemma parent_value_None: "parent_value ps = None \<longleftrightarrow> ps = []"
  by (cases ps rule: before.cases) (auto simp: parent_value_def)

lemma root_value_plug: "ps \<noteq> [] \<Longrightarrow> root_value (plug ps t) = Some d \<Longrightarrow> d \<in> set (before ps) \<union> set (after ps)"
proof (induction ps arbitrary: t rule: before.induct)
  case (2 c x r ps)
  then show ?case by (cases "ps = []") (auto simp: root_value_def)
next
  case (3 l c x ps)
  then show ?case by (cases "ps = []") (auto simp: root_value_def)
qed simp

text \<open>The successor of a node with two children, and where it leads.\<close>

lemma deepest_of_successor:
  assumes t: "plug qs (Nd l c x r) = t" "distinct (rb_inorder t)" and d: "rb_next x t = Some (Some d)" "r \<noteq> Null"
    and at: "rb_locate d t [] = Some (Nd dl dc d dr, ps)"
  shows "d \<noteq> x" "dr \<noteq> Null \<Longrightarrow> root_value dr = Some e \<Longrightarrow> e \<noteq> x" "ps \<noteq> []"
proof -
  have t': "rb_inorder t = (before qs @ rb_inorder l) @ x # (rb_inorder r @ after qs)"
    using inorder_plug [of qs "Nd l c x r"] by (simp add: t(1))
  from rb_next_prev(1) [OF t(2) t'] d obtain ys where r: "rb_inorder r = d # ys"
    by (cases "rb_inorder r") (auto simp: rb_inorder_Nil)
  with t(2) t' show dx: "d \<noteq> x" by auto
  have plug: "plug ps (Nd dl dc d dr) = t" using rb_locate_sound [OF at] by simp
  then have "rb_inorder t = (before ps @ rb_inorder dl) @ d # (rb_inorder dr @ after ps)"
    using inorder_plug [of ps "Nd dl dc d dr"] by simp
  moreover have split: "rb_inorder t = (before qs @ rb_inorder l @ [x]) @ d # (ys @ after qs)" using t' r by simp
  ultimately have eq: "before qs @ rb_inorder l @ [x] = before ps @ rb_inorder dl" "ys @ after qs = rb_inorder dr @ after ps"
    using split_unique [of "before qs @ rb_inorder l @ [x]" d "ys @ after qs" "before ps @ rb_inorder dl" "rb_inorder dr @ after ps"] t(2) by simp_all
  have "x \<notin> set (ys @ after qs)" using t(2) t' r by auto
  then show "dr \<noteq> Null \<Longrightarrow> root_value dr = Some e \<Longrightarrow> e \<noteq> x" using root_value_in [of dr e] unfolding eq(2) by auto
  show "ps \<noteq> []"
  proof
    assume "ps = []"
    then have "root_value t = Some d" using plug by (auto simp: root_value_def)
    show False
    proof (cases "qs = []")
      case True
      with t(1) \<open>root_value t = Some d\<close> dx show False by (auto simp: root_value_def)
    next
      case False
      with root_value_plug [of qs "Nd l c x r" d] t(1) \<open>root_value t = Some d\<close> have "d \<in> set (before qs) \<union> set (after qs)" by simp
      with t(2) t' r show False by auto
    qed
  qed
qed

lemma rb_augment_erase_begin_ok:
  assumes dist: "distinct (rb_inorder t)" and x: "x \<in> set (rb_inorder t)"
  shows "\<exists>d. rb_augment_erase_begin x t = Some d
    \<and> (case d of None \<Rightarrow> rb_inorder t = [x] | Some d \<Rightarrow> d \<in> set (rb_inorder t) \<and> d \<noteq> x)"
proof -
  obtain l c r qs where at: "rb_locate x t [] = Some (Nd l c x r, qs)" "plug qs (Nd l c x r) = t"
    using x by (rule rb_locateE)
  have t': "rb_inorder t = (before qs @ rb_inorder l) @ x # (rb_inorder r @ after qs)"
    using inorder_plug [of qs "Nd l c x r"] by (simp add: at(2))
  consider (leaf) "l = Null" "r = Null" | (left) "r = Null" "l \<noteq> Null" | (right) "l = Null" "r \<noteq> Null" | (both) "l \<noteq> Null" "r \<noteq> Null"
    by blast
  then show ?thesis
  proof cases
    case leaf
    have "qs = [] \<Longrightarrow> before qs = [] \<and> after qs = []" by simp
    with leaf at(1) dist t' parent_value_in [of qs] parent_value_None [of qs] show ?thesis
      by (auto simp: rb_augment_erase_begin_def split: option.split)
  next
    case left
    with at(1) dist t' root_value_in [of l] show ?thesis
      by (cases l) (auto simp: rb_augment_erase_begin_def root_value_def)
  next
    case right
    with at(1) dist t' root_value_in [of r] show ?thesis
      by (cases r) (auto simp: rb_augment_erase_begin_def root_value_def)
  next
    case both
    from rb_next_prev(1) [OF dist t'] both obtain d where d: "rb_next x t = Some (Some d)" "d \<in> set (rb_inorder r)"
      by (cases "rb_inorder r") (auto simp: rb_inorder_Nil)
    then have "d \<in> set (rb_inorder t)" using t' by auto
    then obtain dl dc dr ps where p: "rb_locate d t [] = Some (Nd dl dc d dr, ps)" "plug ps (Nd dl dc d dr) = t"
      by (rule rb_locateE)
    note deep = deepest_of_successor [OF at(2) dist d(1) both(2) p(1)]
    have sub: "set (before ps) \<union> set (after ps) \<union> set (rb_inorder dr) \<subseteq> set (rb_inorder t)"
      using inorder_plug [of ps "Nd dl dc d dr"] p(2) by auto
    have "rb_augment_erase_begin x t = Some (if dr \<noteq> Null then root_value dr
        else if parent_value ps \<noteq> Some x then parent_value ps else Some d)"
      using at(1) both d(1) p(1) by (simp add: rb_augment_erase_begin_def)
    moreover obtain e where "if dr \<noteq> Null then root_value dr = Some e else parent_value ps = Some e"
      using deep(3) parent_value_None [of ps] by (cases dr) (auto simp: root_value_def)
    ultimately show ?thesis
      using deep sub root_value_in [of dr e] parent_value_in [of ps e] \<open>d \<in> set (rb_inorder t)\<close> by (auto split: if_splits)
  qed
qed

text \<open>After the erasure the hook calls the function for that node and all its ancestors.\<close>

lemma rb_augment_erase_end_ok:
  assumes t: "rbt_ok t" "distinct (rb_inorder t)" "x \<in> set (rb_inorder t)"
  shows "\<exists>d u zs. rb_augment_erase_begin x t = Some d \<and> rb_erase x t = Some u \<and> rb_augment_erase_end d u = Some zs
    \<and> (\<forall>y n ps. d = Some y \<longrightarrow> rb_locate y u [] = Some (n, ps) \<longrightarrow> insert y (set (path_values ps)) \<subseteq> set zs)"
proof -
  obtain d where d: "rb_augment_erase_begin x t = Some d"
    "case d of None \<Rightarrow> rb_inorder t = [x] | Some d \<Rightarrow> d \<in> set (rb_inorder t) \<and> d \<noteq> x"
    using rb_augment_erase_begin_ok [OF t(2,3)] by blast
  obtain u where u: "rb_erase x t = Some u" "rb_inorder u = remove1 x (rb_inorder t)"
    using t by (rule rb_erase_spec)
  show ?thesis
  proof (cases d)
    case None
    with d(1) u(1) show ?thesis by (simp add: rb_augment_erase_end_def)
  next
    case (Some y)
    with d(2) u(2) have "y \<in> set (rb_inorder u)" by simp
    then obtain l c r ps where at: "rb_locate y u [] = Some (Nd l c y r, ps)" "plug ps (Nd l c y r) = u" by (rule rb_locateE)
    obtain zs where "rb_augment_path (Nd l c y r) ps = [y] @ zs" "set (path_values ps) \<subseteq> set zs"
      using rb_augment_path_ancestors [of "Nd l c y r" ps] by auto
    with Some d(1) u(1) at(1) show ?thesis by (auto simp: rb_augment_erase_end_def)
  qed
qed

end
