(* ===== verification/NL_Filter.thy ===== *)
theory NL_Filter
  imports RB_Index
begin

text \<open>
  \<open>src/nl_filter.h\<close> and \<open>src/nl_filter.c\<close>: the table of the chains that exist in the kernel
  or that the daemon has reserved for its own rules, and the search for a free chain number.

  The state is the tree \<open>chain_tree\<close>. Its nodes are the chains; a pointer to a chain is its
  number, and a store through it rewrites the node in place.
\<close>

section \<open>State and comparison\<close>

datatype chain_state = CHAIN_FLAG_UNKNOWN | CHAIN_STATE_PRESENT | CHAIN_STATE_RESERVED

record chain =
  ch_chain_no :: u32
  ch_state :: chain_state

type_synonym chain_tree = "chain rb"

text \<open>
  \<open>((int) a) - b\<close> subtracts modulo \<open>2\<^sup>3\<^sup>2\<close> and reads the result as an \<open>int\<close>. It orders the
  numbers below \<open>2\<^sup>3\<^sup>1\<close>; the kernel's chain numbers have 28 bits.
\<close>

definition u32cmp :: "u32 \<Rightarrow> u32 \<Rightarrow> int" where
  "u32cmp a b = sint (a - b)"

definition small_nos :: "u32 set" where
  "small_nos = {n. n < 0x80000000}"

lemma u32cmp_small:
  assumes "a < 0x80000000" "b < 0x80000000"
  shows "u32cmp a b = uint a - uint b"
proof -
  have u: "uint a < 2 ^ 31" "uint b < 2 ^ 31" "0 \<le> uint a" "0 \<le> uint b"
    using assms by (simp_all add: word_less_def)
  have "sint (a - b) = signed_take_bit 31 (take_bit 32 (uint a - uint b))"
    by (simp add: sint_uint uint_word_ariths take_bit_eq_mod)
  also have "\<dots> = signed_take_bit 31 (uint a - uint b)"
    by (simp only: signed_take_bit_take_bit) simp
  also have "\<dots> = uint a - uint b"
    using u by (intro signed_take_bit_int_eq_self; linarith)
  finally show ?thesis by (simp add: u32cmp_def)
qed

interpretation chain_order: key_order u32cmp small_nos
  by unfold_locales (auto simp: small_nos_def u32cmp_small word_uint_eq_iff)

interpretation chains: rb_index u32cmp small_nos ch_chain_no ..

section \<open>Operations\<close>

definition chain_lookup :: "u32 \<Rightarrow> chain_tree \<Rightarrow> chain option" where
  "chain_lookup no t = rb_search (\<lambda>this. u32cmp no (ch_chain_no this)) t"

definition chain_insert :: "chain \<Rightarrow> chain_tree \<Rightarrow> (chain_tree \<times> bool) option" where
  "chain_insert ch t = rb_insert (\<lambda>this. u32cmp (ch_chain_no ch) (ch_chain_no this)) ch t"

definition chain_store_state :: "u32 \<Rightarrow> chain_state \<Rightarrow> chain \<Rightarrow> chain" where
  "chain_store_state no st c = (if ch_chain_no c = no then c\<lparr>ch_state := st\<rparr> else c)"

definition chain_set_state :: "u32 \<Rightarrow> chain_state \<Rightarrow> chain_tree \<Rightarrow> chain_tree" where
  "chain_set_state no st t = map_rb (chain_store_state no st) t"

definition filter_got_chain :: "u32 \<Rightarrow> chain_tree \<Rightarrow> chain_tree option" where
  "filter_got_chain no t =
     (case chain_lookup no t of
        None \<Rightarrow> do {
          (t, ret) \<leftarrow> chain_insert \<lparr>ch_chain_no = no, ch_state = CHAIN_FLAG_UNKNOWN\<rparr> t;
          AN ret;
          Some (chain_set_state no CHAIN_STATE_PRESENT t)
        }
      | Some ch \<Rightarrow> Some (chain_set_state (ch_chain_no ch) CHAIN_STATE_PRESENT t))"

definition filter_reserve_chain :: "u32 \<Rightarrow> chain_tree \<Rightarrow> chain_tree option" where
  "filter_reserve_chain no t = do {
     t \<leftarrow> filter_got_chain no t;
     ch \<leftarrow> chain_lookup no t;
     Some (chain_set_state (ch_chain_no ch) CHAIN_STATE_RESERVED t)
   }"

text \<open>The loop of \<open>filter_find_available_chain_no\<close> over the chains in order.\<close>

fun find_chain_loop :: "u32 \<Rightarrow> u32 \<Rightarrow> chain list \<Rightarrow> u32" where
  "find_chain_loop min_no ret [] = ret"
| "find_chain_loop min_no ret (ch # chs) =
     (if ch_chain_no ch = ret \<or> ret < min_no then find_chain_loop min_no (ch_chain_no ch + 1) chs
      else if ret \<ge> min_no then ret
      else find_chain_loop min_no ret chs)"

definition filter_find_available_chain_no :: "u32 \<Rightarrow> chain_tree \<Rightarrow> (u32 \<times> chain_tree) option" where
  "filter_find_available_chain_no min_no t = do {
     let ret = find_chain_loop min_no 0 (rb_inorder t);
     let ret = (if ret < min_no then min_no else ret);
     t \<leftarrow> filter_reserve_chain ret t;
     Some (ret, t)
   }"

text \<open>\<open>filter_clear_chains\<close> reads the next node before it erases one; the fuel counts the nodes.\<close>

fun clear_chains_loop :: "nat \<Rightarrow> chain option \<Rightarrow> chain_tree \<Rightarrow> chain_tree option" where
  "clear_chains_loop fuel None t = Some t"
| "clear_chains_loop 0 (Some ch) t = None"
| "clear_chains_loop (Suc fuel) (Some ch) t = do {
     nn \<leftarrow> rb_next ch t;
     t \<leftarrow> rb_erase ch t;
     clear_chains_loop fuel nn t
   }"

definition filter_clear_chains :: "chain_tree \<Rightarrow> chain_tree option" where
  "filter_clear_chains t = clear_chains_loop (length (rb_inorder t)) (rb_first t) t"

section \<open>The table\<close>

abbreviation chains_ok :: "chain_tree \<Rightarrow> bool" where
  "chains_ok \<equiv> index_ok u32cmp small_nos ch_chain_no"

text \<open>What the table means: the state of each chain that it knows.\<close>

definition chain_map :: "chain_tree \<Rightarrow> u32 \<rightharpoonup> chain_state" where
  "chain_map t no = map_option ch_state (index_map ch_chain_no t no)"

lemma chain_lookup_eq: "chains_ok t \<Longrightarrow> no \<in> small_nos \<Longrightarrow> chain_lookup no t = index_map ch_chain_no t no"
  by (simp add: chain_lookup_def chains.lookup_abs)

lemma chain_store_state_no [simp]: "ch_chain_no (chain_store_state no st c) = ch_chain_no c"
  by (simp add: chain_store_state_def)

lemma chain_set_state_ok: "chains_ok t \<Longrightarrow> chains_ok (chain_set_state no st t)"
  by (simp add: index_ok_def chain_set_state_def sorted_wrt_map image_image)

lemma index_map_chain_set_state:
  assumes "chains_ok t"
  shows "index_map ch_chain_no (chain_set_state no st t) = (\<lambda>k. map_option (chain_store_state no st) (index_map ch_chain_no t k))"
  using assms chain_set_state_ok [OF assms, of no st]
  by (intro map_eqI) (force simp: chains.index_map_eq_Some chain_set_state_def)

lemma chain_map_set_state:
  assumes "chains_ok t"
  shows "chain_map (chain_set_state no st t) =
    (if chain_map t no = None then chain_map t else (chain_map t)(no \<mapsto> st))"
proof
  fix k
  show "chain_map (chain_set_state no st t) k =
    (if chain_map t no = None then chain_map t else (chain_map t)(no \<mapsto> st)) k"
  proof (cases "index_map ch_chain_no t k")
    case (Some c)
    then have "ch_chain_no c = k" using chains.index_map_eq_Some [OF assms, of k c] by simp
    with Some show ?thesis
      by (auto simp: chain_map_def index_map_chain_set_state [OF assms] chain_store_state_def)
  qed (auto simp: chain_map_def index_map_chain_set_state [OF assms])
qed

lemma filter_got_chain_ok:
  assumes t: "chains_ok t" and no: "no \<in> small_nos"
  obtains u where "filter_got_chain no t = Some u" "chains_ok u"
    "chain_map u = (chain_map t)(no \<mapsto> CHAIN_STATE_PRESENT)"
proof (cases "index_map ch_chain_no t no")
  case None
  let ?ch = "\<lparr>ch_chain_no = no, ch_state = CHAIN_FLAG_UNKNOWN\<rparr>"
  from chains.insert_new [OF t, of ?ch] None no obtain u where
    u: "chain_insert ?ch t = Some (u, True)" "chains_ok u" "index_map ch_chain_no u = (index_map ch_chain_no t)(no \<mapsto> ?ch)"
    by (auto simp: chain_insert_def)
  moreover have "chain_map u = (chain_map t)(no \<mapsto> CHAIN_FLAG_UNKNOWN)"
    by (simp add: chain_map_def u(3) fun_eq_iff)
  ultimately show thesis
    using None no t
    by (intro that [of "chain_set_state no CHAIN_STATE_PRESENT u"])
      (simp_all add: filter_got_chain_def chain_lookup_eq chain_set_state_ok chain_map_set_state)
next
  case (Some ch)
  then have "ch_chain_no ch = no" "chain_map t no = Some (ch_state ch)"
    using chains.index_map_eq_Some [OF t, of no ch] by (simp_all add: chain_map_def)
  with Some no t show thesis
    by (intro that [of "chain_set_state no CHAIN_STATE_PRESENT t"])
      (simp_all add: filter_got_chain_def chain_lookup_eq chain_set_state_ok chain_map_set_state)
qed

lemma filter_reserve_chain_ok:
  assumes t: "chains_ok t" and no: "no \<in> small_nos"
  obtains u where "filter_reserve_chain no t = Some u" "chains_ok u"
    "chain_map u = (chain_map t)(no \<mapsto> CHAIN_STATE_RESERVED)"
proof -
  obtain v where v: "filter_got_chain no t = Some v" "chains_ok v"
    "chain_map v = (chain_map t)(no \<mapsto> CHAIN_STATE_PRESENT)"
    using assms by (rule filter_got_chain_ok)
  then obtain ch where ch: "index_map ch_chain_no v no = Some ch" "chain_map v no \<noteq> None"
    by (auto simp: chain_map_def fun_eq_iff split: if_splits)
  then have "ch_chain_no ch = no" using v(2) by (simp add: chains.index_map_eq_Some)
  with v ch no show thesis
    by (intro that [of "chain_set_state no CHAIN_STATE_RESERVED v"])
      (simp_all add: filter_reserve_chain_def chain_lookup_eq chain_set_state_ok chain_map_set_state)
qed

section \<open>The free chain number\<close>

lemma chains_sorted:
  assumes "chains_ok t"
  shows "sorted_wrt (<) (map ch_chain_no (rb_inorder t)) \<and> (\<forall>c\<in>set (rb_inorder t). ch_chain_no c < 0x80000000)"
proof -
  have small: "c \<in> set (rb_inorder t) \<Longrightarrow> ch_chain_no c < 0x80000000" for c
    using assms by (auto simp: index_ok_def small_nos_def)
  have "sorted_wrt (\<lambda>x y. u32cmp (ch_chain_no x) (ch_chain_no y) < 0) (rb_inorder t)"
    using assms by (simp add: index_ok_def)
  then have "sorted_wrt (\<lambda>x y. ch_chain_no x < ch_chain_no y) (rb_inorder t)"
    by (rule sorted_wrt_mono_rel [rotated]) (simp add: u32cmp_small [OF small small] word_less_def)
  with small show ?thesis by (auto simp: sorted_wrt_map)
qed

lemma succ_small: "(a :: u32) < b \<Longrightarrow> a + 1 \<le> b" "(a :: u32) < 0x80000000 \<Longrightarrow> a < a + 1"
  by (auto simp: inc_le word_less_nat_alt unat_word_ariths)

lemma find_chain_loop_fresh:
  "sorted_wrt (<) (map ch_chain_no chs) \<Longrightarrow> \<forall>c\<in>set chs. ret \<le> ch_chain_no c \<and> ch_chain_no c < 0x80000000 \<Longrightarrow>
   (let r = find_chain_loop min_no ret chs in ret \<le> r \<and>
     (if r < min_no then min_no else r) \<notin> ch_chain_no ` set chs)"
proof (induction min_no ret chs rule: find_chain_loop.induct)
  case (2 min_no ret ch chs)
  have gt: "\<forall>c\<in>set chs. ch_chain_no ch + 1 \<le> ch_chain_no c"
    using 2(3) succ_small(1) by auto
  have "ch_chain_no ch < ch_chain_no ch + 1" using 2(4) succ_small(2) by simp
  show ?case
  proof (cases "ch_chain_no ch = ret \<or> ret < min_no")
    case True
    from 2(1) [OF True] 2(3,4) gt
    have "ch_chain_no ch + 1 \<le> find_chain_loop min_no (ch_chain_no ch + 1) chs"
      "(if find_chain_loop min_no (ch_chain_no ch + 1) chs < min_no then min_no
        else find_chain_loop min_no (ch_chain_no ch + 1) chs) \<notin> ch_chain_no ` set chs"
      by (simp_all add: Let_def)
    with True 2(4) \<open>ch_chain_no ch < ch_chain_no ch + 1\<close> show ?thesis
      by (auto simp: Let_def dest: order.strict_trans1 order.strict_trans2)
  next
    case False
    then have "ret \<ge> min_no" "ch_chain_no ch \<noteq> ret" by auto
    moreover have "ch_chain_no c \<noteq> ret" if "c \<in> set chs" for c
      using gt that 2(4) \<open>ch_chain_no ch < ch_chain_no ch + 1\<close> by force
    ultimately show ?thesis by (auto simp: Let_def not_less)
  qed
qed auto

lemma find_chain_loop_small:
  "\<forall>c\<in>set chs. ch_chain_no c < 0x7fffffff \<Longrightarrow> ret < 0x80000000 \<Longrightarrow> find_chain_loop min_no ret chs < 0x80000000"
proof (induction min_no ret chs rule: find_chain_loop.induct)
  case (2 min_no ret ch chs)
  have "ch_chain_no ch + 1 \<le> 0x7fffffff" using 2(3) succ_small(1) by simp
  then have "ch_chain_no ch + 1 < (0x80000000 :: u32)" by (rule order.strict_trans1) simp
  with 2 show ?case by auto
qed simp

lemma available_chain:
  assumes t: "chains_ok t" and small: "\<forall>no\<in>dom (chain_map t). no < 0x7fffffff" and m: "min_no < 0x80000000"
  shows "\<exists>no u. filter_find_available_chain_no min_no t = Some (no, u) \<and> chains_ok u
    \<and> no < 0x80000000 \<and> min_no \<le> no \<and> chain_map t no = None
    \<and> chain_map u = (chain_map t)(no \<mapsto> CHAIN_STATE_RESERVED)"
proof -
  let ?chs = "rb_inorder t"
  let ?r = "find_chain_loop min_no 0 ?chs"
  let ?no = "if ?r < min_no then min_no else ?r"
  have small': "\<forall>c\<in>set ?chs. ch_chain_no c < 0x7fffffff"
  proof
    fix c assume "c \<in> set ?chs"
    then have "chain_map t (ch_chain_no c) = Some (ch_state c)"
      using chains.index_map_eq_Some [OF t, of "ch_chain_no c" c] by (simp add: chain_map_def)
    then show "ch_chain_no c < 0x7fffffff" using small by blast
  qed
  from find_chain_loop_fresh [of ?chs 0 min_no] chains_sorted [OF t]
  have "?no \<notin> ch_chain_no ` set ?chs" by (simp add: Let_def)
  then have new: "chain_map t ?no = None"
    by (simp add: chain_map_def chains.index_map_eq_None)
  have no: "?no \<in> small_nos"
    using find_chain_loop_small [OF small', of 0 min_no] m by (simp add: small_nos_def)
  with t obtain u where "filter_reserve_chain ?no t = Some u" "chains_ok u"
    "chain_map u = (chain_map t)(?no \<mapsto> CHAIN_STATE_RESERVED)"
    by (rule filter_reserve_chain_ok)
  with new no show ?thesis
    by (auto simp: filter_find_available_chain_no_def Let_def not_less small_nos_def)
qed

text \<open>The chain number found is free and not below the minimum; it is reserved, and nothing
  else in the table changes. (The kernel's chain numbers are below \<open>2\<^sup>2\<^sup>8\<close>.)\<close>

theorem filter_find_available_chain_no_correct:
  assumes t: "chains_ok t" and small: "\<forall>no\<in>dom (chain_map t). no < 0x7fffffff" and m: "min_no < 0x80000000"
  shows "\<exists>no u. filter_find_available_chain_no min_no t = Some (no, u) \<and> chains_ok u
    \<and> min_no \<le> no \<and> chain_map t no = None
    \<and> chain_map u = (chain_map t)(no \<mapsto> CHAIN_STATE_RESERVED)"
  using available_chain [OF assms] by blast

definition demo_chains :: chain_tree where
  "demo_chains = Nd (Nd Null RB_BLACK \<lparr>ch_chain_no = 0, ch_state = CHAIN_STATE_PRESENT\<rparr> Null) RB_BLACK
     \<lparr>ch_chain_no = 5, ch_state = CHAIN_STATE_PRESENT\<rparr>
     (Nd Null RB_BLACK \<lparr>ch_chain_no = 8, ch_state = CHAIN_STATE_PRESENT\<rparr> Null)"

lemma demo_chains_ok: "chains_ok demo_chains" "\<forall>no\<in>dom (chain_map demo_chains). no < 0x7fffffff"
proof -
  show ok: "chains_ok demo_chains"
    by (simp add: index_ok_def demo_chains_def rbt_ok_def small_nos_def u32cmp_small)
  show "\<forall>no\<in>dom (chain_map demo_chains). no < 0x7fffffff"
    by (auto simp: chain_map_def chains.index_map_eq_Some [OF ok]) (auto simp: demo_chains_def)
qed

lemma filter_find_available_chain_no_witness:
  "\<exists>no u. filter_find_available_chain_no 5 demo_chains = Some (no, u) \<and> 5 \<le> no
     \<and> chain_map demo_chains no = None \<and> chain_map u no = Some CHAIN_STATE_RESERVED"
proof -
  have "(5 :: u32) < 0x80000000" by simp
  from filter_find_available_chain_no_correct [OF demo_chains_ok this] show ?thesis by auto
qed

text \<open>A chain found in the kernel is present in the table afterwards, whatever it was before,
  and no other chain changes.\<close>

theorem filter_got_chain_correct:
  assumes "chains_ok t" "no < 0x80000000"
  shows "\<exists>u. filter_got_chain no t = Some u \<and> chains_ok u
    \<and> chain_map u = (chain_map t)(no \<mapsto> CHAIN_STATE_PRESENT)"
  using assms filter_got_chain_ok [of t no] by (auto simp: small_nos_def)

lemma filter_got_chain_witness:
  "\<exists>u. filter_got_chain 6 demo_chains = Some u \<and> chain_map u 6 = Some CHAIN_STATE_PRESENT"
proof -
  have "(6 :: u32) < 0x80000000" by simp
  from filter_got_chain_correct [OF demo_chains_ok(1) this] show ?thesis by auto
qed

section \<open>Clearing\<close>

lemma clear_chains_loop_ok:
  "chains_ok t \<Longrightarrow> rb_inorder t = cs \<Longrightarrow>
   clear_chains_loop (length cs) (case cs of [] \<Rightarrow> None | c # _ \<Rightarrow> Some c) t = Some Null"
proof (induction cs arbitrary: t)
  case Nil
  then show ?case by (simp add: rb_inorder_Nil)
next
  case (Cons c cs)
  have "rb_next c t = Some (case cs of [] \<Rightarrow> None | d # _ \<Rightarrow> Some d)"
    using rb_next_prev(1) [of t "[]" c cs] chains.distinct_inorder [OF Cons.prems(1)] Cons.prems(2) by simp
  moreover obtain u where "rb_erase c t = Some u" "chains_ok u" "rb_inorder u = cs"
    using chains.erase_present [OF Cons.prems(1), of c] Cons.prems(2) by auto
  ultimately show ?case using Cons.IH [of u] by simp
qed

text \<open>\<open>filter_clear_chains\<close> visits and erases every chain and leaves the table empty.\<close>

theorem filter_clear_chains_correct:
  "chains_ok t \<Longrightarrow> filter_clear_chains t = Some Null"
  using clear_chains_loop_ok [of t "rb_inorder t"] by (simp add: filter_clear_chains_def rb_first_eq)

lemma filter_clear_chains_witness: "filter_clear_chains demo_chains = Some Null"
  by (rule filter_clear_chains_correct [OF demo_chains_ok(1)])

end
