(* ===== verification/Obj_Core.thy ===== *)
theory Obj_Core
  imports NL_Filter TC_Decode
begin

text \<open>
  \<open>src/obj.h\<close> and \<open>src/obj.c\<close>: the reference-counted objects of the daemon (links,
  neighbours, targets, routes and rules), and the state of the running daemon.

  The objects are allocated, linked to each other by pointers, and freed; the model keeps an
  explicit store with one map per structure. A pointer is a number, \<open>None\<close> the null pointer
  inside an \<open>option\<close>. Following a pointer to an object that is not in the store (a null
  pointer or a use after free) ends the run, as does a failed assertion: the result is
  \<open>None\<close>. Every operation takes the state and returns it.
\<close>

section \<open>Objects\<close>

type_synonym ptr = nat

datatype obj_operating_mode = OBJ_MODE_NORMAL | OBJ_MODE_TEARDOWN

datatype obj_state = OBJ_STATE_PRESENT | OBJ_STATE_INSTALLED | OBJ_STATE_ZOMBIE

datatype obj_kind =
    OBJ_KIND_UNKNOWN | OBJ_KIND_LINK | OBJ_KIND_NEIGH | OBJ_KIND_ROUTE | OBJ_KIND_TARGET
  | OBJ_KIND_RULE

record obj_core =
  oc_kind :: obj_kind
  oc_refcnt :: u32
  oc_weak_refcnt :: u32
  oc_state :: obj_state

record obj_link =
  ol_obj :: obj_core
  ol_ifindex :: u32
  ol_lower_ifindex :: u32
  ol_vlan_id :: u16
  ol_mtu :: u32
  ol_lladdr :: bytes
  ol_ifname :: "string option"
  ol_fdb :: "ptr rb"

record obj_neigh =
  on_obj :: obj_core
  on_link :: "ptr option"
  on_addr :: af_addr
  on_lladdr :: bytes
  on_targets :: "ptr option"

text \<open>The next hops of a target are a private linked list of neighbour pointers.\<close>

record obj_target =
  ot_obj :: obj_core
  ot_nexthop_cnt :: u32
  ot_nexthop :: "ptr list"
  ot_first_route :: "ptr option"
  ot_last_route :: "ptr option"
  ot_n_next_target :: "ptr option"
  ot_rule :: "ptr option"

record obj_route =
  or_obj :: obj_core
  or_dst :: af_addr
  or_target :: "ptr option"
  or_t_next_route :: "ptr option"
  or_target_rule :: "ptr option"
  or_rule :: "ptr option"

datatype obj_rule_state =
    OBJ_RULE_STATE_NEW | OBJ_RULE_STATE_ALIEN | OBJ_RULE_STATE_WANT | OBJ_RULE_STATE_QUEUED
  | OBJ_RULE_STATE_PENDING | OBJ_RULE_STATE_OK | OBJ_RULE_STATE_ZOMBIE

datatype obj_rule_type =
    OBJ_RULE_TYPE_NOT_SET | OBJ_RULE_TYPE_FOUND | OBJ_RULE_TYPE_STATIC | OBJ_RULE_TYPE_DYNAMIC

record obj_rule =
  oru_obj :: obj_core
  oru_type :: obj_rule_type
  oru_state :: obj_rule_state
  oru_chain_no :: u32
  oru_prio :: u16
  oru_have_laf :: bool
  oru_have_pos :: bool
  oru_target :: "ptr option"
  oru_route :: "ptr option"
  oru_have :: "ptr option"
  oru_want :: "ptr option"

section \<open>The netlink queue, actions and the scan\<close>

text \<open>
  The structures of \<open>src/nl_queue.c\<close>, \<open>src/tc_action.c\<close> and \<open>src/scan.c\<close>, which the objects'
  operations reach. A function pointer with its data is a constructor.
\<close>

datatype execute_fn =
    Exec_tc_action ptr
  | Exec_scan_filters | Exec_scan_links | Exec_scan_neigh4 | Exec_scan_neigh6
  | Exec_scan_route4 | Exec_scan_route6 | Exec_scan_chains | Exec_scan_chain | Exec_scan_break

datatype completed_fn = Done_tc_action ptr | Done_advance_scan

datatype queue_item_state = QUEUE_ITEM_STATE_NEW | QUEUE_ITEM_STATE_SENT | QUEUE_ITEM_STATE_DONE

record queue_item =
  qi_execute :: execute_fn
  qi_completed :: "completed_fn option"
  qi_state :: queue_item_state

text \<open>The linked list from \<open>head\<close> to \<open>tail\<close> is a list; \<open>q_conn\<close> tells whether \<open>Q.conn\<close> is set.\<close>

record queue =
  q_items :: "queue_item list"
  q_is_busy :: bool
  q_has_sent_request :: bool
  q_conn :: bool

record tc_action =
  tca_chain_no :: u32
  tca_prio :: u16
  tca_tcr :: "ptr option"
  tca_data :: ptr

datatype scan_state =
    SCAN_NEW | SCAN_RUN_HELPERS | SCAN_DUMP_CHAINS | SCAN_DUMP_EACH_CHAIN_INIT
  | SCAN_DUMP_EACH_CHAIN | SCAN_DONE | SCAN_WAIT

record scan =
  sc_state :: scan_state
  sc_helper_idx :: nat
  sc_next_chain :: "u32 option"
  sc_q_chain_no :: u32
  sc_timer :: bool
  sc_conn :: conn

text \<open>A message handed to the kernel: its type, and a filter request as it was encoded.\<close>

datatype request =
    Req_filter nlmsg
  | Req_dump_link | Req_dump_neigh u8 | Req_dump_route u8 u32
  | Req_dump_qdisc u32 | Req_dump_chains u32 | Req_dump_chain u32 u32

section \<open>The state of the daemon\<close>

record world =
  w_config :: config
  w_mode :: obj_operating_mode
  w_links :: "ptr \<Rightarrow> obj_link option"
  w_neighs :: "ptr \<Rightarrow> obj_neigh option"
  w_targets :: "ptr \<Rightarrow> obj_target option"
  w_routes :: "ptr \<Rightarrow> obj_route option"
  w_rules :: "ptr \<Rightarrow> obj_rule option"
  w_tcrs :: "ptr \<Rightarrow> tc_rule option"
  w_actions :: "ptr \<Rightarrow> tc_action option"
  w_next :: ptr
  w_link_tree :: "ptr rb"
  w_route_tree :: "ptr rb"
  w_pos_tree :: "ptr rb"
  w_laf_tree :: "ptr rb"
  w_link_cnt :: u32
  w_neigh_cnt :: u32
  w_target_cnt :: u32
  w_route_cnt :: u32
  w_rule_cnt :: u32
  w_pin_changes :: nat
  w_chains :: chain_tree
  w_tacb_hooks :: bool
  w_queue :: queue
  w_scan :: scan
  w_sent :: "(u32 \<times> request) list"
  w_break :: bool
  w_send_ok :: "u32 \<Rightarrow> bool"

text \<open>
  The calls through which a component re-enters one that is built on it: a queue item's
  function pointers, the queue's loop, and the three operations on objects that lead back up.
  An operation that makes such calls takes them as its parameter \<open>K\<close>; the daemon ties the
  knot at the end.
\<close>

datatype call =
    Call_queue_process_loop
  | Call_execute execute_fn
  | Call_completed completed_fn nat
  | Call_target_notify_routes ptr
  | Call_route_unref ptr

type_synonym calls = "call \<Rightarrow> world \<Rightarrow> world option"

section \<open>Reference counts\<close>

definition obj_is_reapable :: "obj_operating_mode \<Rightarrow> obj_core \<Rightarrow> bool" where
  "obj_is_reapable mode c =
     (case mode of
        OBJ_MODE_NORMAL \<Rightarrow> oc_refcnt c = 0 \<and> oc_state c \<noteq> OBJ_STATE_ZOMBIE \<and> oc_state c \<noteq> OBJ_STATE_INSTALLED
      | OBJ_MODE_TEARDOWN \<Rightarrow> oc_refcnt c = 0 \<and> oc_state c \<noteq> OBJ_STATE_ZOMBIE)"

definition obj_is_ok :: "obj_core \<Rightarrow> bool" where
  "obj_is_ok c \<longleftrightarrow> oc_state c = OBJ_STATE_PRESENT"

text \<open>Nothing in the daemon leaves the normal mode.\<close>

definition obj_set_mode :: "obj_operating_mode \<Rightarrow> world \<Rightarrow> world" where
  "obj_set_mode new_mode w = w\<lparr>w_mode := new_mode\<rparr>"

definition obj_get_operating_mode :: "world \<Rightarrow> obj_operating_mode" where
  [simp]: "obj_get_operating_mode w = w_mode w"

definition obj_ref :: "obj_core \<Rightarrow> obj_core" where
  "obj_ref c = (if oc_state c = OBJ_STATE_ZOMBIE \<and> oc_weak_refcnt c = 0 then c
                else c\<lparr>oc_refcnt := oc_refcnt c + 1\<rparr>)"

definition obj_unref :: "obj_core \<Rightarrow> obj_core option" where
  "obj_unref c =
     (if oc_state c = OBJ_STATE_ZOMBIE \<and> oc_refcnt c = 0 then Some c
      else do { AN (oc_refcnt c > 0); Some (c\<lparr>oc_refcnt := oc_refcnt c - 1\<rparr>) })"

definition obj_weak_ref :: "obj_core \<Rightarrow> obj_core" where
  "obj_weak_ref c = (if oc_state c = OBJ_STATE_ZOMBIE \<and> oc_weak_refcnt c = 0 then c
                     else c\<lparr>oc_weak_refcnt := oc_weak_refcnt c + 1\<rparr>)"

definition obj_weak_unref :: "obj_core \<Rightarrow> obj_core option" where
  "obj_weak_unref c =
     (if oc_state c = OBJ_STATE_ZOMBIE \<and> oc_weak_refcnt c = 0 then Some c
      else do { AN (oc_weak_refcnt c > 0); Some (c\<lparr>oc_weak_refcnt := oc_weak_refcnt c - 1\<rparr>) })"

text \<open>The assertions of \<open>_obj_free\<close>; the caller removes the object from the store.\<close>

definition obj_free_ok :: "obj_core \<Rightarrow> unit option" where
  "obj_free_ok c = do {
     AN (oc_kind c \<noteq> OBJ_KIND_UNKNOWN);
     AN (oc_state c = OBJ_STATE_ZOMBIE);
     AN (oc_refcnt c = 0);
     AN (oc_weak_refcnt c = 0)
   }"

definition zero_obj_core :: obj_core where
  "zero_obj_core = \<lparr>oc_kind = OBJ_KIND_UNKNOWN, oc_refcnt = 0, oc_weak_refcnt = 0,
     oc_state = OBJ_STATE_PRESENT\<rparr>"

definition obj_assert_kind :: "obj_kind \<Rightarrow> obj_core \<Rightarrow> unit option" where
  "obj_assert_kind k c = AN (oc_kind c = k)"

section \<open>Access to the store\<close>

definition mod_link :: "ptr \<Rightarrow> (obj_link \<Rightarrow> obj_link) \<Rightarrow> world \<Rightarrow> world option" where
  "mod_link p f w = do { x \<leftarrow> w_links w p; Some (w\<lparr>w_links := (w_links w)(p := Some (f x))\<rparr>) }"

definition mod_neigh :: "ptr \<Rightarrow> (obj_neigh \<Rightarrow> obj_neigh) \<Rightarrow> world \<Rightarrow> world option" where
  "mod_neigh p f w = do { x \<leftarrow> w_neighs w p; Some (w\<lparr>w_neighs := (w_neighs w)(p := Some (f x))\<rparr>) }"

definition mod_target :: "ptr \<Rightarrow> (obj_target \<Rightarrow> obj_target) \<Rightarrow> world \<Rightarrow> world option" where
  "mod_target p f w = do { x \<leftarrow> w_targets w p; Some (w\<lparr>w_targets := (w_targets w)(p := Some (f x))\<rparr>) }"

definition mod_route :: "ptr \<Rightarrow> (obj_route \<Rightarrow> obj_route) \<Rightarrow> world \<Rightarrow> world option" where
  "mod_route p f w = do { x \<leftarrow> w_routes w p; Some (w\<lparr>w_routes := (w_routes w)(p := Some (f x))\<rparr>) }"

definition mod_rule :: "ptr \<Rightarrow> (obj_rule \<Rightarrow> obj_rule) \<Rightarrow> world \<Rightarrow> world option" where
  "mod_rule p f w = do { x \<leftarrow> w_rules w p; Some (w\<lparr>w_rules := (w_rules w)(p := Some (f x))\<rparr>) }"

text \<open>A rule's \<open>have\<close> and \<open>want\<close> are allocated copies.\<close>

definition new_tcr :: "tc_rule \<Rightarrow> world \<Rightarrow> ptr \<times> world" where
  "new_tcr r w = (w_next w, w\<lparr>w_tcrs := (w_tcrs w)(w_next w := Some r), w_next := Suc (w_next w)\<rparr>)"

definition free_tcr :: "ptr \<Rightarrow> world \<Rightarrow> world option" where
  "free_tcr p w = do { _ \<leftarrow> w_tcrs w p; Some (w\<lparr>w_tcrs := (w_tcrs w)(p := None)\<rparr>) }"

section \<open>References of each kind\<close>

definition obj_link_weak_ref :: "ptr \<Rightarrow> world \<Rightarrow> world option" where
  "obj_link_weak_ref p w = do {
     l \<leftarrow> w_links w p;
     obj_assert_kind OBJ_KIND_LINK (ol_obj l);
     mod_link p (\<lambda>l. l\<lparr>ol_obj := obj_weak_ref (ol_obj l)\<rparr>) w
   }"

definition obj_link_weak_unref :: "ptr \<Rightarrow> world \<Rightarrow> world option" where
  "obj_link_weak_unref p w = do {
     l \<leftarrow> w_links w p;
     obj_assert_kind OBJ_KIND_LINK (ol_obj l);
     c \<leftarrow> obj_weak_unref (ol_obj l);
     mod_link p (\<lambda>l. l\<lparr>ol_obj := c\<rparr>) w
   }"

definition obj_link_ref :: "ptr \<Rightarrow> world \<Rightarrow> world option" where
  "obj_link_ref p w = do {
     l \<leftarrow> w_links w p;
     obj_assert_kind OBJ_KIND_LINK (ol_obj l);
     mod_link p (\<lambda>l. l\<lparr>ol_obj := obj_ref (ol_obj l)\<rparr>) w
   }"

definition obj_neigh_ref :: "ptr \<Rightarrow> world \<Rightarrow> world option" where
  "obj_neigh_ref p w = do {
     n \<leftarrow> w_neighs w p;
     obj_assert_kind OBJ_KIND_NEIGH (on_obj n);
     mod_neigh p (\<lambda>n. n\<lparr>on_obj := obj_ref (on_obj n)\<rparr>) w
   }"

definition obj_neigh_weak_ref :: "ptr \<Rightarrow> world \<Rightarrow> world option" where
  "obj_neigh_weak_ref p w = do {
     n \<leftarrow> w_neighs w p;
     obj_assert_kind OBJ_KIND_NEIGH (on_obj n);
     mod_neigh p (\<lambda>n. n\<lparr>on_obj := obj_weak_ref (on_obj n)\<rparr>) w
   }"

definition obj_neigh_weak_unref :: "ptr \<Rightarrow> world \<Rightarrow> world option" where
  "obj_neigh_weak_unref p w = do {
     n \<leftarrow> w_neighs w p;
     obj_assert_kind OBJ_KIND_NEIGH (on_obj n);
     c \<leftarrow> obj_weak_unref (on_obj n);
     mod_neigh p (\<lambda>n. n\<lparr>on_obj := c\<rparr>) w
   }"

definition obj_target_ref :: "ptr \<Rightarrow> world \<Rightarrow> world option" where
  "obj_target_ref p w = do {
     t \<leftarrow> w_targets w p;
     obj_assert_kind OBJ_KIND_TARGET (ot_obj t);
     mod_target p (\<lambda>t. t\<lparr>ot_obj := obj_ref (ot_obj t)\<rparr>) w
   }"

definition obj_target_weak_ref :: "ptr \<Rightarrow> world \<Rightarrow> world option" where
  "obj_target_weak_ref p w = do {
     t \<leftarrow> w_targets w p;
     obj_assert_kind OBJ_KIND_TARGET (ot_obj t);
     mod_target p (\<lambda>t. t\<lparr>ot_obj := obj_weak_ref (ot_obj t)\<rparr>) w
   }"

definition obj_target_weak_unref :: "ptr \<Rightarrow> world \<Rightarrow> world option" where
  "obj_target_weak_unref p w = do {
     t \<leftarrow> w_targets w p;
     obj_assert_kind OBJ_KIND_TARGET (ot_obj t);
     c \<leftarrow> obj_weak_unref (ot_obj t);
     mod_target p (\<lambda>t. t\<lparr>ot_obj := c\<rparr>) w
   }"

definition obj_route_ref :: "ptr \<Rightarrow> world \<Rightarrow> world option" where
  "obj_route_ref p w = do {
     r \<leftarrow> w_routes w p;
     obj_assert_kind OBJ_KIND_ROUTE (or_obj r);
     mod_route p (\<lambda>r. r\<lparr>or_obj := obj_ref (or_obj r)\<rparr>) w
   }"

definition obj_rule_ref :: "ptr \<Rightarrow> world \<Rightarrow> world option" where
  "obj_rule_ref p w = do {
     r \<leftarrow> w_rules w p;
     obj_assert_kind OBJ_KIND_RULE (oru_obj r);
     mod_rule p (\<lambda>r. r\<lparr>oru_obj := obj_ref (oru_obj r)\<rparr>) w
   }"

end
