(* ===== verification/NL_Queue.thy ===== *)
theory NL_Queue
  imports Obj_Core
begin

text \<open>
  \<open>src/nl_send.c\<close>, \<open>src/nl_queue.c\<close> and the requests of \<open>src/nl_dump.c\<close>, \<open>src/nl_filter.c\<close> and
  \<open>src/tc_action.c\<close>: one netlink request is outstanding at a time. An item is executed when it
  reaches the head of an idle queue; if executing it sent a request, the queue stays busy
  until the kernel's answer completes the item, otherwise it completes at once.
\<close>

section \<open>Sending\<close>

text \<open>
  \<open>mnl_socket_sendto\<close> is the kernel's; \<open>w_send_ok\<close> is its verdict on the request with a
  given sequence number. A request that could not be sent is not announced to the queue.
\<close>

definition queue_has_sent_request :: "world \<Rightarrow> world option" where
  "queue_has_sent_request w = do {
     AN (q_conn (w_queue w));
     Some (w\<lparr>w_queue := (w_queue w)\<lparr>q_has_sent_request := True\<rparr>\<rparr>)
   }"

definition nl_send_req :: "request \<Rightarrow> world \<Rightarrow> world option" where
  "nl_send_req req w = do {
     (seq, c) \<leftarrow> common_netlink_set_seq (sc_conn (w_scan w));
     let w = w\<lparr>w_scan := (w_scan w)\<lparr>sc_conn := c\<rparr>\<rparr>;
     if \<not> w_send_ok w seq then Some w
     else queue_has_sent_request (w\<lparr>w_sent := w_sent w @ [(seq, req)]\<rparr>)
   }"

definition queue_get_conn :: "world \<Rightarrow> unit option" where
  "queue_get_conn w = AN (q_conn (w_queue w))"

definition nl_dump_link :: "world \<Rightarrow> world option" where
  "nl_dump_link = nl_send_req Req_dump_link"

definition nl_dump_neigh :: "u8 \<Rightarrow> world \<Rightarrow> world option" where
  "nl_dump_neigh f = nl_send_req (Req_dump_neigh f)"

definition nl_dump_route :: "u8 \<Rightarrow> world \<Rightarrow> world option" where
  "nl_dump_route f w = nl_send_req (Req_dump_route f (cfg_table_id (w_config w))) w"

definition filter_dump :: "world \<Rightarrow> world option" where
  "filter_dump w = nl_send_req (Req_dump_qdisc (cfg_ifidx (w_config w))) w"

definition filter_dump_chains :: "world \<Rightarrow> world option" where
  "filter_dump_chains w = nl_send_req (Req_dump_chains (cfg_ifidx (w_config w))) w"

definition filter_dump_chain :: "u32 \<Rightarrow> world \<Rightarrow> world option" where
  "filter_dump_chain no w = nl_send_req (Req_dump_chain (cfg_ifidx (w_config w)) no) w"

section \<open>The queue\<close>

definition empty_queue :: queue where
  "empty_queue = \<lparr>q_items = [], q_is_busy = False, q_has_sent_request = False, q_conn = False\<rparr>"

definition queue_pop :: "world \<Rightarrow> (queue_item \<times> world) option" where
  "queue_pop w =
     (case q_items (w_queue w) of
        [] \<Rightarrow> None
      | qi # qis \<Rightarrow> Some (qi, w\<lparr>w_queue := (w_queue w)\<lparr>q_items := qis\<rparr>\<rparr>))"

definition queue_process :: "calls \<Rightarrow> world \<Rightarrow> world option" where
  "queue_process K w = do {
     AN (\<not> q_is_busy (w_queue w));
     case q_items (w_queue w) of
       [] \<Rightarrow> None
     | qi # qis \<Rightarrow> do {
         AN (qi_state qi = QUEUE_ITEM_STATE_NEW);
         let q = (w_queue w)\<lparr>q_is_busy := True, q_has_sent_request := False,
                   q_items := qi\<lparr>qi_state := QUEUE_ITEM_STATE_SENT\<rparr> # qis\<rparr>;
         K (Call_execute (qi_execute qi)) (w\<lparr>w_queue := q\<rparr>)
       }
   }"

definition handle_queue_completed :: "calls \<Rightarrow> nat \<Rightarrow> world \<Rightarrow> world option" where
  "handle_queue_completed K nl_errno w = do {
     AN (q_conn (w_queue w));
     AN (q_is_busy (w_queue w));
     (qi, w) \<leftarrow> queue_pop w;
     AN (qi_state qi = QUEUE_ITEM_STATE_SENT);
     let w = w\<lparr>w_queue := (w_queue w)\<lparr>q_is_busy := False\<rparr>\<rparr>;
     case qi_completed qi of
       None \<Rightarrow> Some w
     | Some f \<Rightarrow> K (Call_completed f nl_errno) w
   }"

definition queue_process_loop :: "calls \<Rightarrow> world \<Rightarrow> world option" where
  "queue_process_loop K w =
     (if q_items (w_queue w) \<noteq> [] \<and> \<not> q_is_busy (w_queue w) then do {
        w \<leftarrow> queue_process K w;
        if q_has_sent_request (w_queue w) then Some w
        else do {
          w \<leftarrow> handle_queue_completed K 0 w;
          K Call_queue_process_loop w
        }
      } else Some w)"

definition queue_is_complete :: "calls \<Rightarrow> nat \<Rightarrow> world \<Rightarrow> world option" where
  "queue_is_complete K nl_errno w = do {
     w \<leftarrow> handle_queue_completed K nl_errno w;
     if q_items (w_queue w) \<noteq> [] \<and> \<not> q_is_busy (w_queue w) then queue_process_loop K w else Some w
   }"

definition queue_schedule :: "calls \<Rightarrow> execute_fn \<Rightarrow> completed_fn option \<Rightarrow> world \<Rightarrow> world option" where
  "queue_schedule K execute completed w = do {
     let qi = \<lparr>qi_execute = execute, qi_completed = completed, qi_state = QUEUE_ITEM_STATE_NEW\<rparr>;
     let w = w\<lparr>w_queue := (w_queue w)\<lparr>q_items := q_items (w_queue w) @ [qi]\<rparr>\<rparr>;
     if \<not> q_is_busy (w_queue w) then queue_process_loop K w else Some w
   }"

definition queue_init :: "world \<Rightarrow> world option" where
  "queue_init w = do {
     AN (\<not> q_conn (w_queue w));
     Some (w\<lparr>w_queue := empty_queue\<lparr>q_conn := True\<rparr>\<rparr>)
   }"

definition queue_fini :: "world \<Rightarrow> world option" where
  "queue_fini w = do {
     AN (q_conn (w_queue w));
     Some (w\<lparr>w_queue := empty_queue\<rparr>)
   }"

section \<open>Traffic control actions\<close>

text \<open>
  The request is encoded when the action is executed, from the rule its pointer then shows;
  a dry run aborts here.
\<close>

definition tc_action_do_install :: "u32 \<Rightarrow> u16 \<Rightarrow> ptr option \<Rightarrow> world \<Rightarrow> world option" where
  "tc_action_do_install chain_no prio tcr w = do {
     queue_get_conn w;
     rule \<leftarrow> (case tcr of None \<Rightarrow> Some None | Some p \<Rightarrow> do { r \<leftarrow> w_tcrs w p; Some (Some r) });
     m \<leftarrow> tc_encode_rule (w_config w) chain_no prio rule NO_TCE_FLAGS;
     AN (cfg_dry_run (w_config w) = 0);
     nl_send_req (Req_filter m) w
   }"

text \<open>The handler for dry runs is never installed, and aborts on them as well.\<close>

definition tc_action_do_install_dry_run :: "u32 \<Rightarrow> u16 \<Rightarrow> ptr option \<Rightarrow> world \<Rightarrow> world option" where
  "tc_action_do_install_dry_run chain_no prio tcr w = do {
     queue_get_conn w;
     rule \<leftarrow> (case tcr of None \<Rightarrow> Some None | Some p \<Rightarrow> do { r \<leftarrow> w_tcrs w p; Some (Some r) });
     m \<leftarrow> tc_encode_rule (w_config w) chain_no prio rule NO_TCE_FLAGS;
     AN (cfg_dry_run (w_config w) = 0);
     nl_send_req (Req_filter m) w
   }"

text \<open>\<open>pre\<close> and \<open>post\<close> are the callbacks that \<open>obj_rule_init\<close> stores in \<open>tacb\<close>.\<close>

definition tc_action_execute ::
  "(ptr \<Rightarrow> world \<Rightarrow> world option) \<Rightarrow> (ptr \<Rightarrow> world \<Rightarrow> world option) \<Rightarrow> ptr \<Rightarrow> world \<Rightarrow> world option" where
  "tc_action_execute pre post p w = do {
     tca \<leftarrow> w_actions w p;
     w \<leftarrow> (if w_tacb_hooks w then pre (tca_data tca) w else Some w);
     w \<leftarrow> tc_action_do_install (tca_chain_no tca) (tca_prio tca) (tca_tcr tca) w;
     if w_tacb_hooks w then post (tca_data tca) w else Some w
   }"

text \<open>No \<open>done\<close> callback is ever installed.\<close>

definition tc_action_done :: "ptr \<Rightarrow> world \<Rightarrow> world option" where
  "tc_action_done p w = do {
     _ \<leftarrow> w_actions w p;
     Some (w\<lparr>w_actions := (w_actions w)(p := None)\<rparr>)
   }"

definition tc_action_install ::
  "calls \<Rightarrow> u32 \<Rightarrow> u16 \<Rightarrow> ptr option \<Rightarrow> ptr \<Rightarrow> world \<Rightarrow> world option" where
  "tc_action_install K chain_no prio tcr data w = do {
     let p = w_next w;
     let tca = \<lparr>tca_chain_no = chain_no, tca_prio = prio, tca_tcr = tcr, tca_data = data\<rparr>;
     let w = w\<lparr>w_actions := (w_actions w)(p := Some tca), w_next := Suc p\<rparr>;
     queue_schedule K (Exec_tc_action p) (Some (Done_tc_action p)) w
   }"

end
