(* ===== verification/C_Text.thy ===== *)
theory C_Text
  imports FR_Prelude
begin

text \<open>
  The parts of the C library's text functions that the parsers of the daemon use: character
  classes, \<open>strtol\<close>, the number and word conversions of \<open>sscanf\<close>, and \<open>fgets\<close>. A C string is
  the list of its characters without the terminating zero.
\<close>

section \<open>Characters\<close>

definition is_blank :: "char \<Rightarrow> bool" where
  "is_blank c \<longleftrightarrow> c = CHR '' '' \<or> c = CHR 0x09"

definition is_space :: "char \<Rightarrow> bool" where
  "is_space c \<longleftrightarrow> c = CHR '' '' \<or> 9 \<le> (of_char c :: nat) \<and> (of_char c :: nat) \<le> 13"

definition in_range :: "char \<Rightarrow> char \<Rightarrow> char \<Rightarrow> bool" where
  "in_range a b c \<longleftrightarrow> (of_char a :: nat) \<le> of_char c \<and> (of_char c :: nat) \<le> of_char b"

definition is_digit :: "char \<Rightarrow> bool" where
  "is_digit = in_range CHR ''0'' CHR ''9''"

definition is_xdigit :: "char \<Rightarrow> bool" where
  "is_xdigit c \<longleftrightarrow> is_digit c \<or> in_range CHR ''a'' CHR ''f'' c \<or> in_range CHR ''A'' CHR ''F'' c"

definition digit_val :: "char \<Rightarrow> int" where
  "digit_val c = (if is_digit c then int (of_char c) - 48 else if in_range CHR ''a'' CHR ''f'' c then int (of_char c) - 87
     else int (of_char c) - 55)"

section \<open>Numbers\<close>

definition number :: "int \<Rightarrow> string \<Rightarrow> int" where
  "number base ds = foldl (\<lambda>n d. base * n + digit_val d) 0 ds"

text \<open>An optional sign.\<close>

definition scan_sign :: "string \<Rightarrow> bool \<times> string" where
  "scan_sign s = (case s of [] \<Rightarrow> (False, [])
     | c # cs \<Rightarrow> if c = CHR ''-'' then (True, cs) else if c = CHR ''+'' then (False, cs) else (False, s))"

definition LONG_MAX :: int where "LONG_MAX = 2 ^ 63 - 1"

text \<open>
  \<open>strtol\<close> in base ten: the value, held within a \<open>long\<close>, and the text after it; without a digit
  nothing is read.
\<close>

definition strtol :: "string \<Rightarrow> int \<times> string" where
  "strtol s =
     (let (neg, t) = scan_sign (dropWhile is_space s);
          v = number 10 (takeWhile is_digit t) in
      if takeWhile is_digit t = [] then (0, s)
      else (if neg then max (- v) (- LONG_MAX - 1) else min v LONG_MAX, dropWhile is_digit t))"

text \<open>Conversion of a \<open>long\<close> to \<open>int\<close> keeps the low 32 bits.\<close>

definition to_int :: "int \<Rightarrow> int" where
  "to_int v = sint (word_of_int v :: u32)"

lemma to_int_small: "- (2 ^ 31) \<le> v \<Longrightarrow> v < 2 ^ 31 \<Longrightarrow> to_int v = v"
proof -
  assume v: "- (2 ^ 31) \<le> v" "v < 2 ^ 31"
  have "sint (word_of_int v :: u32) = signed_take_bit 31 v" by transfer simp
  with v show ?thesis by (simp add: to_int_def signed_take_bit_int_eq_self)
qed

text \<open>The conversions \<open>%d\<close>, \<open>%x\<close> and \<open>%s\<close> of \<open>sscanf\<close>; \<open>None\<close> is a matching failure.\<close>

definition scan_d :: "string \<Rightarrow> (int \<times> string) option" where
  "scan_d s = (let (v, rest) = strtol s in
     if takeWhile is_digit (snd (scan_sign (dropWhile is_space s))) = [] then None else Some (to_int v, rest))"

definition scan_x :: "string \<Rightarrow> (u32 \<times> string) option" where
  "scan_x s =
     (let (neg, t) = scan_sign (dropWhile is_space s);
          t = (case t of a # b # c # _ \<Rightarrow> if a = CHR ''0'' \<and> (b = CHR ''x'' \<or> b = CHR ''X'') \<and> is_xdigit c
                 then drop 2 t else t | _ \<Rightarrow> t);
          ds = takeWhile is_xdigit t;
          v = number 16 ds;
          u = (if v \<ge> 2 ^ 64 then 2 ^ 64 - 1 else if neg then 2 ^ 64 - v else v) in
      if ds = [] then None else Some (word_of_int u, dropWhile is_xdigit t))"

definition scan_s :: "string \<Rightarrow> (string \<times> string) option" where
  "scan_s s =
     (let t = dropWhile is_space s; word = takeWhile (Not \<circ> is_space) t in
      if word = [] then None else Some (word, drop (length word) t))"

section \<open>Lines of a file\<close>

text \<open>
  The successive results of \<open>fgets\<close> with a buffer of \<open>n\<close> bytes: at most \<open>n - 1\<close> characters, up to
  and with a newline. A zero byte in the file ends the string that the code sees.
\<close>

definition fgets_len :: "nat \<Rightarrow> string \<Rightarrow> nat" where
  "fgets_len n s = (let line = takeWhile (\<lambda>c. c \<noteq> CHR 0x0A) s in
     min (n - 1) (if length line < length s then Suc (length line) else length line))"

function fgets_all :: "nat \<Rightarrow> string \<Rightarrow> string list" where
  "fgets_all n s =
     (if s = [] \<or> n < 2 then []
      else takeWhile (\<lambda>c. c \<noteq> CHR 0x00) (take (fgets_len n s) s) # fgets_all n (drop (fgets_len n s) s))"
  by pat_completeness auto
termination
proof (relation "measure (\<lambda>(n, s). length s)")
  fix n :: nat and s :: string
  assume "\<not> (s = [] \<or> n < 2)"
  then have "0 < length s" "0 < fgets_len n s" by (cases s; simp add: fgets_len_def Let_def)+
  then show "((n, drop (fgets_len n s) s), n, s) \<in> measure (\<lambda>(n, s). length s)" by simp
qed simp

declare fgets_all.simps [simp del]

lemma fgets_len_line:
  assumes "CHR 0x0A \<notin> set l" "Suc (length l) < n"
  shows "fgets_len n (l @ CHR 0x0A # s) = Suc (length l)"
proof -
  have "takeWhile (\<lambda>c. c \<noteq> CHR 0x0A) (l @ CHR 0x0A # s) = l"
    using assms(1) by (subst takeWhile_append2) auto
  with assms(2) show ?thesis by (simp add: fgets_len_def)
qed

text \<open>A file of short lines is read line by line.\<close>

lemma fgets_all_lines:
  assumes "\<And>l. l \<in> set ls \<Longrightarrow> CHR 0x0A \<notin> set l \<and> CHR 0x00 \<notin> set l \<and> Suc (length l) < n"
  shows "fgets_all n (concat (map (\<lambda>l. l @ [CHR 0x0A]) ls)) = map (\<lambda>l. l @ [CHR 0x0A]) ls"
  using assms
proof (induction ls)
  case Nil
  show ?case by (simp add: fgets_all.simps)
next
  case (Cons l ls)
  then have l: "CHR 0x0A \<notin> set l" "CHR 0x00 \<notin> set l" "Suc (length l) < n" by auto
  have "takeWhile (\<lambda>c. c \<noteq> CHR 0x00) (l @ [CHR 0x0A]) = l @ [CHR 0x0A]"
    using l(2) by (simp add: takeWhile_eq_all_conv) auto
  moreover have "fgets_all n (l @ CHR 0x0A # s) = takeWhile (\<lambda>c. c \<noteq> CHR 0x00) (l @ [CHR 0x0A]) # fgets_all n s" for s
    by (subst fgets_all.simps) (use l in \<open>simp add: fgets_len_line\<close>)
  ultimately show ?case using Cons by simp
qed

end
