(* ===== verification/Onload.thy ===== *)
theory Onload
  imports C_Text FR_Common
begin

text \<open>
  \<open>src/onload.c\<close>: the named prefix lists of the configuration, filled from the command line and
  from files. \<open>inet_pton\<close> and the contents of files are parameters.
\<close>

section \<open>The lists\<close>

definition onload_lookup_prefix_list :: "string \<Rightarrow> config \<Rightarrow> config_prefix_list option" where
  "onload_lookup_prefix_list list_name cfg = find (\<lambda>l. pl_name l = list_name) (cfg_prefix_lists cfg)"

text \<open>\<open>get_or_create_prefix_list\<close> with the append of \<open>onload_store_prefix\<close>: a new list goes to the end.\<close>

fun store_entry :: "string \<Rightarrow> af_addr \<Rightarrow> config_prefix_list list \<Rightarrow> config_prefix_list list" where
  "store_entry list_name pfx [] = [\<lparr>pl_name = list_name, pl_entries = [pfx]\<rparr>]"
| "store_entry list_name pfx (l # ls) =
     (if pl_name l = list_name then l\<lparr>pl_entries := pl_entries l @ [pfx]\<rparr> # ls
      else l # store_entry list_name pfx ls)"

definition onload_store_prefix :: "string \<Rightarrow> af_addr \<Rightarrow> config \<Rightarrow> config" where
  "onload_store_prefix list_name pfx cfg =
     cfg\<lparr>cfg_prefix_lists := store_entry list_name pfx (cfg_prefix_lists cfg)\<rparr>"

section \<open>Parsing a prefix\<close>

definition EINVAL :: int where "EINVAL = 22"

text \<open>
  \<open>inet_pton(af, ipstr, &pfx.addr)\<close> writes the address over the first bytes of the structure
  itself: over \<open>af\<close>, \<open>mask_len\<close>, the padding and, for IPv6, the first twelve bytes of the union.
\<close>

definition inet_pton_over :: "bytes \<Rightarrow> af_addr \<Rightarrow> af_addr" where
  "inet_pton_over bs a = af_addr_of_bytes (bs @ drop (length bs) (af_addr_bytes a))"

text \<open>The result is the return value and the configuration.\<close>

definition onload_add_prefix ::
  "(u8 \<Rightarrow> string \<Rightarrow> bytes option) \<Rightarrow> string \<Rightarrow> string \<Rightarrow> config \<Rightarrow> int \<times> config" where
  "onload_add_prefix inet_pton list_name orig_addr cfg =
     (let ipstr = takeWhile (\<lambda>c. c \<noteq> CHR ''/'') orig_addr;
          maskstr = (if CHR ''/'' \<in> set orig_addr then Some (drop (Suc (length ipstr)) orig_addr) else None);
          af = (if CHR '':'' \<notin> set ipstr then AF_INET else AF_INET6);
          af_max_mask = (if af = AF_INET then 32 else 128) in
      case inet_pton af ipstr of
        None \<Rightarrow> (- EINVAL, cfg)
      | Some bs \<Rightarrow>
          (let pfx = inet_pton_over bs zero_af_addr in
           case maskstr of
             None \<Rightarrow> (0, onload_store_prefix list_name (pfx\<lparr>aa_mask_len := word_of_int af_max_mask, aa_af := af\<rparr>) cfg)
           | Some m \<Rightarrow>
               (let (v, endptr) = strtol m; val = to_int v in
                if endptr \<noteq> [] then (- EINVAL, cfg)
                else if val < 0 \<or> val > af_max_mask then (- EINVAL, cfg)
                else (0, onload_store_prefix list_name (pfx\<lparr>aa_mask_len := word_of_int val, aa_af := af\<rparr>) cfg))))"

section \<open>Reading a file\<close>

text \<open>The inner loop of \<open>onload_fread_prefix\<close>, which skips the characters of a prefix.\<close>

definition token_turn :: "string \<Rightarrow> string" where
  "token_turn p = dropWhile (\<lambda>c. c = CHR ''.'' \<or> c = CHR '':'' \<or> c = CHR ''/'')
     (dropWhile (in_range CHR ''A'' CHR ''F'')
       (dropWhile (in_range CHR ''a'' CHR ''f'')
         (dropWhile (in_range CHR ''0'' CHR ''9'') p)))"

lemma token_turn_le: "length (token_turn p) \<le> length p"
  unfolding token_turn_def by (meson length_dropWhile_le order_trans)

function token_end :: "string \<Rightarrow> string" where
  "token_end p = (if length (token_turn p) < length p then token_end (token_turn p) else token_turn p)"
  by pat_completeness auto
termination by (relation "measure length") auto

declare token_end.simps [simp del]

text \<open>One line: the prefix on it, or \<open>None\<close> when the line is skipped.\<close>

definition at_end :: "string \<Rightarrow> bool" where
  "at_end p \<longleftrightarrow> (case p of [] \<Rightarrow> True | c # _ \<Rightarrow> c = CHR ''#'' \<or> c = CHR 0x0A)"

definition line_prefix :: "string \<Rightarrow> string option" where
  "line_prefix buf =
     (let p = dropWhile is_blank buf in
      if at_end p then None
      else let q = token_end p in
        if \<not> at_end (dropWhile is_blank q) then None
        else Some (take (length p - length q) p))"

fun fread_lines ::
  "(u8 \<Rightarrow> string \<Rightarrow> bytes option) \<Rightarrow> string \<Rightarrow> string list \<Rightarrow> config \<Rightarrow> int \<times> config" where
  "fread_lines inet_pton list_name [] cfg = (0, cfg)"
| "fread_lines inet_pton list_name (buf # bufs) cfg =
     (case line_prefix buf of
        None \<Rightarrow> fread_lines inet_pton list_name bufs cfg
      | Some addr \<Rightarrow>
          (let (ret, cfg) = onload_add_prefix inet_pton list_name addr cfg in
           if ret \<noteq> 0 then (ret, cfg) else fread_lines inet_pton list_name bufs cfg))"

definition LINE_MAX_LEN :: nat where "LINE_MAX_LEN = 512"

definition onload_fread_prefix ::
  "(u8 \<Rightarrow> string \<Rightarrow> bytes option) \<Rightarrow> string \<Rightarrow> string \<Rightarrow> config \<Rightarrow> int \<times> config" where
  "onload_fread_prefix inet_pton list_name content cfg =
     fread_lines inet_pton list_name (fgets_all LINE_MAX_LEN content) cfg"

text \<open>
  \<open>files\<close> gives the content of a file, or the error number of \<open>fopen\<close>. The loop of
  \<open>onload_load_prefixes\<close> reads the file once: at its end, or at an error, the result is final.
\<close>

definition onload_load_prefixes ::
  "(u8 \<Rightarrow> string \<Rightarrow> bytes option) \<Rightarrow> (string \<Rightarrow> int + string) \<Rightarrow> string \<Rightarrow> string \<Rightarrow> config \<Rightarrow> int \<times> config" where
  "onload_load_prefixes inet_pton files list_name file cfg =
     (case files file of
        Inl err \<Rightarrow> (- err, cfg)
      | Inr content \<Rightarrow> onload_fread_prefix inet_pton list_name content cfg)"

end
