(* ===== verification/Obj_Rule.thy ===== *)
theory Obj_Rule
  imports NL_Queue Onload
begin

text \<open>
  \<open>src/obj_rule.h\<close>, \<open>src/obj_rule.c\<close>, \<open>src/sched.c\<close> and \<open>src/sched_basic.c\<close>: the rules the daemon
  wants in the kernel and those it has found there, the positions it gives new rules, and
  the requests that bring the two together.

  The positional tree holds every rule by chain and priority. The lost and found tree holds
  rules found in the kernel by their content, until the daemon asks for one of them.
\<close>

section \<open>The two tables\<close>

definition u16cmp :: "u16 \<Rightarrow> u16 \<Rightarrow> int" where
  "u16cmp a b = uint a - uint b"

definition pos_cmp :: "u32 \<times> u16 \<Rightarrow> u32 \<times> u16 \<Rightarrow> int" where
  "pos_cmp a b =
     (let ret = u32cmp (fst a) (fst b) in if ret = 0 then u16cmp (snd a) (snd b) else ret)"

definition obj_rule_have_tcr :: "ptr \<Rightarrow> world \<Rightarrow> tc_rule option" where
  "obj_rule_have_tcr p w = do { r \<leftarrow> w_rules w p; h \<leftarrow> oru_have r; w_tcrs w h }"

definition obj_rule_laf_lookup :: "tc_rule \<Rightarrow> world \<Rightarrow> ptr option option" where
  "obj_rule_laf_lookup tcr w =
     rb_search_ptr (\<lambda>this. do { h \<leftarrow> obj_rule_have_tcr this w; Some (tc_rule_cmp tcr h) }) (w_laf_tree w)"

text \<open>
  The results of the insertions are ignored by their callers, so \<open>have_laf\<close> and \<open>have_pos\<close>
  say whether the rule is in the tree.
\<close>

definition obj_rule_laf_insert :: "ptr \<Rightarrow> world \<Rightarrow> world option" where
  "obj_rule_laf_insert p w = do {
     r \<leftarrow> w_rules w p;
     AN (\<not> oru_have_laf r);
     (t, ret) \<leftarrow> rb_insert_ptr (\<lambda>this. do {
         a \<leftarrow> obj_rule_have_tcr p w;
         h \<leftarrow> obj_rule_have_tcr this w;
         Some (tc_rule_cmp a h)
       }) p (w_laf_tree w);
     if ret then mod_rule p (\<lambda>r. r\<lparr>oru_have_laf := True\<rparr>) (w\<lparr>w_laf_tree := t\<rparr>) else Some w
   }"

definition obj_rule_pos_lookup :: "u32 \<Rightarrow> u16 \<Rightarrow> world \<Rightarrow> ptr option option" where
  "obj_rule_pos_lookup chain_no prio w =
     rb_search_ptr (\<lambda>this. do {
         r \<leftarrow> w_rules w this;
         Some (pos_cmp (chain_no, prio) (oru_chain_no r, oru_prio r))
       }) (w_pos_tree w)"

definition obj_rule_pos_insert :: "ptr \<Rightarrow> world \<Rightarrow> world option" where
  "obj_rule_pos_insert p w = do {
     r \<leftarrow> w_rules w p;
     AN (\<not> oru_have_pos r);
     (t, ret) \<leftarrow> rb_insert_ptr (\<lambda>this. do {
         q \<leftarrow> w_rules w this;
         Some (pos_cmp (oru_chain_no r, oru_prio r) (oru_chain_no q, oru_prio q))
       }) p (w_pos_tree w);
     if ret then mod_rule p (\<lambda>r. r\<lparr>oru_have_pos := True\<rparr>) (w\<lparr>w_pos_tree := t\<rparr>) else Some w
   }"

text \<open>
  \<open>obj_rule_find_available_prio\<close> walks the positional tree in order; \<open>prio + 1\<close> is computed
  in \<open>uint16_t\<close>.
\<close>

fun find_prio_loop :: "u32 \<Rightarrow> u16 \<Rightarrow> u16 \<Rightarrow> (u32 \<times> u16) list \<Rightarrow> u16" where
  "find_prio_loop chain min_prio ret [] = ret"
| "find_prio_loop chain min_prio ret ((c, p) # rs) =
     (if c < chain then find_prio_loop chain min_prio ret rs
      else if c > chain then ret
      else if ret = 0 \<and> p > min_prio then ret
      else if p = ret \<or> ret < min_prio then find_prio_loop chain min_prio (p + 1) rs
      else if ret \<ge> min_prio then ret
      else find_prio_loop chain min_prio ret rs)"

fun rule_positions :: "world \<Rightarrow> ptr list \<Rightarrow> (u32 \<times> u16) list option" where
  "rule_positions w [] = Some []"
| "rule_positions w (p # ps) = do {
     r \<leftarrow> w_rules w p;
     rs \<leftarrow> rule_positions w ps;
     Some ((oru_chain_no r, oru_prio r) # rs)
   }"

definition obj_rule_find_available_prio :: "u32 \<Rightarrow> u16 \<Rightarrow> world \<Rightarrow> u16 option" where
  "obj_rule_find_available_prio chain_no min_prio w = do {
     rs \<leftarrow> rule_positions w (rb_inorder (w_pos_tree w));
     let ret = find_prio_loop chain_no min_prio 0 rs;
     Some (if ret < min_prio then min_prio else ret)
   }"

section \<open>The scheduler\<close>

definition get_af_chain :: "u8 \<Rightarrow> u32 option" where
  "get_af_chain f = (if f = AF_INET then Some 1 else if f = AF_INET6 then Some 2 else None)"

text \<open>The chain and priority for a rule; \<open>None\<close> inside the option is a rule that has no place.\<close>

definition sched_basic_place :: "tc_rule \<Rightarrow> world \<Rightarrow> ((u32 \<times> u16) option \<times> world) option" where
  "sched_basic_place tcr w =
     (case tcr_type tcr of
        TC_RULE_TYPE_FORWARD \<Rightarrow> do {
          (chain_no, chains) \<leftarrow> filter_find_available_chain_no 5 (w_chains w);
          Some (Some (chain_no, 1), w\<lparr>w_chains := chains\<rparr>)
        }
      | TC_RULE_TYPE_ROUTE_GOTO \<Rightarrow> do {
          chain_no \<leftarrow> get_af_chain (aa_af (tcr_af_addr tcr));
          prio \<leftarrow> obj_rule_find_available_prio chain_no 100 w;
          AN (prio \<ge> 100);
          Some (Some (chain_no, prio), w)
        }
      | _ \<Rightarrow> Some (None, w))"

definition sched_place :: "tc_rule \<Rightarrow> world \<Rightarrow> ((u32 \<times> u16) option \<times> world) option" where
  "sched_place tcr w = sched_basic_place tcr w"

section \<open>Installing and removing\<close>

definition obj_rule_pre_install :: "ptr \<Rightarrow> world \<Rightarrow> world option" where
  "obj_rule_pre_install p w = do {
     r \<leftarrow> w_rules w p;
     AN (oru_state r = OBJ_RULE_STATE_QUEUED);
     mod_rule p (\<lambda>r. r\<lparr>oru_state := OBJ_RULE_STATE_PENDING\<rparr>) w
   }"

definition obj_rule_queue_install :: "calls \<Rightarrow> ptr \<Rightarrow> world \<Rightarrow> world option" where
  "obj_rule_queue_install K p w =
     (if w_pin_changes w < 2 then Some w
      else do {
        r \<leftarrow> w_rules w p;
        AN (oru_state r = OBJ_RULE_STATE_WANT);
        w \<leftarrow> mod_rule p (\<lambda>r. r\<lparr>oru_state := OBJ_RULE_STATE_QUEUED\<rparr>) w;
        w \<leftarrow> obj_rule_ref p w;
        tc_action_install K (oru_chain_no r) (oru_prio r) (oru_want r) p w
      })"

definition obj_rule_queue_uninstall :: "calls \<Rightarrow> ptr \<Rightarrow> world \<Rightarrow> world option" where
  "obj_rule_queue_uninstall K p w =
     (if w_pin_changes w < 3 then Some w
      else do {
        r \<leftarrow> w_rules w p;
        AN (oru_state r = OBJ_RULE_STATE_ALIEN);
        w \<leftarrow> mod_rule p (\<lambda>r. r\<lparr>oru_state := OBJ_RULE_STATE_QUEUED\<rparr>) w;
        w \<leftarrow> obj_rule_ref p w;
        tc_action_install K (oru_chain_no r) (oru_prio r) None p w
      })"

definition set_rule_state :: "ptr \<Rightarrow> obj_rule_state \<Rightarrow> world \<Rightarrow> world option" where
  "set_rule_state p st w = mod_rule p (\<lambda>r. r\<lparr>oru_state := st\<rparr>) w"

definition obj_rule_update_state :: "calls \<Rightarrow> ptr \<Rightarrow> world \<Rightarrow> world option" where
  "obj_rule_update_state K p w =
     (if w_pin_changes w = 0 then Some w
      else do {
        r \<leftarrow> w_rules w p;
        if oru_state r = OBJ_RULE_STATE_QUEUED then Some w
        else case (oru_want r, oru_have r) of
          (None, None) \<Rightarrow>
            if oru_state r \<noteq> OBJ_RULE_STATE_NEW then set_rule_state p OBJ_RULE_STATE_ZOMBIE w else Some w
        | (None, Some h) \<Rightarrow> do {
            w \<leftarrow> set_rule_state p OBJ_RULE_STATE_ALIEN w;
            obj_rule_queue_uninstall K p w
          }
        | (Some wn, None) \<Rightarrow> do {
            w \<leftarrow> set_rule_state p OBJ_RULE_STATE_WANT w;
            obj_rule_queue_install K p w
          }
        | (Some wn, Some h) \<Rightarrow> do {
            want \<leftarrow> w_tcrs w wn;
            have \<leftarrow> w_tcrs w h;
            if tc_rule_cmp want have = 0 then do {
              w \<leftarrow> set_rule_state p OBJ_RULE_STATE_OK w;
              case oru_target r of None \<Rightarrow> Some w | Some t \<Rightarrow> K (Call_target_notify_routes t) w
            } else do {
              w \<leftarrow> set_rule_state p OBJ_RULE_STATE_ALIEN w;
              obj_rule_queue_uninstall K p w
            }
          }
      })"

definition free_tcr_opt :: "ptr option \<Rightarrow> world \<Rightarrow> world option" where
  "free_tcr_opt p w = (case p of None \<Rightarrow> Some w | Some q \<Rightarrow> free_tcr q w)"

definition obj_rule_uninstall :: "calls \<Rightarrow> ptr \<Rightarrow> world \<Rightarrow> world option" where
  "obj_rule_uninstall K p w = do {
     r \<leftarrow> w_rules w p;
     w \<leftarrow> free_tcr_opt (oru_want r) w;
     w \<leftarrow> mod_rule p (\<lambda>r. r\<lparr>oru_want := None\<rparr>) w;
     obj_rule_update_state K p w
   }"

definition obj_rule_unset_target :: "ptr \<Rightarrow> world \<Rightarrow> world option" where
  "obj_rule_unset_target p w = do {
     r \<leftarrow> w_rules w p;
     obj_assert_kind OBJ_KIND_RULE (oru_obj r);
     case oru_target r of
       None \<Rightarrow> Some w
     | Some t \<Rightarrow> do {
         w \<leftarrow> obj_target_weak_unref t w;
         mod_rule p (\<lambda>r. r\<lparr>oru_target := None\<rparr>) w
       }
   }"

definition obj_rule_set_target :: "ptr \<Rightarrow> ptr \<Rightarrow> world \<Rightarrow> world option" where
  "obj_rule_set_target p t w = do {
     r \<leftarrow> w_rules w p;
     obj_assert_kind OBJ_KIND_RULE (oru_obj r);
     AN (oru_target r = None);
     w \<leftarrow> obj_target_weak_ref t w;
     mod_rule p (\<lambda>r. r\<lparr>oru_target := Some t\<rparr>) w
   }"

definition obj_rule_reap :: "ptr \<Rightarrow> world \<Rightarrow> world option" where
  "obj_rule_reap p w = do {
     r \<leftarrow> w_rules w p;
     AN (oc_refcnt (oru_obj r) = 0);
     w \<leftarrow> mod_rule p (\<lambda>r. r\<lparr>oru_obj := (oru_obj r)\<lparr>oc_state := OBJ_STATE_ZOMBIE\<rparr>\<rparr>) w;
     w \<leftarrow> obj_rule_unset_target p w;
     w \<leftarrow> free_tcr_opt (oru_want r) w;
     w \<leftarrow> mod_rule p (\<lambda>r. r\<lparr>oru_want := None\<rparr>) w;
     w \<leftarrow> free_tcr_opt (oru_have r) w;
     w \<leftarrow> mod_rule p (\<lambda>r. r\<lparr>oru_have := None\<rparr>) w;
     w \<leftarrow> (if oru_have_laf r
           then do { t \<leftarrow> rb_erase p (w_laf_tree w); mod_rule p (\<lambda>r. r\<lparr>oru_have_laf := False\<rparr>) (w\<lparr>w_laf_tree := t\<rparr>) }
           else Some w);
     w \<leftarrow> (if oru_have_pos r
           then do { t \<leftarrow> rb_erase p (w_pos_tree w); mod_rule p (\<lambda>r. r\<lparr>oru_have_pos := False\<rparr>) (w\<lparr>w_pos_tree := t\<rparr>) }
           else Some w);
     r \<leftarrow> w_rules w p;
     obj_free_ok (oru_obj r);
     AN (w_rule_cnt w \<noteq> 0);
     Some (w\<lparr>w_rules := (w_rules w)(p := None), w_rule_cnt := w_rule_cnt w - 1\<rparr>)
   }"

definition obj_rule_unref :: "calls \<Rightarrow> ptr \<Rightarrow> world \<Rightarrow> world option" where
  "obj_rule_unref K p w = do {
     r \<leftarrow> w_rules w p;
     obj_assert_kind OBJ_KIND_RULE (oru_obj r);
     c \<leftarrow> obj_unref (oru_obj r);
     w \<leftarrow> mod_rule p (\<lambda>r. r\<lparr>oru_obj := c\<rparr>) w;
     w \<leftarrow> (if oc_refcnt c = 0 \<and> oru_want r \<noteq> None \<and> oru_have r \<noteq> None
             \<and> obj_get_operating_mode w = OBJ_MODE_NORMAL \<and> oru_type r \<noteq> OBJ_RULE_TYPE_STATIC
           then obj_rule_uninstall K p w else Some w);
     r \<leftarrow> w_rules w p;
     if obj_is_reapable (w_mode w) (oru_obj r) then obj_rule_reap p w else Some w
   }"

text \<open>The reference that \<open>obj_rule_queue_install\<close> took is dropped once the request is sent.\<close>

definition obj_rule_post_install :: "calls \<Rightarrow> ptr \<Rightarrow> world \<Rightarrow> world option" where
  "obj_rule_post_install K p w = obj_rule_unref K p w"

section \<open>Requests\<close>

definition obj_rule_alloc :: "world \<Rightarrow> ptr \<times> world" where
  "obj_rule_alloc w =
     (let p = w_next w;
          r = \<lparr>oru_obj = zero_obj_core\<lparr>oc_kind := OBJ_KIND_RULE\<rparr>, oru_type = OBJ_RULE_TYPE_NOT_SET,
               oru_state = OBJ_RULE_STATE_NEW, oru_chain_no = 0, oru_prio = 0, oru_have_laf = False,
               oru_have_pos = False, oru_target = None, oru_route = None, oru_have = None,
               oru_want = None\<rparr> in
      (p, w\<lparr>w_rules := (w_rules w)(p := Some r), w_next := Suc p, w_rule_cnt := w_rule_cnt w + 1\<rparr>))"

definition obj_rule_new :: "calls \<Rightarrow> ptr \<Rightarrow> world \<Rightarrow> world option" where
  "obj_rule_new K p w = do {
     w \<leftarrow> obj_rule_pos_insert p w;
     w \<leftarrow> obj_rule_laf_insert p w;
     obj_rule_update_state K p w
   }"

definition obj_rule_update :: "calls \<Rightarrow> ptr \<Rightarrow> world \<Rightarrow> world option" where
  [simp]: "obj_rule_update K p w = obj_rule_update_state K p w"

definition obj_rule_delete :: "calls \<Rightarrow> ptr \<Rightarrow> world \<Rightarrow> world option" where
  "obj_rule_delete K p w = do {
     w \<leftarrow> obj_rule_ref p w;
     w \<leftarrow> mod_rule p (\<lambda>r. r\<lparr>oru_obj := (oru_obj r)\<lparr>oc_state := OBJ_STATE_PRESENT\<rparr>\<rparr>) w;
     r \<leftarrow> w_rules w p;
     w \<leftarrow> free_tcr_opt (oru_have r) w;
     w \<leftarrow> mod_rule p (\<lambda>r. r\<lparr>oru_have := None\<rparr>) w;
     w \<leftarrow> (if oru_want r \<noteq> None then obj_rule_update_state K p w else Some w);
     obj_rule_unref K p w
   }"

text \<open>
  \<open>obj_rule_netlink_found\<close>: a filter was reported by the kernel. The caller's rule is copied.
\<close>

definition obj_rule_netlink_found :: "calls \<Rightarrow> u16 \<Rightarrow> u32 \<Rightarrow> u16 \<Rightarrow> tc_rule \<Rightarrow> world \<Rightarrow> world option" where
  "obj_rule_netlink_found K nltype chain_no prio tcr w = do {
     found \<leftarrow> obj_rule_pos_lookup chain_no prio w;
     found \<leftarrow> (case found of
         Some p \<Rightarrow> Some (Some p)
       | None \<Rightarrow> do {
           laf \<leftarrow> obj_rule_laf_lookup tcr w;
           case laf of
             None \<Rightarrow> Some None
           | Some p \<Rightarrow> do {
               r \<leftarrow> w_rules w p;
               Some (if oru_chain_no r \<noteq> chain_no \<or> oru_prio r \<noteq> prio then None else Some p)
             }
         });
     if nltype = RTM_DELTFILTER then
       (case found of None \<Rightarrow> Some w | Some p \<Rightarrow> obj_rule_delete K p w)
     else do {
       (p, w) \<leftarrow> (case found of
           Some p \<Rightarrow> do {
             r \<leftarrow> w_rules w p;
             AN (oru_chain_no r = chain_no);
             AN (oru_prio r = prio);
             Some (p, w)
           }
         | None \<Rightarrow> do {
             let (p, w) = obj_rule_alloc w;
             w \<leftarrow> mod_rule p (\<lambda>r. r\<lparr>oru_chain_no := chain_no, oru_prio := prio\<rparr>) w;
             Some (p, w)
           });
       r \<leftarrow> w_rules w p;
       same \<leftarrow> (case oru_have r of
           None \<Rightarrow> Some False
         | Some h \<Rightarrow> do { have \<leftarrow> w_tcrs w h; Some (tc_rule_cmp have tcr = 0) });
       w \<leftarrow> (if same then Some w
             else do {
               w \<leftarrow> (case oru_have r of
                   Some h \<Rightarrow> free_tcr h w
                 | None \<Rightarrow> mod_rule p (\<lambda>r. r\<lparr>oru_obj := (oru_obj r)\<lparr>oc_state := OBJ_STATE_INSTALLED\<rparr>\<rparr>) w);
               let (h, w) = new_tcr tcr w;
               mod_rule p (\<lambda>r. r\<lparr>oru_have := Some h\<rparr>) w
             });
       if found = None then obj_rule_new K p w
       else if \<not> same then obj_rule_update K p w
       else Some w
     }
   }"

definition obj_rule_static_want :: "calls \<Rightarrow> u32 \<Rightarrow> u16 \<Rightarrow> tc_rule \<Rightarrow> world \<Rightarrow> world option" where
  "obj_rule_static_want K chain_no prio tcr w = do {
     found \<leftarrow> obj_rule_pos_lookup chain_no prio w;
     AN (found = None);
     let (p, w) = obj_rule_alloc w;
     let (wn, w) = new_tcr tcr w;
     w \<leftarrow> mod_rule p (\<lambda>r. r\<lparr>oru_chain_no := chain_no, oru_prio := prio,
            oru_type := OBJ_RULE_TYPE_STATIC, oru_want := Some wn\<rparr>) w;
     w \<leftarrow> obj_rule_pos_insert p w;
     obj_rule_update_state K p w
   }"

text \<open>
  \<open>obj_rule_prime_request\<close> adopts a rule of the lost and found tree, or places a new one. An
  adopted rule is given two references.
\<close>

definition obj_rule_prime_request :: "tc_rule \<Rightarrow> world \<Rightarrow> (ptr option \<times> world) option" where
  "obj_rule_prime_request tcr w = do {
     laf \<leftarrow> obj_rule_laf_lookup tcr w;
     case laf of
       Some p \<Rightarrow> do {
         w \<leftarrow> obj_rule_ref p w;
         r \<leftarrow> w_rules w p;
         AN (oru_have r \<noteq> None);
         AN (oru_want r = None);
         let (wn, w) = new_tcr tcr w;
         w \<leftarrow> mod_rule p (\<lambda>r. r\<lparr>oru_want := Some wn\<rparr>) w;
         AN (oru_have_laf r);
         t \<leftarrow> rb_erase p (w_laf_tree w);
         w \<leftarrow> mod_rule p (\<lambda>r. r\<lparr>oru_have_laf := False\<rparr>) (w\<lparr>w_laf_tree := t\<rparr>);
         w \<leftarrow> obj_rule_ref p w;
         Some (Some p, w)
       }
     | None \<Rightarrow> do {
         (place, w) \<leftarrow> sched_place tcr w;
         case place of
           None \<Rightarrow> Some (None, w)
         | Some (chain_no, prio) \<Rightarrow> do {
             let (p, w) = obj_rule_alloc w;
             w \<leftarrow> obj_rule_ref p w;
             let (wn, w) = new_tcr tcr w;
             w \<leftarrow> mod_rule p (\<lambda>r. r\<lparr>oru_chain_no := chain_no, oru_prio := prio, oru_want := Some wn\<rparr>) w;
             w \<leftarrow> obj_rule_pos_insert p w;
             Some (Some p, w)
           }
       }
   }"

definition obj_rule_queue_request :: "calls \<Rightarrow> ptr \<Rightarrow> world \<Rightarrow> world option" where
  "obj_rule_queue_request K p w = obj_rule_update_state K p w"

definition obj_rule_request :: "calls \<Rightarrow> tc_rule \<Rightarrow> world \<Rightarrow> (ptr option \<times> world) option" where
  "obj_rule_request K tcr w = do {
     (p, w) \<leftarrow> obj_rule_prime_request tcr w;
     w \<leftarrow> (case p of None \<Rightarrow> Some w | Some q \<Rightarrow> obj_rule_queue_request K q w);
     Some (p, w)
   }"

section \<open>Pins\<close>

definition obj_rule_reset_pin :: "world \<Rightarrow> world" where
  "obj_rule_reset_pin w = w\<lparr>w_pin_changes := 0\<rparr>"

text \<open>
  One pass over the positional tree. The next node is looked up after the rule has been
  updated, in the tree as it then is; a rule that the update has freed is gone from it.
  The fuel is the number of steps allowed.
\<close>

fun remove_pin_pass :: "calls \<Rightarrow> nat \<Rightarrow> ptr option \<Rightarrow> world \<Rightarrow> world option" where
  "remove_pin_pass K fuel None w = Some w"
| "remove_pin_pass K 0 (Some p) w = None"
| "remove_pin_pass K (Suc fuel) (Some p) w = do {
     w \<leftarrow> obj_rule_update_state K p w;
     next \<leftarrow> rb_next p (w_pos_tree w);
     remove_pin_pass K fuel next w
   }"

fun remove_pin_loop :: "calls \<Rightarrow> nat \<Rightarrow> nat list \<Rightarrow> world \<Rightarrow> world option" where
  "remove_pin_loop K fuel [] w = Some w"
| "remove_pin_loop K fuel (i # is) w = do {
     let w = w\<lparr>w_pin_changes := i\<rparr>;
     w \<leftarrow> remove_pin_pass K fuel (rb_first (w_pos_tree w)) w;
     remove_pin_loop K fuel is w
   }"

definition obj_rule_remove_pin :: "calls \<Rightarrow> nat \<Rightarrow> world \<Rightarrow> world option" where
  "obj_rule_remove_pin K fuel w =
     (if w_pin_changes w \<ge> 3 then Some w else remove_pin_loop K fuel [0, 1, 2, 3] w)"

text \<open>\<open>obj_rule_clear_all\<close> reads the next node before it drops a rule.\<close>

fun clear_pass :: "calls \<Rightarrow> (world \<Rightarrow> ptr rb) \<Rightarrow> nat \<Rightarrow> ptr option \<Rightarrow> world \<Rightarrow> world option" where
  "clear_pass K tree fuel None w = Some w"
| "clear_pass K tree 0 (Some p) w = None"
| "clear_pass K tree (Suc fuel) (Some p) w = do {
     nn \<leftarrow> rb_next p (tree w);
     w \<leftarrow> obj_rule_ref p w;
     w \<leftarrow> mod_rule p (\<lambda>r. r\<lparr>oru_obj := (oru_obj r)\<lparr>oc_state := OBJ_STATE_PRESENT\<rparr>\<rparr>) w;
     w \<leftarrow> obj_rule_unref K p w;
     clear_pass K tree fuel nn w
   }"

definition obj_rule_clear_all :: "calls \<Rightarrow> nat \<Rightarrow> world \<Rightarrow> world option" where
  "obj_rule_clear_all K fuel w = do {
     w \<leftarrow> clear_pass K w_laf_tree fuel (rb_first (w_laf_tree w)) w;
     clear_pass K w_pos_tree fuel (rb_first (w_pos_tree w)) w
   }"

definition obj_rule_init :: "world \<Rightarrow> world" where
  "obj_rule_init w = w\<lparr>w_tacb_hooks := True\<rparr>"

section \<open>The static rules\<close>

definition request_af_goto_rule ::
  "(u8 \<Rightarrow> string \<Rightarrow> bytes option) \<Rightarrow> calls \<Rightarrow> u32 \<Rightarrow> u16 \<Rightarrow> u8 \<Rightarrow> u32 \<Rightarrow> world \<Rightarrow> world option" where
  "request_af_goto_rule inet_pton K chain_no prio f goto_target w = do {
     let tcr = tc_rule_init (w_config w) zero_tc_rule;
     let tcr = tcr\<lparr>tcr_af_addr := (tcr_af_addr tcr)\<lparr>aa_af := f\<rparr>\<rparr>;
     tcr \<leftarrow> (if f = AF_INET6 then tc_rule_set_dst inet_pton tcr ''2000::'' 3 else Some tcr);
     tcr \<leftarrow> tc_rule_set_type_and_traits (tcr\<lparr>tcr_goto_target := goto_target\<rparr>) TC_RULE_TYPE_ROUTE_GOTO;
     obj_rule_static_want K chain_no prio tcr w
   }"

definition request_ttl_check :: "calls \<Rightarrow> u32 \<Rightarrow> u16 \<Rightarrow> u8 \<Rightarrow> world \<Rightarrow> world option" where
  "request_ttl_check K chain_no prio f w = do {
     let tcr = tc_rule_init (w_config w) zero_tc_rule;
     let tcr = tcr\<lparr>tcr_af_addr := (tcr_af_addr tcr)\<lparr>aa_af := f\<rparr>\<rparr>;
     tcr \<leftarrow> tc_rule_set_type_and_traits tcr TC_RULE_TYPE_TTL_CHECK;
     obj_rule_static_want K chain_no prio tcr w
   }"

definition request_onload_rule :: "calls \<Rightarrow> u32 \<Rightarrow> u16 \<Rightarrow> af_addr \<Rightarrow> world \<Rightarrow> world option" where
  "request_onload_rule K chain_no prio addr w = do {
     let tcr = (tc_rule_init (w_config w) zero_tc_rule)\<lparr>tcr_af_addr := addr\<rparr>;
     tcr \<leftarrow> tc_rule_set_type_and_traits tcr TC_RULE_TYPE_ROUTE_TRAP;
     obj_rule_static_want K chain_no prio tcr w
   }"

fun place_prefixes :: "calls \<Rightarrow> u16 \<Rightarrow> af_addr list \<Rightarrow> world \<Rightarrow> world option" where
  "place_prefixes K base_prio [] w = Some w"
| "place_prefixes K base_prio (pfx # pfxs) w = do {
     chain_no \<leftarrow> get_af_chain (aa_af pfx);
     prio \<leftarrow> obj_rule_find_available_prio chain_no base_prio w;
     w \<leftarrow> request_onload_rule K chain_no prio pfx w;
     place_prefixes K base_prio pfxs w
   }"

definition sched_basic_place_prefix_list :: "calls \<Rightarrow> u16 \<Rightarrow> string \<Rightarrow> world \<Rightarrow> world option" where
  "sched_basic_place_prefix_list K base_prio list_name w =
     (case onload_lookup_prefix_list list_name (w_config w) of
        None \<Rightarrow> Some w
      | Some l \<Rightarrow> place_prefixes K base_prio (pl_entries l) w)"

definition sched_basic_initial_requests ::
  "(u8 \<Rightarrow> string \<Rightarrow> bytes option) \<Rightarrow> calls \<Rightarrow> world \<Rightarrow> world option" where
  "sched_basic_initial_requests inet_pton K w = do {
     w \<leftarrow> request_af_goto_rule inet_pton K 0 1 AF_INET 1 w;
     w \<leftarrow> request_af_goto_rule inet_pton K 0 2 AF_INET6 2 w;
     w \<leftarrow> request_ttl_check K 1 1 AF_INET w;
     w \<leftarrow> request_ttl_check K 2 1 AF_INET6 w;
     sched_basic_place_prefix_list K 10 ''onload'' w
   }"

definition sched_init :: "(u8 \<Rightarrow> string \<Rightarrow> bytes option) \<Rightarrow> calls \<Rightarrow> world \<Rightarrow> world option" where
  "sched_init inet_pton K w = sched_basic_initial_requests inet_pton K w"

end
