(* ===== verification/Obj_Target.thy ===== *)
theory Obj_Target
  imports Obj_Rule
begin

text \<open>
  \<open>src/obj_target.c\<close> and \<open>src/obj_route.c\<close>: a target is where a set of routes leads to, a
  neighbour's address behind a VLAN link. It wants one forwarding rule; once that rule is in
  the kernel, each of its routes wants a rule that goes to the target's chain.

  The routes of a target and the targets of a neighbour are linked lists through the objects.
  A walk along such a list takes at most as many steps as objects were ever allocated.
\<close>

section \<open>Installing a route\<close>

definition obj_route_prepare_rule :: "obj_route \<Rightarrow> ptr option \<Rightarrow> world \<Rightarrow> tc_rule option" where
  "obj_route_prepare_rule r target_rule w = do {
     p \<leftarrow> target_rule;
     tr \<leftarrow> w_rules w p;
     AN (oru_state tr = OBJ_RULE_STATE_OK);
     let tcr = (tc_rule_init (w_config w) zero_tc_rule)
       \<lparr>tcr_af_addr := or_dst r, tcr_goto_target := oru_chain_no tr\<rparr>;
     tc_rule_set_type_and_traits tcr TC_RULE_TYPE_ROUTE_GOTO
   }"

definition obj_rule_ref_opt :: "ptr option \<Rightarrow> world \<Rightarrow> world option" where
  "obj_rule_ref_opt p w = (case p of None \<Rightarrow> Some w | Some q \<Rightarrow> obj_rule_ref q w)"

text \<open>
  \<open>obj_route_prepare_rule\<close> never returns false, so the branch of \<open>obj_route_install\<close> for that
  is not reached.
\<close>

definition obj_route_install :: "calls \<Rightarrow> ptr \<Rightarrow> world \<Rightarrow> world option" where
  "obj_route_install K p w = do {
     r \<leftarrow> w_routes w p;
     obj_assert_kind OBJ_KIND_ROUTE (or_obj r);
     tp \<leftarrow> or_target r;
     t \<leftarrow> w_targets w tp;
     let target_rule = ot_rule t;
     tcr \<leftarrow> obj_route_prepare_rule r target_rule w;
     case or_rule r of
       None \<Rightarrow> do {
         w \<leftarrow> obj_rule_ref_opt target_rule w;
         w \<leftarrow> mod_route p (\<lambda>r. r\<lparr>or_target_rule := target_rule\<rparr>) w;
         (rule, w) \<leftarrow> obj_rule_request K tcr w;
         mod_route p (\<lambda>r. r\<lparr>or_rule := rule\<rparr>) w
       }
     | Some old_rule \<Rightarrow> do {
         ru \<leftarrow> w_rules w old_rule;
         changed \<leftarrow> (case oru_want ru of
             None \<Rightarrow> Some False
           | Some wn \<Rightarrow> do { current \<leftarrow> w_tcrs w wn; Some (tc_rule_cmp current tcr \<noteq> 0) });
         if \<not> changed then Some w
         else do {
           old_target_rule \<leftarrow> or_target_rule r;
           w \<leftarrow> obj_rule_ref old_rule w;
           w \<leftarrow> obj_rule_ref old_target_rule w;
           w \<leftarrow> (if or_target_rule r \<noteq> target_rule then do {
                   w \<leftarrow> obj_rule_unref K old_target_rule w;
                   w \<leftarrow> obj_rule_ref_opt target_rule w;
                   mod_route p (\<lambda>r. r\<lparr>or_target_rule := target_rule\<rparr>) w
                 } else Some w);
           w \<leftarrow> obj_rule_unref K old_rule w;
           (rule, w) \<leftarrow> obj_rule_request K tcr w;
           w \<leftarrow> mod_route p (\<lambda>r. r\<lparr>or_rule := rule\<rparr>) w;
           w \<leftarrow> obj_rule_unref K old_target_rule w;
           obj_rule_unref K old_rule w
         }
       }
   }"

section \<open>Targets\<close>

fun notify_routes_loop :: "calls \<Rightarrow> nat \<Rightarrow> ptr \<Rightarrow> ptr option \<Rightarrow> world \<Rightarrow> world option" where
  "notify_routes_loop K fuel t None w = Some w"
| "notify_routes_loop K 0 t (Some p) w = None"
| "notify_routes_loop K (Suc fuel) t (Some p) w = do {
     r \<leftarrow> w_routes w p;
     AN (or_target r = Some t);
     w \<leftarrow> obj_route_install K p w;
     r \<leftarrow> w_routes w p;
     notify_routes_loop K fuel t (or_t_next_route r) w
   }"

definition obj_target_notify_routes :: "calls \<Rightarrow> ptr \<Rightarrow> world \<Rightarrow> world option" where
  "obj_target_notify_routes K p w = do {
     t \<leftarrow> w_targets w p;
     obj_assert_kind OBJ_KIND_TARGET (ot_obj t);
     case ot_rule t of
       None \<Rightarrow> Some w
     | Some rp \<Rightarrow> do {
         ru \<leftarrow> w_rules w rp;
         if oru_state ru = OBJ_RULE_STATE_OK
         then notify_routes_loop K (w_next w) p (ot_first_route t) w
         else Some w
       }
   }"

fun unref_nexthops :: "ptr list \<Rightarrow> world \<Rightarrow> world option" where
  "unref_nexthops [] w = Some w"
| "unref_nexthops (n # ns) w = do { w \<leftarrow> obj_neigh_weak_unref n w; unref_nexthops ns w }"

fun unref_routes_loop :: "calls \<Rightarrow> nat \<Rightarrow> ptr option \<Rightarrow> world \<Rightarrow> world option" where
  "unref_routes_loop K fuel None w = Some w"
| "unref_routes_loop K 0 (Some p) w = None"
| "unref_routes_loop K (Suc fuel) (Some p) w = do {
     r \<leftarrow> w_routes w p;
     w \<leftarrow> K (Call_route_unref p) w;
     unref_routes_loop K fuel (or_t_next_route r) w
   }"

definition obj_target_reap :: "calls \<Rightarrow> ptr \<Rightarrow> world \<Rightarrow> world option" where
  "obj_target_reap K p w = do {
     w \<leftarrow> mod_target p (\<lambda>t. t\<lparr>ot_obj := (ot_obj t)\<lparr>oc_state := OBJ_STATE_ZOMBIE\<rparr>\<rparr>) w;
     t \<leftarrow> w_targets w p;
     AN (oc_refcnt (ot_obj t) = 0);
     w \<leftarrow> unref_nexthops (ot_nexthop t) w;
     t \<leftarrow> w_targets w p;
     w \<leftarrow> unref_routes_loop K (w_next w) (ot_first_route t) w;
     t \<leftarrow> w_targets w p;
     w \<leftarrow> (case ot_rule t of
         None \<Rightarrow> Some w
       | Some rp \<Rightarrow> do {
           w \<leftarrow> obj_rule_unref K rp w;
           mod_target p (\<lambda>t. t\<lparr>ot_rule := None\<rparr>) w
         });
     t \<leftarrow> w_targets w p;
     AN (oc_weak_refcnt (ot_obj t) = 0);
     obj_free_ok (ot_obj t);
     AN (w_target_cnt w \<noteq> 0);
     Some (w\<lparr>w_targets := (w_targets w)(p := None), w_target_cnt := w_target_cnt w - 1\<rparr>)
   }"

definition obj_target_unref :: "calls \<Rightarrow> ptr \<Rightarrow> world \<Rightarrow> world option" where
  "obj_target_unref K p w = do {
     t \<leftarrow> w_targets w p;
     obj_assert_kind OBJ_KIND_TARGET (ot_obj t);
     c \<leftarrow> obj_unref (ot_obj t);
     w \<leftarrow> mod_target p (\<lambda>t. t\<lparr>ot_obj := c\<rparr>) w;
     if obj_is_reapable (w_mode w) c then obj_target_reap K p w else Some w
   }"

definition obj_target_alloc :: "world \<Rightarrow> ptr \<times> world" where
  "obj_target_alloc w =
     (let p = w_next w;
          t = \<lparr>ot_obj = zero_obj_core\<lparr>oc_kind := OBJ_KIND_TARGET\<rparr>, ot_nexthop_cnt = 0,
               ot_nexthop = [], ot_first_route = None, ot_last_route = None,
               ot_n_next_target = None, ot_rule = None\<rparr> in
      (p, w\<lparr>w_targets := (w_targets w)(p := Some t), w_next := Suc p, w_target_cnt := w_target_cnt w + 1\<rparr>))"

definition obj_target_get_unipath :: "ptr \<Rightarrow> world \<Rightarrow> (ptr \<times> world) option" where
  "obj_target_get_unipath np w = do {
     n \<leftarrow> w_neighs w np;
     obj_assert_kind OBJ_KIND_NEIGH (on_obj n);
     reuse \<leftarrow> (case on_targets n of
         None \<Rightarrow> Some None
       | Some tp \<Rightarrow> do { t \<leftarrow> w_targets w tp; Some (if ot_nexthop_cnt t = 1 then Some tp else None) });
     case reuse of
       Some tp \<Rightarrow> Some (tp, w)
     | None \<Rightarrow> do {
         let (tp, w) = obj_target_alloc w;
         w \<leftarrow> obj_neigh_weak_ref np w;
         w \<leftarrow> mod_target tp (\<lambda>t. t\<lparr>ot_nexthop_cnt := 1, ot_nexthop := [np],
                ot_n_next_target := on_targets n\<rparr>) w;
         w \<leftarrow> obj_target_ref tp w;
         w \<leftarrow> mod_neigh np (\<lambda>n. n\<lparr>on_targets := Some tp\<rparr>) w;
         Some (tp, w)
       }
   }"

definition is_lladdr_zero :: "bytes \<Rightarrow> bool" where
  "is_lladdr_zero l = (take 6 l = replicate 6 0)"

text \<open>The inner \<open>None\<close> is the result false: there is nothing to install yet.\<close>

definition obj_target_prepare_rule :: "ptr \<Rightarrow> world \<Rightarrow> tc_rule option option" where
  "obj_target_prepare_rule p w = do {
     t \<leftarrow> w_targets w p;
     np \<leftarrow> (case ot_nexthop t of [] \<Rightarrow> None | np # _ \<Rightarrow> Some np);
     n \<leftarrow> w_neighs w np;
     lp \<leftarrow> on_link n;
     l \<leftarrow> w_links w lp;
     if ol_vlan_id l = 0 \<or> is_lladdr_zero (ol_lladdr l) \<or> is_lladdr_zero (on_lladdr n) then Some None
     else do {
       let tcr = tc_rule_init (w_config w) zero_tc_rule;
       let tcr = tcr\<lparr>tcr_vlan_id := ol_vlan_id l, tcr_lladdr := on_lladdr n @ ol_lladdr l,
                   tcr_af_addr := (tcr_af_addr tcr)\<lparr>aa_af := aa_af (on_addr n)\<rparr>\<rparr>;
       tcr \<leftarrow> tc_rule_set_type_and_traits tcr TC_RULE_TYPE_FORWARD;
       Some (Some tcr)
     }
   }"

definition obj_target_set_rule :: "calls \<Rightarrow> ptr \<Rightarrow> tc_rule option \<Rightarrow> world \<Rightarrow> world option" where
  "obj_target_set_rule K p tcr w = do {
     t \<leftarrow> w_targets w p;
     w \<leftarrow> (case ot_rule t of
         None \<Rightarrow> Some w
       | Some rp \<Rightarrow> do {
           w \<leftarrow> obj_rule_unset_target rp w;
           w \<leftarrow> obj_rule_unref K rp w;
           mod_target p (\<lambda>t. t\<lparr>ot_rule := None\<rparr>) w
         });
     case tcr of
       None \<Rightarrow> obj_target_notify_routes K p w
     | Some tcr \<Rightarrow> do {
         (rule, w) \<leftarrow> obj_rule_prime_request tcr w;
         w \<leftarrow> mod_target p (\<lambda>t. t\<lparr>ot_rule := rule\<rparr>) w;
         case rule of
           None \<Rightarrow> Some w
         | Some rp \<Rightarrow> do {
             w \<leftarrow> obj_rule_set_target rp p w;
             obj_rule_queue_request K rp w
           }
       }
   }"

definition obj_target_install :: "calls \<Rightarrow> ptr \<Rightarrow> world \<Rightarrow> world option" where
  "obj_target_install K p w = do {
     ret \<leftarrow> obj_target_prepare_rule p w;
     case ret of None \<Rightarrow> Some w | Some tcr \<Rightarrow> obj_target_set_rule K p (Some tcr) w
   }"

definition obj_target_neigh_update :: "calls \<Rightarrow> ptr \<Rightarrow> world \<Rightarrow> world option" where
  "obj_target_neigh_update K p w = do {
     t \<leftarrow> w_targets w p;
     obj_assert_kind OBJ_KIND_TARGET (ot_obj t);
     ret \<leftarrow> obj_target_prepare_rule p w;
     case ret of
       None \<Rightarrow> obj_target_set_rule K p None w
     | Some tcr \<Rightarrow>
         (case ot_rule t of
            None \<Rightarrow> Some w
          | Some rp \<Rightarrow> do {
              ru \<leftarrow> w_rules w rp;
              case oru_want ru of
                None \<Rightarrow> Some w
              | Some wn \<Rightarrow> do {
                  current \<leftarrow> w_tcrs w wn;
                  if tc_rule_cmp current tcr \<noteq> 0 then obj_target_set_rule K p (Some tcr) w else Some w
                }
            })
   }"

definition obj_target_link_route :: "calls \<Rightarrow> ptr \<Rightarrow> ptr \<Rightarrow> world \<Rightarrow> world option" where
  "obj_target_link_route K tp rp w = do {
     t \<leftarrow> w_targets w tp;
     r \<leftarrow> w_routes w rp;
     obj_assert_kind OBJ_KIND_TARGET (ot_obj t);
     obj_assert_kind OBJ_KIND_ROUTE (or_obj r);
     AN (or_target r = None);
     w \<leftarrow> obj_target_weak_ref tp w;
     w \<leftarrow> mod_route rp (\<lambda>r. r\<lparr>or_target := Some tp\<rparr>) w;
     w \<leftarrow> obj_route_ref rp w;
     w \<leftarrow> (case ot_last_route t of
         Some lr \<Rightarrow> mod_route lr (\<lambda>r. r\<lparr>or_t_next_route := Some rp\<rparr>) w
       | None \<Rightarrow> mod_target tp (\<lambda>t. t\<lparr>ot_first_route := Some rp\<rparr>) w);
     w \<leftarrow> mod_target tp (\<lambda>t. t\<lparr>ot_last_route := Some rp\<rparr>) w;
     if ot_rule t = None then obj_target_install K tp w else Some w
   }"

text \<open>
  The loop of \<open>obj_target_unlink_route\<close>: \<open>prev\<close> is the route whose link is \<open>*prev_ptr\<close>, or the
  target's \<open>first_route\<close>. Once the route is found its own link is cleared, which ends the loop.
\<close>

fun unlink_route_loop :: "calls \<Rightarrow> nat \<Rightarrow> ptr \<Rightarrow> ptr \<Rightarrow> ptr option \<Rightarrow> ptr option \<Rightarrow> world \<Rightarrow> world option" where
  "unlink_route_loop K fuel tp rp prev None w = Some w"
| "unlink_route_loop K 0 tp rp prev (Some p) w = None"
| "unlink_route_loop K (Suc fuel) tp rp prev (Some p) w = do {
     r \<leftarrow> w_routes w p;
     if p = rp then do {
       w \<leftarrow> (case prev of
           None \<Rightarrow> mod_target tp (\<lambda>t. t\<lparr>ot_first_route := or_t_next_route r\<rparr>) w
         | Some q \<Rightarrow> mod_route q (\<lambda>q. q\<lparr>or_t_next_route := or_t_next_route r\<rparr>) w);
       t \<leftarrow> w_targets w tp;
       w \<leftarrow> (if ot_last_route t = Some rp then mod_target tp (\<lambda>t. t\<lparr>ot_last_route := prev\<rparr>) w else Some w);
       w \<leftarrow> mod_route rp (\<lambda>r. r\<lparr>or_t_next_route := None\<rparr>) w;
       w \<leftarrow> K (Call_route_unref rp) w;
       r \<leftarrow> w_routes w p;
       unlink_route_loop K fuel tp rp prev (or_t_next_route r) w
     } else unlink_route_loop K fuel tp rp (Some p) (or_t_next_route r) w
   }"

definition obj_target_unlink_route :: "calls \<Rightarrow> ptr \<Rightarrow> ptr \<Rightarrow> world \<Rightarrow> world option" where
  "obj_target_unlink_route K tp rp w = do {
     t \<leftarrow> w_targets w tp;
     r \<leftarrow> w_routes w rp;
     obj_assert_kind OBJ_KIND_TARGET (ot_obj t);
     obj_assert_kind OBJ_KIND_ROUTE (or_obj r);
     w \<leftarrow> obj_target_ref tp w;
     w \<leftarrow> obj_route_ref rp w;
     AN (or_target r = Some tp);
     w \<leftarrow> obj_target_weak_unref tp w;
     w \<leftarrow> mod_route rp (\<lambda>r. r\<lparr>or_target := None\<rparr>) w;
     w \<leftarrow> unlink_route_loop K (w_next w) tp rp None (ot_first_route t) w;
     w \<leftarrow> K (Call_route_unref rp) w;
     obj_target_unref K tp w
   }"

section \<open>Routes\<close>

definition af_addr_cmp :: "af_addr \<Rightarrow> af_addr \<Rightarrow> int" where
  "af_addr_cmp a b = memcmp (af_addr_bytes a) (af_addr_bytes b)"

definition obj_route_reap :: "calls \<Rightarrow> ptr \<Rightarrow> world \<Rightarrow> world option" where
  "obj_route_reap K p w = do {
     r \<leftarrow> w_routes w p;
     AN (oc_refcnt (or_obj r) = 0);
     w \<leftarrow> mod_route p (\<lambda>r. r\<lparr>or_obj := (or_obj r)\<lparr>oc_state := OBJ_STATE_ZOMBIE\<rparr>\<rparr>) w;
     w \<leftarrow> (case or_target r of
         None \<Rightarrow> Some w
       | Some tp \<Rightarrow> do {
           w \<leftarrow> obj_target_unlink_route K tp p w;
           mod_route p (\<lambda>r. r\<lparr>or_target := None\<rparr>) w
         });
     r \<leftarrow> w_routes w p;
     w \<leftarrow> (case or_rule r of
         None \<Rightarrow> Some w
       | Some rp \<Rightarrow> do { w \<leftarrow> obj_rule_unref K rp w; mod_route p (\<lambda>r. r\<lparr>or_rule := None\<rparr>) w });
     r \<leftarrow> w_routes w p;
     w \<leftarrow> (case or_target_rule r of
         None \<Rightarrow> Some w
       | Some rp \<Rightarrow> do { w \<leftarrow> obj_rule_unref K rp w; mod_route p (\<lambda>r. r\<lparr>or_target_rule := None\<rparr>) w });
     t \<leftarrow> rb_erase p (w_route_tree w);
     r \<leftarrow> w_routes w p;
     obj_free_ok (or_obj r);
     AN (w_route_cnt w \<noteq> 0);
     Some (w\<lparr>w_route_tree := t, w_routes := (w_routes w)(p := None), w_route_cnt := w_route_cnt w - 1\<rparr>)
   }"

definition obj_route_unref :: "calls \<Rightarrow> ptr \<Rightarrow> world \<Rightarrow> world option" where
  "obj_route_unref K p w = do {
     r \<leftarrow> w_routes w p;
     obj_assert_kind OBJ_KIND_ROUTE (or_obj r);
     c \<leftarrow> obj_unref (or_obj r);
     w \<leftarrow> mod_route p (\<lambda>r. r\<lparr>or_obj := c\<rparr>) w;
     if obj_is_reapable (w_mode w) c then obj_route_reap K p w else Some w
   }"

definition obj_route_lookup :: "af_addr \<Rightarrow> world \<Rightarrow> ptr option option" where
  "obj_route_lookup dst w =
     rb_search_ptr (\<lambda>this. do { r \<leftarrow> w_routes w this; Some (af_addr_cmp dst (or_dst r)) }) (w_route_tree w)"

definition obj_route_insert :: "ptr \<Rightarrow> world \<Rightarrow> world option" where
  "obj_route_insert p w = do {
     r \<leftarrow> w_routes w p;
     obj_assert_kind OBJ_KIND_ROUTE (or_obj r);
     (t, ret) \<leftarrow> rb_insert_ptr (\<lambda>this. do { q \<leftarrow> w_routes w this; Some (af_addr_cmp (or_dst r) (or_dst q)) })
       p (w_route_tree w);
     Some (w\<lparr>w_route_tree := t\<rparr>)
   }"

definition obj_route_new :: "ptr \<Rightarrow> world \<Rightarrow> world option" where
  "obj_route_new p w = do {
     w \<leftarrow> mod_route p (\<lambda>r. r\<lparr>or_obj := (or_obj r)\<lparr>oc_state := OBJ_STATE_INSTALLED\<rparr>\<rparr>) w;
     obj_route_insert p w
   }"

definition obj_route_update :: "ptr \<Rightarrow> world \<Rightarrow> world option" where
  "obj_route_update p w = mod_route p (\<lambda>r. r\<lparr>or_obj := (or_obj r)\<lparr>oc_state := OBJ_STATE_INSTALLED\<rparr>\<rparr>) w"

definition obj_route_delete :: "calls \<Rightarrow> ptr \<Rightarrow> world \<Rightarrow> world option" where
  "obj_route_delete K p w = do {
     w \<leftarrow> obj_route_ref p w;
     w \<leftarrow> mod_route p (\<lambda>r. r\<lparr>or_obj := (or_obj r)\<lparr>oc_state := OBJ_STATE_PRESENT\<rparr>\<rparr>) w;
     r \<leftarrow> w_routes w p;
     w \<leftarrow> (case or_rule r of
         None \<Rightarrow> Some w
       | Some rp \<Rightarrow> do {
           ru \<leftarrow> w_rules w rp;
           if oru_have ru \<noteq> None then obj_rule_uninstall K rp w else Some w
         });
     r \<leftarrow> w_routes w p;
     w \<leftarrow> (case or_target r of None \<Rightarrow> Some w | Some tp \<Rightarrow> obj_target_unlink_route K tp p w);
     obj_route_unref K p w
   }"

definition RTM_NEWROUTE :: u16 where "RTM_NEWROUTE = 24"
definition RTM_DELROUTE :: u16 where "RTM_DELROUTE = 25"

definition obj_route_alloc :: "af_addr \<Rightarrow> world \<Rightarrow> ptr \<times> world" where
  \<comment> \<open>the allocation in \<open>obj_route_netlink_update\<close>\<close>
  "obj_route_alloc dst w =
     (let p = w_next w;
          r = \<lparr>or_obj = zero_obj_core\<lparr>oc_kind := OBJ_KIND_ROUTE\<rparr>, or_dst = dst, or_target = None,
               or_t_next_route = None, or_target_rule = None, or_rule = None\<rparr> in
      (p, w\<lparr>w_routes := (w_routes w)(p := Some r), w_next := Suc p, w_route_cnt := w_route_cnt w + 1\<rparr>))"

definition obj_route_netlink_update :: "calls \<Rightarrow> u16 \<Rightarrow> ptr \<Rightarrow> af_addr \<Rightarrow> world \<Rightarrow> world option" where
  "obj_route_netlink_update K nltype tp dst w = do {
     found \<leftarrow> obj_route_lookup dst w;
     if nltype = RTM_DELROUTE then
       (case found of None \<Rightarrow> Some w | Some p \<Rightarrow> obj_route_delete K p w)
     else do {
       let (p, w) = (case found of Some p \<Rightarrow> (p, w) | None \<Rightarrow> obj_route_alloc dst w);
       r \<leftarrow> w_routes w p;
       let changed = (or_target r \<noteq> Some tp);
       w \<leftarrow> (if changed then do {
               w \<leftarrow> (case or_target r of None \<Rightarrow> Some w | Some old \<Rightarrow> obj_target_unlink_route K old p w);
               obj_target_link_route K tp p w
             } else Some w);
       t \<leftarrow> w_targets w tp;
       w \<leftarrow> (case ot_rule t of
           None \<Rightarrow> Some w
         | Some rp \<Rightarrow> do {
             ru \<leftarrow> w_rules w rp;
             if oru_state ru = OBJ_RULE_STATE_OK then do {
               r \<leftarrow> w_routes w p;
               if or_rule r = None then obj_route_install K p w else Some w
             } else Some w
           });
       if found = None then obj_route_new p w
       else if changed then obj_route_update p w
       else Some w
     }
   }"

end
