(* ===== verification/Obj_Link.thy ===== *)
theory Obj_Link
  imports Obj_Target
begin

text \<open>
  \<open>src/obj_neigh.c\<close> and \<open>src/obj_link.c\<close>: the VLAN links above the configured interface and the
  neighbours behind each of them. A change of a link is passed on to its neighbours, a
  change of a neighbour to its targets.
\<close>

section \<open>Link-layer addresses\<close>

text \<open>\<open>lladdr_set\<close>: the new bytes and the number of changes. A null source clears them.\<close>

definition lladdr_set :: "bytes \<Rightarrow> bytes option \<Rightarrow> (bytes \<times> nat) option" where
  "lladdr_set dst src =
     (case src of
        None \<Rightarrow> Some (replicate 6 0, length (filter (\<lambda>b. b \<noteq> 0) dst))
      | Some bs \<Rightarrow> do {
          AN (6 \<le> length bs);
          Some (if memcmp dst (take 6 bs) \<noteq> 0 then (take 6 bs, 1) else (dst, 0))
        })"

definition ifname_set :: "string option \<Rightarrow> string option \<Rightarrow> string option \<times> nat" where
  "ifname_set dst src =
     (case src of
        None \<Rightarrow> (None, if dst = None then 0 else 1)
      | Some s \<Rightarrow> if dst = Some s then (dst, 0) else (Some s, 1))"

section \<open>Neighbours\<close>

definition obj_neigh_unlink :: "ptr \<Rightarrow> world \<Rightarrow> world option" where
  "obj_neigh_unlink p w = do {
     n \<leftarrow> w_neighs w p;
     lp \<leftarrow> on_link n;
     l \<leftarrow> w_links w lp;
     t \<leftarrow> rb_erase p (ol_fdb l);
     w \<leftarrow> mod_link lp (\<lambda>l. l\<lparr>ol_fdb := t\<rparr>) w;
     w \<leftarrow> obj_link_weak_unref lp w;
     mod_neigh p (\<lambda>n. n\<lparr>on_link := None\<rparr>) w
   }"

fun unref_targets_loop :: "calls \<Rightarrow> nat \<Rightarrow> ptr option \<Rightarrow> world \<Rightarrow> world option" where
  "unref_targets_loop K fuel None w = Some w"
| "unref_targets_loop K 0 (Some p) w = None"
| "unref_targets_loop K (Suc fuel) (Some p) w = do {
     t \<leftarrow> w_targets w p;
     w \<leftarrow> mod_target p (\<lambda>t. t\<lparr>ot_n_next_target := None\<rparr>) w;
     w \<leftarrow> obj_target_unref K p w;
     unref_targets_loop K fuel (ot_n_next_target t) w
   }"

definition obj_neigh_reap :: "calls \<Rightarrow> ptr \<Rightarrow> world \<Rightarrow> world option" where
  "obj_neigh_reap K p w = do {
     n \<leftarrow> w_neighs w p;
     obj_assert_kind OBJ_KIND_NEIGH (on_obj n);
     AN (oc_refcnt (on_obj n) = 0);
     w \<leftarrow> mod_neigh p (\<lambda>n. n\<lparr>on_obj := (on_obj n)\<lparr>oc_state := OBJ_STATE_ZOMBIE\<rparr>\<rparr>) w;
     w \<leftarrow> unref_targets_loop K (w_next w) (on_targets n) w;
     n \<leftarrow> w_neighs w p;
     w \<leftarrow> (if on_link n \<noteq> None then obj_neigh_unlink p w else Some w);
     n \<leftarrow> w_neighs w p;
     obj_free_ok (on_obj n);
     AN (w_neigh_cnt w \<noteq> 0);
     Some (w\<lparr>w_neighs := (w_neighs w)(p := None), w_neigh_cnt := w_neigh_cnt w - 1\<rparr>)
   }"

definition obj_neigh_unref :: "calls \<Rightarrow> ptr \<Rightarrow> world \<Rightarrow> world option" where
  "obj_neigh_unref K p w = do {
     n \<leftarrow> w_neighs w p;
     obj_assert_kind OBJ_KIND_NEIGH (on_obj n);
     c \<leftarrow> obj_unref (on_obj n);
     w \<leftarrow> mod_neigh p (\<lambda>n. n\<lparr>on_obj := c\<rparr>) w;
     if obj_is_reapable (w_mode w) c then obj_neigh_reap K p w else Some w
   }"

definition obj_neigh_fdb_lookup :: "ptr \<Rightarrow> af_addr \<Rightarrow> world \<Rightarrow> ptr option option" where
  "obj_neigh_fdb_lookup lp addr w = do {
     l \<leftarrow> w_links w lp;
     obj_assert_kind OBJ_KIND_LINK (ol_obj l);
     rb_search_ptr (\<lambda>this. do { n \<leftarrow> w_neighs w this; Some (af_addr_cmp addr (on_addr n)) }) (ol_fdb l)
   }"

definition obj_neigh_fdb_lookup2 :: "ptr \<Rightarrow> u8 \<Rightarrow> bytes option \<Rightarrow> world \<Rightarrow> ptr option option" where
  "obj_neigh_fdb_lookup2 lp f addr w = do {
     l \<leftarrow> w_links w lp;
     obj_assert_kind OBJ_KIND_LINK (ol_obj l);
     key \<leftarrow> build_af_addr f addr 0;
     obj_neigh_fdb_lookup lp key w
   }"

definition obj_neigh_fdb_insert :: "ptr \<Rightarrow> world \<Rightarrow> world option" where
  "obj_neigh_fdb_insert p w = do {
     n \<leftarrow> w_neighs w p;
     obj_assert_kind OBJ_KIND_NEIGH (on_obj n);
     lp \<leftarrow> on_link n;
     l \<leftarrow> w_links w lp;
     (t, ret) \<leftarrow> rb_insert_ptr (\<lambda>this. do { q \<leftarrow> w_neighs w this; Some (af_addr_cmp (on_addr n) (on_addr q)) })
       p (ol_fdb l);
     mod_link lp (\<lambda>l. l\<lparr>ol_fdb := t\<rparr>) w
   }"

fun notify_targets_loop :: "calls \<Rightarrow> nat \<Rightarrow> ptr option \<Rightarrow> world \<Rightarrow> world option" where
  "notify_targets_loop K fuel None w = Some w"
| "notify_targets_loop K 0 (Some p) w = None"
| "notify_targets_loop K (Suc fuel) (Some p) w = do {
     w \<leftarrow> obj_target_neigh_update K p w;
     t \<leftarrow> w_targets w p;
     notify_targets_loop K fuel (ot_n_next_target t) w
   }"

definition obj_neigh_notify_targets :: "calls \<Rightarrow> ptr \<Rightarrow> world \<Rightarrow> world option" where
  "obj_neigh_notify_targets K p w = do {
     n \<leftarrow> w_neighs w p;
     notify_targets_loop K (w_next w) (on_targets n) w
   }"

definition obj_neigh_link_update :: "calls \<Rightarrow> ptr \<Rightarrow> world \<Rightarrow> world option" where
  "obj_neigh_link_update K p w = do {
     n \<leftarrow> w_neighs w p;
     obj_assert_kind OBJ_KIND_NEIGH (on_obj n);
     obj_neigh_notify_targets K p w
   }"

definition set_neigh_state :: "ptr \<Rightarrow> obj_state \<Rightarrow> world \<Rightarrow> world option" where
  "set_neigh_state p st w = mod_neigh p (\<lambda>n. n\<lparr>on_obj := (on_obj n)\<lparr>oc_state := st\<rparr>\<rparr>) w"

definition obj_neigh_new :: "calls \<Rightarrow> ptr \<Rightarrow> world \<Rightarrow> world option" where
  "obj_neigh_new K p w = do {
     w \<leftarrow> obj_neigh_ref p w;
     w \<leftarrow> set_neigh_state p OBJ_STATE_INSTALLED w;
     w \<leftarrow> obj_neigh_fdb_insert p w;
     obj_neigh_unref K p w
   }"

definition obj_neigh_update :: "calls \<Rightarrow> ptr \<Rightarrow> world \<Rightarrow> world option" where
  "obj_neigh_update K p w = do {
     w \<leftarrow> obj_neigh_ref p w;
     w \<leftarrow> set_neigh_state p OBJ_STATE_INSTALLED w;
     w \<leftarrow> obj_neigh_notify_targets K p w;
     obj_neigh_unref K p w
   }"

definition obj_neigh_delete :: "calls \<Rightarrow> ptr \<Rightarrow> world \<Rightarrow> world option" where
  "obj_neigh_delete K p w = do {
     w \<leftarrow> set_neigh_state p OBJ_STATE_PRESENT w;
     n \<leftarrow> w_neighs w p;
     if obj_is_reapable (w_mode w) (on_obj n) then obj_neigh_reap K p w else Some w
   }"

definition obj_neigh_link_gone :: "calls \<Rightarrow> ptr \<Rightarrow> world \<Rightarrow> world option" where
  "obj_neigh_link_gone K p w = do {
     n \<leftarrow> w_neighs w p;
     obj_assert_kind OBJ_KIND_NEIGH (on_obj n);
     AN (on_link n \<noteq> None);
     w \<leftarrow> obj_neigh_unlink p w;
     obj_neigh_delete K p w
   }"

definition obj_neigh_alloc :: "world \<Rightarrow> ptr \<times> world" where
  "obj_neigh_alloc w =
     (let p = w_next w;
          n = \<lparr>on_obj = zero_obj_core\<lparr>oc_kind := OBJ_KIND_NEIGH\<rparr>, on_link = None,
               on_addr = zero_af_addr, on_lladdr = replicate 6 0, on_targets = None\<rparr> in
      (p, w\<lparr>w_neighs := (w_neighs w)(p := Some n), w_next := Suc p, w_neigh_cnt := w_neigh_cnt w + 1\<rparr>))"

section \<open>Links\<close>

text \<open>The loops over a link's forwarding table; reaping reads the next node first.\<close>

fun link_gone_loop :: "calls \<Rightarrow> nat \<Rightarrow> ptr \<Rightarrow> ptr option \<Rightarrow> world \<Rightarrow> world option" where
  "link_gone_loop K fuel lp None w = Some w"
| "link_gone_loop K 0 lp (Some p) w = None"
| "link_gone_loop K (Suc fuel) lp (Some p) w = do {
     l \<leftarrow> w_links w lp;
     nn \<leftarrow> rb_next p (ol_fdb l);
     w \<leftarrow> obj_neigh_link_gone K p w;
     link_gone_loop K fuel lp nn w
   }"

definition obj_link_reap :: "calls \<Rightarrow> ptr \<Rightarrow> world \<Rightarrow> world option" where
  "obj_link_reap K p w = do {
     l \<leftarrow> w_links w p;
     AN (oc_refcnt (ol_obj l) = 0);
     w \<leftarrow> mod_link p (\<lambda>l. l\<lparr>ol_obj := (ol_obj l)\<lparr>oc_state := OBJ_STATE_ZOMBIE\<rparr>, ol_ifname := None\<rparr>) w;
     w \<leftarrow> link_gone_loop K (w_next w) p (rb_first (ol_fdb l)) w;
     l \<leftarrow> w_links w p;
     AN (oc_weak_refcnt (ol_obj l) = 0);
     t \<leftarrow> rb_erase p (w_link_tree w);
     obj_free_ok (ol_obj l);
     AN (w_link_cnt w \<noteq> 0);
     Some (w\<lparr>w_link_tree := t, w_links := (w_links w)(p := None), w_link_cnt := w_link_cnt w - 1\<rparr>)
   }"

definition obj_link_unref :: "calls \<Rightarrow> ptr \<Rightarrow> world \<Rightarrow> world option" where
  "obj_link_unref K p w = do {
     l \<leftarrow> w_links w p;
     obj_assert_kind OBJ_KIND_LINK (ol_obj l);
     c \<leftarrow> obj_unref (ol_obj l);
     w \<leftarrow> mod_link p (\<lambda>l. l\<lparr>ol_obj := c\<rparr>) w;
     if obj_is_reapable (w_mode w) c then obj_link_reap K p w else Some w
   }"

text \<open>\<open>ifindex - this->ifindex\<close> as an \<open>int\<close>; the kernel's interface numbers are positive.\<close>

definition obj_link_lookup :: "u32 \<Rightarrow> world \<Rightarrow> ptr option option" where
  "obj_link_lookup ifindex w =
     rb_search_ptr (\<lambda>this. do { l \<leftarrow> w_links w this; Some (u32cmp ifindex (ol_ifindex l)) }) (w_link_tree w)"

definition obj_link_insert :: "ptr \<Rightarrow> world \<Rightarrow> world option" where
  "obj_link_insert p w = do {
     l \<leftarrow> w_links w p;
     obj_assert_kind OBJ_KIND_LINK (ol_obj l);
     (t, ret) \<leftarrow> rb_insert_ptr (\<lambda>this. do { q \<leftarrow> w_links w this; Some (u32cmp (ol_ifindex l) (ol_ifindex q)) })
       p (w_link_tree w);
     Some (w\<lparr>w_link_tree := t\<rparr>)
   }"

definition obj_link_new :: "ptr \<Rightarrow> world \<Rightarrow> world option" where
  "obj_link_new p w = do {
     w \<leftarrow> mod_link p (\<lambda>l. l\<lparr>ol_obj := (ol_obj l)\<lparr>oc_state := OBJ_STATE_INSTALLED\<rparr>\<rparr>) w;
     obj_link_insert p w
   }"

fun link_update_loop :: "calls \<Rightarrow> nat \<Rightarrow> ptr \<Rightarrow> ptr option \<Rightarrow> world \<Rightarrow> world option" where
  "link_update_loop K fuel lp None w = Some w"
| "link_update_loop K 0 lp (Some p) w = None"
| "link_update_loop K (Suc fuel) lp (Some p) w = do {
     n \<leftarrow> w_neighs w p;
     AN (on_link n = Some lp);
     w \<leftarrow> obj_neigh_link_update K p w;
     l \<leftarrow> w_links w lp;
     nn \<leftarrow> rb_next p (ol_fdb l);
     link_update_loop K fuel lp nn w
   }"

definition obj_link_update :: "calls \<Rightarrow> ptr \<Rightarrow> world \<Rightarrow> world option" where
  "obj_link_update K p w = do {
     l \<leftarrow> w_links w p;
     link_update_loop K (w_next w) p (rb_first (ol_fdb l)) w
   }"

definition obj_link_delete :: "calls \<Rightarrow> ptr \<Rightarrow> world \<Rightarrow> world option" where
  "obj_link_delete K p w = do {
     w \<leftarrow> mod_link p (\<lambda>l. l\<lparr>ol_obj := (ol_obj l)\<lparr>oc_state := OBJ_STATE_PRESENT\<rparr>\<rparr>) w;
     l \<leftarrow> w_links w p;
     if obj_is_reapable (w_mode w) (ol_obj l) then obj_link_reap K p w else Some w
   }"

definition RTM_NEWLINK :: u16 where "RTM_NEWLINK = 16"
definition RTM_DELLINK :: u16 where "RTM_DELLINK = 17"

definition obj_link_alloc :: "u32 \<Rightarrow> world \<Rightarrow> ptr \<times> world" where
  \<comment> \<open>the allocation in \<open>obj_link_netlink_update\<close>\<close>
  "obj_link_alloc ifindex w =
     (let p = w_next w;
          l = \<lparr>ol_obj = zero_obj_core\<lparr>oc_kind := OBJ_KIND_LINK\<rparr>, ol_ifindex = ifindex,
               ol_lower_ifindex = 0, ol_vlan_id = 0, ol_mtu = 0, ol_lladdr = replicate 6 0,
               ol_ifname = None, ol_fdb = Null\<rparr> in
      (p, w\<lparr>w_links := (w_links w)(p := Some l), w_next := Suc p, w_link_cnt := w_link_cnt w + 1\<rparr>))"

definition obj_link_netlink_update ::
  "calls \<Rightarrow> u16 \<Rightarrow> u32 \<Rightarrow> bytes option \<Rightarrow> u32 \<Rightarrow> u16 \<Rightarrow> u32 \<Rightarrow> string option \<Rightarrow> world \<Rightarrow> world option" where
  "obj_link_netlink_update K nltype ifindex lladdr lower_ifindex vlan_id mtu ifname w = do {
     found \<leftarrow> obj_link_lookup ifindex w;
     if nltype = RTM_DELLINK then
       (case found of None \<Rightarrow> Some w | Some p \<Rightarrow> obj_link_delete K p w)
     else do {
       let (p, w) = (case found of Some p \<Rightarrow> (p, w) | None \<Rightarrow> obj_link_alloc ifindex w);
       l \<leftarrow> w_links w p;
       obj_assert_kind OBJ_KIND_LINK (ol_obj l);
       AN (ol_ifindex l = ifindex);
       (lla, c1) \<leftarrow> lladdr_set (ol_lladdr l) lladdr;
       let (name, c2) = ifname_set (ol_ifname l) ifname;
       let c3 = (if ol_lower_ifindex l \<noteq> lower_ifindex then 1 else 0);
       let c4 = (if ol_mtu l \<noteq> mtu then 1 else 0);
       let c5 = (if ol_vlan_id l \<noteq> vlan_id then 1 else 0);
       w \<leftarrow> mod_link p (\<lambda>l. l\<lparr>ol_lladdr := lla, ol_ifname := name, ol_lower_ifindex := lower_ifindex,
              ol_mtu := mtu, ol_vlan_id := vlan_id\<rparr>) w;
       if found = None then obj_link_new p w
       else if c1 + c2 + c3 + c4 + c5 > (0 :: nat) then obj_link_update K p w
       else Some w
     }
   }"

section \<open>Neighbours of a link\<close>

definition RTM_NEWNEIGH :: u16 where "RTM_NEWNEIGH = 28"
definition RTM_DELNEIGH :: u16 where "RTM_DELNEIGH = 29"
definition RTM_GETNEIGH :: u16 where "RTM_GETNEIGH = 30"

definition obj_neigh_netlink_update ::
  "calls \<Rightarrow> u16 \<Rightarrow> u32 \<Rightarrow> u8 \<Rightarrow> bytes option \<Rightarrow> bytes option \<Rightarrow> world \<Rightarrow> world option" where
  "obj_neigh_netlink_update K nltype ifindex f addr lladdr w = do {
     l \<leftarrow> obj_link_lookup ifindex w;
     case l of
       None \<Rightarrow> Some w
     | Some lp \<Rightarrow> do {
         key \<leftarrow> build_af_addr f addr 0;
         found \<leftarrow> obj_neigh_fdb_lookup lp key w;
         if nltype = RTM_DELNEIGH then
           (case found of None \<Rightarrow> Some w | Some p \<Rightarrow> obj_neigh_delete K p w)
         else do {
           (p, w) \<leftarrow> (case found of
               Some p \<Rightarrow> Some (p, w)
             | None \<Rightarrow> do {
                 let (p, w) = obj_neigh_alloc w;
                 w \<leftarrow> obj_link_weak_ref lp w;
                 w \<leftarrow> mod_neigh p (\<lambda>n. n\<lparr>on_addr := key, on_link := Some lp\<rparr>) w;
                 Some (p, w)
               });
           n \<leftarrow> w_neighs w p;
           (lla, changes) \<leftarrow> lladdr_set (on_lladdr n) lladdr;
           w \<leftarrow> mod_neigh p (\<lambda>n. n\<lparr>on_lladdr := lla\<rparr>) w;
           if found = None then obj_neigh_new K p w
           else if changes > 0 then obj_neigh_update K p w
           else Some w
         }
       }
   }"

text \<open>
  \<open>obj_neigh_netlink_get\<close>, for the next hop of a route: an unknown neighbour is allocated, with
  a strong reference to its link, and is not entered in the link's table.
\<close>

definition obj_neigh_netlink_get :: "u32 \<Rightarrow> u8 \<Rightarrow> bytes option \<Rightarrow> world \<Rightarrow> (ptr option \<times> world) option" where
  "obj_neigh_netlink_get ifindex f addr w = do {
     l \<leftarrow> obj_link_lookup ifindex w;
     case l of
       None \<Rightarrow> Some (None, w)
     | Some lp \<Rightarrow> do {
         key \<leftarrow> build_af_addr f addr 0;
         found \<leftarrow> obj_neigh_fdb_lookup lp key w;
         case found of
           Some p \<Rightarrow> Some (Some p, w)
         | None \<Rightarrow> do {
             let (p, w) = obj_neigh_alloc w;
             w \<leftarrow> obj_link_ref lp w;
             w \<leftarrow> mod_neigh p (\<lambda>n. n\<lparr>on_addr := key, on_link := Some lp\<rparr>) w;
             Some (Some p, w)
           }
       }
   }"

end
