(* ===== verification/Daemon.thy ===== *)
theory Daemon
  imports Obj_Link
begin

text \<open>
  \<open>src/scan.c\<close>, \<open>src/nl_decode.c\<close>, \<open>src/nl_receive.c\<close> and \<open>src/main.c\<close>: the periodic scan of the
  kernel's tables, the decoding of its messages into operations on the objects, and the event
  loop that drives both. Here the calls \<open>K\<close> of the components are tied together.
\<close>

section \<open>The scan\<close>

definition scan_helpers :: "execute_fn list" where
  "scan_helpers = [Exec_scan_filters, Exec_scan_links, Exec_scan_neigh4, Exec_scan_neigh6,
     Exec_scan_route4, Exec_scan_route6]"

definition mod_scan :: "(scan \<Rightarrow> scan) \<Rightarrow> world \<Rightarrow> world" where
  "mod_scan f w = w\<lparr>w_scan := f (w_scan w)\<rparr>"

definition scan_filters :: "world \<Rightarrow> world option" where
  "scan_filters w = do {
     w \<leftarrow> filter_dump w;
     Some (mod_scan (\<lambda>s. s\<lparr>sc_state := SCAN_DUMP_CHAINS\<rparr>) w)
   }"

text \<open>
  \<open>advance_scan\<close> runs from state to state until a request is queued or the scan waits. No path
  takes more than five turns, so the fuel of eight is enough; \<open>pin_fuel\<close> bounds the passes of
  \<open>obj_rule_remove_pin\<close>. A pointer to the next chain is that chain's number. Opening the
  connection in \<open>SCAN_NEW\<close> is the operating system's; \<open>sc_conn\<close> is what it yields.
\<close>

fun advance_scan_loop :: "calls \<Rightarrow> nat \<Rightarrow> nat \<Rightarrow> world \<Rightarrow> world option" where
  "advance_scan_loop K pin_fuel 0 w = None"
| "advance_scan_loop K pin_fuel (Suc n) w =
     (case sc_state (w_scan w) of
        SCAN_NEW \<Rightarrow> do {
          w \<leftarrow> queue_init w;
          advance_scan_loop K pin_fuel n (mod_scan (\<lambda>s. s\<lparr>sc_state := SCAN_RUN_HELPERS\<rparr>) w)
        }
      | SCAN_RUN_HELPERS \<Rightarrow>
          (let i = sc_helper_idx (w_scan w) in
           if i < length scan_helpers then do {
             w \<leftarrow> queue_schedule K (scan_helpers ! i) (Some Done_advance_scan) w;
             Some (mod_scan (\<lambda>s. s\<lparr>sc_helper_idx := sc_helper_idx s + 1\<rparr>) w)
           } else
             advance_scan_loop K pin_fuel n
               (mod_scan (\<lambda>s. s\<lparr>sc_helper_idx := 0, sc_state := SCAN_DONE\<rparr>) w))
      | SCAN_DUMP_CHAINS \<Rightarrow>
          queue_schedule K Exec_scan_chains (Some Done_advance_scan)
            (mod_scan (\<lambda>s. s\<lparr>sc_state := SCAN_DUMP_EACH_CHAIN_INIT\<rparr>) w)
      | SCAN_DUMP_EACH_CHAIN_INIT \<Rightarrow>
          (let next = rb_first (map_rb ch_chain_no (w_chains w)) in
           advance_scan_loop K pin_fuel n
             (mod_scan (\<lambda>s. s\<lparr>sc_next_chain := next,
                sc_state := (if next = None then SCAN_RUN_HELPERS else SCAN_DUMP_EACH_CHAIN)\<rparr>) w))
      | SCAN_DUMP_EACH_CHAIN \<Rightarrow> do {
          no \<leftarrow> sc_next_chain (w_scan w);
          w \<leftarrow> queue_schedule K Exec_scan_chain (Some Done_advance_scan)
                 (mod_scan (\<lambda>s. s\<lparr>sc_q_chain_no := no\<rparr>) w);
          no \<leftarrow> sc_next_chain (w_scan w);
          next \<leftarrow> rb_next no (map_rb ch_chain_no (w_chains w));
          Some (mod_scan (\<lambda>s. s\<lparr>sc_next_chain := next,
                  sc_state := (if next = None then SCAN_RUN_HELPERS else sc_state s)\<rparr>) w)
        }
      | SCAN_DONE \<Rightarrow> do {
          w \<leftarrow> obj_rule_remove_pin K pin_fuel w;
          advance_scan_loop K pin_fuel n (mod_scan (\<lambda>s. s\<lparr>sc_state := SCAN_WAIT\<rparr>) w)
        }
      | SCAN_WAIT \<Rightarrow> do {
          w \<leftarrow> (if cfg_exit_after_first_sync (w_config w)
                then queue_schedule K Exec_scan_break None w else Some w);
          Some (mod_scan (\<lambda>s. s\<lparr>sc_timer := True\<rparr>) w)
        })"

definition advance_scan :: "calls \<Rightarrow> nat \<Rightarrow> world \<Rightarrow> world option" where
  "advance_scan K pin_fuel w = advance_scan_loop K pin_fuel 8 w"

definition scan_timeout_cb :: "calls \<Rightarrow> nat \<Rightarrow> world \<Rightarrow> world option" where
  "scan_timeout_cb K pin_fuel w = do {
     let w = mod_scan (\<lambda>s. s\<lparr>sc_timer := False\<rparr>) w;
     AN (sc_state (w_scan w) = SCAN_WAIT);
     advance_scan K pin_fuel (mod_scan (\<lambda>s. s\<lparr>sc_state := SCAN_RUN_HELPERS\<rparr>) w)
   }"

definition scan_init :: "calls \<Rightarrow> nat \<Rightarrow> conn \<Rightarrow> world \<Rightarrow> world option" where
  "scan_init K pin_fuel c w =
     advance_scan K pin_fuel (w\<lparr>w_scan := \<lparr>sc_state = SCAN_NEW, sc_helper_idx = 0,
       sc_next_chain = None, sc_q_chain_no = 0, sc_timer = False, sc_conn = c\<rparr>\<rparr>)"

section \<open>Function pointers and the recursive knot\<close>

definition execute :: "calls \<Rightarrow> execute_fn \<Rightarrow> world \<Rightarrow> world option" where
  "execute K f w =
     (case f of
        Exec_tc_action p \<Rightarrow> tc_action_execute obj_rule_pre_install (obj_rule_post_install K) p w
      | Exec_scan_filters \<Rightarrow> scan_filters w
      | Exec_scan_links \<Rightarrow> nl_dump_link w
      | Exec_scan_neigh4 \<Rightarrow> nl_dump_neigh AF_INET w
      | Exec_scan_neigh6 \<Rightarrow> nl_dump_neigh AF_INET6 w
      | Exec_scan_route4 \<Rightarrow> nl_dump_route AF_INET w
      | Exec_scan_route6 \<Rightarrow> nl_dump_route AF_INET6 w
      | Exec_scan_chains \<Rightarrow> filter_dump_chains w
      | Exec_scan_chain \<Rightarrow> filter_dump_chain (sc_q_chain_no (w_scan w)) w
      | Exec_scan_break \<Rightarrow> Some (w\<lparr>w_break := True\<rparr>))"

definition completed :: "calls \<Rightarrow> nat \<Rightarrow> completed_fn \<Rightarrow> nat \<Rightarrow> world \<Rightarrow> world option" where
  "completed K pin_fuel f nl_errno w =
     (case f of
        Done_tc_action p \<Rightarrow> tc_action_done p w
      | Done_advance_scan \<Rightarrow> advance_scan K pin_fuel w)"

text \<open>
  The daemon's calls to a depth of \<open>n\<close> re-entries. Out of depth is \<open>None\<close>, as a stack overflow
  would be; a result at some depth is the result at every greater one.
\<close>

fun calls :: "nat \<Rightarrow> call \<Rightarrow> world \<Rightarrow> world option" where
  "calls 0 c w = None"
| "calls (Suc n) c w =
     (case c of
        Call_queue_process_loop \<Rightarrow> queue_process_loop (calls n) w
      | Call_execute f \<Rightarrow> execute (calls n) f w
      | Call_completed f nl_errno \<Rightarrow> completed (calls n) n f nl_errno w
      | Call_target_notify_routes p \<Rightarrow> obj_target_notify_routes (calls n) p w
      | Call_route_unref p \<Rightarrow> obj_route_unref (calls n) p w)"

section \<open>Messages from the kernel\<close>

abbreviation (input) "IFLA_ADDRESS \<equiv> 1 :: nat"
abbreviation (input) "IFLA_IFNAME \<equiv> 3 :: nat"
abbreviation (input) "IFLA_MTU \<equiv> 4 :: nat"
abbreviation (input) "IFLA_LINK \<equiv> 5 :: nat"
abbreviation (input) "IFLA_LINKINFO \<equiv> 18 :: nat"
abbreviation (input) "IFLA_PROP_LIST \<equiv> 52 :: nat"
abbreviation (input) "IFLA_MAX \<equiv> 67 :: nat"
abbreviation (input) "IFLA_INFO_KIND \<equiv> 1 :: nat"
abbreviation (input) "IFLA_INFO_DATA \<equiv> 2 :: nat"
abbreviation (input) "IFLA_INFO_MAX \<equiv> 5 :: nat"
abbreviation (input) "IFLA_VLAN_ID \<equiv> 1 :: nat"
abbreviation (input) "IFLA_VLAN_FLAGS \<equiv> 2 :: nat"
abbreviation (input) "IFLA_VLAN_PROTOCOL \<equiv> 5 :: nat"
abbreviation (input) "IFLA_VLAN_MAX \<equiv> 5 :: nat"
abbreviation (input) "NDA_DST \<equiv> 1 :: nat"
abbreviation (input) "NDA_LLADDR \<equiv> 2 :: nat"
abbreviation (input) "NDA_CACHEINFO \<equiv> 3 :: nat"
abbreviation (input) "NDA_PROBES \<equiv> 4 :: nat"
abbreviation (input) "NDA_MAX \<equiv> 15 :: nat"
abbreviation (input) "RTA_DST \<equiv> 1 :: nat"
abbreviation (input) "RTA_SRC \<equiv> 2 :: nat"
abbreviation (input) "RTA_OIF \<equiv> 4 :: nat"
abbreviation (input) "RTA_GATEWAY \<equiv> 5 :: nat"
abbreviation (input) "RTA_PRIORITY \<equiv> 6 :: nat"
abbreviation (input) "RTA_PREFSRC \<equiv> 7 :: nat"
abbreviation (input) "RTA_METRICS \<equiv> 8 :: nat"
abbreviation (input) "RTA_MULTIPATH \<equiv> 9 :: nat"
abbreviation (input) "RTA_FLOW \<equiv> 11 :: nat"
abbreviation (input) "RTA_CACHEINFO \<equiv> 12 :: nat"
abbreviation (input) "RTA_TABLE \<equiv> 15 :: nat"
abbreviation (input) "RTAX_MAX \<equiv> 17 :: nat"

definition ARPHRD_ETHER :: u16 where "ARPHRD_ETHER = 1"

definition link_attr_types :: type_map where
  "link_attr_types = [(IFLA_ADDRESS, MNL_TYPE_BINARY), (IFLA_MTU, MNL_TYPE_U32),
     (IFLA_IFNAME, MNL_TYPE_NUL_STRING), (IFLA_LINK, MNL_TYPE_U32),
     (IFLA_LINKINFO, MNL_TYPE_NESTED), (IFLA_PROP_LIST, MNL_TYPE_NESTED)]"

definition link_info_attr_types :: type_map where
  "link_info_attr_types = [(IFLA_INFO_KIND, MNL_TYPE_NUL_STRING), (IFLA_INFO_DATA, MNL_TYPE_NESTED)]"

definition link_vlan_attr_types :: type_map where
  "link_vlan_attr_types = [(IFLA_VLAN_ID, MNL_TYPE_U16), (IFLA_VLAN_FLAGS, MNL_TYPE_BINARY),
     (IFLA_VLAN_PROTOCOL, MNL_TYPE_U16)]"

definition neigh_attr_types :: type_map where
  "neigh_attr_types = [(NDA_DST, MNL_TYPE_BINARY), (NDA_LLADDR, MNL_TYPE_BINARY),
     (NDA_CACHEINFO, MNL_TYPE_BINARY), (NDA_PROBES, MNL_TYPE_U32)]"

definition route4_attr_types :: type_map where
  "route4_attr_types = [(RTA_TABLE, MNL_TYPE_U32), (RTA_OIF, MNL_TYPE_U32), (RTA_FLOW, MNL_TYPE_U32),
     (RTA_PRIORITY, MNL_TYPE_U32), (RTA_DST, MNL_TYPE_U32), (RTA_SRC, MNL_TYPE_U32),
     (RTA_PREFSRC, MNL_TYPE_U32), (RTA_GATEWAY, MNL_TYPE_U32), (RTA_METRICS, MNL_TYPE_NESTED),
     (RTA_MULTIPATH, MNL_TYPE_BINARY)]"

definition route6_attr_types :: type_map where
  "route6_attr_types = [(RTA_TABLE, MNL_TYPE_U32), (RTA_OIF, MNL_TYPE_U32), (RTA_FLOW, MNL_TYPE_U32),
     (RTA_PRIORITY, MNL_TYPE_U32), (RTA_DST, MNL_TYPE_BINARY), (RTA_SRC, MNL_TYPE_BINARY),
     (RTA_PREFSRC, MNL_TYPE_BINARY), (RTA_GATEWAY, MNL_TYPE_BINARY), (RTA_METRICS, MNL_TYPE_NESTED),
     (RTA_MULTIPATH, MNL_TYPE_BINARY), (RTA_CACHEINFO, MNL_TYPE_BINARY)]"

text \<open>
  The headers of the message families. \<open>rt_nexthops\<close> is libmnl's reading of a multipath
  payload: the interface and the attributes of each next hop.
\<close>

record ifinfomsg =
  ifi_type :: u16
  ifi_index :: u32

record ndmsg =
  ndm_family :: u8
  ndm_ifindex :: u32

record rtmsg =
  rtm_family :: u8
  rtm_dst_len :: u8

datatype 'a nl_message =
    Msg_link u16 ifinfomsg "'a list"
  | Msg_neigh u16 ndmsg "'a list"
  | Msg_route u16 rtmsg "'a list"
  | Msg_qdisc "'a rx_msg"
  | Msg_chain "'a rx_msg"
  | Msg_filter "'a rx_msg"
  | Msg_other u16

definition get_u32_or_0 :: "'a libmnl \<Rightarrow> 'a option \<Rightarrow> u32 option" where
  "get_u32_or_0 L a = (case a of None \<Rightarrow> Some 0 | Some a \<Rightarrow> mnl_u32 L a)"

definition payload_opt :: "'a libmnl \<Rightarrow> 'a option \<Rightarrow> bytes option" where
  "payload_opt L a = map_option (mnl_bytes L) a"

definition decode_link ::
  "'a libmnl \<Rightarrow> calls \<Rightarrow> u16 \<Rightarrow> ifinfomsg \<Rightarrow> 'a list \<Rightarrow> world \<Rightarrow> (mnl_cb \<times> world) option" where
  "decode_link L K nltype ifi attrs w =
     (if ifi_type ifi \<noteq> ARPHRD_ETHER then Some (MNL_CB_OK, w)
      else do {
        (ret, tb) \<leftarrow> parse_table L IFLA_MAX link_attr_types attrs;
        if ret \<noteq> MNL_CB_OK then Some (ret, w) else do {
          lower_ifindex \<leftarrow> get_u32_or_0 L (tb IFLA_LINK);
          if lower_ifindex \<noteq> cfg_ifidx (w_config w) then Some (MNL_CB_OK, w) else do {
            let ifname = map_option (mnl_str L) (tb IFLA_IFNAME);
            let lladdr = payload_opt L (tb IFLA_ADDRESS);
            mtu \<leftarrow> get_u32_or_0 L (tb IFLA_MTU);
            (ret, tb_info) \<leftarrow> (case tb IFLA_LINKINFO of
                None \<Rightarrow> Some (MNL_CB_OK, Map.empty)
              | Some a \<Rightarrow> parse_table L IFLA_INFO_MAX link_info_attr_types (mnl_nested L a));
            if ret \<noteq> MNL_CB_OK then Some (ret, w) else do {
              let is_vlan = (case tb_info IFLA_INFO_KIND of
                  None \<Rightarrow> False | Some a \<Rightarrow> mnl_str L a = ''vlan'');
              (ret, tb_vlan) \<leftarrow> (if is_vlan then do {
                  a \<leftarrow> tb_info IFLA_INFO_DATA;
                  parse_table L IFLA_VLAN_MAX link_vlan_attr_types (mnl_nested L a)
                } else Some (MNL_CB_OK, Map.empty));
              if ret \<noteq> MNL_CB_OK then Some (ret, w) else do {
                vlan_id \<leftarrow> (case tb_vlan IFLA_VLAN_ID of None \<Rightarrow> Some 0 | Some a \<Rightarrow> mnl_u16 L a);
                w \<leftarrow> obj_link_netlink_update K nltype (ifi_index ifi) lladdr lower_ifindex vlan_id mtu ifname w;
                Some (MNL_CB_OK, w)
              }
            }
          }
        }
      })"

definition decode_neigh ::
  "'a libmnl \<Rightarrow> calls \<Rightarrow> u16 \<Rightarrow> ndmsg \<Rightarrow> 'a list \<Rightarrow> world \<Rightarrow> (mnl_cb \<times> world) option" where
  "decode_neigh L K nltype ndm attrs w = do {
     (ret, tb) \<leftarrow> parse_table L NDA_MAX neigh_attr_types attrs;
     if ret \<noteq> MNL_CB_OK then Some (ret, w) else do {
       w \<leftarrow> obj_neigh_netlink_update K nltype (ndm_ifindex ndm) (ndm_family ndm)
              (payload_opt L (tb NDA_DST)) (payload_opt L (tb NDA_LLADDR)) w;
       Some (MNL_CB_OK, w)
     }
   }"

text \<open>
  \<open>decode_multipath\<close> looks at the first next hop only: every path through the loop's body
  returns.
\<close>

definition decode_multipath ::
  "'a libmnl \<Rightarrow> ('a \<Rightarrow> (u32 \<times> 'a list) list) \<Rightarrow> 'a \<Rightarrow> u8 \<Rightarrow> type_map \<Rightarrow> world \<Rightarrow> (ptr option \<times> world) option" where
  "decode_multipath L rt_nexthops attr f types w =
     (case rt_nexthops attr of
        [] \<Rightarrow> Some (None, w)
      | (oif, attrs) # _ \<Rightarrow> do {
          (ret, tb) \<leftarrow> parse_table L RTAX_MAX types attrs;
          if ret \<noteq> MNL_CB_OK then Some (None, w) else do {
            gw \<leftarrow> tb RTA_GATEWAY;
            (n, w) \<leftarrow> obj_neigh_netlink_get oif f (Some (mnl_bytes L gw)) w;
            case n of
              None \<Rightarrow> Some (None, w)
            | Some np \<Rightarrow> do { (t, w) \<leftarrow> obj_target_get_unipath np w; Some (Some t, w) }
          }
        })"

definition decode_route ::
  "'a libmnl \<Rightarrow> ('a \<Rightarrow> (u32 \<times> 'a list) list) \<Rightarrow> calls \<Rightarrow> u16 \<Rightarrow> rtmsg \<Rightarrow> 'a list \<Rightarrow> world \<Rightarrow> (mnl_cb \<times> world) option" where
  "decode_route L rt_nexthops K nltype rm attrs w =
     (if rtm_family rm \<noteq> AF_INET \<and> rtm_family rm \<noteq> AF_INET6 then Some (MNL_CB_OK, w)
      else do {
        let types = (if rtm_family rm = AF_INET then route4_attr_types else route6_attr_types);
        (ret, tb) \<leftarrow> parse_table L RTAX_MAX types attrs;
        if ret \<noteq> MNL_CB_OK then Some (ret, w) else do {
          tab \<leftarrow> tb RTA_TABLE;
          table \<leftarrow> mnl_u32 L tab;
          if table \<noteq> cfg_table_id (w_config w) then Some (MNL_CB_OK, w)
          else case tb RTA_DST of
            None \<Rightarrow> Some (MNL_CB_OK, w)
          | Some dst \<Rightarrow> do {
              (t, w) \<leftarrow> (case (tb RTA_MULTIPATH, tb RTA_OIF, tb RTA_GATEWAY) of
                  (Some mp, _, _) \<Rightarrow> decode_multipath L rt_nexthops mp (rtm_family rm) types w
                | (None, Some oif, Some gw) \<Rightarrow> do {
                    oif \<leftarrow> mnl_u32 L oif;
                    (n, w) \<leftarrow> obj_neigh_netlink_get oif (rtm_family rm) (Some (mnl_bytes L gw)) w;
                    case n of
                      None \<Rightarrow> Some (None, w)
                    | Some np \<Rightarrow> do { (t, w) \<leftarrow> obj_target_get_unipath np w; Some (Some t, w) }
                  }
                | _ \<Rightarrow> Some (None, w));
              case t of
                None \<Rightarrow> Some (MNL_CB_OK, w)
              | Some tp \<Rightarrow> do {
                  addr \<leftarrow> build_af_addr (rtm_family rm) (Some (mnl_bytes L dst)) (rtm_dst_len rm);
                  w \<leftarrow> obj_route_netlink_update K nltype tp addr w;
                  Some (MNL_CB_OK, w)
                }
            }
        }
      })"

definition decode_filter :: "'a libmnl \<Rightarrow> calls \<Rightarrow> 'a rx_msg \<Rightarrow> world \<Rightarrow> (mnl_cb \<times> world) option" where
  "decode_filter L K m w = do {
     (ret, tdr) \<leftarrow> try_decode_filter L m;
     w \<leftarrow> (if ret = MNL_CB_OK \<and> tdr_is_done tdr
           then obj_rule_netlink_found K (rx_type m) (tdr_chain_no tdr) (tdr_prio tdr) (tdr_tcr tdr) w
           else Some w);
     Some (ret, w)
   }"

definition decode_nlmsg_cb ::
  "'a libmnl \<Rightarrow> ('a \<Rightarrow> (u32 \<times> 'a list) list) \<Rightarrow> calls \<Rightarrow> 'a nl_message \<Rightarrow> world \<Rightarrow> (mnl_cb \<times> world) option" where
  "decode_nlmsg_cb L rt_nexthops K m w =
     (case m of
        Msg_link t ifi as \<Rightarrow> decode_link L K t ifi as w
      | Msg_route t rm as \<Rightarrow> decode_route L rt_nexthops K t rm as w
      | Msg_neigh t ndm as \<Rightarrow> decode_neigh L K t ndm as w
      | Msg_qdisc m \<Rightarrow> do { (ret, _) \<leftarrow> decode_qdisc L (w_config w) m; Some (ret, w) }
      | Msg_chain m \<Rightarrow> do {
          (ret, no) \<leftarrow> decode_chain L (w_config w) m;
          w \<leftarrow> (case no of
              None \<Rightarrow> Some w
            | Some no \<Rightarrow> do { t \<leftarrow> filter_got_chain no (w_chains w); Some (w\<lparr>w_chains := t\<rparr>) });
          Some (ret, w)
        }
      | Msg_filter m \<Rightarrow> decode_filter L K m w
      | Msg_other t \<Rightarrow> Some (MNL_CB_OK, w))"

section \<open>The event loop\<close>

text \<open>
  What the event loop delivers: a message on either connection, the end of the kernel's answer
  to the outstanding request, or the scan's timer.
\<close>

datatype 'a event = Ev_message "'a nl_message" | Ev_complete nat | Ev_timeout

definition handle_event ::
  "'a libmnl \<Rightarrow> ('a \<Rightarrow> (u32 \<times> 'a list) list) \<Rightarrow> nat \<Rightarrow> 'a event \<Rightarrow> world \<Rightarrow> world option" where
  "handle_event L rt_nexthops n e w =
     (case e of
        Ev_message m \<Rightarrow> do { (_, w) \<leftarrow> decode_nlmsg_cb L rt_nexthops (calls n) m w; Some w }
      | Ev_complete nl_errno \<Rightarrow> queue_is_complete (calls n) nl_errno w
      | Ev_timeout \<Rightarrow> scan_timeout_cb (calls n) n w)"

definition initial_world :: "(u32 \<Rightarrow> bool) \<Rightarrow> config \<Rightarrow> world" where
  "initial_world send_ok cfg = \<lparr>w_config = cfg, w_mode = OBJ_MODE_NORMAL, w_links = Map.empty,
     w_neighs = Map.empty, w_targets = Map.empty, w_routes = Map.empty, w_rules = Map.empty,
     w_tcrs = Map.empty, w_actions = Map.empty, w_next = 1, w_link_tree = Null,
     w_route_tree = Null, w_pos_tree = Null, w_laf_tree = Null, w_link_cnt = 0, w_neigh_cnt = 0,
     w_target_cnt = 0, w_route_cnt = 0, w_rule_cnt = 0, w_pin_changes = 0, w_chains = Null,
     w_tacb_hooks = False, w_queue = empty_queue,
     w_scan = \<lparr>sc_state = SCAN_NEW, sc_helper_idx = 0, sc_next_chain = None, sc_q_chain_no = 0,
       sc_timer = False, sc_conn = \<lparr>conn_portid = 0, conn_seq = 0, conn_name = None\<rparr>\<rparr>,
     w_sent = [], w_break = False, w_send_ok = send_ok\<rparr>"

text \<open>\<open>main\<close> up to the event loop.\<close>

definition start ::
  "(u8 \<Rightarrow> string \<Rightarrow> bytes option) \<Rightarrow> nat \<Rightarrow> (u32 \<Rightarrow> bool) \<Rightarrow> config \<Rightarrow> conn \<Rightarrow> world option" where
  "start inet_pton n send_ok cfg c = do {
     w \<leftarrow> sched_init inet_pton (calls n) (initial_world send_ok cfg);
     w \<leftarrow> scan_init (calls n) n c w;
     Some (obj_rule_init w)
   }"

end
