(* ===== verification/Obj_Lemmas.thy ===== *)
theory Obj_Lemmas
  imports Obj_Core
begin

text \<open>
  Laws of the reference counts of \<open>src/obj.h\<close>, and the store: a pointer that has not been
  handed out yet is free in every map.
\<close>

section \<open>Reference counts\<close>

lemma word_plus_1_eq_0: "x + 1 = (0 :: u32) \<longleftrightarrow> x = - 1"
  by (metis add.commute eq_neg_iff_add_eq_0)

text \<open>Dropping the reference just taken gives the object back exactly when taking it counted: the
  counter must not be at its maximum, and a zombie without weak references must have no
  strong ones (\<open>obj_ref\<close> ignores such a zombie by its weak count, \<open>obj_unref\<close> by its strong
  count). A weak reference is always undone, short of the maximum.\<close>

theorem obj_ref_unref_law:
  "(obj_unref (obj_ref c) = Some c \<longleftrightarrow>
      (if oc_state c = OBJ_STATE_ZOMBIE \<and> oc_weak_refcnt c = 0 then oc_refcnt c = 0 else oc_refcnt c \<noteq> - 1))
   \<and> (obj_weak_unref (obj_weak_ref c) = Some c \<longleftrightarrow> oc_weak_refcnt c \<noteq> - 1)"
proof (rule conjI)
  show "obj_unref (obj_ref c) = Some c \<longleftrightarrow>
    (if oc_state c = OBJ_STATE_ZOMBIE \<and> oc_weak_refcnt c = 0 then oc_refcnt c = 0 else oc_refcnt c \<noteq> - 1)"
    by (cases c) (auto simp: obj_ref_def obj_unref_def word_plus_1_eq_0 word_gt_0)
  show "obj_weak_unref (obj_weak_ref c) = Some c \<longleftrightarrow> oc_weak_refcnt c \<noteq> - 1"
    by (cases c) (auto simp: obj_weak_ref_def obj_weak_unref_def word_plus_1_eq_0 word_gt_0)
qed

text \<open>Only an object without strong references is ever reaped, a zombie is never reaped again, and
  one that the kernel still holds is reaped only in the teardown mode; what \<open>_obj_free\<close> accepts
  is a zombie without references of either sort.\<close>

lemma obj_is_reapable_safe:
  "(obj_is_reapable mode c \<longleftrightarrow>
      oc_refcnt c = 0 \<and> (oc_state c = OBJ_STATE_PRESENT \<or> oc_state c = OBJ_STATE_INSTALLED \<and> mode = OBJ_MODE_TEARDOWN))
   \<and> (obj_free_ok c = Some () \<longleftrightarrow>
      oc_state c = OBJ_STATE_ZOMBIE \<and> oc_refcnt c = 0 \<and> oc_weak_refcnt c = 0 \<and> oc_kind c \<noteq> OBJ_KIND_UNKNOWN)"
  by (cases mode; cases "oc_state c") (auto simp: obj_is_reapable_def obj_free_ok_def AN_def)

section \<open>The store\<close>

definition fresh_ok :: "world \<Rightarrow> bool" where
  "fresh_ok w \<longleftrightarrow> (\<forall>p\<ge>w_next w. w_links w p = None \<and> w_neighs w p = None \<and> w_targets w p = None
     \<and> w_routes w p = None \<and> w_rules w p = None \<and> w_tcrs w p = None \<and> w_actions w p = None)"

lemma fresh_okD:
  assumes "fresh_ok w" "p \<ge> w_next w"
  shows "w_links w p = None" "w_neighs w p = None" "w_targets w p = None" "w_routes w p = None"
    "w_rules w p = None" "w_tcrs w p = None" "w_actions w p = None"
  using assms by (auto simp: fresh_ok_def)

lemma mod_SomeD:
  "mod_link p f w = Some w' \<Longrightarrow> \<exists>x. w_links w p = Some x \<and> w' = w\<lparr>w_links := (w_links w)(p \<mapsto> f x)\<rparr>"
  "mod_neigh p g w = Some w' \<Longrightarrow> \<exists>x. w_neighs w p = Some x \<and> w' = w\<lparr>w_neighs := (w_neighs w)(p \<mapsto> g x)\<rparr>"
  "mod_target p h w = Some w' \<Longrightarrow> \<exists>x. w_targets w p = Some x \<and> w' = w\<lparr>w_targets := (w_targets w)(p \<mapsto> h x)\<rparr>"
  "mod_route p i w = Some w' \<Longrightarrow> \<exists>x. w_routes w p = Some x \<and> w' = w\<lparr>w_routes := (w_routes w)(p \<mapsto> i x)\<rparr>"
  "mod_rule p j w = Some w' \<Longrightarrow> \<exists>x. w_rules w p = Some x \<and> w' = w\<lparr>w_rules := (w_rules w)(p \<mapsto> j x)\<rparr>"
  by (auto simp: mod_link_def mod_neigh_def mod_target_def mod_route_def mod_rule_def elim!: bind_SomeE)

lemma mod_eq_Some:
  "w_rules w p = Some r \<Longrightarrow> mod_rule p j w = Some (w\<lparr>w_rules := (w_rules w)(p \<mapsto> j r)\<rparr>)"
  "w_links w p = Some l \<Longrightarrow> mod_link p f w = Some (w\<lparr>w_links := (w_links w)(p \<mapsto> f l)\<rparr>)"
  "w_neighs w p = Some n \<Longrightarrow> mod_neigh p g w = Some (w\<lparr>w_neighs := (w_neighs w)(p \<mapsto> g n)\<rparr>)"
  by (simp_all add: mod_rule_def mod_link_def mod_neigh_def)

end
