(* ===== verification/Rule_Props.thy ===== *)
theory Rule_Props
  imports Daemon Obj_Lemmas RB_Props
begin

text \<open>
  Correctness of the rule tables of \<open>src/obj_rule.c\<close>: the positional tree is a finite map from
  chain and priority to rules, the free priority found for a new rule is free, static rules
  are entered once, and a rule's state follows from what is wanted and what is there.
\<close>

section \<open>The positional tree as a finite map\<close>

definition pos_keys :: "(u32 \<times> u16) set" where
  "pos_keys = {k. fst k < 0x80000000}"

lemma pos_cmp_small:
  assumes "k \<in> pos_keys" "l \<in> pos_keys"
  shows "pos_cmp k l = (if fst k = fst l then uint (snd k) - uint (snd l) else uint (fst k) - uint (fst l))"
  using assms by (auto simp: pos_cmp_def pos_keys_def u32cmp_small u16cmp_def Let_def word_uint_eq_iff)

lemma pos_cmp_less:
  "k \<in> pos_keys \<Longrightarrow> l \<in> pos_keys \<Longrightarrow>
   pos_cmp k l < 0 \<longleftrightarrow> fst k < fst l \<or> fst k = fst l \<and> snd k < snd l"
  by (auto simp: pos_cmp_small word_less_def word_uint_eq_iff)

interpretation pos_order: key_order pos_cmp pos_keys
  by unfold_locales
    (auto simp: pos_cmp_small word_less_def word_uint_eq_iff prod_eq_iff split: if_splits)

definition rule_pos :: "world \<Rightarrow> ptr \<Rightarrow> u32 \<times> u16" where
  "rule_pos w p = (case w_rules w p of None \<Rightarrow> (0, 0) | Some r \<Rightarrow> (oru_chain_no r, oru_prio r))"

interpretation pos: rb_index pos_cmp pos_keys "rule_pos w" for w ..

definition pos_ok :: "world \<Rightarrow> bool" where
  "pos_ok w \<longleftrightarrow> index_ok pos_cmp pos_keys (rule_pos w) (w_pos_tree w)
     \<and> (\<forall>p\<in>set (rb_inorder (w_pos_tree w)). w_rules w p \<noteq> None)"

definition rule_at :: "world \<Rightarrow> u32 \<times> u16 \<Rightarrow> ptr option" where
  "rule_at w = index_map (rule_pos w) (w_pos_tree w)"

lemma rule_pos_eq [simp]: "w_rules w p = Some r \<Longrightarrow> rule_pos w p = (oru_chain_no r, oru_prio r)"
  by (simp add: rule_pos_def)

lemma obj_rule_pos_lookup_eq:
  assumes "pos_ok w" "(chain_no, prio) \<in> pos_keys"
  shows "obj_rule_pos_lookup chain_no prio w = Some (rule_at w (chain_no, prio))"
proof -
  have "obj_rule_pos_lookup chain_no prio w
    = Some (rb_search (\<lambda>p. pos_cmp (chain_no, prio) (rule_pos w p)) (w_pos_tree w))"
    unfolding obj_rule_pos_lookup_def using assms(1)
    by (intro rb_search_ptr_eq) (auto simp: pos_ok_def)
  also have "\<dots> = Some (rule_at w (chain_no, prio))"
    using assms pos.lookup_abs [of w "w_pos_tree w" "(chain_no, prio)"] by (simp add: pos_ok_def rule_at_def)
  finally show ?thesis .
qed

lemma index_ok_cong:
  "(\<And>p. p \<in> set (rb_inorder t) \<Longrightarrow> f p = g p) \<Longrightarrow> index_ok cmp ks f t = index_ok cmp ks g t"
  by (auto simp: index_ok_def sorted_wrt_iff_nth_less image_subset_iff)

lemma index_map_cong:
  "(\<And>p. p \<in> set (rb_inorder t) \<Longrightarrow> f p = g p) \<Longrightarrow> index_map f t = index_map g t"
  by (simp add: index_map_def cong: map_cong)

text \<open>Entering a rule at a free position.\<close>

lemma obj_rule_pos_insert_new:
  assumes ok: "pos_ok w" and r: "w_rules w p = Some r" "\<not> oru_have_pos r"
    and k: "(oru_chain_no r, oru_prio r) \<in> pos_keys" and new: "rule_at w (oru_chain_no r, oru_prio r) = None"
  obtains t where "obj_rule_pos_insert p w
      = Some (w\<lparr>w_pos_tree := t, w_rules := (w_rules w)(p \<mapsto> r\<lparr>oru_have_pos := True\<rparr>)\<rparr>)"
    "pos_ok (w\<lparr>w_pos_tree := t, w_rules := (w_rules w)(p \<mapsto> r\<lparr>oru_have_pos := True\<rparr>)\<rparr>)"
    "rule_at (w\<lparr>w_pos_tree := t, w_rules := (w_rules w)(p \<mapsto> r\<lparr>oru_have_pos := True\<rparr>)\<rparr>)
      = (rule_at w)((oru_chain_no r, oru_prio r) \<mapsto> p)"
proof -
  let ?w = "\<lambda>t. w\<lparr>w_pos_tree := t, w_rules := (w_rules w)(p \<mapsto> r\<lparr>oru_have_pos := True\<rparr>)\<rparr>"
  have idx: "index_ok pos_cmp pos_keys (rule_pos w) (w_pos_tree w)" using ok by (simp add: pos_ok_def)
  have kp: "rule_pos w p \<in> pos_keys" "index_map (rule_pos w) (w_pos_tree w) (rule_pos w p) = None"
    using r k new by (simp_all add: rule_at_def)
  obtain t xs ys where t: "rb_insert (\<lambda>q. pos_cmp (rule_pos w p) (rule_pos w q)) p (w_pos_tree w) = Some (t, True)"
    "index_ok pos_cmp pos_keys (rule_pos w) t" "rb_inorder (w_pos_tree w) = xs @ ys" "rb_inorder t = xs @ p # ys"
    using idx kp by (rule pos.insert_fresh)
  have "obj_rule_pos_insert p w = Some (?w t)"
  proof -
    have "rb_insert_ptr (\<lambda>this. do { q \<leftarrow> w_rules w this; Some (pos_cmp (oru_chain_no r, oru_prio r) (oru_chain_no q, oru_prio q)) })
      p (w_pos_tree w) = Some (t, True)"
      using t(1) ok r by (subst rb_insert_ptr_eq [where g = "\<lambda>q. pos_cmp (rule_pos w p) (rule_pos w q)"])
        (auto simp: pos_ok_def)
    with r show ?thesis by (simp add: obj_rule_pos_insert_def mod_rule_def)
  qed
  moreover have pos: "rule_pos (?w t) q = rule_pos w q" for q using r by (auto simp: rule_pos_def)
  moreover have "pos_ok (?w t)"
    using t ok by (auto simp: pos_ok_def index_ok_cong [OF pos])
  moreover have "rule_at (?w t) = (rule_at w)((oru_chain_no r, oru_prio r) \<mapsto> p)"
  proof -
    have "rule_at (?w t) = index_map (rule_pos w) t"
      by (simp add: rule_at_def index_map_cong [OF pos])
    also have "\<dots> = (index_map (rule_pos w) (w_pos_tree w))(rule_pos w p \<mapsto> p)"
      using pos.insert_new [OF idx kp] t(1) by auto
    finally show ?thesis using r by (simp add: rule_at_def)
  qed
  ultimately show thesis by (intro that)
qed


section \<open>The free priority\<close>

lemma rule_positions_eq:
  "\<forall>p\<in>set ps. w_rules w p \<noteq> None \<Longrightarrow> rule_positions w ps = Some (map (rule_pos w) ps)"
  by (induction ps) auto

lemma prio_succ: "(p :: u16) < q \<Longrightarrow> p + 1 \<le> q" "(p :: u16) < 65535 \<Longrightarrow> p < p + 1"
  by (auto simp: inc_le word_less_nat_alt unat_word_ariths)

abbreviation pos_less :: "u32 \<times> u16 \<Rightarrow> u32 \<times> u16 \<Rightarrow> bool" where
  "pos_less k l \<equiv> fst k < fst l \<or> fst k = fst l \<and> snd k < snd l"

text \<open>The loop passes the rules of the chain whose priorities it has counted past.\<close>

lemma find_prio_loop_fresh:
  "sorted_wrt pos_less rs \<Longrightarrow> \<forall>q. (c, q) \<in> set rs \<longrightarrow> ret \<le> q \<and> q < 65535 \<Longrightarrow>
   (let r = find_prio_loop c m ret rs; no = (if r < m then m else r) in
      ret \<le> r \<and> (c, no) \<notin> set rs)"
proof (induction c m ret rs rule: find_prio_loop.induct)
  case (2 chain m ret c p rs)
  show ?case
  proof (cases "c = chain")
    case False
    have "(chain, q) \<notin> set rs" if "c > chain" for q using 2(4) that by auto
    with False 2 show ?thesis by (auto simp: Let_def not_less)
  next
    case True
    have gt: "\<forall>q. (chain, q) \<in> set rs \<longrightarrow> p + 1 \<le> q \<and> q < 65535"
      using 2(4,5) True prio_succ(1) by auto
    have p: "ret \<le> p" "p < p + 1" using 2(5) True prio_succ(2) by auto
    consider (low) "ret = 0 \<and> p > m" | (step) "\<not> (ret = 0 \<and> p > m)" "p = ret \<or> ret < m"
      | (stop) "\<not> (ret = 0 \<and> p > m)" "p \<noteq> ret" "ret \<ge> m" by (metis not_less)
    then show ?thesis
    proof cases
      case low
      have "q > m" if "(chain, q) \<in> set rs" for q
        using gt that low p(2) by (meson order.strict_trans order.strict_trans2)
      moreover have "(if 0 < m then m else 0) = m" by (simp add: word_gt_0)
      ultimately show ?thesis using low True by (auto simp: Let_def)
    next
      case step
      have s: "sorted_wrt pos_less rs" using 2(4) by simp
      have "\<not> c < chain" "\<not> c > chain" using True by auto
      note IH = 2(2) [OF this step(1) step(2) s gt]
      let ?r = "find_prio_loop chain m (p + 1) rs"
      have r: "p + 1 \<le> ?r" "(chain, if ?r < m then m else ?r) \<notin> set rs" using IH by (simp_all add: Let_def)
      have ne: "(if ?r < m then m else ?r) \<noteq> p" using r(1) p(2) by (auto simp: not_less)
      have "find_prio_loop chain m ret ((c, p) # rs) = ?r" using step True by auto
      moreover have "ret \<le> ?r" using r(1) p by (meson order.trans order.strict_implies_order)
      ultimately show ?thesis using r(2) ne True by (simp add: Let_def)
    next
      case stop
      have "q \<noteq> ret" if "(chain, q) \<in> set rs" for q
        using gt that p by (metis leD order.strict_trans1)
      with stop True show ?thesis by (auto simp: Let_def not_less)
    qed
  qed
qed (simp add: Let_def)

lemma available_prio_fresh:
  assumes ok: "pos_ok w" and small: "chain_no < 0x80000000"
    and last: "\<forall>prio p. rule_at w (chain_no, prio) = Some p \<longrightarrow> prio < 65535"
  shows "\<exists>prio. obj_rule_find_available_prio chain_no min_prio w = Some prio
    \<and> min_prio \<le> prio \<and> rule_at w (chain_no, prio) = None"
proof -
  let ?ps = "rb_inorder (w_pos_tree w)"
  let ?rs = "map (rule_pos w) ?ps"
  let ?r = "find_prio_loop chain_no min_prio 0 ?rs"
  let ?no = "if ?r < min_prio then min_prio else ?r"
  have idx: "index_ok pos_cmp pos_keys (rule_pos w) (w_pos_tree w)" using ok by (simp add: pos_ok_def)
  then have ks: "rule_pos w ` set ?ps \<subseteq> pos_keys" by (simp add: index_ok_def)
  have "sorted_wrt (\<lambda>p q. pos_less (rule_pos w p) (rule_pos w q)) ?ps"
    using idx ks unfolding index_ok_def
    by (auto intro!: sorted_wrt_mono_rel [of ?ps "\<lambda>p q. pos_cmp (rule_pos w p) (rule_pos w q) < 0"]
        simp: pos_cmp_less image_subset_iff)
  then have srt: "sorted_wrt pos_less ?rs" by (simp add: sorted_wrt_map)
  have at: "(chain_no, q) \<in> set ?rs \<longleftrightarrow> rule_at w (chain_no, q) \<noteq> None" for q
    by (auto simp: rule_at_def pos.index_map_eq_None image_iff)
  have "\<forall>q. (chain_no, q) \<in> set ?rs \<longrightarrow> 0 \<le> q \<and> q < 65535" using at last by auto
  from find_prio_loop_fresh [OF srt this, of min_prio] at
  have "rule_at w (chain_no, ?no) = None" by (simp add: Let_def)
  moreover have "obj_rule_find_available_prio chain_no min_prio w = Some ?no"
    using ok rule_positions_eq [of ?ps w] by (simp add: obj_rule_find_available_prio_def pos_ok_def Let_def)
  moreover have "min_prio \<le> ?no" by (simp add: not_less)
  ultimately show ?thesis by blast
qed

lemma find_prio_loop_bound:
  "\<forall>q. (c, q) \<in> set rs \<longrightarrow> unat q < b \<Longrightarrow> unat ret \<le> b \<Longrightarrow> b < 65536 \<Longrightarrow> unat (find_prio_loop c m ret rs) \<le> b"
proof (induction c m ret rs rule: find_prio_loop.induct)
  case (2 chain m ret c p rs)
  have "unat (p + 1) \<le> b" if "c = chain"
    using 2(4,6) that by (auto simp: unat_word_ariths)
  with 2 show ?case by auto
qed simp

lemma available_prio_bound:
  assumes "pos_ok w" "\<forall>q. rule_at w (c, q) \<noteq> None \<longrightarrow> unat q < b" "unat m \<le> b" "b < 65536"
    "obj_rule_find_available_prio c m w = Some prio"
  shows "unat prio \<le> b"
proof -
  let ?ps = "rb_inorder (w_pos_tree w)"
  have "(c, q) \<in> set (map (rule_pos w) ?ps) \<longleftrightarrow> rule_at w (c, q) \<noteq> None" for q
    by (auto simp: rule_at_def pos.index_map_eq_None image_iff)
  with assms(2) have "\<forall>q. (c, q) \<in> set (map (rule_pos w) ?ps) \<longrightarrow> unat q < b" by simp
  from find_prio_loop_bound [OF this, of 0 m] assms(3-5) rule_positions_eq [of ?ps w] assms(1)
  show ?thesis by (auto simp: obj_rule_find_available_prio_def pos_ok_def Let_def split: if_splits)
qed

text \<open>The priority found for a new rule of a chain is not below the minimum, no rule of that chain
  has it, and it is at most the first number above both the minimum and the priorities of the chain,
  so long as no rule of the chain has the last priority.\<close>

theorem obj_rule_find_available_prio_correct:
  assumes "pos_ok w" and "chain_no < 0x80000000"
    and "\<forall>prio p. rule_at w (chain_no, prio) = Some p \<longrightarrow> prio < 65535"
  shows "\<exists>prio. obj_rule_find_available_prio chain_no min_prio w = Some prio
    \<and> min_prio \<le> prio \<and> rule_at w (chain_no, prio) = None
    \<and> (\<forall>b<65536. unat min_prio \<le> b \<longrightarrow> (\<forall>q. rule_at w (chain_no, q) \<noteq> None \<longrightarrow> unat q < b) \<longrightarrow> unat prio \<le> b)"
  using available_prio_fresh [OF assms] available_prio_bound [OF assms(1)] by metis

section \<open>Ownership of the copies\<close>

text \<open>
  A slot is a pointer variable that owns what it points to: every pointer is valid and no two
  slots share one. Storing a new copy in a slot, after freeing the old one, keeps this and
  changes what that slot holds and nothing else.
\<close>

definition owned :: "('x \<Rightarrow> ptr option) \<Rightarrow> (ptr \<Rightarrow> 'v option) \<Rightarrow> bool" where
  "owned S T \<longleftrightarrow> (\<forall>x h. S x = Some h \<longrightarrow> T h \<noteq> None) \<and> (\<forall>x y h. S x = Some h \<and> S y = Some h \<longrightarrow> x = y)"

definition free_slot :: "ptr option \<Rightarrow> (ptr \<Rightarrow> 'v option) \<Rightarrow> ptr \<Rightarrow> 'v option" where
  "free_slot h T = (case h of None \<Rightarrow> T | Some h \<Rightarrow> T(h := None))"

lemma owned_store:
  assumes "owned S T" "T h = None"
  shows "owned (S(x \<mapsto> h)) ((free_slot (S x) T)(h \<mapsto> t))"
    and "((S(x \<mapsto> h)) y \<bind> ((free_slot (S x) T)(h \<mapsto> t))) = (if y = x then Some t else S y \<bind> T)"
proof -
  have valid: "S y = Some g \<Longrightarrow> T g \<noteq> None \<and> g \<noteq> h" and uniq: "S y = Some g \<Longrightarrow> S z = Some g \<Longrightarrow> y = z" for y z g
    using assms unfolding owned_def by (metis, metis)
  show "owned (S(x \<mapsto> h)) ((free_slot (S x) T)(h \<mapsto> t))"
    unfolding owned_def using valid uniq
    by (auto simp: free_slot_def split: option.splits if_splits)
  show "((S(x \<mapsto> h)) y \<bind> ((free_slot (S x) T)(h \<mapsto> t))) = (if y = x then Some t else S y \<bind> T)"
    using valid uniq by (cases "S y") (auto simp: free_slot_def split: option.splits)
qed

lemma owned_clear:
  assumes "owned S T"
  shows "owned (S(x := None)) (free_slot (S x) T)"
    and "((S(x := None)) y \<bind> free_slot (S x) T) = (if y = x then None else S y \<bind> T)"
proof -
  have uniq: "S y = Some g \<Longrightarrow> S z = Some g \<Longrightarrow> y = z" and valid: "S y = Some g \<Longrightarrow> T g \<noteq> None" for y z g
    using assms by (auto simp: owned_def)
  show "owned (S(x := None)) (free_slot (S x) T)"
    unfolding owned_def using valid uniq
    by (auto simp: free_slot_def split: option.splits if_splits)
  show "((S(x := None)) y \<bind> free_slot (S x) T) = (if y = x then None else S y \<bind> T)"
    using uniq by (cases "S y") (auto simp: free_slot_def split: option.splits)
qed

section \<open>What is there and what is wanted\<close>

datatype slot = Have | Want

fun slot_of :: "obj_rule \<Rightarrow> slot \<Rightarrow> ptr option" where
  "slot_of r Have = oru_have r"
| "slot_of r Want = oru_want r"

definition slots :: "world \<Rightarrow> ptr \<times> slot \<Rightarrow> ptr option" where
  "slots w x = do { r \<leftarrow> w_rules w (fst x); slot_of r (snd x) }"

text \<open>
  The rule table as a whole. Until the first pin is removed the lost and found tree only holds
  rules that were found.
\<close>

definition laf_ok :: "world \<Rightarrow> bool" where
  "laf_ok w \<longleftrightarrow> rbt_ok (w_laf_tree w) \<and> set (rb_inorder (w_laf_tree w)) \<subseteq> set (rb_inorder (w_pos_tree w))
     \<and> (\<forall>p\<in>set (rb_inorder (w_laf_tree w)). slots w (p, Have) \<noteq> None)"

definition rules_ok :: "world \<Rightarrow> bool" where
  "rules_ok w \<longleftrightarrow> pos_ok w \<and> fresh_ok w \<and> owned (slots w) (w_tcrs w) \<and> laf_ok w
     \<and> (\<forall>h t. w_tcrs w h = Some t \<longrightarrow> wf_tc_rule t)"

text \<open>The abstraction: by position, the rule the kernel has and the rule the daemon wants.\<close>

definition table :: "slot \<Rightarrow> world \<Rightarrow> u32 \<times> u16 \<Rightarrow> tc_rule option" where
  "table b w k = do { p \<leftarrow> rule_at w k; h \<leftarrow> slots w (p, b); w_tcrs w h }"

abbreviation present :: "world \<Rightarrow> u32 \<times> u16 \<Rightarrow> tc_rule option" where
  "present \<equiv> table Have"

abbreviation wanted :: "world \<Rightarrow> u32 \<times> u16 \<Rightarrow> tc_rule option" where
  "wanted \<equiv> table Want"

lemma rule_at_eq_Some:
  "pos_ok w \<Longrightarrow> rule_at w k = Some p \<longleftrightarrow> p \<in> set (rb_inorder (w_pos_tree w)) \<and> rule_pos w p = k"
  by (simp add: rule_at_def pos.index_map_eq_Some pos_ok_def)

lemma rule_at_Some:
  assumes "pos_ok w" "rule_at w k = Some p"
  shows "k \<in> pos_keys" "\<exists>r. w_rules w p = Some r \<and> k = (oru_chain_no r, oru_prio r)"
proof -
  have "rule_pos w p = k" "p \<in> set (rb_inorder (w_pos_tree w))"
    using assms by (simp_all add: rule_at_eq_Some)
  with assms show "k \<in> pos_keys" "\<exists>r. w_rules w p = Some r \<and> k = (oru_chain_no r, oru_prio r)"
    by (auto simp: pos_ok_def index_ok_def)
qed

lemma rule_at_inj: "pos_ok w \<Longrightarrow> rule_at w k = Some p \<Longrightarrow> rule_at w l = Some p \<Longrightarrow> k = l"
  by (simp add: rule_at_eq_Some)

lemma table_None: "rule_at w k = None \<Longrightarrow> table b w k = None"
  by (simp add: table_def)

text \<open>A lookup by content ends, and finds only rules that are also in the positional tree.\<close>

lemma obj_rule_have_tcr_eq: "obj_rule_have_tcr p w = do { h \<leftarrow> slots w (p, Have); w_tcrs w h }"
  by (simp add: obj_rule_have_tcr_def slots_def)

lemma rb_search_in: "rb_search f t = Some p \<Longrightarrow> p \<in> set (rb_inorder t)"
  by (induction t) (auto split: if_splits)

lemma laf_have:
  assumes "rules_ok w" "p \<in> set (rb_inorder (w_laf_tree w))"
  shows "\<exists>t. obj_rule_have_tcr p w = Some t"
  using assms by (fastforce simp: rules_ok_def laf_ok_def owned_def obj_rule_have_tcr_eq)

lemma laf_lookup_total:
  assumes "rules_ok w"
  shows "\<exists>x. obj_rule_laf_lookup tcr w = Some x \<and> (\<forall>p. x = Some p \<longrightarrow> p \<in> set (rb_inorder (w_pos_tree w)))"
proof -
  let ?f = "\<lambda>p. tc_rule_cmp tcr (the (obj_rule_have_tcr p w))"
  have "obj_rule_laf_lookup tcr w = Some (rb_search ?f (w_laf_tree w))"
    unfolding obj_rule_laf_lookup_def
    by (intro rb_search_ptr_eq) (use laf_have [OF assms] in fastforce)
  moreover have "set (rb_inorder (w_laf_tree w)) \<subseteq> set (rb_inorder (w_pos_tree w))"
    using assms by (simp add: rules_ok_def laf_ok_def)
  ultimately show ?thesis using rb_search_in by fastforce
qed


section \<open>Entering a new rule\<close>

text \<open>A rule that so far is only in the store, with its one copy, changes no table.\<close>

text \<open>What the network side of the daemon's state has to do with the tables of rules: nothing.\<close>

definition same_net :: "world \<Rightarrow> world \<Rightarrow> bool" where
  "same_net w w' \<longleftrightarrow> w_queue w' = w_queue w \<and> w_sent w' = w_sent w \<and> w_send_ok w' = w_send_ok w \<and> w_config w' = w_config w"

lemma same_net_refl [simp]: "same_net w w"
  by (simp add: same_net_def)

lemma same_net_trans: "same_net u v \<Longrightarrow> same_net v w \<Longrightarrow> same_net u w"
  by (simp add: same_net_def)

lemma same_net_config: "same_net w w' \<Longrightarrow> w_config w' = w_config w"
  by (simp add: same_net_def)

definition with_rule :: "obj_rule \<Rightarrow> tc_rule \<Rightarrow> world \<Rightarrow> world" where
  "with_rule r t w = w\<lparr>w_rule_cnt := w_rule_cnt w + 1,
     w_tcrs := (w_tcrs w)(Suc (w_next w) \<mapsto> t), w_next := Suc (Suc (w_next w)),
     w_rules := (w_rules w)(w_next w \<mapsto> r)\<rparr>"

lemma with_rule_sel [simp]:
  "w_pin_changes (with_rule r t w) = w_pin_changes w" "w_laf_tree (with_rule r t w) = w_laf_tree w"
  "w_pos_tree (with_rule r t w) = w_pos_tree w" "w_rules (with_rule r t w) = (w_rules w)(w_next w \<mapsto> r)"
  "w_tcrs (with_rule r t w) = (w_tcrs w)(Suc (w_next w) \<mapsto> t)"
  by (simp_all add: with_rule_def)

lemma with_rule_pos:
  assumes "pos_ok w" "fresh_ok w"
  shows "pos_ok (with_rule r t w)" "rule_at (with_rule r t w) = rule_at w"
    "w_next w \<notin> set (rb_inorder (w_pos_tree w))"
proof -
  show np: "w_next w \<notin> set (rb_inorder (w_pos_tree w))"
    using assms fresh_okD(5) [of w "w_next w"] by (auto simp: pos_ok_def)
  then have eq: "rule_pos (with_rule r t w) q = rule_pos w q" if "q \<in> set (rb_inorder (w_pos_tree w))" for q
    using that by (auto simp: rule_pos_def)
  with assms np show "pos_ok (with_rule r t w)" "rule_at (with_rule r t w) = rule_at w"
    by (auto simp: pos_ok_def rule_at_def index_ok_cong [OF eq] index_map_cong [OF eq])
qed

lemma slots_with_rule:
  assumes "fresh_ok w" "slot_of r b = Some (Suc (w_next w))" "\<And>c. c \<noteq> b \<Longrightarrow> slot_of r c = None"
  shows "slots (with_rule r t w) = (slots w)((w_next w, b) \<mapsto> Suc (w_next w))"
proof
  fix x
  show "slots (with_rule r t w) x = ((slots w)((w_next w, b) \<mapsto> Suc (w_next w))) x"
    using assms fresh_okD(5) [OF assms(1), of "w_next w"] by (cases x) (auto simp: slots_def)
qed

lemma fresh_ok_with_rule: "fresh_ok w \<Longrightarrow> fresh_ok (with_rule r t w)"
  by (simp add: fresh_ok_def with_rule_def)

lemma ran_upd_new: "m k = None \<Longrightarrow> (\<exists>l. (m(k \<mapsto> p)) l = Some q) \<longleftrightarrow> (\<exists>l. m l = Some q) \<or> q = p"
  by (metis fun_upd_apply option.distinct(1) option.inject)

lemma enter_rule:
  assumes ok: "rules_ok w" and r: "slot_of r b = Some (Suc (w_next w))" "\<And>c. c \<noteq> b \<Longrightarrow> slot_of r c = None"
    and np: "\<not> oru_have_pos r" and k: "(oru_chain_no r, oru_prio r) \<in> pos_keys"
    and new: "rule_at w (oru_chain_no r, oru_prio r) = None" and wf: "wf_tc_rule t"
  obtains w' where "obj_rule_pos_insert (w_next w) (with_rule r t w) = Some w'" "rules_ok w'"
    "table b w' = (table b w)((oru_chain_no r, oru_prio r) \<mapsto> t)" "\<And>c. c \<noteq> b \<Longrightarrow> table c w' = table c w"
    "w_pin_changes w' = w_pin_changes w" "w_rules w' = (w_rules w)(w_next w \<mapsto> r\<lparr>oru_have_pos := True\<rparr>)"
    "w_laf_tree w' = w_laf_tree w" "w_next w \<in> set (rb_inorder (w_pos_tree w'))"
    "rule_at w' = (rule_at w)((oru_chain_no r, oru_prio r) \<mapsto> w_next w)" "same_net w w'"
proof -
  let ?p = "w_next w" and ?v = "with_rule r t w" and ?k = "(oru_chain_no r, oru_prio r)"
  have ok': "pos_ok w" "fresh_ok w" "owned (slots w) (w_tcrs w)" "laf_ok w" using ok by (simp_all add: rules_ok_def)
  note v = with_rule_pos(1,2) [OF ok'(1,2), of r t] with_rule_pos(3) [OF ok'(1,2)]
  obtain T where T: "obj_rule_pos_insert ?p ?v = Some (?v\<lparr>w_pos_tree := T, w_rules := (w_rules ?v)(?p \<mapsto> r\<lparr>oru_have_pos := True\<rparr>)\<rparr>)"
    "pos_ok (?v\<lparr>w_pos_tree := T, w_rules := (w_rules ?v)(?p \<mapsto> r\<lparr>oru_have_pos := True\<rparr>)\<rparr>)"
    "rule_at (?v\<lparr>w_pos_tree := T, w_rules := (w_rules ?v)(?p \<mapsto> r\<lparr>oru_have_pos := True\<rparr>)\<rparr>) = (rule_at ?v)(?k \<mapsto> ?p)"
    by (rule obj_rule_pos_insert_new [OF v(1), of ?p r]) (use k new np v(2) in simp_all)
  let ?w = "?v\<lparr>w_pos_tree := T, w_rules := (w_rules ?v)(?p \<mapsto> r\<lparr>oru_have_pos := True\<rparr>)\<rparr>"
  have sl: "slots ?w = (slots w)((?p, b) \<mapsto> Suc ?p)"
  proof -
    have "slot_of (r\<lparr>oru_have_pos := True\<rparr>) c = slot_of r c" for c by (cases c) simp_all
    then have "slots ?w x = slots ?v x" for x by (cases x) (auto simp: slots_def)
    then show ?thesis using slots_with_rule [OF ok'(2) r] by auto
  qed
  have h: "w_tcrs w (Suc ?p) = None" using fresh_okD(6) [OF ok'(2), of "Suc ?p"] by simp
  have emp: "slots w (?p, c) = None" for c using fresh_okD(5) [OF ok'(2), of ?p] by (simp add: slots_def)
  have tcrs: "w_tcrs ?w = (free_slot (slots w (?p, b)) (w_tcrs w))(Suc ?p \<mapsto> t)" by (simp add: emp free_slot_def)
  have own: "owned (slots ?w) (w_tcrs ?w)"
    unfolding sl tcrs using ok'(3) h by (rule owned_store)
  have val: "(slots ?w x \<bind> w_tcrs ?w) = (if x = (?p, b) then Some t else slots w x \<bind> w_tcrs w)" for x
    unfolding sl tcrs using ok'(3) h by (rule owned_store)
  have at: "rule_at ?w = (rule_at w)(?k \<mapsto> ?p)" using T(3) v(2) by simp
  have fr: "fresh_ok ?w" using ok'(2) by (simp add: fresh_ok_def with_rule_def)
  have inT: "q \<in> set (rb_inorder T) \<longleftrightarrow> q \<in> set (rb_inorder (w_pos_tree w)) \<or> q = ?p" for q
  proof -
    have "q \<in> set (rb_inorder T) \<longleftrightarrow> (\<exists>l. rule_at ?w l = Some q)" using T(2) by (auto simp: rule_at_eq_Some)
    also have "\<dots> \<longleftrightarrow> (\<exists>l. rule_at w l = Some q) \<or> q = ?p" using new unfolding at by (rule ran_upd_new)
    finally show ?thesis using ok'(1) by (auto simp: rule_at_eq_Some)
  qed
  have laf: "laf_ok ?w" unfolding laf_ok_def sl using ok'(4) inT by (auto simp: laf_ok_def)
  have npos: "rule_at w l \<noteq> Some ?p" for l using v(3) ok'(1) by (simp add: rule_at_eq_Some)
  have tb: "table c ?w l = (if l = ?k \<and> c = b then Some t else table c w l)" for c l
  proof (cases "l = ?k")
    case True
    then show ?thesis using val [of "(?p, c)"] new unfolding table_def at by (simp add: emp)
  next
    case False
    then have "table c ?w l = do { q \<leftarrow> rule_at w l; slots ?w (q, c) \<bind> w_tcrs ?w }" unfolding table_def at by simp
    also have "\<dots> = table c w l" unfolding table_def val using npos [of l] by (cases "rule_at w l") auto
    finally show ?thesis using False by simp
  qed
  show thesis
  proof (rule that [of ?w])
    show "obj_rule_pos_insert ?p ?v = Some ?w" by (rule T(1))
    show "rules_ok ?w" using T(2) fr own laf ok wf by (simp add: rules_ok_def)
    show "table b ?w = (table b w)(?k \<mapsto> t)" using tb by auto
    show "c \<noteq> b \<Longrightarrow> table c ?w = table c w" for c using tb by auto
    show "?p \<in> set (rb_inorder (w_pos_tree ?w))" using inT by simp
    show "rule_at ?w = (rule_at w)(?k \<mapsto> ?p)" by (rule at)
  qed (simp_all add: with_rule_def same_net_def)
qed

section \<open>Static rules\<close>

lemma static_want_new:
  assumes ok: "rules_ok w" and pin: "w_pin_changes w = 0" and k: "chain_no < 0x80000000"
    and wf: "wf_tc_rule tcr" and None: "rule_at w (chain_no, prio) = None"
  obtains w' where "obj_rule_static_want K chain_no prio tcr w = Some w'" "rules_ok w'" "w_pin_changes w' = 0"
    "same_net w w'" "dom (rule_at w') = insert (chain_no, prio) (dom (rule_at w))"
    "wanted w' = (wanted w)((chain_no, prio) \<mapsto> tcr)" "present w' = present w"
proof -
  let ?r = "\<lparr>oru_obj = zero_obj_core\<lparr>oc_kind := OBJ_KIND_RULE\<rparr>, oru_type = OBJ_RULE_TYPE_STATIC,
    oru_state = OBJ_RULE_STATE_NEW, oru_chain_no = chain_no, oru_prio = prio, oru_have_laf = False,
    oru_have_pos = False, oru_target = None, oru_route = None, oru_have = None, oru_want = Some (Suc (w_next w))\<rparr>"
  have lk: "obj_rule_pos_lookup chain_no prio w = Some None"
    using ok k None obj_rule_pos_lookup_eq [of w chain_no prio] by (simp add: rules_ok_def pos_keys_def)
  obtain w' where w': "obj_rule_pos_insert (w_next w) (with_rule ?r tcr w) = Some w'" "rules_ok w'"
    "wanted w' = (wanted w)((oru_chain_no ?r, oru_prio ?r) \<mapsto> tcr)" "\<And>c. c \<noteq> Want \<Longrightarrow> table c w' = table c w"
    "w_pin_changes w' = w_pin_changes w" "rule_at w' = (rule_at w)((oru_chain_no ?r, oru_prio ?r) \<mapsto> w_next w)"
    "same_net w w'"
  proof (rule enter_rule [OF ok, of ?r Want tcr])
    fix c show "c \<noteq> Want \<Longrightarrow> slot_of ?r c = None" by (cases c) simp_all
  qed (use k None wf in \<open>simp_all add: pos_keys_def\<close>)
  have "obj_rule_static_want K chain_no prio tcr w = obj_rule_update_state K (w_next w) w'"
    using w'(1) lk
    by (simp add: obj_rule_static_want_def obj_rule_alloc_def new_tcr_def mod_rule_def with_rule_def Let_def)
  then show ?thesis using w' pin by (intro that [of w']) (simp_all add: obj_rule_update_state_def)
qed

text \<open>Before the first pin is removed, asking for a static rule at a free position enters it
  there as the rule wanted and changes nothing else of what is wanted or present; at a
  position that is taken the daemon aborts.\<close>

theorem obj_rule_static_want_correct:
  assumes ok: "rules_ok w" and pin: "w_pin_changes w = 0" and k: "chain_no < 0x80000000"
    and wf: "wf_tc_rule tcr"
  shows "if rule_at w (chain_no, prio) = None
    then \<exists>w'. obj_rule_static_want K chain_no prio tcr w = Some w' \<and> rules_ok w' \<and> w_pin_changes w' = 0 \<and> w_config w' = w_config w
      \<and> dom (rule_at w') = insert (chain_no, prio) (dom (rule_at w))
      \<and> wanted w' = (wanted w)((chain_no, prio) \<mapsto> tcr) \<and> present w' = present w
    else obj_rule_static_want K chain_no prio tcr w = None"
proof (cases "rule_at w (chain_no, prio)")
  case (Some p)
  have "obj_rule_pos_lookup chain_no prio w = Some (Some p)"
    using ok k Some obj_rule_pos_lookup_eq [of w chain_no prio] by (simp add: rules_ok_def pos_keys_def)
  with Some show ?thesis by (simp add: obj_rule_static_want_def)
next
  case None
  show ?thesis
    unfolding if_P [OF None] by (rule static_want_new [OF ok pin k wf None, of K]) (blast dest: same_net_config)
qed


section \<open>Rules found in the kernel\<close>

lemma rule_world_cong:
  assumes "rule_pos w' = rule_pos w" "\<And>p. w_rules w' p = None \<longleftrightarrow> w_rules w p = None"
    "w_pos_tree w' = w_pos_tree w"
  shows "pos_ok w' = pos_ok w" "rule_at w' = rule_at w"
  using assms by (simp_all add: pos_ok_def rule_at_def)

lemma rule_slot_cong:
  assumes "w_rules w p = Some r" "\<And>b. slot_of r' b = slot_of r b" "w_rules w' = (w_rules w)(p \<mapsto> r')"
  shows "slots w' = slots w"
proof
  fix x show "slots w' x = slots w x" using assms by (cases x) (auto simp: slots_def)
qed

lemma obj_rule_laf_insert_total:
  assumes ok: "rules_ok w" and r: "w_rules w p = Some r" "\<not> oru_have_laf r"
    and p: "p \<in> set (rb_inorder (w_pos_tree w))" "oru_have r = Some h"
  obtains w' where "obj_rule_laf_insert p w = Some w'" "rules_ok w'" "\<And>b. table b w' = table b w"
    "w_pin_changes w' = w_pin_changes w"
proof -
  let ?g = "\<lambda>q. tc_rule_cmp (the (obj_rule_have_tcr p w)) (the (obj_rule_have_tcr q w))"
  have laf: "rbt_ok (w_laf_tree w)" using ok by (simp add: rules_ok_def laf_ok_def)
  have "slots w (p, Have) = Some h" using r p by (simp add: slots_def)
  then have hp: "\<exists>t. obj_rule_have_tcr p w = Some t"
    using ok by (auto simp: obj_rule_have_tcr_eq rules_ok_def owned_def)
  obtain t b where t: "rb_insert ?g p (w_laf_tree w) = Some (t, b)" "rbt_ok t"
    "set (rb_inorder t) = (if b then insert p (set (rb_inorder (w_laf_tree w))) else set (rb_inorder (w_laf_tree w)))"
    using rb_insert_total [OF laf, of ?g p] by blast
  have ins: "rb_insert_ptr (\<lambda>this. do { a \<leftarrow> obj_rule_have_tcr p w; h \<leftarrow> obj_rule_have_tcr this w; Some (tc_rule_cmp a h) })
    p (w_laf_tree w) = Some (t, b)"
    using t(1) hp by (subst rb_insert_ptr_eq [where g = ?g]) (use laf_have [OF ok] in fastforce)+
  let ?r = "r\<lparr>oru_have_laf := True\<rparr>"
  let ?w = "if b then w\<lparr>w_laf_tree := t, w_rules := (w_rules w)(p \<mapsto> ?r)\<rparr> else w"
  have ret: "obj_rule_laf_insert p w = Some ?w"
    using ins r by (simp add: obj_rule_laf_insert_def mod_rule_def)
  have sl: "slot_of ?r c = slot_of r c" for c by (cases c) simp_all
  have slots: "slots ?w = slots w" by (simp add: rule_slot_cong [OF r(1) sl])
  have "rule_pos ?w = rule_pos w" using r by (auto simp: rule_pos_def)
  moreover have "w_rules ?w q = None \<longleftrightarrow> w_rules w q = None" for q using r by auto
  moreover have pt: "w_pos_tree ?w = w_pos_tree w" by simp
  ultimately have at: "pos_ok ?w = pos_ok w" "rule_at ?w = rule_at w" by (rule rule_world_cong)+
  have hv: "slots w (q, Have) \<noteq> None" "q \<in> set (rb_inorder (w_pos_tree w))" if "q \<in> set (rb_inorder (w_laf_tree ?w))" for q
    using that t(3) ok p(1) \<open>slots w (p, Have) = Some h\<close>
    by (auto simp: rules_ok_def laf_ok_def split: if_splits)
  have tcrs: "w_tcrs ?w = w_tcrs w" by simp
  show thesis
  proof (rule that [of ?w])
    show "obj_rule_laf_insert p w = Some ?w" by (rule ret)
    have "fresh_ok ?w" using ok r by (auto simp: rules_ok_def fresh_ok_def)
    moreover have "laf_ok ?w" unfolding laf_ok_def slots pt using hv t(2) laf by auto
    ultimately show "rules_ok ?w" unfolding rules_ok_def at slots tcrs using ok by (simp add: rules_ok_def)
    show "table b ?w = table b w" for b unfolding table_def at slots tcrs by (rule ext) (rule refl)
  qed simp
qed

text \<open>One slot of a rule of the table changes; the lost and found tree may lose rules.\<close>

lemma slot_core:
  assumes ok: "rules_ok w" and r: "w_rules w p = Some r" and at: "rule_at w k = Some p"
    and r': "oru_chain_no r' = oru_chain_no r" "oru_prio r' = oru_prio r"
    and w': "w_rules w' = (w_rules w)(p \<mapsto> r')" "w_pos_tree w' = w_pos_tree w" "fresh_ok w'"
      "rbt_ok (w_laf_tree w')" "set (rb_inorder (w_laf_tree w')) \<subseteq> set (rb_inorder (w_laf_tree w))"
      "\<forall>q\<in>set (rb_inorder (w_laf_tree w')). slots w' (q, Have) \<noteq> None"
    and own: "owned (slots w') (w_tcrs w')" "\<forall>h t. w_tcrs w' h = Some t \<longrightarrow> wf_tc_rule t"
    and val: "\<And>x. (slots w' x \<bind> w_tcrs w') = (if x = (p, b) then v else slots w x \<bind> w_tcrs w)"
  shows "rules_ok w'" "rule_at w' = rule_at w" "table b w' = (table b w)(k := v)" "c \<noteq> b \<Longrightarrow> table c w' = table c w"
proof -
  have ok': "pos_ok w" "laf_ok w" using ok by (simp_all add: rules_ok_def)
  have "rule_pos w' = rule_pos w" using r r' by (auto simp: rule_pos_def w'(1))
  moreover have "w_rules w' q = None \<longleftrightarrow> w_rules w q = None" for q using r by (simp add: w'(1))
  ultimately have at': "pos_ok w' = pos_ok w" "rule_at w' = rule_at w" using w'(2) by (rule rule_world_cong)+
  then show "rule_at w' = rule_at w" by simp
  have "laf_ok w'" using w'(2,4-6) ok'(2) by (auto simp: laf_ok_def)
  then show "rules_ok w'" using ok'(1) at'(1) w'(3) own by (simp add: rules_ok_def)
  have tb: "table c w' l = (if l = k \<and> c = b then v else table c w l)" for c l
  proof (cases "rule_at w l")
    case None
    then show ?thesis using at unfolding table_def at' by auto
  next
    case (Some q)
    have "q = p \<longleftrightarrow> l = k" using Some at rule_at_inj [OF ok'(1), of l p k] by auto
    then show ?thesis using Some val [of "(q, c)"] unfolding table_def at' by auto
  qed
  show "table b w' = (table b w)(k := v)" "c \<noteq> b \<Longrightarrow> table c w' = table c w" using tb by auto
qed

lemma slots_upd:
  assumes "w_rules w' = (w_rules w)(p \<mapsto> r')" "w_rules w p = Some r" "\<And>c. c \<noteq> b \<Longrightarrow> slot_of r' c = slot_of r c"
  shows "slots w' = (slots w)((p, b) := slot_of r' b)"
proof
  fix x show "slots w' x = ((slots w)((p, b) := slot_of r' b)) x"
    using assms by (cases x) (auto simp: slots_def)
qed

text \<open>A new copy is stored in a slot.\<close>

lemma store_slot:
  assumes ok: "rules_ok w" and r: "w_rules w p = Some r" and at: "rule_at w k = Some p" and wf: "wf_tc_rule t"
    and r': "oru_chain_no r' = oru_chain_no r" "oru_prio r' = oru_prio r" "slot_of r' b = Some (w_next w)"
      "\<And>c. c \<noteq> b \<Longrightarrow> slot_of r' c = slot_of r c"
    and w': "w_rules w' = (w_rules w)(p \<mapsto> r')" "w_pos_tree w' = w_pos_tree w" "fresh_ok w'"
      "rbt_ok (w_laf_tree w')" "set (rb_inorder (w_laf_tree w')) \<subseteq> set (rb_inorder (w_laf_tree w))"
      "w_tcrs w' = (free_slot (slot_of r b) (w_tcrs w))(w_next w \<mapsto> t)"
  shows "rules_ok w'" "rule_at w' = rule_at w" "table b w' = (table b w)(k \<mapsto> t)" "c \<noteq> b \<Longrightarrow> table c w' = table c w"
proof -
  have ok': "fresh_ok w" "owned (slots w) (w_tcrs w)" "laf_ok w" "\<forall>h t. w_tcrs w h = Some t \<longrightarrow> wf_tc_rule t"
    using ok by (simp_all add: rules_ok_def)
  have sl: "slots w' = (slots w)((p, b) \<mapsto> w_next w)" using slots_upd [OF w'(1) r r'(4)] by (simp add: r'(3))
  have "slots w (p, b) = slot_of r b" using r by (simp add: slots_def)
  then have tcrs: "w_tcrs w' = (free_slot (slots w (p, b)) (w_tcrs w))(w_next w \<mapsto> t)" by (simp add: w'(6))
  have new: "w_tcrs w (w_next w) = None" using fresh_okD(6) [OF ok'(1)] by simp
  note own = owned_store [where x = "(p, b)" and t = t, OF ok'(2) new, folded sl tcrs]
  have wf': "\<forall>g u. w_tcrs w' g = Some u \<longrightarrow> wf_tc_rule u"
    using ok'(4) wf unfolding w'(6) by (auto simp: free_slot_def split: option.splits if_splits)
  have laf: "\<forall>q\<in>set (rb_inorder (w_laf_tree w')). slots w' (q, Have) \<noteq> None"
    using ok'(3) w'(5) unfolding sl by (auto simp: laf_ok_def)
  note core = slot_core [OF ok r at r'(1,2) w'(1-5) laf own(1) wf' own(2)]
  show "rules_ok w'" "rule_at w' = rule_at w" "table b w' = (table b w)(k \<mapsto> t)" "c \<noteq> b \<Longrightarrow> table c w' = table c w"
    by (rule core; assumption)+
qed

text \<open>A slot is cleared.\<close>

lemma clear_slot:
  assumes ok: "rules_ok w" and r: "w_rules w p = Some r" and at: "rule_at w k = Some p"
    and r': "oru_chain_no r' = oru_chain_no r" "oru_prio r' = oru_prio r" "slot_of r' b = None"
      "\<And>c. c \<noteq> b \<Longrightarrow> slot_of r' c = slot_of r c"
    and w': "w_rules w' = (w_rules w)(p \<mapsto> r')" "w_pos_tree w' = w_pos_tree w" "fresh_ok w'"
      "w_laf_tree w' = w_laf_tree w" "w_tcrs w' = free_slot (slot_of r b) (w_tcrs w)"
    and laf: "b = Have \<Longrightarrow> p \<notin> set (rb_inorder (w_laf_tree w))"
  shows "rules_ok w'" "rule_at w' = rule_at w" "table b w' = (table b w)(k := None)" "c \<noteq> b \<Longrightarrow> table c w' = table c w"
proof -
  have ok': "owned (slots w) (w_tcrs w)" "laf_ok w" "\<forall>h t. w_tcrs w h = Some t \<longrightarrow> wf_tc_rule t"
    using ok by (simp_all add: rules_ok_def)
  have sl: "slots w' = (slots w)((p, b) := None)" using slots_upd [OF w'(1) r r'(4)] by (simp add: r'(3))
  have "slots w (p, b) = slot_of r b" using r by (simp add: slots_def)
  then have tcrs: "w_tcrs w' = free_slot (slots w (p, b)) (w_tcrs w)" by (simp add: w'(5))
  note own = owned_clear [where x = "(p, b)", OF ok'(1), folded sl tcrs]
  have wf': "\<forall>g u. w_tcrs w' g = Some u \<longrightarrow> wf_tc_rule u"
    using ok'(3) unfolding w'(5) by (auto simp: free_slot_def split: option.splits if_splits)
  have laf': "\<forall>q\<in>set (rb_inorder (w_laf_tree w')). slots w' (q, Have) \<noteq> None"
    using ok'(2) laf unfolding sl w'(4) by (auto simp: laf_ok_def)
  have trees: "rbt_ok (w_laf_tree w')" "set (rb_inorder (w_laf_tree w')) \<subseteq> set (rb_inorder (w_laf_tree w))"
    using ok'(2) w'(4) by (simp_all add: laf_ok_def)
  note core = slot_core [OF ok r at r'(1,2) w'(1-3) trees laf' own(1) wf' own(2)]
  show "rules_ok w'" "rule_at w' = rule_at w" "table b w' = (table b w)(k := None)" "c \<noteq> b \<Longrightarrow> table c w' = table c w"
    by (rule core; assumption)+
qed

text \<open>Storing a new copy of what the kernel has in a rule of the table.\<close>

lemma store_have:
  assumes ok: "rules_ok w" and r: "w_rules w p = Some r" and at: "rule_at w k = Some p" and wf: "wf_tc_rule t"
    and r': "oru_have r' = Some (w_next w)" "oru_want r' = oru_want r" "oru_chain_no r' = oru_chain_no r"
      "oru_prio r' = oru_prio r"
    and w': "w' = w\<lparr>w_tcrs := (free_slot (oru_have r) (w_tcrs w))(w_next w \<mapsto> t), w_next := Suc (w_next w),
      w_rules := (w_rules w)(p \<mapsto> r')\<rparr>"
  shows "rules_ok w'" "present w' = (present w)(k \<mapsto> t)" "wanted w' = wanted w"
proof -
  have "slot_of r' c = slot_of r c" if "c \<noteq> Have" for c using that r'(2) by (cases c) simp_all
  moreover have "fresh_ok w'" using ok r by (auto simp: rules_ok_def fresh_ok_def w' free_slot_def split: option.splits)
  moreover have "rbt_ok (w_laf_tree w')" using ok by (simp add: w' rules_ok_def laf_ok_def)
  moreover note store_slot [OF ok r at wf r'(3,4), of Have w']
  ultimately show "rules_ok w'" "present w' = (present w)(k \<mapsto> t)" "wanted w' = wanted w" using r'(1) by (simp_all add: w')
qed

lemma tc_rule_cmp_0: "wf_tc_rule a \<Longrightarrow> wf_tc_rule b \<Longrightarrow> tc_rule_cmp a b = 0 \<longleftrightarrow> a = b"
  by (simp add: tc_rule_cmp_def memcmp_0_iff length_tc_rule_bytes tc_rule_bytes_inject)

lemma netlink_found_known:
  assumes ok: "rules_ok w" and pin: "w_pin_changes w = 0" and k: "chain_no < 0x80000000"
    and wf: "wf_tc_rule tcr" and Some: "rule_at w (chain_no, prio) = Some p"
  shows "\<exists>w'. obj_rule_netlink_found K RTM_NEWTFILTER chain_no prio tcr w = Some w' \<and> rules_ok w'
    \<and> w_pin_changes w' = 0 \<and> present w' = (present w)((chain_no, prio) \<mapsto> tcr) \<and> wanted w' = wanted w"
proof -
  have ok': "pos_ok w" "owned (slots w) (w_tcrs w)" "\<forall>h t. w_tcrs w h = Some t \<longrightarrow> wf_tc_rule t"
    using ok by (simp_all add: rules_ok_def)
  have lk: "obj_rule_pos_lookup chain_no prio w = Some (Some p)"
    using ok'(1) k Some obj_rule_pos_lookup_eq [of w chain_no prio] by (simp add: pos_keys_def)
  obtain r where r: "w_rules w p = Some r" "oru_chain_no r = chain_no" "oru_prio r = prio"
    using rule_at_Some(2) [OF ok'(1) Some] by auto
  show ?thesis
  proof (cases "\<exists>h t. oru_have r = Some h \<and> w_tcrs w h = Some t \<and> tc_rule_cmp t tcr = 0")
    case True
    then obtain h where h: "oru_have r = Some h" "w_tcrs w h = Some tcr"
      using ok'(3) wf tc_rule_cmp_0 by metis
    have "obj_rule_netlink_found K RTM_NEWTFILTER chain_no prio tcr w = Some w"
      using lk r h by (simp add: obj_rule_netlink_found_def tc_rule_cmp_def)
    moreover have "(present w)((chain_no, prio) \<mapsto> tcr) = present w"
      using Some r h by (simp add: table_def slots_def fun_upd_idem_iff)
    ultimately show ?thesis using ok pin by auto
  next
    case False
    let ?r = "(if oru_have r = None then r\<lparr>oru_obj := (oru_obj r)\<lparr>oc_state := OBJ_STATE_INSTALLED\<rparr>\<rparr> else r)
      \<lparr>oru_have := Some (w_next w)\<rparr>"
    let ?w = "w\<lparr>w_tcrs := (free_slot (oru_have r) (w_tcrs w))(w_next w \<mapsto> tcr), w_next := Suc (w_next w),
      w_rules := (w_rules w)(p \<mapsto> ?r)\<rparr>"
    have valid: "\<exists>t. w_tcrs w h = Some t \<and> tc_rule_cmp t tcr \<noteq> 0" if "oru_have r = Some h" for h
    proof -
      have "slots w (p, Have) = Some h" using that r by (simp add: slots_def)
      then have "w_tcrs w h \<noteq> None" using ok'(2) unfolding owned_def by metis
      then show ?thesis using False that by auto
    qed
    have "obj_rule_netlink_found K RTM_NEWTFILTER chain_no prio tcr w = Some ?w"
      using lk r pin valid
      by (cases "oru_have r")
        (auto simp: obj_rule_netlink_found_def mod_rule_def new_tcr_def free_tcr_def free_slot_def Let_def
          obj_rule_update_state_def)
    moreover note store_have [OF ok r(1) Some wf, of ?r ?w]
    ultimately show ?thesis using pin by auto
  qed
qed

text \<open>The rule made for a filter that is reported at a free position, before it is looked at.\<close>

definition found_rule :: "u32 \<Rightarrow> u16 \<Rightarrow> ptr \<Rightarrow> obj_rule" where
  "found_rule chain_no prio h = \<lparr>oru_obj = zero_obj_core\<lparr>oc_kind := OBJ_KIND_RULE, oc_state := OBJ_STATE_INSTALLED\<rparr>,
    oru_type = OBJ_RULE_TYPE_NOT_SET, oru_state = OBJ_RULE_STATE_NEW, oru_chain_no = chain_no, oru_prio = prio,
    oru_have_laf = False, oru_have_pos = True, oru_target = None, oru_route = None, oru_have = Some h, oru_want = None\<rparr>"

lemma found_rule_sel [simp]:
  "oru_obj (found_rule c prio h) = zero_obj_core\<lparr>oc_kind := OBJ_KIND_RULE, oc_state := OBJ_STATE_INSTALLED\<rparr>"
  "oru_state (found_rule c prio h) = OBJ_RULE_STATE_NEW" "oru_chain_no (found_rule c prio h) = c" "oru_prio (found_rule c prio h) = prio"
  "\<not> oru_have_laf (found_rule c prio h)" "oru_have_pos (found_rule c prio h)" "oru_target (found_rule c prio h) = None"
  "oru_have (found_rule c prio h) = Some h" "oru_want (found_rule c prio h) = None"
  by (simp_all add: found_rule_def)

lemma netlink_found_enters:
  assumes ok: "rules_ok w" and pin: "w_pin_changes w = 0" and k: "chain_no < 0x80000000"
    and wf: "wf_tc_rule tcr" and None: "rule_at w (chain_no, prio) = None"
  obtains v where "obj_rule_netlink_found K RTM_NEWTFILTER chain_no prio tcr w
      = obj_rule_laf_insert (w_next w) v \<bind> obj_rule_update_state K (w_next w)" "rules_ok v"
    "present v = (present w)((chain_no, prio) \<mapsto> tcr)" "wanted v = wanted w" "w_pin_changes v = 0"
    "w_rules v = (w_rules w)(w_next w \<mapsto> found_rule chain_no prio (Suc (w_next w)))" "w_laf_tree v = w_laf_tree w"
    "w_next w \<in> set (rb_inorder (w_pos_tree v))" "rule_at v = (rule_at w)((chain_no, prio) \<mapsto> w_next w)" "same_net w v"
proof -
  let ?r = "(found_rule chain_no prio (Suc (w_next w)))\<lparr>oru_have_pos := False\<rparr>"
  have ok': "pos_ok w" using ok by (simp add: rules_ok_def)
  have lk: "obj_rule_pos_lookup chain_no prio w = Some None"
    using ok' k None obj_rule_pos_lookup_eq [of w chain_no prio] by (simp add: pos_keys_def)
  obtain x where x: "obj_rule_laf_lookup tcr w = Some x" "\<forall>p. x = Some p \<longrightarrow> p \<in> set (rb_inorder (w_pos_tree w))"
    using laf_lookup_total [OF ok] by blast
  have other: "\<exists>r. w_rules w p = Some r \<and> (oru_chain_no r \<noteq> chain_no \<or> oru_prio r \<noteq> prio)" if "x = Some p" for p
  proof -
    from x(2) that have p: "p \<in> set (rb_inorder (w_pos_tree w))" by simp
    then obtain r where r: "w_rules w p = Some r" using ok' by (auto simp: pos_ok_def)
    have "rule_at w (oru_chain_no r, oru_prio r) = Some p" using ok' p r by (simp add: rule_at_eq_Some)
    with None r show ?thesis by auto
  qed
  have pos: "?r\<lparr>oru_have_pos := True\<rparr> = found_rule chain_no prio (Suc (w_next w))" by (simp add: found_rule_def)
  obtain v where v: "obj_rule_pos_insert (w_next w) (with_rule ?r tcr w) = Some v" "rules_ok v"
    "present v = (present w)((oru_chain_no ?r, oru_prio ?r) \<mapsto> tcr)" "\<And>c. c \<noteq> Have \<Longrightarrow> table c v = table c w"
    "w_pin_changes v = w_pin_changes w" "w_rules v = (w_rules w)(w_next w \<mapsto> ?r\<lparr>oru_have_pos := True\<rparr>)"
    "w_laf_tree v = w_laf_tree w" "w_next w \<in> set (rb_inorder (w_pos_tree v))"
    "rule_at v = (rule_at w)((oru_chain_no ?r, oru_prio ?r) \<mapsto> w_next w)" "same_net w v"
  proof (rule enter_rule [OF ok, of ?r Have tcr])
    fix c show "c \<noteq> Have \<Longrightarrow> slot_of ?r c = None" by (cases c) simp_all
  qed (use k None wf in \<open>simp_all add: pos_keys_def\<close>)
  have "obj_rule_netlink_found K RTM_NEWTFILTER chain_no prio tcr w = obj_rule_new K (w_next w) (with_rule ?r tcr w)"
    using lk x(1) other
    by (cases x) (auto simp: obj_rule_netlink_found_def obj_rule_alloc_def new_tcr_def mod_rule_def with_rule_def found_rule_def Let_def)
  also have "\<dots> = obj_rule_laf_insert (w_next w) v \<bind> obj_rule_update_state K (w_next w)"
    using v(1) by (simp add: obj_rule_new_def)
  finally show ?thesis by (rule that) (use v pin pos in simp_all)
qed

lemma netlink_found_new:
  assumes ok: "rules_ok w" and pin: "w_pin_changes w = 0" and k: "chain_no < 0x80000000"
    and wf: "wf_tc_rule tcr" and None: "rule_at w (chain_no, prio) = None"
  shows "\<exists>w'. obj_rule_netlink_found K RTM_NEWTFILTER chain_no prio tcr w = Some w' \<and> rules_ok w'
    \<and> w_pin_changes w' = 0 \<and> present w' = (present w)((chain_no, prio) \<mapsto> tcr) \<and> wanted w' = wanted w"
proof -
  obtain v where v: "obj_rule_netlink_found K RTM_NEWTFILTER chain_no prio tcr w
      = obj_rule_laf_insert (w_next w) v \<bind> obj_rule_update_state K (w_next w)" "rules_ok v"
    "present v = (present w)((chain_no, prio) \<mapsto> tcr)" "wanted v = wanted w" "w_pin_changes v = 0"
    "w_rules v = (w_rules w)(w_next w \<mapsto> found_rule chain_no prio (Suc (w_next w)))"
    "w_next w \<in> set (rb_inorder (w_pos_tree v))"
    using assms by (rule netlink_found_enters)
  obtain u where u: "obj_rule_laf_insert (w_next w) v = Some u" "rules_ok u" "\<And>b. table b u = table b v"
    "w_pin_changes u = w_pin_changes v"
    by (rule obj_rule_laf_insert_total [OF v(2)]) (use v(6,7) in auto)
  with v show ?thesis by (simp add: obj_rule_update_state_def)
qed

text \<open>C24. Before the first pin is removed, a filter reported by the kernel becomes what is present at
  its position, whether the position was free, wanted, or held another filter, and nothing
  else of what is wanted or present changes.\<close>

theorem obj_rule_netlink_found_correct:
  assumes ok: "rules_ok w" and pin: "w_pin_changes w = 0" and k: "chain_no < 0x80000000"
    and wf: "wf_tc_rule tcr"
  shows "\<exists>w'. obj_rule_netlink_found K RTM_NEWTFILTER chain_no prio tcr w = Some w' \<and> rules_ok w'
    \<and> w_pin_changes w' = 0 \<and> present w' = (present w)((chain_no, prio) \<mapsto> tcr) \<and> wanted w' = wanted w"
  using netlink_found_known [OF assms] netlink_found_new [OF assms] by (cases "rule_at w (chain_no, prio)") auto


section \<open>The rules wanted from the start\<close>

text \<open>The rule that \<open>request_onload_rule\<close> wants for a prefix.\<close>

definition onload_rule :: "config \<Rightarrow> af_addr \<Rightarrow> tc_rule" where
  "onload_rule cfg pfx = zero_tc_rule\<lparr>tcr_flower_flags := cfg_flower_flags cfg, tcr_af_addr := pfx,
     tcr_type := TC_RULE_TYPE_ROUTE_TRAP, tcr_traits := type_traits TC_RULE_TYPE_ROUTE_TRAP\<rparr>"

lemma request_onload_rule_eq:
  "request_onload_rule K c prio pfx w = obj_rule_static_want K c prio (onload_rule (w_config w) pfx) w"
  by (simp add: request_onload_rule_def onload_rule_def tc_rule_init_def tc_rule_set_type_and_traits_def
      tc_rule_set_type_def)

definition af_chain :: "af_addr \<Rightarrow> u32" where
  "af_chain pfx = (if aa_af pfx = AF_INET then 1 else 2)"

definition prefix_keys :: "af_addr list \<Rightarrow> u16 list \<Rightarrow> (u32 \<times> u16) list" where
  "prefix_keys pfxs prios = map2 (\<lambda>pfx prio. (af_chain pfx, prio)) pfxs prios"

definition prefix_rules :: "config \<Rightarrow> af_addr list \<Rightarrow> u16 list \<Rightarrow> ((u32 \<times> u16) \<times> tc_rule) list" where
  "prefix_rules cfg pfxs prios = map2 (\<lambda>pfx prio. ((af_chain pfx, prio), onload_rule cfg pfx)) pfxs prios"

lemma prefix_lists [simp]:
  "prefix_keys [] [] = []" "prefix_rules cfg [] [] = []"
  "prefix_keys (pfx # pfxs) (prio # prios) = (af_chain pfx, prio) # prefix_keys pfxs prios"
  "prefix_rules cfg (pfx # pfxs) (prio # prios)
     = ((af_chain pfx, prio), onload_rule cfg pfx) # prefix_rules cfg pfxs prios"
  by (simp_all add: prefix_keys_def prefix_rules_def)

lemma fst_prefix_rules: "fst ` set (prefix_rules cfg pfxs prios) = set (prefix_keys pfxs prios)"
  by (force simp: prefix_keys_def prefix_rules_def image_iff)

text \<open>What placing a list of prefixes at some priorities makes of the rules wanted.\<close>

definition placed :: "u16 \<Rightarrow> af_addr list \<Rightarrow> u16 list \<Rightarrow> world \<Rightarrow> world \<Rightarrow> bool" where
  "placed base pfxs prios w w' \<longleftrightarrow> rules_ok w' \<and> w_pin_changes w' = 0 \<and> same_net w w' \<and> present w' = present w
     \<and> length prios = length pfxs \<and> (\<forall>prio\<in>set prios. base \<le> prio) \<and> distinct (prefix_keys pfxs prios)
     \<and> (\<forall>k\<in>set (prefix_keys pfxs prios). wanted w k = None)
     \<and> wanted w' = wanted w ++ map_of (prefix_rules (w_config w) pfxs prios)"

lemma placed_Cons:
  assumes v: "same_net w v" "wanted v = (wanted w)((af_chain pfx, prio) \<mapsto> onload_rule (w_config w) pfx)"
      "present v = present w" "wanted w (af_chain pfx, prio) = None"
    and prio: "base \<le> prio" and rest: "placed base pfxs prios v w'"
  shows "placed base (pfx # pfxs) (prio # prios) w w'"
proof -
  let ?k = "(af_chain pfx, prio)" and ?ks = "prefix_keys pfxs prios" and ?m = "prefix_rules (w_config w) pfxs prios"
  have nk: "?k \<notin> set ?ks" using rest v(2) by (auto simp: placed_def)
  then have "map_of ?m ?k = None" by (simp add: map_of_eq_None_iff fst_prefix_rules)
  then have "wanted v ++ map_of ?m = wanted w ++ map_of ((?k, onload_rule (w_config w) pfx) # ?m)"
    unfolding v(2) by (auto simp: map_add_def split: option.splits)
  moreover have "\<forall>k\<in>set ?ks. wanted w k = None"
    using rest nk unfolding placed_def v(2) by (metis fun_upd_other)
  ultimately show ?thesis
    using rest nk v prio same_net_trans [OF v(1)] by (simp add: placed_def same_net_config [OF v(1)])
qed

lemma place_prefixes_placed:
  assumes "rules_ok w" "w_pin_changes w = 0" "\<forall>pfx\<in>set pfxs. wf_af_addr pfx \<and> aa_af pfx \<in> {AF_INET, AF_INET6}"
    "\<forall>c q. rule_at w (c, q) \<noteq> None \<longrightarrow> unat q < b" "unat base \<le> b" "b + length pfxs < 65536"
  shows "\<exists>w' prios. place_prefixes K base pfxs w = Some w' \<and> placed base pfxs prios w w'"
  using assms
proof (induction pfxs arbitrary: w b)
  case Nil
  then show ?case by (intro exI [of _ w] exI [of _ "[]"]) (simp add: placed_def)
next
  case (Cons pfx pfxs)
  let ?c = "af_chain pfx"
  have pfx: "wf_af_addr pfx" "get_af_chain (aa_af pfx) = Some ?c" "?c < 0x80000000"
    using Cons.prems(3) by (auto simp: get_af_chain_def af_chain_def)
  have pos: "pos_ok w" using Cons.prems(1) by (simp add: rules_ok_def)
  have "\<forall>q p. rule_at w (?c, q) = Some p \<longrightarrow> q < 65535"
    using Cons.prems(4,6) by (fastforce simp: word_less_nat_alt)
  from available_prio_fresh [OF pos pfx(3) this] obtain prio where
    prio: "obj_rule_find_available_prio ?c base w = Some prio" "base \<le> prio" "rule_at w (?c, prio) = None"
    by blast
  have bnd: "unat prio \<le> b"
    using available_prio_bound [OF pos _ Cons.prems(5) _ prio(1)] Cons.prems(4,6) by simp
  let ?t = "onload_rule (w_config w) pfx" and ?k = "(?c, prio)"
  have "wf_tc_rule ?t" using pfx(1) by (simp add: onload_rule_def)
  from static_want_new [OF Cons.prems(1,2) pfx(3) this prio(3)] obtain v where
    v: "obj_rule_static_want K ?c prio ?t w = Some v" "rules_ok v" "w_pin_changes v = 0" "same_net w v"
      "dom (rule_at v) = insert ?k (dom (rule_at w))" "wanted v = (wanted w)(?k \<mapsto> ?t)" "present v = present w" .
  have "\<forall>c q. rule_at v (c, q) \<noteq> None \<longrightarrow> unat q < b + 1"
  proof (intro allI impI)
    fix c q assume "rule_at v (c, q) \<noteq> None"
    then have "(c, q) = ?k \<or> rule_at w (c, q) \<noteq> None" using v(5) by blast
    then show "unat q < b + 1" using bnd Cons.prems(4) by fastforce
  qed
  with Cons.IH [OF v(2,3), of "b + 1"] Cons.prems(3,5,6) obtain w' prios where
    w': "place_prefixes K base pfxs v = Some w'" "placed base pfxs prios v w'" by auto
  have "place_prefixes K base (pfx # pfxs) w = Some w'"
    using pfx(2) prio(1) v(1) w'(1) by (simp add: request_onload_rule_eq)
  with placed_Cons [OF v(4,6,7) table_None [OF prio(3)] prio(2) w'(2)] show ?case by blast
qed

text \<open>Every prefix of a list of valid prefixes is given a trap rule of its own, in the chain of its
  address family, at a priority not below the base and free until then; nothing else that is
  wanted or present changes. (The list must leave priorities to give.)\<close>

theorem place_prefixes_correct:
  assumes "rules_ok w" "w_pin_changes w = 0" "\<forall>pfx\<in>set pfxs. wf_af_addr pfx \<and> aa_af pfx \<in> {AF_INET, AF_INET6}"
    "\<forall>c q. rule_at w (c, q) \<noteq> None \<longrightarrow> unat q < b" "unat base \<le> b" "b + length pfxs < 65536"
  shows "\<exists>w' prios. place_prefixes K base pfxs w = Some w' \<and> rules_ok w' \<and> w_pin_changes w' = 0
    \<and> present w' = present w \<and> length prios = length pfxs \<and> (\<forall>prio\<in>set prios. base \<le> prio)
    \<and> distinct (map2 (\<lambda>pfx prio. (af_chain pfx, prio)) pfxs prios)
    \<and> (\<forall>k\<in>set (map2 (\<lambda>pfx prio. (af_chain pfx, prio)) pfxs prios). wanted w k = None)
    \<and> wanted w' = wanted w ++ map_of (map2 (\<lambda>pfx prio. ((af_chain pfx, prio), onload_rule (w_config w) pfx)) pfxs prios)"
  using place_prefixes_placed [OF assms, of K] unfolding placed_def prefix_keys_def prefix_rules_def by blast


definition goto_rule :: "config \<Rightarrow> af_addr \<Rightarrow> u32 \<Rightarrow> tc_rule" where
  "goto_rule cfg pfx target = zero_tc_rule\<lparr>tcr_flower_flags := cfg_flower_flags cfg, tcr_af_addr := pfx,
     tcr_goto_target := target, tcr_type := TC_RULE_TYPE_ROUTE_GOTO,
     tcr_traits := type_traits TC_RULE_TYPE_ROUTE_GOTO\<rparr>"

definition ttl_rule :: "config \<Rightarrow> u8 \<Rightarrow> tc_rule" where
  "ttl_rule cfg f = zero_tc_rule\<lparr>tcr_flower_flags := cfg_flower_flags cfg,
     tcr_af_addr := zero_af_addr\<lparr>aa_af := f\<rparr>, tcr_type := TC_RULE_TYPE_TTL_CHECK,
     tcr_traits := type_traits TC_RULE_TYPE_TTL_CHECK\<rparr>"

text \<open>All of IPv4, and the unicast prefix 2000::/3 of IPv6.\<close>

definition all_v4 :: af_addr where
  "all_v4 = zero_af_addr\<lparr>aa_af := AF_INET\<rparr>"

definition unicast_v6 :: af_addr where
  "unicast_v6 = zero_af_addr\<lparr>aa_in := 0x20 # replicate 15 0, aa_af := AF_INET6, aa_mask_len := 3\<rparr>"

lemma request_ttl_check_eq:
  "request_ttl_check K c prio f w = obj_rule_static_want K c prio (ttl_rule (w_config w) f) w"
  by (simp add: request_ttl_check_def ttl_rule_def tc_rule_init_def tc_rule_set_type_and_traits_def
      tc_rule_set_type_def)

lemma request_af_goto_rule_eq:
  "request_af_goto_rule inet_pton K c prio AF_INET t w
     = obj_rule_static_want K c prio (goto_rule (w_config w) all_v4 t) w"
  "inet_pton AF_INET6 ''2000::'' = Some (0x20 # replicate 15 0) \<Longrightarrow>
   request_af_goto_rule inet_pton K c prio AF_INET6 t w
     = obj_rule_static_want K c prio (goto_rule (w_config w) unicast_v6 t) w"
  by (simp_all add: request_af_goto_rule_def goto_rule_def tc_rule_init_def tc_rule_set_type_and_traits_def
      tc_rule_set_type_def tc_rule_set_dst_def all_v4_def unicast_v6_def Let_def)

lemma wf_static_rules [simp]:
  "wf_tc_rule (ttl_rule cfg f)" "wf_tc_rule (goto_rule cfg all_v4 t)" "wf_tc_rule (goto_rule cfg unicast_v6 t)"
  by (simp_all add: ttl_rule_def goto_rule_def all_v4_def unicast_v6_def)

definition initial_rules :: "config \<Rightarrow> u32 \<times> u16 \<Rightarrow> tc_rule option" where
  "initial_rules cfg = [(0, 1) \<mapsto> goto_rule cfg all_v4 1, (0, 2) \<mapsto> goto_rule cfg unicast_v6 2,
     (1, 1) \<mapsto> ttl_rule cfg AF_INET, (2, 1) \<mapsto> ttl_rule cfg AF_INET6]"

lemma not_dom: "k \<notin> dom m \<Longrightarrow> m k = None"
  by auto

lemma initial_requests:
  assumes ok: "rules_ok w" "w_pin_changes w = 0" "w_pos_tree w = Null"
    and inet: "inet_pton AF_INET6 ''2000::'' = Some (0x20 # replicate 15 0)"
  obtains w4 where "sched_init inet_pton K w = sched_basic_place_prefix_list K 10 ''onload'' w4"
    "rules_ok w4" "w_pin_changes w4 = 0" "same_net w w4" "wanted w4 = initial_rules (w_config w)"
    "present w4 = Map.empty" "\<forall>c q. rule_at w4 (c, q) \<noteq> None \<longrightarrow> unat q < 10"
proof -
  let ?cfg = "w_config w"
  have e: "rule_at w = Map.empty" "table b w = Map.empty" for b using ok(3) by (auto simp: rule_at_def table_def)
  obtain w1 where w1: "obj_rule_static_want K 0 1 (goto_rule ?cfg all_v4 1) w = Some w1" "rules_ok w1"
    "w_pin_changes w1 = 0" "same_net w w1" "dom (rule_at w1) = {(0, 1)}"
    "wanted w1 = [(0, 1) \<mapsto> goto_rule ?cfg all_v4 1]" "present w1 = Map.empty"
    by (rule static_want_new [OF ok(1,2), of 0 "goto_rule ?cfg all_v4 1" 1]) (auto simp: e)
  have "rule_at w1 (0, 2) = None" by (rule not_dom) (simp add: w1(5))
  then obtain w2 where
    w2: "obj_rule_static_want K 0 2 (goto_rule ?cfg unicast_v6 2) w1 = Some w2" "rules_ok w2"
    "w_pin_changes w2 = 0" "same_net w w2" "dom (rule_at w2) = {(0, 1), (0, 2)}"
    "wanted w2 = [(0, 1) \<mapsto> goto_rule ?cfg all_v4 1, (0, 2) \<mapsto> goto_rule ?cfg unicast_v6 2]" "present w2 = Map.empty"
    by - (rule static_want_new [OF w1(2,3) _ _, where tcr = "goto_rule ?cfg unicast_v6 2" and K = K], auto simp: w1(5-7) same_net_config [OF w1(4)] dest: same_net_trans [OF w1(4)])
  have "rule_at w2 (1, 1) = None" by (rule not_dom) (simp add: w2(5))
  then obtain w3 where
    w3: "obj_rule_static_want K 1 1 (ttl_rule ?cfg AF_INET) w2 = Some w3" "rules_ok w3"
    "w_pin_changes w3 = 0" "same_net w w3" "dom (rule_at w3) = {(0, 1), (0, 2), (1, 1)}"
    "wanted w3 = [(0, 1) \<mapsto> goto_rule ?cfg all_v4 1, (0, 2) \<mapsto> goto_rule ?cfg unicast_v6 2,
       (1, 1) \<mapsto> ttl_rule ?cfg AF_INET]" "present w3 = Map.empty"
    by - (rule static_want_new [OF w2(2,3) _ _, where tcr = "ttl_rule ?cfg AF_INET" and K = K], auto simp: w2(5-7) same_net_config [OF w2(4)] dest: same_net_trans [OF w2(4)])
  have "rule_at w3 (2, 1) = None" by (rule not_dom) (simp add: w3(5))
  then obtain w4 where
    w4: "obj_rule_static_want K 2 1 (ttl_rule ?cfg AF_INET6) w3 = Some w4" "rules_ok w4"
    "w_pin_changes w4 = 0" "same_net w w4" "dom (rule_at w4) = {(0, 1), (0, 2), (1, 1), (2, 1)}"
    "wanted w4 = initial_rules ?cfg" "present w4 = Map.empty"
    by - (rule static_want_new [OF w3(2,3) _ _, where tcr = "ttl_rule ?cfg AF_INET6" and K = K], auto simp: w3(5-7) same_net_config [OF w3(4)] initial_rules_def dest: same_net_trans [OF w3(4)])
  moreover have "\<forall>c q. rule_at w4 (c, q) \<noteq> None \<longrightarrow> unat q < 10"
  proof (intro allI impI)
    fix c q assume "rule_at w4 (c, q) \<noteq> None"
    then have "(c, q) \<in> {(0, 1), (0, 2), (1, 1), (2, 1)}" using w4(5) by blast
    then show "unat q < 10" by auto
  qed
  ultimately show ?thesis
    using w1(1) w2(1) w3(1) w4 same_net_config [OF w1(4)] same_net_config [OF w2(4)] same_net_config [OF w3(4)]
    by (intro that [of w4]) (simp_all add: sched_init_def sched_basic_initial_requests_def request_af_goto_rule_eq inet request_ttl_check_eq)
qed

lemma sched_init_placed:
  assumes ok: "rules_ok w" "w_pin_changes w = 0" "w_pos_tree w = Null"
    and inet: "inet_pton AF_INET6 ''2000::'' = Some (0x20 # replicate 15 0)"
    and pfxs: "pfxs = (case onload_lookup_prefix_list ''onload'' (w_config w) of None \<Rightarrow> [] | Some l \<Rightarrow> pl_entries l)"
      "\<forall>pfx\<in>set pfxs. wf_af_addr pfx \<and> aa_af pfx \<in> {AF_INET, AF_INET6}" "length pfxs < 65000"
  obtains w' prios where "sched_init inet_pton K w = Some w'" "rules_ok w'" "same_net w w'" "present w' = Map.empty"
    "length prios = length pfxs" "\<forall>prio\<in>set prios. 10 \<le> prio" "distinct (prefix_keys pfxs prios)"
    "wanted w' = initial_rules (w_config w) ++ map_of (prefix_rules (w_config w) pfxs prios)"
proof -
  obtain w4 where w4: "sched_init inet_pton K w = sched_basic_place_prefix_list K 10 ''onload'' w4"
    "rules_ok w4" "w_pin_changes w4 = 0" "same_net w w4" "wanted w4 = initial_rules (w_config w)"
    "present w4 = Map.empty" "\<forall>c q. rule_at w4 (c, q) \<noteq> None \<longrightarrow> unat q < 10"
    by (rule initial_requests [where inet_pton = inet_pton and K = K, OF ok inet])
  from place_prefixes_placed [OF w4(2,3) pfxs(2) w4(7), of 10 K] pfxs(3) obtain w' prios where
    w': "place_prefixes K 10 pfxs w4 = Some w'" "placed 10 pfxs prios w4 w'" by auto
  have "sched_basic_place_prefix_list K 10 ''onload'' w4 = Some w'"
    using w'(1) same_net_config [OF w4(4)] pfxs(1)
    by (cases "onload_lookup_prefix_list ''onload'' (w_config w)") (simp_all add: sched_basic_place_prefix_list_def)
  then have "sched_init inet_pton K w = Some w'"
    by (simp add: w4(1))
  moreover have "same_net w w'" using same_net_trans [OF w4(4)] w'(2) by (simp add: placed_def)
  ultimately show thesis
    using w'(2) w4(5,6) same_net_config [OF w4(4)] by (intro that [of w' prios]) (simp_all add: placed_def)
qed

text \<open>From an empty table the scheduler wants a rule that sends each address family to its chain, a
  check for expiring packets at the head of either chain, a trap rule for every prefix of the
  list named onload, and nothing else. (\<open>inet_pton\<close> reads the text 2000:: as that address.)\<close>

theorem sched_init_correct:
  assumes ok: "rules_ok w" "w_pin_changes w = 0" "w_pos_tree w = Null"
    and inet: "inet_pton AF_INET6 ''2000::'' = Some (0x20 # replicate 15 0)"
    and pfxs: "pfxs = (case onload_lookup_prefix_list ''onload'' (w_config w) of None \<Rightarrow> [] | Some l \<Rightarrow> pl_entries l)"
      "\<forall>pfx\<in>set pfxs. wf_af_addr pfx \<and> aa_af pfx \<in> {AF_INET, AF_INET6}" "length pfxs < 65000"
  shows "\<exists>w' prios. sched_init inet_pton K w = Some w' \<and> rules_ok w' \<and> present w' = Map.empty
    \<and> length prios = length pfxs \<and> (\<forall>prio\<in>set prios. 10 \<le> prio)
    \<and> distinct (map2 (\<lambda>pfx prio. (af_chain pfx, prio)) pfxs prios)
    \<and> wanted w' = initial_rules (w_config w)
        ++ map_of (map2 (\<lambda>pfx prio. ((af_chain pfx, prio), onload_rule (w_config w) pfx)) pfxs prios)"
proof -
  obtain w' prios where w': "sched_init inet_pton K w = Some w'" "rules_ok w'" "same_net w w'" "present w' = Map.empty"
    "length prios = length pfxs" "\<forall>prio\<in>set prios. 10 \<le> prio" "distinct (prefix_keys pfxs prios)"
    "wanted w' = initial_rules (w_config w) ++ map_of (prefix_rules (w_config w) pfxs prios)"
    by (rule sched_init_placed [where inet_pton = inet_pton and K = K, OF ok inet pfxs])
  then show ?thesis
    by (intro exI [of _ w'] exI [of _ prios]) (simp add: prefix_keys_def prefix_rules_def)
qed


section \<open>Concrete instances\<close>

definition demo_prefix :: af_addr where
  "demo_prefix = zero_af_addr\<lparr>aa_in := [192, 0, 2, 0] @ replicate 12 0, aa_af := AF_INET, aa_mask_len := 24\<rparr>"

definition demo_config :: config where
  "demo_config = (config_init ''flower-route'')\<lparr>cfg_prefix_lists :=
     [\<lparr>pl_name = ''onload'', pl_entries = [demo_prefix, demo_prefix]\<rparr>]\<rparr>"

definition demo_world :: world where
  "demo_world = initial_world (\<lambda>_. True) demo_config"

definition demo_inet_pton :: "u8 \<Rightarrow> string \<Rightarrow> bytes option" where
  "demo_inet_pton f s = (if f = AF_INET6 \<and> s = ''2000::'' then Some (0x20 # replicate 15 0) else None)"

definition no_calls :: calls where
  "no_calls c w = None"

lemma wf_demo_prefix [simp]: "wf_af_addr demo_prefix" "aa_af demo_prefix = AF_INET"
  by (simp_all add: demo_prefix_def)

lemma demo_world_ok:
  "rules_ok demo_world" "w_pin_changes demo_world = 0" "w_pos_tree demo_world = Null"
  "rule_at demo_world = Map.empty" "wanted demo_world = Map.empty" "present demo_world = Map.empty"
  by (simp_all add: demo_world_def initial_world_def rules_ok_def pos_ok_def fresh_ok_def owned_def slots_def
      laf_ok_def rule_at_def rbt_ok_def table_def fun_eq_iff)

lemma obj_rule_static_want_witness:
  "\<exists>w'. obj_rule_static_want no_calls 1 100 (ttl_rule demo_config AF_INET) demo_world = Some w'
     \<and> rules_ok w' \<and> dom (rule_at w') = {(1, 100)} \<and> wanted w' = [(1, 100) \<mapsto> ttl_rule demo_config AF_INET]"
  using obj_rule_static_want_correct [OF demo_world_ok(1,2), of 1 "ttl_rule demo_config AF_INET" 100 no_calls]
  by (auto simp: demo_world_ok)

lemma obj_rule_find_available_prio_witness:
  "\<exists>w' prio. rule_at w' (1, 100) \<noteq> None \<and> obj_rule_find_available_prio 1 100 w' = Some prio \<and> 100 \<le> prio
     \<and> rule_at w' (1, prio) = None"
proof -
  obtain w' where w': "rules_ok w'" "dom (rule_at w') = {(1, 100)}"
    by (rule static_want_new [OF demo_world_ok(1,2), where chain_no = 1 and prio = 100
          and tcr = "ttl_rule demo_config AF_INET" and K = no_calls]) (auto simp: demo_world_ok)
  have at: "rule_at w' (1, prio) \<noteq> None \<longleftrightarrow> prio = 100" for prio
    using w'(2) by (metis (mono_tags) domIff insertCI insertE prod.inject singletonD)
  then have "\<forall>prio p. rule_at w' (1, prio) = Some p \<longrightarrow> prio < 65535" by auto
  with obj_rule_find_available_prio_correct [of w' 1 100] w'(1) at [of 100] show ?thesis
    by (auto simp: rules_ok_def intro!: exI [of _ w'])
qed

lemma obj_rule_netlink_found_witness:
  "\<exists>w'. obj_rule_netlink_found no_calls RTM_NEWTFILTER 7 1 (ttl_rule demo_config AF_INET) demo_world = Some w'
     \<and> present w' = [(7, 1) \<mapsto> ttl_rule demo_config AF_INET] \<and> wanted w' = Map.empty"
  using obj_rule_netlink_found_correct [OF demo_world_ok(1,2), of 7 "ttl_rule demo_config AF_INET" no_calls 1]
  by (auto simp: demo_world_ok)

lemma place_prefixes_witness:
  "\<exists>w' prio. place_prefixes no_calls 10 [demo_prefix] demo_world = Some w' \<and> 10 \<le> prio
     \<and> wanted w' = [(1, prio) \<mapsto> onload_rule demo_config demo_prefix]"
proof -
  have "w_config demo_world = demo_config" by (simp add: demo_world_def initial_world_def)
  with place_prefixes_correct [OF demo_world_ok(1,2), of "[demo_prefix]" 10 10 no_calls] show ?thesis
    by (auto simp: demo_world_ok length_Suc_conv af_chain_def)
qed

lemma sched_init_witness:
  "\<exists>w' p q. sched_init demo_inet_pton no_calls demo_world = Some w' \<and> p \<noteq> q \<and> 10 \<le> p \<and> 10 \<le> q
     \<and> wanted w' = initial_rules demo_config
         ++ [(1, p) \<mapsto> onload_rule demo_config demo_prefix, (1, q) \<mapsto> onload_rule demo_config demo_prefix]"
proof -
  have cfg: "w_config demo_world = demo_config" by (simp add: demo_world_def initial_world_def)
  have pfxs: "[demo_prefix, demo_prefix] = (case onload_lookup_prefix_list ''onload'' (w_config demo_world) of
      None \<Rightarrow> [] | Some l \<Rightarrow> pl_entries l)"
    by (simp add: cfg demo_config_def onload_lookup_prefix_list_def)
  have inet: "demo_inet_pton AF_INET6 ''2000::'' = Some (0x20 # replicate 15 0)" by (simp add: demo_inet_pton_def)
  show ?thesis
    using sched_init_correct [where inet_pton = demo_inet_pton and K = no_calls, OF demo_world_ok(1-3) inet pfxs]
    by (auto simp: cfg length_Suc_conv af_chain_def fun_upd_twist) blast
qed

end
