(* ===== verification/World_Rel.thy ===== *)
theory World_Rel
  imports Daemon Obj_Lemmas
begin

text \<open>
  A calculus for the daemon's operations: which relations between the states before and after
  every operation keeps. A preorder on states that contains the updates of the object store,
  the queueing of a request and the re-entrant calls of an operation contains every operation but
  the execution of an item, which sends a request in between (\<open>ops_rel\<close>); if it contains the
  sending of a request as well, it contains that too (\<open>world_rel\<close>). The rules follow the
  structure of the operations' do-blocks, so that each operation is proved by applying them.
\<close>

section \<open>Updates of the store\<close>

text \<open>
  An update is local when it leaves the queue, the connection, the messages sent and the
  configuration alone, and hands out no pointer twice.
\<close>

definition local_upd :: "world \<Rightarrow> world \<Rightarrow> bool" where
  "local_upd w w' \<longleftrightarrow> w_queue w' = w_queue w \<and> w_sent w' = w_sent w \<and> w_config w' = w_config w
     \<and> w_send_ok w' = w_send_ok w \<and> sc_conn (w_scan w') = sc_conn (w_scan w)
     \<and> w_next w \<le> w_next w' \<and> (fresh_ok w \<longrightarrow> fresh_ok w')"

text \<open>An item is being executed and has sent nothing yet.\<close>

definition running :: "world \<Rightarrow> bool" where
  "running w \<longleftrightarrow> q_is_busy (w_queue w) \<and> \<not> q_has_sent_request (w_queue w)"

text \<open>The request that belongs to an item: a dump of the tables it is about, or an encoded rule.\<close>

definition request_fits :: "config \<Rightarrow> execute_fn \<Rightarrow> request \<Rightarrow> bool" where
  "request_fits cfg f req = (case f of
     Exec_tc_action p \<Rightarrow> (case req of Req_filter m \<Rightarrow> True | _ \<Rightarrow> False)
   | Exec_scan_filters \<Rightarrow> req = Req_dump_qdisc (cfg_ifidx cfg)
   | Exec_scan_links \<Rightarrow> req = Req_dump_link
   | Exec_scan_neigh4 \<Rightarrow> req = Req_dump_neigh AF_INET
   | Exec_scan_neigh6 \<Rightarrow> req = Req_dump_neigh AF_INET6
   | Exec_scan_route4 \<Rightarrow> req = Req_dump_route AF_INET (cfg_table_id cfg)
   | Exec_scan_route6 \<Rightarrow> req = Req_dump_route AF_INET6 (cfg_table_id cfg)
   | Exec_scan_chains \<Rightarrow> req = Req_dump_chains (cfg_ifidx cfg)
   | Exec_scan_chain \<Rightarrow> (\<exists>no. req = Req_dump_chain (cfg_ifidx cfg) no)
   | Exec_scan_break \<Rightarrow> False)"

named_theorems rel "rules for the relations that operations keep"

locale ops_rel =
  fixes R :: "world \<Rightarrow> world \<Rightarrow> bool" and K :: calls
  assumes R_refl [intro!, simp]: "R w w"
    and R_trans: "R w1 w2 \<Longrightarrow> R w2 w3 \<Longrightarrow> R w1 w3"
    and R_local: "local_upd w w' \<Longrightarrow> R w w'"
    and R_schedule: "queue_schedule K ex co w = Some w' \<Longrightarrow> R w w'"
    and R_init: "queue_init w = Some w' \<Longrightarrow> R w w'"
    and R_notify: "K (Call_target_notify_routes p) w = Some w' \<Longrightarrow> R w w'"
    and R_route_unref: "K (Call_route_unref p) w = Some w' \<Longrightarrow> R w w'"
begin

definition ok :: "world \<Rightarrow> world option \<Rightarrow> bool" where
  "ok w m \<longleftrightarrow> (\<forall>w'. m = Some w' \<longrightarrow> R w w')"

definition okp :: "world \<Rightarrow> ('x \<times> world) option \<Rightarrow> bool" where
  "okp w m \<longleftrightarrow> (\<forall>x w'. m = Some (x, w') \<longrightarrow> R w w')"

lemma okD: "ok w m \<Longrightarrow> m = Some w' \<Longrightarrow> R w w'" and okpD: "okp w n \<Longrightarrow> n = Some (x, w') \<Longrightarrow> R w w'"
  by (simp_all add: ok_def okp_def)

lemma okI: "(\<And>w'. m = Some w' \<Longrightarrow> R w1 w') \<Longrightarrow> R w w1 \<Longrightarrow> ok w m"
  by (auto simp: ok_def intro: R_trans)

section \<open>The structure of do-blocks\<close>

lemma ok_None [rel]: "ok w None" and okp_None [rel]: "okp w None"
  by (simp_all add: ok_def okp_def)

lemma ok_Some [rel]: "R w w1 \<Longrightarrow> ok w (Some w1)" and okp_Some [rel]: "R w w1 \<Longrightarrow> okp w (Some (x, w1))"
  by (simp_all add: ok_def okp_def)

lemma ok_world [rel]: "ok w m \<Longrightarrow> (\<And>w1. R w w1 \<Longrightarrow> ok w (f w1)) \<Longrightarrow> ok w (m \<bind> f)"
  and okp_world [rel]: "ok w m \<Longrightarrow> (\<And>w1. R w w1 \<Longrightarrow> okp w (g w1)) \<Longrightarrow> okp w (m \<bind> g)"
  by (auto simp: ok_def okp_def elim!: bind_SomeE)

lemma ok_pair [rel]: "okp w m \<Longrightarrow> (\<And>x w1. R w w1 \<Longrightarrow> ok w (f x w1)) \<Longrightarrow> ok w (m \<bind> (\<lambda>(x, w). f x w))"
  and okp_pair [rel]: "okp w m \<Longrightarrow> (\<And>x w1. R w w1 \<Longrightarrow> okp w (g x w1)) \<Longrightarrow> okp w (m \<bind> (\<lambda>(x, w). g x w))"
  by (auto simp: ok_def okp_def elim!: bind_SomeE)

lemma ok_read: "(\<And>x. m = Some x \<Longrightarrow> ok w (f x)) \<Longrightarrow> ok w (m \<bind> f)"
  and okp_read: "(\<And>x. m = Some x \<Longrightarrow> okp w (g x)) \<Longrightarrow> okp w (m \<bind> g)"
  by (auto simp: ok_def okp_def elim!: bind_SomeE)

lemmas reads [rel] =
  ok_read [where 'a = unit] okp_read [where 'a = unit]
  ok_read [where 'a = nat] okp_read [where 'a = nat]
  ok_read [where 'a = bool] okp_read [where 'a = bool]
  ok_read [where 'a = "'x word"] okp_read [where 'a = "'x word"]
  ok_read [where 'a = "'x option"] okp_read [where 'a = "'x option"]
  ok_read [where 'a = "'x list"] okp_read [where 'a = "'x list"]
  ok_read [where 'a = "'x rb"] okp_read [where 'a = "'x rb"]
  ok_read [where 'a = "'x rb \<times> bool"] okp_read [where 'a = "'x rb \<times> bool"]
  ok_read [where 'a = "'x list \<times> nat"] okp_read [where 'a = "'x list \<times> nat"]
  ok_read [where 'a = "'x word \<times> 'y rb"] okp_read [where 'a = "'x word \<times> 'y rb"]
  ok_read [where 'a = "mnl_cb \<times> 'x"] okp_read [where 'a = "mnl_cb \<times> 'x"]
  ok_read [where 'a = "'x obj_core_ext"] okp_read [where 'a = "'x obj_core_ext"]
  ok_read [where 'a = "'x obj_link_ext"] okp_read [where 'a = "'x obj_link_ext"]
  ok_read [where 'a = "'x obj_neigh_ext"] okp_read [where 'a = "'x obj_neigh_ext"]
  ok_read [where 'a = "'x obj_target_ext"] okp_read [where 'a = "'x obj_target_ext"]
  ok_read [where 'a = "'x obj_route_ext"] okp_read [where 'a = "'x obj_route_ext"]
  ok_read [where 'a = "'x obj_rule_ext"] okp_read [where 'a = "'x obj_rule_ext"]
  ok_read [where 'a = "'x tc_rule_ext"] okp_read [where 'a = "'x tc_rule_ext"]
  ok_read [where 'a = "'x tc_action_ext"] okp_read [where 'a = "'x tc_action_ext"]
  ok_read [where 'a = "'x af_addr_ext"] okp_read [where 'a = "'x af_addr_ext"]
  ok_read [where 'a = "'x nlmsg_ext"] okp_read [where 'a = "'x nlmsg_ext"]

lemma ok_if [rel]: "(b \<Longrightarrow> ok w m) \<Longrightarrow> (\<not> b \<Longrightarrow> ok w m') \<Longrightarrow> ok w (if b then m else m')"
  and okp_if [rel]: "(b \<Longrightarrow> okp w n) \<Longrightarrow> (\<not> b \<Longrightarrow> okp w n') \<Longrightarrow> okp w (if b then n else n')"
  by simp_all

lemma ok_case [rel]:
  "(x = None \<Longrightarrow> ok w m) \<Longrightarrow> (\<And>y. x = Some y \<Longrightarrow> ok w (f y)) \<Longrightarrow> ok w (case x of None \<Rightarrow> m | Some y \<Rightarrow> f y)"
  "(x = None \<Longrightarrow> okp w n) \<Longrightarrow> (\<And>y. x = Some y \<Longrightarrow> okp w (g y)) \<Longrightarrow> okp w (case x of None \<Rightarrow> n | Some y \<Rightarrow> g y)"
  by (cases x; simp)+

lemma ok_case_list [rel]:
  "(x = [] \<Longrightarrow> ok w m) \<Longrightarrow> (\<And>y ys. x = y # ys \<Longrightarrow> ok w (f y ys)) \<Longrightarrow> ok w (case x of [] \<Rightarrow> m | y # ys \<Rightarrow> f y ys)"
  "(x = [] \<Longrightarrow> okp w n) \<Longrightarrow> (\<And>y ys. x = y # ys \<Longrightarrow> okp w (g y ys)) \<Longrightarrow> okp w (case x of [] \<Rightarrow> n | y # ys \<Rightarrow> g y ys)"
  by (cases x; simp)+

lemma ok_split [rel]:
  "R w (snd (x :: 'x \<times> world)) \<Longrightarrow> (\<And>p w1. R w w1 \<Longrightarrow> ok w (f p w1)) \<Longrightarrow> ok w (case x of (p, w) \<Rightarrow> f p w)"
  "R w (snd (x :: 'x \<times> world)) \<Longrightarrow> (\<And>p w1. R w w1 \<Longrightarrow> okp w (g p w1)) \<Longrightarrow> okp w (case x of (p, w) \<Rightarrow> g p w)"
  by (cases x; simp)+

lemma ok_prod:
  "(\<And>x y. p = (x, y) \<Longrightarrow> ok w (f x y)) \<Longrightarrow> ok w (case p of (x, y) \<Rightarrow> f x y)"
  "(\<And>x y. p = (x, y) \<Longrightarrow> okp w (g x y)) \<Longrightarrow> okp w (case p of (x, y) \<Rightarrow> g x y)"
  by (cases p; simp)+

lemmas ok_prods [rel] =
  ok_prod [where 'a = "string option"] ok_prod [where 'a = "'x rb"] ok_prod [where 'a = "'x word"]
  ok_prod [where 'a = bytes] ok_prod [where 'a = mnl_cb] ok_prod [where 'a = "'x obj_rule_ext option"]

lemma R_pair [rel]: "R w w1 \<Longrightarrow> R w (snd (p, w1))"
  and R_case [rel]: "(x = None \<Longrightarrow> R w (snd y)) \<Longrightarrow> (\<And>z. x = Some z \<Longrightarrow> R w (snd (h z)))
    \<Longrightarrow> R w (snd (case x of None \<Rightarrow> y | Some z \<Rightarrow> h z))"
  by (simp_all split: option.splits)

section \<open>Updates of the fields\<close>

lemma R_upd [rel]:
  assumes "R w w1"
  shows "R w (w1\<lparr>w_mode := md\<rparr>)" "R w (w1\<lparr>w_link_tree := t\<rparr>)" "R w (w1\<lparr>w_route_tree := t\<rparr>)"
    "R w (w1\<lparr>w_pos_tree := t\<rparr>)" "R w (w1\<lparr>w_laf_tree := t\<rparr>)" "R w (w1\<lparr>w_link_cnt := c\<rparr>)"
    "R w (w1\<lparr>w_neigh_cnt := c\<rparr>)" "R w (w1\<lparr>w_target_cnt := c\<rparr>)" "R w (w1\<lparr>w_route_cnt := c\<rparr>)"
    "R w (w1\<lparr>w_rule_cnt := c\<rparr>)" "R w (w1\<lparr>w_pin_changes := i\<rparr>)" "R w (w1\<lparr>w_chains := ch\<rparr>)"
    "R w (w1\<lparr>w_tacb_hooks := b\<rparr>)" "R w (w1\<lparr>w_break := b\<rparr>)"
  by (rule R_trans [OF assms R_local], simp add: local_upd_def fresh_ok_def)+

lemma R_maps [rel]:
  assumes "R w w1"
  shows "(\<And>q. w_links w1 q = None \<Longrightarrow> ml q = None) \<Longrightarrow> R w (w1\<lparr>w_links := ml\<rparr>)"
    "(\<And>q. w_neighs w1 q = None \<Longrightarrow> mn q = None) \<Longrightarrow> R w (w1\<lparr>w_neighs := mn\<rparr>)"
    "(\<And>q. w_targets w1 q = None \<Longrightarrow> mt q = None) \<Longrightarrow> R w (w1\<lparr>w_targets := mt\<rparr>)"
    "(\<And>q. w_routes w1 q = None \<Longrightarrow> mr q = None) \<Longrightarrow> R w (w1\<lparr>w_routes := mr\<rparr>)"
    "(\<And>q. w_rules w1 q = None \<Longrightarrow> mu q = None) \<Longrightarrow> R w (w1\<lparr>w_rules := mu\<rparr>)"
    "(\<And>q. w_tcrs w1 q = None \<Longrightarrow> mc q = None) \<Longrightarrow> R w (w1\<lparr>w_tcrs := mc\<rparr>)"
    "(\<And>q. w_actions w1 q = None \<Longrightarrow> ma q = None) \<Longrightarrow> R w (w1\<lparr>w_actions := ma\<rparr>)"
  by (rule R_trans [OF assms R_local], simp add: local_upd_def fresh_ok_def)+

lemma R_scan [rel]: "R w w1 \<Longrightarrow> (\<And>s. sc_conn (f s) = sc_conn s) \<Longrightarrow> R w (mod_scan f w1)"
  by (erule R_trans, rule R_local, simp add: local_upd_def fresh_ok_def mod_scan_def)

lemma mod_ok [rel]:
  assumes "R w w1"
  shows "ok w (mod_link p fl w1)" "ok w (mod_neigh p fn w1)" "ok w (mod_target p ft w1)"
    "ok w (mod_route p fr w1)" "ok w (mod_rule p fu w1)"
  unfolding mod_link_def mod_neigh_def mod_target_def mod_route_def mod_rule_def
  by (auto intro!: rel assms split: if_splits)

lemma R_alloc [rel]:
  assumes "R w w1"
  shows "R w (snd (obj_link_alloc ifindex w1))" "R w (snd (obj_neigh_alloc w1))"
    "R w (snd (obj_target_alloc w1))" "R w (snd (obj_route_alloc dst w1))"
    "R w (snd (obj_rule_alloc w1))" "R w (snd (new_tcr r w1))"
  by (rule R_trans [OF assms R_local], auto simp: local_upd_def fresh_ok_def Let_def Suc_le_eq obj_link_alloc_def
    obj_neigh_alloc_def obj_target_alloc_def obj_route_alloc_def obj_rule_alloc_def new_tcr_def)+


section \<open>The objects' operations\<close>

lemma ref_ok [rel]:
  assumes "R w w1"
  shows "ok w (obj_link_weak_ref p w1)" "ok w (obj_link_weak_unref p w1)" "ok w (obj_link_ref p w1)"
    "ok w (obj_neigh_ref p w1)" "ok w (obj_neigh_weak_ref p w1)" "ok w (obj_neigh_weak_unref p w1)"
    "ok w (obj_target_ref p w1)" "ok w (obj_target_weak_ref p w1)" "ok w (obj_target_weak_unref p w1)"
    "ok w (obj_route_ref p w1)" "ok w (obj_rule_ref p w1)"
  unfolding obj_link_weak_ref_def obj_link_weak_unref_def obj_link_ref_def obj_neigh_ref_def
    obj_neigh_weak_ref_def obj_neigh_weak_unref_def obj_target_ref_def obj_target_weak_ref_def
    obj_target_weak_unref_def obj_route_ref_def obj_rule_ref_def
  by (intro rel assms)+

lemma free_tcr_ok [rel]: "R w w1 \<Longrightarrow> ok w (free_tcr q w1)" "R w w1 \<Longrightarrow> ok w (free_tcr_opt q1 w1)"
  unfolding free_tcr_def free_tcr_opt_def by ((intro rel | assumption | simp split: if_splits)+)

lemma schedule_ok [rel]:
  assumes "R w w1"
  shows "ok w (queue_schedule K ex co w1)" "ok w (K (Call_target_notify_routes p) w1)" "ok w (K (Call_route_unref p) w1)"
  by (rule okI [OF _ assms], rule R_schedule R_notify R_route_unref, assumption)+

lemma tc_action_done_ok [rel]: "R w w1 \<Longrightarrow> ok w (tc_action_done p w1)"
  unfolding tc_action_done_def by (auto intro!: rel split: if_splits)

lemma tc_action_install_ok [rel]: "R w w1 \<Longrightarrow> ok w (tc_action_install K chain_no prio tcr data w1)"
proof -
  define w2 where "w2 = w1\<lparr>w_actions := (w_actions w1)(w_next w1 \<mapsto>
    \<lparr>tca_chain_no = chain_no, tca_prio = prio, tca_tcr = tcr, tca_data = data\<rparr>), w_next := Suc (w_next w1)\<rparr>"
  assume "R w w1"
  moreover have "local_upd w1 w2" by (auto simp: local_upd_def fresh_ok_def w2_def)
  ultimately have "R w w2" by (blast intro: R_trans R_local)
  then show ?thesis
    by (simp add: tc_action_install_def Let_def w2_def [symmetric] rel)
qed

section \<open>Rules\<close>

lemma rule_index_ok [rel]:
  assumes "R w w1"
  shows "ok w (obj_rule_laf_insert p w1)" "ok w (obj_rule_pos_insert p w1)"
    "ok w (set_rule_state p st w1)" "ok w (obj_rule_pre_install p w1)" "okp w (sched_place tcr w1)"
    "ok w (obj_rule_unset_target p w1)" "ok w (obj_rule_set_target p t w1)"
  unfolding obj_rule_laf_insert_def obj_rule_pos_insert_def set_rule_state_def obj_rule_pre_install_def
    sched_place_def sched_basic_place_def obj_rule_unset_target_def obj_rule_set_target_def
  by (auto intro!: rel assms split: tc_rule_types.split)

lemma rule_queue_ok [rel]:
  assumes "R w w1"
  shows "ok w (obj_rule_queue_install K p w1)" "ok w (obj_rule_queue_uninstall K p w1)"
  unfolding obj_rule_queue_install_def obj_rule_queue_uninstall_def
  by (auto intro!: rel assms)

lemma rule_update_ok [rel]: "R w w1 \<Longrightarrow> ok w (obj_rule_update_state K p w1)"
  unfolding obj_rule_update_state_def by (auto intro!: rel)

lemma rule_reap_ok [rel]: "R w w1 \<Longrightarrow> ok w (obj_rule_reap p w1)" "R w w1 \<Longrightarrow> ok w (obj_rule_uninstall K p w1)"
  unfolding obj_rule_reap_def obj_rule_uninstall_def by (auto intro!: rel split: if_splits)

lemma rule_unref_ok [rel]:
  assumes "R w w1"
  shows "ok w (obj_rule_unref K p w1)" "ok w (obj_rule_post_install K p w1)"
  unfolding obj_rule_unref_def obj_rule_post_install_def by (auto intro!: rel assms)

lemma rule_request_ok [rel]:
  assumes "R w w1"
  shows "ok w (obj_rule_new K p w1)" "ok w (obj_rule_delete K p w1)" "okp w (obj_rule_prime_request tcr w1)"
    "ok w (obj_rule_queue_request K p w1)" "okp w (obj_rule_request K tcr w1)"
    "ok w (obj_rule_static_want K chain_no prio tcr w1)" "R w (obj_rule_reset_pin w1)" "R w (obj_rule_init w1)"
  unfolding obj_rule_new_def obj_rule_delete_def obj_rule_prime_request_def obj_rule_queue_request_def
    obj_rule_request_def obj_rule_static_want_def Let_def obj_rule_reset_pin_def obj_rule_init_def
  by (auto intro!: rel assms)

lemma rule_found_ok [rel]: "R w w1 \<Longrightarrow> ok w (obj_rule_netlink_found K nltype chain_no prio tcr w1)"
  unfolding obj_rule_netlink_found_def Let_def by (auto intro!: rel)

lemma remove_pin_pass_ok [rel]: "R w w1 \<Longrightarrow> ok w (remove_pin_pass K fuel q w1)"
  by (induction fuel arbitrary: q w1; case_tac q) (auto intro!: rel)

lemma remove_pin_loop_ok [rel]: "R w w1 \<Longrightarrow> ok w (remove_pin_loop K fuel is w1)"
  by (induction "is" arbitrary: w1) (auto intro!: rel simp: Let_def)

lemma clear_pass_ok [rel]: "R w w1 \<Longrightarrow> ok w (clear_pass K tree fuel q w1)"
  by (induction fuel arbitrary: q w1; case_tac q) (auto intro!: rel)

lemma place_prefixes_ok [rel]: "R w w1 \<Longrightarrow> ok w (place_prefixes K base_prio pfxs w1)"
  by (induction pfxs arbitrary: w1) (auto intro!: rel simp: request_onload_rule_def Let_def)

lemma sched_ok [rel]:
  assumes "R w w1"
  shows "ok w (obj_rule_remove_pin K fuel w1)" "ok w (obj_rule_clear_all K fuel w1)" "ok w (sched_init pton K w1)"
  unfolding obj_rule_remove_pin_def obj_rule_clear_all_def sched_init_def sched_basic_initial_requests_def
    request_af_goto_rule_def request_ttl_check_def sched_basic_place_prefix_list_def Let_def
  by (auto intro!: rel assms)

section \<open>Targets and routes\<close>

lemma route_install_ok [rel]: "R w w1 \<Longrightarrow> ok w (obj_rule_ref_opt q w1)" "R w w1 \<Longrightarrow> ok w (obj_route_install K p w1)"
  unfolding obj_rule_ref_opt_def obj_route_install_def Let_def by (auto intro!: rel)

lemma notify_routes_loop_ok [rel]: "R w w1 \<Longrightarrow> ok w (notify_routes_loop K fuel t q w1)"
  by (induction fuel arbitrary: q w1; case_tac q) (auto intro!: rel)

lemma unref_nexthops_ok [rel]: "R w w1 \<Longrightarrow> ok w (unref_nexthops ns w1)"
  by (induction ns arbitrary: w1) (auto intro!: rel)

lemma unref_routes_loop_ok [rel]: "R w w1 \<Longrightarrow> ok w (unref_routes_loop K fuel q w1)"
  by (induction fuel arbitrary: q w1; case_tac q) (auto intro!: rel)

lemma target_ok [rel]:
  assumes "R w w1"
  shows "ok w (obj_target_notify_routes K p w1)" "ok w (obj_target_reap K p w1)"
    "okp w (obj_target_get_unipath p w1)"
  unfolding obj_target_notify_routes_def obj_target_reap_def obj_target_get_unipath_def Let_def
  by (auto intro!: rel assms)

lemma target_set_rule_ok [rel]:
  assumes "R w w1"
  shows "ok w (obj_target_unref K p w1)" "ok w (obj_target_set_rule K p r w1)"
  unfolding obj_target_unref_def obj_target_set_rule_def
  by (auto intro!: rel assms)

lemma target_update_ok [rel]:
  assumes "R w w1"
  shows "ok w (obj_target_install K p w1)" "ok w (obj_target_neigh_update K p w1)"
  unfolding obj_target_install_def obj_target_neigh_update_def
  by (auto intro!: rel assms)

lemma target_link_ok [rel]: "R w w1 \<Longrightarrow> ok w (obj_target_link_route K tp rp w1)"
  unfolding obj_target_link_route_def by (auto intro!: rel)

lemma unlink_route_loop_ok [rel]: "R w w1 \<Longrightarrow> ok w (unlink_route_loop K fuel tp rp prev q w1)"
  by (induction fuel arbitrary: prev q w1; case_tac q) (auto intro!: rel)

lemma target_unlink_ok [rel]: "R w w1 \<Longrightarrow> ok w (obj_target_unlink_route K tp rp w1)"
  unfolding obj_target_unlink_route_def by (auto intro!: rel)

lemma route_reap_ok [rel]: "R w w1 \<Longrightarrow> ok w (obj_route_reap K p w1)"
  unfolding obj_route_reap_def by (auto intro!: rel split: if_splits)

lemma route_unref_ok [rel]: "R w w1 \<Longrightarrow> ok w (obj_route_unref K p w1)"
  unfolding obj_route_unref_def by (auto intro!: rel)

lemma route_ok [rel]:
  assumes "R w w1"
  shows "ok w (obj_route_insert p w1)" "ok w (obj_route_update p w1)" "ok w (obj_route_delete K p w1)"
  unfolding obj_route_insert_def obj_route_update_def obj_route_delete_def by (auto intro!: rel assms)

lemma route_update_ok [rel]: "R w w1 \<Longrightarrow> ok w (obj_route_netlink_update K nltype tp dst w1)"
  unfolding obj_route_netlink_update_def obj_route_new_def Let_def by (auto intro!: rel)

section \<open>Neighbours and links\<close>

lemma neigh_base_ok [rel]:
  assumes "R w w1"
  shows "ok w (obj_neigh_unlink p w1)" "ok w (obj_neigh_fdb_insert p w1)" "ok w (set_neigh_state p st w1)"
  unfolding obj_neigh_unlink_def obj_neigh_fdb_insert_def set_neigh_state_def by (auto intro!: rel assms)

lemma unref_targets_loop_ok [rel]: "R w w1 \<Longrightarrow> ok w (unref_targets_loop K fuel q w1)"
  by (induction fuel arbitrary: q w1; case_tac q) (auto intro!: rel)

lemma neigh_reap_ok [rel]: "R w w1 \<Longrightarrow> ok w (obj_neigh_reap K p w1)"
  unfolding obj_neigh_reap_def by (auto intro!: rel split: if_splits)

lemma neigh_unref_ok [rel]: "R w w1 \<Longrightarrow> ok w (obj_neigh_unref K p w1)" "R w w1 \<Longrightarrow> ok w (obj_neigh_delete K p w1)"
  unfolding obj_neigh_unref_def obj_neigh_delete_def by (auto intro!: rel)

lemma notify_targets_loop_ok [rel]: "R w w1 \<Longrightarrow> ok w (notify_targets_loop K fuel q w1)"
  by (induction fuel arbitrary: q w1; case_tac q) (auto intro!: rel)

lemma neigh_ok [rel]:
  assumes "R w w1"
  shows "ok w (obj_neigh_notify_targets K p w1)" "ok w (obj_neigh_link_update K p w1)"
    "ok w (obj_neigh_new K p w1)" "ok w (obj_neigh_update K p w1)" "ok w (obj_neigh_link_gone K p w1)"
  unfolding obj_neigh_notify_targets_def obj_neigh_link_update_def obj_neigh_new_def obj_neigh_update_def
    obj_neigh_link_gone_def
  by (auto intro!: rel assms)

lemma link_loops_ok [rel]:
  assumes "R w w1"
  shows "ok w (link_gone_loop K fuel lp q w1)" "ok w (link_update_loop K fuel lp q w1)"
  using assms by (induction fuel arbitrary: q w1; case_tac q; auto intro!: rel)+

lemma link_reap_ok [rel]: "R w w1 \<Longrightarrow> ok w (obj_link_reap K p w1)"
  unfolding obj_link_reap_def by (auto intro!: rel split: if_splits)

lemma link_ok [rel]:
  assumes "R w w1"
  shows "ok w (obj_link_unref K p w1)" "ok w (obj_link_insert p w1)" "ok w (obj_link_update K p w1)"
    "ok w (obj_link_delete K p w1)"
  unfolding obj_link_unref_def obj_link_insert_def obj_link_update_def obj_link_delete_def
  by (auto intro!: rel assms)

lemma link_netlink_ok [rel]: "R w w1 \<Longrightarrow>
    ok w (obj_link_netlink_update K nltype ifindex lladdr lower_ifindex vlan_id mtu ifname w1)"
  unfolding obj_link_netlink_update_def obj_link_new_def Let_def by (auto intro!: rel)

lemma neigh_netlink_ok [rel]:
  assumes "R w w1"
  shows "ok w (obj_neigh_netlink_update K nltype ifindex f addr lladdr w1)"
    "okp w (obj_neigh_netlink_get ifindex f addr w1)"
  unfolding obj_neigh_netlink_update_def obj_neigh_netlink_get_def Let_def by (auto intro!: rel assms)

section \<open>The scan and the messages\<close>

lemma init_ok [rel]: "R w w1 \<Longrightarrow> ok w (queue_init w1)"
  by (rule okI [OF R_init]) auto

lemma scan_loop_ok [rel]: "R w w1 \<Longrightarrow> ok w (advance_scan_loop K pin_fuel n w1)"
proof (induction n arbitrary: w1)
  case (Suc n)
  show ?case
    using Suc.prems by (auto intro!: rel Suc.IH simp: Let_def split: scan_state.split)
qed (simp add: rel)

lemma scan_ok [rel]:
  assumes "R w w1"
  shows "ok w (advance_scan K pin_fuel w1)" "ok w (scan_timeout_cb K pin_fuel w1)"
  unfolding advance_scan_def scan_timeout_cb_def Let_def by (auto intro!: rel assms)

lemma completed_ok [rel]: "R w w1 \<Longrightarrow> ok w (completed K pin_fuel co nl_errno w1)"
  unfolding completed_def by (auto intro!: rel split: completed_fn.split)

lemma decode_link_ok [rel]: "R w w1 \<Longrightarrow> okp w (decode_link L K nltype ifi attrs w1)"
  unfolding decode_link_def Let_def by (auto intro!: rel)

lemma decode_neigh_ok [rel]: "R w w1 \<Longrightarrow> okp w (decode_neigh L K nltype ndm attrs w1)"
  unfolding decode_neigh_def by (auto intro!: rel)

lemma decode_multipath_ok [rel]:
  fixes L :: "'y libmnl"
  shows "R w w1 \<Longrightarrow> okp w (decode_multipath L rt_nexthops attr f types w1)"
  unfolding decode_multipath_def by (cases "rt_nexthops attr") (auto intro!: rel okp_read [where 'a = 'y])

lemma decode_route_ok [rel]:
  fixes L :: "'y libmnl"
  shows "R w w1 \<Longrightarrow> okp w (decode_route L rt_nexthops K nltype rm attrs w1)"
  unfolding decode_route_def Let_def by (auto intro!: rel okp_read [where 'a = 'y])

lemma decode_filter_ok [rel]: "R w w1 \<Longrightarrow> okp w (decode_filter L K m w1)"
  unfolding decode_filter_def by (auto intro!: rel)

lemma decode_nlmsg_ok [rel]: "R w w1 \<Longrightarrow> okp w (decode_nlmsg_cb L rt_nexthops K m w1)"
  unfolding decode_nlmsg_cb_def by (auto intro!: rel split: nl_message.split)

lemma callback_bodies:
  "completed K pin_fuel co nl_errno w = Some w' \<Longrightarrow> R w w'"
  "obj_target_notify_routes K p w = Some w' \<Longrightarrow> R w w'"
  "obj_route_unref K p w = Some w' \<Longrightarrow> R w w'"
  using completed_ok [OF R_refl] target_ok(1) [OF R_refl] route_unref_ok [OF R_refl]
  by (blast intro: okD)+

lemma event_bodies:
  "decode_nlmsg_cb L rt_nexthops K m w = Some (cb, w') \<Longrightarrow> R w w'"
  "advance_scan_loop K pin_fuel n w = Some w' \<Longrightarrow> R w w'"
  "scan_timeout_cb K pin_fuel w = Some w' \<Longrightarrow> R w w'"
  "sched_init pton K w = Some w' \<Longrightarrow> R w w'"
  using decode_nlmsg_ok [OF R_refl] scan_loop_ok [OF R_refl] scan_ok(2) [OF R_refl] sched_ok(3) [OF R_refl]
  by (blast intro: okD okpD)+

section \<open>Executing an item\<close>

text \<open>
  Executing an item sends one request, between operations that the relation holds for; only the
  item that ends the loop after the first scan sends none.
\<close>

lemma tc_action_execute_cases:
  assumes "tc_action_execute obj_rule_pre_install (obj_rule_post_install K) p w = Some w'"
  obtains w1 m w2 where "R w w1" "nl_send_req (Req_filter m) w1 = Some w2" "R w2 w'"
proof -
  from assms obtain tca :: tc_action and w1 w2 where
    pre: "(if w_tacb_hooks w then obj_rule_pre_install (tca_data tca) w else Some w) = Some w1"
    and install: "tc_action_do_install (tca_chain_no tca) (tca_prio tca) (tca_tcr tca) w1 = Some w2"
    and post: "(if w_tacb_hooks w2 then obj_rule_post_install K (tca_data tca) w2 else Some w2) = Some w'"
    unfolding tc_action_execute_def by (elim bind_SomeE) blast
  have "ok w (if w_tacb_hooks w then obj_rule_pre_install (tca_data tca) w else Some w)"
    and "ok w2 (if w_tacb_hooks w2 then obj_rule_post_install K (tca_data tca) w2 else Some w2)"
    by (intro rel R_refl)+
  with pre post have "R w w1" "R w2 w'" by (simp_all add: ok_def)
  moreover from install obtain m where "nl_send_req (Req_filter m) w1 = Some w2"
    by (auto simp: tc_action_do_install_def elim!: bind_SomeE)
  ultimately show ?thesis by (blast intro: that)
qed

lemma execute_cases:
  assumes "execute K ex w = Some w'"
  obtains "ex = Exec_scan_break" "w' = w\<lparr>w_break := True\<rparr>"
  | w1 req w2 where "ex \<noteq> Exec_scan_break" "R w w1" "nl_send_req req w1 = Some w2" "R w2 w'"
      "request_fits (w_config w1) ex req"
proof (cases ex)
  case (Exec_tc_action p)
  with assms have "tc_action_execute obj_rule_pre_install (obj_rule_post_install K) p w = Some w'"
    by (simp add: execute_def)
  then show ?thesis by (rule tc_action_execute_cases) (auto simp: Exec_tc_action request_fits_def intro: that(2))
next
  case Exec_scan_filters
  with assms obtain w2 where "filter_dump w = Some w2" "w' = mod_scan (\<lambda>s. s\<lparr>sc_state := SCAN_DUMP_CHAINS\<rparr>) w2"
    by (auto simp: execute_def scan_filters_def elim!: bind_SomeE)
  with R_scan [OF R_refl] show ?thesis by (auto simp: Exec_scan_filters filter_dump_def request_fits_def intro: that(2))
qed (use assms in \<open>auto simp: execute_def request_fits_def nl_dump_link_def nl_dump_neigh_def nl_dump_route_def
  filter_dump_chains_def filter_dump_chain_def intro: that\<close>)

end

section \<open>Relations that contain the sending of a request\<close>

text \<open>
  A relation that an item may change as well, by sending its request while it is being executed.
\<close>

locale world_rel = ops_rel +
  assumes R_send: "running w \<Longrightarrow> nl_send_req req w = Some w' \<Longrightarrow> R w w'"
begin

lemma send_ok [rel]: "R w w1 \<Longrightarrow> running w1 \<Longrightarrow> ok w (nl_send_req req w1)"
  by (rule okI [OF R_send], assumption)

lemma dump_ok [rel]:
  assumes "R w w1" "running w1"
  shows "ok w (nl_dump_link w1)" "ok w (nl_dump_neigh f w1)" "ok w (nl_dump_route f w1)"
    "ok w (filter_dump w1)" "ok w (filter_dump_chains w1)" "ok w (filter_dump_chain no w1)" "ok w (scan_filters w1)"
  unfolding nl_dump_link_def nl_dump_neigh_def nl_dump_route_def filter_dump_def filter_dump_chains_def
    filter_dump_chain_def scan_filters_def Let_def
  by (auto intro!: rel assms)

lemma tc_action_ok [rel]: "R w w1 \<Longrightarrow> running w1 \<Longrightarrow> ok w (tc_action_do_install chain_no prio tcr w1)"
  unfolding tc_action_do_install_def queue_get_conn_def by (auto intro!: rel split: if_splits)

lemma pre_install_running: "obj_rule_pre_install p w = Some w' \<Longrightarrow> running w' \<longleftrightarrow> running w"
  by (auto simp: obj_rule_pre_install_def mod_rule_def running_def elim!: bind_SomeE)

lemma tc_action_execute_ok [rel]:
  assumes "R w w1" "running w1"
  shows "ok w (tc_action_execute obj_rule_pre_install (obj_rule_post_install K) p w1)"
proof (unfold ok_def, intro allI impI)
  fix w4 assume "tc_action_execute obj_rule_pre_install (obj_rule_post_install K) p w1 = Some w4"
  then obtain tca :: tc_action and w2 w3 where
    pre: "(if w_tacb_hooks w1 then obj_rule_pre_install (tca_data tca) w1 else Some w1) = Some w2"
    and install: "tc_action_do_install (tca_chain_no tca) (tca_prio tca) (tca_tcr tca) w2 = Some w3"
    and post: "(if w_tacb_hooks w3 then obj_rule_post_install K (tca_data tca) w3 else Some w3) = Some w4"
    unfolding tc_action_execute_def by (elim bind_SomeE) blast
  have "ok w (if w_tacb_hooks w1 then obj_rule_pre_install (tca_data tca) w1 else Some w1)"
    by (intro rel assms)
  with pre have "R w w2" by (simp add: ok_def)
  moreover have "running w2" using pre assms(2) by (auto simp: pre_install_running split: if_splits)
  ultimately have "ok w (tc_action_do_install (tca_chain_no tca) (tca_prio tca) (tca_tcr tca) w2)"
    by (intro rel)
  with install have "R w w3" by (simp add: ok_def)
  then have "ok w (if w_tacb_hooks w3 then obj_rule_post_install K (tca_data tca) w3 else Some w3)"
    by (intro rel)
  with post show "R w w4" by (simp add: ok_def)
qed

lemma execute_ok [rel]: "R w w1 \<Longrightarrow> running w1 \<Longrightarrow> ok w (execute K ex w1)"
  unfolding execute_def by (auto intro!: rel split: execute_fn.split)

lemma execute_body: "execute K ex w = Some w' \<Longrightarrow> running w \<Longrightarrow> R w w'"
  using execute_ok [OF R_refl] by (blast intro: okD)

lemmas call_bodies = execute_body callback_bodies

end

end
