(* ===== verification/Protocol.thy ===== *)
theory Protocol
  imports World_Rel
begin

text \<open>
  The discipline of the queue. Between two events of the loop the daemon's state changes by a small
  number of steps, and every operation is a sequence of them: so what every step keeps holds in
  every state between events. What an operation does as a whole to the queue, the order and the
  number of its requests, is in \<open>Stop_And_Wait\<close>.
\<close>

section \<open>Relations kept by the whole daemon\<close>

text \<open>
  The calls of a daemon of some depth keep \<open>R\<close>, and the queue's loop keeps the sharper \<open>Q\<close>.
  A relation that survives one more turn of the queue survives every depth.
\<close>

definition keeps :: "(world \<Rightarrow> world \<Rightarrow> bool) \<Rightarrow> (world \<Rightarrow> world \<Rightarrow> bool) \<Rightarrow> calls \<Rightarrow> bool" where
  "keeps R Q K \<longleftrightarrow> (\<forall>c w w'. K c w = Some w' \<longrightarrow>
     (case c of Call_queue_process_loop \<Rightarrow> Q w w'
      | Call_execute f \<Rightarrow> running w \<longrightarrow> R w w'
      | Call_completed f e \<Rightarrow> R w w' | Call_target_notify_routes p \<Rightarrow> R w w' | Call_route_unref p \<Rightarrow> R w w'))"

lemma keepsD:
  assumes "keeps R Q K"
  shows "K Call_queue_process_loop w = Some w' \<Longrightarrow> Q w w'"
    "K (Call_execute f) w = Some w' \<Longrightarrow> running w \<Longrightarrow> R w w'"
    "K (Call_completed g e) w = Some w' \<Longrightarrow> R w w'"
    "K (Call_target_notify_routes p) w = Some w' \<Longrightarrow> R w w'"
    "K (Call_route_unref p) w = Some w' \<Longrightarrow> R w w'"
  by (drule assms [unfolded keeps_def, rule_format]; simp)+

locale daemon_rel =
  fixes R Q :: "world \<Rightarrow> world \<Rightarrow> bool"
  assumes refl: "R w w"
    and trans: "R w1 w2 \<Longrightarrow> R w2 w3 \<Longrightarrow> R w1 w3"
    and local_step: "local_upd w w' \<Longrightarrow> R w w'"
    and send_step: "running w \<Longrightarrow> nl_send_req req w = Some w' \<Longrightarrow> R w w'"
    and init_step: "queue_init w = Some w' \<Longrightarrow> R w w'"
    and loop_step: "keeps R Q K \<Longrightarrow> queue_process_loop K w = Some w' \<Longrightarrow> Q w w'"
    and schedule_step: "keeps R Q K \<Longrightarrow> queue_schedule K ex co w = Some w' \<Longrightarrow> R w w'"
begin

lemma keeps_world_rel: "keeps R Q K \<Longrightarrow> world_rel R K"
  by (unfold_locales; (rule refl trans local_step send_step init_step schedule_step keepsD; assumption)?)

lemma calls_keeps: "keeps R Q (calls n)"
proof (induction n)
  case 0
  show ?case by (simp add: keeps_def)
next
  case (Suc n)
  note bodies = world_rel.call_bodies [OF keeps_world_rel [OF Suc]]
  show ?case
    unfolding keeps_def by (auto simp: bodies loop_step [OF Suc] split: call.split)
qed

lemmas event_keeps = ops_rel.event_bodies [OF world_rel.axioms(1) [OF keeps_world_rel [OF calls_keeps]]]

lemma completed_keeps: "completed (calls n) pin_fuel co nl_errno w = Some w' \<Longrightarrow> R w w'"
  by (rule world_rel.call_bodies(2) [OF keeps_world_rel [OF calls_keeps]])

end

section \<open>The steps of the queue\<close>

definition push_item :: "queue_item \<Rightarrow> world \<Rightarrow> world" where
  "push_item qi w = w\<lparr>w_queue := (w_queue w)\<lparr>q_items := q_items (w_queue w) @ [qi]\<rparr>\<rparr>"

definition begin_item :: "queue_item \<Rightarrow> queue_item list \<Rightarrow> world \<Rightarrow> world" where
  "begin_item qi qis w = w\<lparr>w_queue := (w_queue w)\<lparr>q_is_busy := True, q_has_sent_request := False,
     q_items := qi\<lparr>qi_state := QUEUE_ITEM_STATE_SENT\<rparr> # qis\<rparr>\<rparr>"

definition finish_item :: "queue_item list \<Rightarrow> world \<Rightarrow> world" where
  "finish_item qis w = w\<lparr>w_queue := (w_queue w)\<lparr>q_items := qis, q_is_busy := False\<rparr>\<rparr>"

inductive qstep :: "world \<Rightarrow> world \<Rightarrow> bool" where
  step_local: "local_upd w w' \<Longrightarrow> qstep w w'"
| step_push: "qi_state qi = QUEUE_ITEM_STATE_NEW \<Longrightarrow> qstep w (push_item qi w)"
| step_begin: "\<not> q_is_busy (w_queue w) \<Longrightarrow> q_items (w_queue w) = qi # qis
    \<Longrightarrow> qi_state qi = QUEUE_ITEM_STATE_NEW \<Longrightarrow> qstep w (begin_item qi qis w)"
| step_send: "running w \<Longrightarrow> nl_send_req req w = Some w' \<Longrightarrow> qstep w w'"
| step_finish: "q_conn (w_queue w) \<Longrightarrow> q_is_busy (w_queue w) \<Longrightarrow> q_items (w_queue w) = qi # qis
    \<Longrightarrow> qi_state qi = QUEUE_ITEM_STATE_SENT \<Longrightarrow> qstep w (finish_item qis w)"
| step_init: "queue_init w = Some w' \<Longrightarrow> qstep w w'"

inductive_cases qstepE: "qstep w w'"

lemma queue_process_loop_cases:
  assumes "queue_process_loop K w = Some w'"
  obtains "w' = w" "q_items (w_queue w) = [] \<or> q_is_busy (w_queue w)"
  | qi qis w2 where "\<not> q_is_busy (w_queue w)" "q_items (w_queue w) = qi # qis" "qi_state qi = QUEUE_ITEM_STATE_NEW"
      "K (Call_execute (qi_execute qi)) (begin_item qi qis w) = Some w2"
      "if q_has_sent_request (w_queue w2) then w' = w2
       else \<exists>w3. handle_queue_completed K 0 w2 = Some w3 \<and> K Call_queue_process_loop w3 = Some w'"
proof (cases "q_items (w_queue w) \<noteq> [] \<and> \<not> q_is_busy (w_queue w)")
  case True
  then obtain qi qis where "q_items (w_queue w) = qi # qis" by (cases "q_items (w_queue w)") auto
  with True assms obtain w2 where "qi_state qi = QUEUE_ITEM_STATE_NEW"
    and "K (Call_execute (qi_execute qi)) (begin_item qi qis w) = Some w2"
    and "(if q_has_sent_request (w_queue w2) then Some w2
      else handle_queue_completed K 0 w2 \<bind> K Call_queue_process_loop) = Some w'"
    by (auto simp: queue_process_loop_def queue_process_def begin_item_def Let_def elim!: bind_SomeE)
  with True \<open>q_items (w_queue w) = qi # qis\<close> show ?thesis
    by (auto elim!: bind_SomeE split: if_splits intro!: that(2) [of qi qis w2])
next
  case False
  with assms show ?thesis by (auto simp: queue_process_loop_def intro: that(1))
qed

lemma queue_schedule_cases:
  assumes "queue_schedule K ex co w = Some w'"
  obtains qi where "qi_state qi = QUEUE_ITEM_STATE_NEW"
    "if q_is_busy (w_queue w) then w' = push_item qi w else queue_process_loop K (push_item qi w) = Some w'"
  using assms unfolding queue_schedule_def Let_def
  by (auto simp: push_item_def split: if_splits
      intro!: that [of "\<lparr>qi_execute = ex, qi_completed = co, qi_state = QUEUE_ITEM_STATE_NEW\<rparr>"])

lemma handle_queue_completed_cases:
  assumes "handle_queue_completed K nl_errno w = Some w'"
  obtains qi qis where "q_conn (w_queue w)" "q_is_busy (w_queue w)" "q_items (w_queue w) = qi # qis"
    "qi_state qi = QUEUE_ITEM_STATE_SENT"
    "case qi_completed qi of None \<Rightarrow> w' = finish_item qis w
     | Some f \<Rightarrow> K (Call_completed f nl_errno) (finish_item qis w) = Some w'"
  using assms unfolding handle_queue_completed_def queue_pop_def
  by (auto simp: finish_item_def Let_def elim!: bind_SomeE split: list.splits option.splits intro: that)

lemma running_begin [simp]: "running (begin_item qi qis w)"
  by (simp add: running_def begin_item_def)


section \<open>Every operation is a sequence of steps\<close>

lemma handle_queue_completed_steps:
  assumes K: "keeps qstep\<^sup>*\<^sup>* Q K" and "handle_queue_completed K nl_errno w = Some w'"
  shows "qstep\<^sup>*\<^sup>* w w'"
  using assms(2)
proof (cases rule: handle_queue_completed_cases)
  case (1 qi qis)
  have fin: "qstep\<^sup>*\<^sup>* w (finish_item qis w)" using 1 by (blast intro: step_finish)
  show ?thesis
  proof (cases "qi_completed qi")
    case (Some f)
    with 1 have "qstep\<^sup>*\<^sup>* (finish_item qis w) w'" by (auto dest: keepsD(3) [OF K])
    with fin show ?thesis by (rule rtranclp_trans)
  qed (use 1 fin in simp)
qed

lemma queue_process_loop_steps:
  assumes K: "keeps qstep\<^sup>*\<^sup>* qstep\<^sup>*\<^sup>* K" and "queue_process_loop K w = Some w'"
  shows "qstep\<^sup>*\<^sup>* w w'"
  using assms(2)
proof (cases rule: queue_process_loop_cases)
  case (2 qi qis w2)
  have "qstep\<^sup>*\<^sup>* w (begin_item qi qis w)" using 2 by (blast intro: step_begin)
  also have "qstep\<^sup>*\<^sup>* \<dots> w2" using 2(4) by (rule keepsD(2) [OF K]) simp
  finally have w2: "qstep\<^sup>*\<^sup>* w w2" .
  show ?thesis
  proof (cases "q_has_sent_request (w_queue w2)")
    case False
    with 2 obtain w3 where w3: "handle_queue_completed K 0 w2 = Some w3"
      and w': "K Call_queue_process_loop w3 = Some w'" by auto
    have "qstep\<^sup>*\<^sup>* w2 w3" using w3 by (rule handle_queue_completed_steps [OF K])
    with w2 keepsD(1) [OF K w'] show ?thesis by (metis rtranclp_trans)
  qed (use 2 w2 in simp)
qed simp

lemma queue_schedule_steps:
  assumes K: "keeps qstep\<^sup>*\<^sup>* qstep\<^sup>*\<^sup>* K" and "queue_schedule K ex co w = Some w'"
  shows "qstep\<^sup>*\<^sup>* w w'"
  using assms(2)
proof (cases rule: queue_schedule_cases)
  case (1 qi)
  have push: "qstep\<^sup>*\<^sup>* w (push_item qi w)" by (rule r_into_rtranclp, rule step_push) (rule 1)
  show ?thesis
  proof (cases "q_is_busy (w_queue w)")
    case False
    with 1 have "qstep\<^sup>*\<^sup>* (push_item qi w) w'" by (auto intro: queue_process_loop_steps [OF K])
    with push show ?thesis by (rule rtranclp_trans)
  qed (use 1 push in simp)
qed

interpretation steps: daemon_rel "qstep\<^sup>*\<^sup>*" "qstep\<^sup>*\<^sup>*"
  by unfold_locales
    (auto intro: step_local step_send step_init queue_process_loop_steps queue_schedule_steps)

interpretation step_ops: world_rel "qstep\<^sup>*\<^sup>*" "calls n" for n
  by (rule steps.keeps_world_rel [OF steps.calls_keeps])

section \<open>The discipline of the queue\<close>

definition queue_inv :: "queue \<Rightarrow> bool" where
  "queue_inv q \<longleftrightarrow> (if q_is_busy q
     then (\<exists>qi qis. q_items q = qi # qis \<and> qi_state qi = QUEUE_ITEM_STATE_SENT
       \<and> (\<forall>x\<in>set qis. qi_state x = QUEUE_ITEM_STATE_NEW))
     else (\<forall>x\<in>set (q_items q). qi_state x = QUEUE_ITEM_STATE_NEW))"

lemma queue_has_sent_request_SomeD:
  "queue_has_sent_request w = Some w' \<Longrightarrow> q_conn (w_queue w) \<and> w' = w\<lparr>w_queue := (w_queue w)\<lparr>q_has_sent_request := True\<rparr>\<rparr>"
  by (simp add: queue_has_sent_request_def)

lemma nl_send_req_cases:
  assumes "nl_send_req req w = Some w'"
  obtains c where "c = (sc_conn (w_scan w))\<lparr>conn_seq := conn_seq (sc_conn (w_scan w)) + 1\<rparr>"
    "conn_seq (sc_conn (w_scan w)) \<noteq> 0"
    "if w_send_ok w (conn_seq c)
     then q_conn (w_queue w) \<and> w' = w\<lparr>w_scan := (w_scan w)\<lparr>sc_conn := c\<rparr>, w_sent := w_sent w @ [(conn_seq c, req)],
       w_queue := (w_queue w)\<lparr>q_has_sent_request := True\<rparr>\<rparr>
     else w' = w\<lparr>w_scan := (w_scan w)\<lparr>sc_conn := c\<rparr>\<rparr>"
  using assms
  by (auto simp: nl_send_req_def common_netlink_set_seq_def word_gt_0 Let_def elim!: bind_SomeE
      dest!: queue_has_sent_request_SomeD split: if_splits intro: that)

lemma qstep_queue_inv:
  assumes "qstep w w'" "queue_inv (w_queue w)"
  shows "queue_inv (w_queue w') \<and> (q_conn (w_queue w) \<longrightarrow> q_conn (w_queue w'))"
  using assms
proof (cases rule: qstep.cases)
  case step_local
  with assms(2) show ?thesis by (simp add: local_upd_def)
next
  case (step_push qi)
  with assms(2) show ?thesis by (auto simp: push_item_def queue_inv_def)
next
  case (step_begin qi qis)
  with assms(2) show ?thesis by (simp add: begin_item_def queue_inv_def)
next
  case (step_send req)
  from this(2) show ?thesis
    by (cases rule: nl_send_req_cases) (use assms(2) in \<open>auto simp: queue_inv_def split: if_splits\<close>)
next
  case (step_finish qi qis)
  with assms(2) show ?thesis by (auto simp: finish_item_def queue_inv_def)
next
  case step_init
  then show ?thesis by (auto simp: queue_init_def queue_inv_def empty_queue_def)
qed

lemma qsteps_queue_inv:
  "qstep\<^sup>*\<^sup>* w w' \<Longrightarrow> queue_inv (w_queue w) \<Longrightarrow> queue_inv (w_queue w') \<and> (q_conn (w_queue w) \<longrightarrow> q_conn (w_queue w'))"
  by (induction rule: rtranclp_induct) (auto dest: qstep_queue_inv)


section \<open>The queue never stalls\<close>

text \<open>
  Between events a busy queue is waiting for the kernel and an idle queue is empty; while an
  item is being executed the queue stays busy with it.
\<close>

definition settled :: "world \<Rightarrow> bool" where
  "settled w \<longleftrightarrow> (if q_is_busy (w_queue w) then q_has_sent_request (w_queue w) else q_items (w_queue w) = [])"

definition busy_rel :: "world \<Rightarrow> world \<Rightarrow> bool" where
  "busy_rel w w' \<longleftrightarrow> (q_conn (w_queue w) \<longrightarrow>
     q_conn (w_queue w') \<and> (settled w \<longrightarrow> settled w')
     \<and> (q_is_busy (w_queue w) \<longrightarrow> q_is_busy (w_queue w') \<and> (q_has_sent_request (w_queue w) \<longrightarrow> q_has_sent_request (w_queue w')))
     \<and> (q_is_busy (w_queue w) \<and> q_has_sent_request (w_queue w) \<or> \<not> q_is_busy (w_queue w) \<longrightarrow>
          q_is_busy (w_queue w') \<longrightarrow> q_has_sent_request (w_queue w')))"

definition loop_rel :: "world \<Rightarrow> world \<Rightarrow> bool" where
  "loop_rel w w' \<longleftrightarrow> (q_conn (w_queue w) \<longrightarrow> q_conn (w_queue w') \<and>
     (if q_is_busy (w_queue w) then w' = w else settled w'))"

lemma busy_rel_finish:
  assumes K: "keeps busy_rel loop_rel K" and "handle_queue_completed K nl_errno w = Some w'"
  shows "q_conn (w_queue w) \<and> q_conn (w_queue w') \<and> (q_is_busy (w_queue w') \<longrightarrow> q_has_sent_request (w_queue w'))"
  using assms(2)
proof (cases rule: handle_queue_completed_cases)
  case (1 qi qis)
  have fin: "q_conn (w_queue (finish_item qis w))" "\<not> q_is_busy (w_queue (finish_item qis w))"
    using 1 by (simp_all add: finish_item_def)
  show ?thesis
  proof (cases "qi_completed qi")
    case None
    with 1 fin show ?thesis by simp
  next
    case (Some f)
    with 1 have "busy_rel (finish_item qis w) w'" by (auto dest: keepsD(3) [OF K])
    with 1 fin show ?thesis by (auto simp: busy_rel_def)
  qed
qed

lemma queue_process_loop_settles:
  assumes K: "keeps busy_rel loop_rel K" and "queue_process_loop K w = Some w'"
  shows "loop_rel w w'"
  using assms(2)
proof (cases rule: queue_process_loop_cases)
  case 1
  then show ?thesis by (auto simp: loop_rel_def settled_def)
next
  case (2 qi qis w2)
  have w2: "busy_rel (begin_item qi qis w) w2" using 2(4) by (rule keepsD(2) [OF K]) simp
  show ?thesis
  proof (cases "q_has_sent_request (w_queue w2)")
    case True
    with 2 w2 show ?thesis by (simp add: loop_rel_def busy_rel_def settled_def begin_item_def)
  next
    case False
    with 2 obtain w3 where w3: "handle_queue_completed K 0 w2 = Some w3"
      and w': "K Call_queue_process_loop w3 = Some w'" by auto
    from busy_rel_finish [OF K w3] keepsD(1) [OF K w'] 2(1) show ?thesis
      by (auto simp: loop_rel_def settled_def split: if_splits)
  qed
qed

lemma loop_rel_busy_rel: "loop_rel w w' \<Longrightarrow> busy_rel w w'"
  by (auto simp: loop_rel_def busy_rel_def settled_def split: if_splits)

lemma queue_schedule_busy:
  assumes K: "keeps busy_rel loop_rel K" and "queue_schedule K ex co w = Some w'"
  shows "busy_rel w w'"
  using assms(2)
proof (cases rule: queue_schedule_cases)
  case (1 qi)
  show ?thesis
  proof (cases "q_is_busy (w_queue w)")
    case True
    with 1 show ?thesis by (simp add: busy_rel_def settled_def push_item_def)
  next
    case False
    with 1 have "loop_rel (push_item qi w) w'" by (auto intro: queue_process_loop_settles [OF K])
    with False show ?thesis by (auto simp: loop_rel_def busy_rel_def settled_def push_item_def)
  qed
qed

lemma nl_send_req_busy: "running w \<Longrightarrow> nl_send_req req w = Some w' \<Longrightarrow> busy_rel w w'"
  by (erule nl_send_req_cases) (auto simp: busy_rel_def settled_def running_def split: if_splits)

interpretation busy: daemon_rel busy_rel loop_rel
proof unfold_locales
  show "busy_rel w w" for w by (simp add: busy_rel_def)
  show "busy_rel w1 w3" if "busy_rel w1 w2" "busy_rel w2 w3" for w1 w2 w3
    using that by (auto simp: busy_rel_def)
  show "busy_rel w w'" if "local_upd w w'" for w w' using that by (simp add: local_upd_def busy_rel_def settled_def)
  show "busy_rel w w'" if "queue_init w = Some w'" for w w' using that by (simp add: queue_init_def busy_rel_def)
qed (fact nl_send_req_busy queue_process_loop_settles queue_schedule_busy)+

section \<open>Reachable states\<close>

text \<open>
  The states between the events of the loop. \<open>n\<close> is the depth an event is given, in each
  event anew; a run that needs more has no result, and one that has a result has it at every
  greater depth.
\<close>

inductive reachable ::
  "(u8 \<Rightarrow> string \<Rightarrow> bytes option) \<Rightarrow> 'a libmnl \<Rightarrow> ('a \<Rightarrow> (u32 \<times> 'a list) list) \<Rightarrow> (u32 \<Rightarrow> bool) \<Rightarrow> config \<Rightarrow> conn \<Rightarrow> world \<Rightarrow> bool"
  for inet_pton L rt_nexthops send_ok cfg c where
  reach_start: "start inet_pton n send_ok cfg c = Some w \<Longrightarrow> reachable inet_pton L rt_nexthops send_ok cfg c w"
| reach_event: "reachable inet_pton L rt_nexthops send_ok cfg c w \<Longrightarrow> handle_event L rt_nexthops n e w = Some w'
    \<Longrightarrow> reachable inet_pton L rt_nexthops send_ok cfg c w'"

inductive_simps reachable_simps: "reachable inet_pton L rt_nexthops send_ok cfg c w"

lemma queue_is_complete_cases:
  assumes "queue_is_complete (calls n) nl_errno w = Some w'"
  obtains w1 where "handle_queue_completed (calls n) nl_errno w = Some w1"
    "queue_process_loop (calls n) w1 = Some w'"
  using assms by (auto simp: queue_is_complete_def queue_process_loop_def elim!: bind_SomeE split: if_splits)

lemma handle_event_steps:
  assumes "handle_event L rt_nexthops n e w = Some w'"
  shows "qstep\<^sup>*\<^sup>* w w'"
proof (cases e)
  case (Ev_message m)
  with assms obtain cb where "decode_nlmsg_cb L rt_nexthops (calls n) m w = Some (cb, w')"
    by (auto simp: handle_event_def elim!: bind_SomeE)
  then show ?thesis by (rule steps.event_keeps(1))
next
  case (Ev_complete nl_errno)
  with assms have "queue_is_complete (calls n) nl_errno w = Some w'" by (simp add: handle_event_def)
  then show ?thesis
    by (rule queue_is_complete_cases)
      (blast intro: rtranclp_trans handle_queue_completed_steps queue_process_loop_steps steps.calls_keeps)
next
  case Ev_timeout
  with assms have "scan_timeout_cb (calls n) n w = Some w'" by (simp add: handle_event_def)
  then show ?thesis by (rule steps.event_keeps(3))
qed

lemma handle_event_settled:
  assumes "handle_event L rt_nexthops n e w = Some w'" "q_conn (w_queue w)" "settled w"
  shows "q_conn (w_queue w') \<and> settled w'"
proof (cases e)
  case (Ev_message m)
  with assms obtain cb where "decode_nlmsg_cb L rt_nexthops (calls n) m w = Some (cb, w')"
    by (auto simp: handle_event_def elim!: bind_SomeE)
  then have "busy_rel w w'" by (rule busy.event_keeps(1))
  with assms show ?thesis by (simp add: busy_rel_def)
next
  case (Ev_complete nl_errno)
  with assms obtain w1 where w1: "handle_queue_completed (calls n) nl_errno w = Some w1"
    and w': "queue_process_loop (calls n) w1 = Some w'"
    by (auto simp: handle_event_def elim: queue_is_complete_cases)
  from busy_rel_finish [OF busy.calls_keeps w1] queue_process_loop_settles [OF busy.calls_keeps w']
  show ?thesis by (auto simp: loop_rel_def settled_def split: if_splits)
next
  case Ev_timeout
  with assms have "scan_timeout_cb (calls n) n w = Some w'" by (simp add: handle_event_def)
  then have "busy_rel w w'" by (rule busy.event_keeps(3))
  with assms show ?thesis by (simp add: busy_rel_def)
qed

end
