(* ===== verification/Stop_And_Wait.thy ===== *)
theory Stop_And_Wait
  imports Protocol
begin

text \<open>
  The protocol that the queue speaks with the kernel, as a relation of its own: what the daemon
  can do between two answers, and that this is all it does.
\<close>

section \<open>The protocol\<close>

text \<open>
  The functions that wait to be called, in order; the line, which is idle or awaits the answer to
  the request of a function; the last number used; and the requests sent, with their numbers.
\<close>

datatype line = Idle | Running execute_fn | Awaiting execute_fn

record proto =
  pr_waiting :: "execute_fn list"
  pr_line :: line
  pr_seq :: u32
  pr_log :: "(u32 \<times> request) list"

definition line_of :: "queue \<Rightarrow> line" where
  "line_of q = (if \<not> q_is_busy q then Idle
     else if q_has_sent_request q then Awaiting (qi_execute (hd (q_items q)))
     else Running (qi_execute (hd (q_items q))))"

definition proto_of :: "world \<Rightarrow> proto" where
  "proto_of w = \<lparr>pr_waiting = map qi_execute (if q_is_busy (w_queue w) then tl (q_items (w_queue w)) else q_items (w_queue w)),
     pr_line = line_of (w_queue w), pr_seq = conn_seq (sc_conn (w_scan w)), pr_log = w_sent w\<rparr>"

lemma queued_functions:
  assumes "queue_inv (w_queue w)"
  shows "map qi_execute (q_items (w_queue w)) =
    (case pr_line (proto_of w) of Idle \<Rightarrow> pr_waiting (proto_of w) | Running f \<Rightarrow> f # pr_waiting (proto_of w)
     | Awaiting f \<Rightarrow> f # pr_waiting (proto_of w))"
  using assms by (auto simp: proto_of_def line_of_def queue_inv_def)

text \<open>
  What can happen without an answer of the kernel. A function may be submitted at any time, at
  the end. One is called only from the head of those waiting, and only on an idle line; its
  request takes the next number and the line awaits the answer, or the socket refuses the
  request and the line stays idle. No step leaves \<open>Awaiting\<close>: that is the answer's part.
  \<open>ok\<close> is the socket's verdict on a number.
\<close>

inductive work_step :: "(u32 \<Rightarrow> bool) \<Rightarrow> config \<Rightarrow> proto \<Rightarrow> proto \<Rightarrow> bool" for ok cfg where
  submit: "work_step ok cfg s (s\<lparr>pr_waiting := pr_waiting s @ [f]\<rparr>)"
| run_sent: "pr_line s = Idle \<Longrightarrow> pr_waiting s = f # fs \<Longrightarrow> pr_seq s \<noteq> 0 \<Longrightarrow> ok (pr_seq s + 1) \<Longrightarrow> request_fits cfg f req \<Longrightarrow>
    work_step ok cfg s (s\<lparr>pr_waiting := fs, pr_line := Awaiting f, pr_seq := pr_seq s + 1,
      pr_log := pr_log s @ [(pr_seq s + 1, req)]\<rparr>)"
| run_refused: "pr_line s = Idle \<Longrightarrow> pr_waiting s = f # fs \<Longrightarrow> pr_seq s \<noteq> 0 \<Longrightarrow> \<not> ok (pr_seq s + 1) \<Longrightarrow> f \<noteq> Exec_scan_break \<Longrightarrow>
    work_step ok cfg s (s\<lparr>pr_waiting := fs, pr_seq := pr_seq s + 1\<rparr>)"
| run_break: "pr_line s = Idle \<Longrightarrow> pr_waiting s = Exec_scan_break # fs \<Longrightarrow> work_step ok cfg s (s\<lparr>pr_waiting := fs\<rparr>)"

inductive_cases work_stepE: "work_step ok cfg s s'"

text \<open>While an answer is awaited, functions can only be submitted.\<close>

lemma work_steps_awaiting:
  assumes "(work_step ok cfg)\<^sup>*\<^sup>* s s'" "pr_line s = Awaiting f"
  shows "\<exists>new. s' = s\<lparr>pr_waiting := pr_waiting s @ new\<rparr>"
  using assms(1)
proof (induction rule: rtranclp_induct)
  case base
  show ?case by (intro exI [of _ "[]"]) simp
next
  case (step y z)
  then obtain new where y: "y = s\<lparr>pr_waiting := pr_waiting s @ new\<rparr>" by blast
  from step(2) show ?case by (cases rule: work_step.cases) (use y assms(2) in auto)
qed

lemma submits: "(work_step ok cfg)\<^sup>*\<^sup>* s (s\<lparr>pr_waiting := pr_waiting s @ fs\<rparr>)"
proof (induction fs rule: rev_induct)
  case (snoc f fs)
  from snoc submit [of ok cfg "s\<lparr>pr_waiting := pr_waiting s @ fs\<rparr>" f] show ?case
    by (auto intro: rtranclp.rtrancl_into_rtrancl)
qed simp

text \<open>
  With an idle line the function at the head is called next, and when the line is not left idle
  with functions waiting, it has been called. If the socket takes every request, its answer is
  awaited then.
\<close>

lemma work_steps_next:
  assumes "(work_step ok cfg)\<^sup>*\<^sup>* s s'" "pr_line s = Idle" "pr_waiting s = f # fs" "f \<noteq> Exec_scan_break"
    and ok: "\<And>x. ok x" and rest: "(\<exists>g. pr_line s' = Awaiting g) \<or> pr_line s' = Idle \<and> pr_waiting s' = []"
  obtains new req where "pr_line s' = Awaiting f" "pr_waiting s' = fs @ new" "request_fits cfg f req"
    "map snd (pr_log s') = map snd (pr_log s) @ [req]"
proof -
  from assms(1) have "(pr_line s' = Idle \<and> (\<exists>new. pr_waiting s' = f # fs @ new) \<and> pr_log s' = pr_log s)
    \<or> (pr_line s' = Awaiting f \<and> (\<exists>new. pr_waiting s' = fs @ new)
      \<and> (\<exists>req. request_fits cfg f req \<and> map snd (pr_log s') = map snd (pr_log s) @ [req]))"
  proof (induction rule: rtranclp_induct)
    case base
    with assms(2,3) show ?case by simp
  next
    case (step y z)
    from step(2) show ?case by (cases rule: work_step.cases) (use step.IH assms(4) ok in auto)
  qed
  with rest that show ?thesis by auto
qed

section \<open>The relation that operations keep\<close>

text \<open>
  While an item is being executed or its answer awaited, an operation appends to the queue and
  sends nothing. On an idle line it does what the protocol allows, and the line is not left
  in the middle of an item.
\<close>

definition appends :: "world \<Rightarrow> world \<Rightarrow> bool" where
  "appends w w' \<longleftrightarrow> q_is_busy (w_queue w') \<and> q_has_sent_request (w_queue w') = q_has_sent_request (w_queue w)
     \<and> (\<exists>new. q_items (w_queue w') = q_items (w_queue w) @ new)
     \<and> conn_seq (sc_conn (w_scan w')) = conn_seq (sc_conn (w_scan w)) \<and> w_sent w' = w_sent w"

definition work_rel :: "world \<Rightarrow> world \<Rightarrow> bool" where
  "work_rel w w' \<longleftrightarrow> (q_conn (w_queue w) \<and> queue_inv (w_queue w) \<longrightarrow>
     q_conn (w_queue w') \<and> queue_inv (w_queue w') \<and> w_send_ok w' = w_send_ok w \<and> w_config w' = w_config w
     \<and> (if q_is_busy (w_queue w) then appends w w'
        else (work_step (w_send_ok w) (w_config w))\<^sup>*\<^sup>* (proto_of w) (proto_of w')
          \<and> (q_is_busy (w_queue w') \<longrightarrow> q_has_sent_request (w_queue w'))))"

lemma appends_trans: "appends w1 w2 \<Longrightarrow> appends w2 w3 \<Longrightarrow> appends w1 w3"
  by (auto simp: appends_def)

lemma appends_steps:
  assumes "appends w w'" "q_is_busy (w_queue w)" "queue_inv (w_queue w)"
  shows "(work_step ok cfg)\<^sup>*\<^sup>* (proto_of w) (proto_of w')"
proof -
  from assms obtain qi qis new where "q_items (w_queue w) = qi # qis" "q_items (w_queue w') = qi # qis @ new"
    by (auto simp: appends_def queue_inv_def)
  then have "proto_of w' = (proto_of w)\<lparr>pr_waiting := pr_waiting (proto_of w) @ map qi_execute new\<rparr>"
    using assms by (simp add: appends_def proto_of_def line_of_def)
  then show ?thesis by (simp only: submits)
qed

lemma work_rel_refl: "work_rel w w"
  by (auto simp: work_rel_def appends_def)

lemma work_relI:
  assumes "q_conn (w_queue w) \<Longrightarrow> queue_inv (w_queue w) \<Longrightarrow>
     q_conn (w_queue w') \<and> queue_inv (w_queue w') \<and> w_send_ok w' = w_send_ok w \<and> w_config w' = w_config w"
    and "q_conn (w_queue w) \<Longrightarrow> queue_inv (w_queue w) \<Longrightarrow> q_is_busy (w_queue w) \<Longrightarrow> appends w w'"
    and "q_conn (w_queue w) \<Longrightarrow> queue_inv (w_queue w) \<Longrightarrow> \<not> q_is_busy (w_queue w) \<Longrightarrow>
      (work_step (w_send_ok w) (w_config w))\<^sup>*\<^sup>* (proto_of w) (proto_of w')
          \<and> (q_is_busy (w_queue w') \<longrightarrow> q_has_sent_request (w_queue w'))"
  shows "work_rel w w'"
  using assms by (simp add: work_rel_def)

lemma work_relD:
  assumes "work_rel w w'" "q_conn (w_queue w)" "queue_inv (w_queue w)"
  shows "q_conn (w_queue w')" "queue_inv (w_queue w')" "w_send_ok w' = w_send_ok w" "w_config w' = w_config w"
    "q_is_busy (w_queue w) \<Longrightarrow> appends w w'"
    "\<not> q_is_busy (w_queue w) \<Longrightarrow> q_is_busy (w_queue w') \<Longrightarrow> q_has_sent_request (w_queue w')"
    "(work_step (w_send_ok w) (w_config w))\<^sup>*\<^sup>* (proto_of w) (proto_of w')"
  using assms appends_steps by (auto simp: work_rel_def split: if_splits)

lemma work_rel_trans:
  assumes "work_rel w1 w2" "work_rel w2 w3"
  shows "work_rel w1 w3"
proof (rule work_relI)
  assume w1: "q_conn (w_queue w1)" "queue_inv (w_queue w1)"
  note d = work_relD [OF assms(1) w1]
  note e = work_relD [OF assms(2) d(1,2)]
  show "q_conn (w_queue w3) \<and> queue_inv (w_queue w3) \<and> w_send_ok w3 = w_send_ok w1 \<and> w_config w3 = w_config w1"
    using d e by simp
  show "appends w1 w3" if "q_is_busy (w_queue w1)"
    using d(5) [OF that] e(5) by (auto simp: appends_def)
  show "(work_step (w_send_ok w1) (w_config w1))\<^sup>*\<^sup>* (proto_of w1) (proto_of w3)
      \<and> (q_is_busy (w_queue w3) \<longrightarrow> q_has_sent_request (w_queue w3))" if "\<not> q_is_busy (w_queue w1)"
    using d(3,4,7) e(5,6,7) d(6) [OF that] by (auto simp: appends_def)
qed

lemma work_rel_local: "local_upd w w' \<Longrightarrow> work_rel w w'"
  by (rule work_relI) (auto simp: local_upd_def appends_def proto_of_def)

lemma work_rel_init: "queue_init w = Some w' \<Longrightarrow> work_rel w w'"
  by (rule work_relI) (simp_all add: queue_init_def)

lemma work_rel_push:
  assumes "qi_state qi = QUEUE_ITEM_STATE_NEW"
  shows "work_rel w (push_item qi w)"
proof (rule work_relI)
  assume "queue_inv (w_queue w)"
  with assms show "appends w (push_item qi w)" if "q_is_busy (w_queue w)"
    using that by (simp add: appends_def push_item_def)
qed (use assms submit [of _ _ "proto_of w" "qi_execute qi"] in \<open>auto simp: push_item_def queue_inv_def proto_of_def line_of_def\<close>)

section \<open>Executing an item\<close>

text \<open>
  What executing \<open>f\<close> amounts to, from the moment its item is marked as sent.
\<close>

definition executes :: "execute_fn \<Rightarrow> world \<Rightarrow> world \<Rightarrow> bool" where
  "executes f w w' \<longleftrightarrow> (q_conn (w_queue w) \<and> queue_inv (w_queue w) \<and> running w \<longrightarrow>
     q_conn (w_queue w') \<and> queue_inv (w_queue w') \<and> w_send_ok w' = w_send_ok w \<and> w_config w' = w_config w
     \<and> q_is_busy (w_queue w') \<and> (\<exists>new. q_items (w_queue w') = q_items (w_queue w) @ new)
     \<and> (let seq = conn_seq (sc_conn (w_scan w)) in
        if f = Exec_scan_break then \<not> q_has_sent_request (w_queue w')
          \<and> conn_seq (sc_conn (w_scan w')) = seq \<and> w_sent w' = w_sent w
        else seq \<noteq> 0 \<and> conn_seq (sc_conn (w_scan w')) = seq + 1
          \<and> q_has_sent_request (w_queue w') = w_send_ok w (seq + 1)
          \<and> (if w_send_ok w (seq + 1)
             then \<exists>req. request_fits (w_config w) f req \<and> w_sent w' = w_sent w @ [(seq + 1, req)]
             else w_sent w' = w_sent w)))"

lemma nl_send_req_executes:
  assumes "nl_send_req req w = Some w'" "running w" "queue_inv (w_queue w)" "q_conn (w_queue w)"
    and seq: "seq = conn_seq (sc_conn (w_scan w))"
  shows "q_conn (w_queue w') \<and> queue_inv (w_queue w') \<and> q_is_busy (w_queue w')" "w_send_ok w' = w_send_ok w" "w_config w' = w_config w"
    "q_items (w_queue w') = q_items (w_queue w)" "seq \<noteq> 0" "conn_seq (sc_conn (w_scan w')) = seq + 1"
    "q_has_sent_request (w_queue w') = w_send_ok w (seq + 1)"
    "w_sent w' = (if w_send_ok w (seq + 1) then w_sent w @ [(seq + 1, req)] else w_sent w)"
  using assms
  by (auto simp: running_def queue_inv_def elim!: nl_send_req_cases split: if_splits)

lemma execute_executes:
  assumes "ops_rel work_rel K" and "execute K f w = Some w'"
  shows "executes f w w'"
proof (unfold executes_def, intro impI, elim conjE)
  assume w: "q_conn (w_queue w)" "queue_inv (w_queue w)" "running w"
  from assms(2) show "q_conn (w_queue w') \<and> queue_inv (w_queue w') \<and> w_send_ok w' = w_send_ok w \<and> w_config w' = w_config w
     \<and> q_is_busy (w_queue w') \<and> (\<exists>new. q_items (w_queue w') = q_items (w_queue w) @ new)
     \<and> (let seq = conn_seq (sc_conn (w_scan w)) in
        if f = Exec_scan_break then \<not> q_has_sent_request (w_queue w')
          \<and> conn_seq (sc_conn (w_scan w')) = seq \<and> w_sent w' = w_sent w
        else seq \<noteq> 0 \<and> conn_seq (sc_conn (w_scan w')) = seq + 1
          \<and> q_has_sent_request (w_queue w') = w_send_ok w (seq + 1)
          \<and> (if w_send_ok w (seq + 1)
             then \<exists>req. request_fits (w_config w) f req \<and> w_sent w' = w_sent w @ [(seq + 1, req)]
             else w_sent w' = w_sent w))"
  proof (cases rule: ops_rel.execute_cases [OF assms(1), consumes 1, case_names break send])
    case break
    with w show ?thesis by (simp add: running_def Let_def)
  next
    case (send w1 req w2)
    note d = work_relD [OF send(2) w(1,2)]
    have a: "appends w w1" using d(5) w(3) by (simp add: running_def)
    then have r: "running w1" using w(3) by (simp add: appends_def running_def)
    note s = nl_send_req_executes [OF send(3) r d(2,1) HOL.refl]
    note e = work_relD [OF send(4)]
    have b: "appends w2 w'" using e(5) s(1) by simp
    show ?thesis using a b s e(1-4) d(3,4) send(1,5) by (auto simp: appends_def Let_def)
  qed
qed

section \<open>The loop\<close>

text \<open>The calls of a daemon of some depth keep the relation, and execute items as above.\<close>

definition works :: "calls \<Rightarrow> bool" where
  "works K \<longleftrightarrow> (\<forall>c w w'. K c w = Some w' \<longrightarrow>
     (case c of Call_execute f \<Rightarrow> executes f w w' | _ \<Rightarrow> work_rel w w'))"

lemma worksD:
  assumes "works K"
  shows "K (Call_execute f) w = Some w' \<Longrightarrow> executes f w w'"
    "K Call_queue_process_loop w = Some w' \<Longrightarrow> work_rel w w'"
    "K (Call_completed g e) w = Some w' \<Longrightarrow> work_rel w w'"
    "K (Call_target_notify_routes p) w = Some w' \<Longrightarrow> work_rel w w'"
    "K (Call_route_unref p) w = Some w' \<Longrightarrow> work_rel w w'"
  by (drule assms [unfolded works_def, rule_format]; simp)+

lemma handle_queue_completed_work:
  assumes K: "works K" and "handle_queue_completed K nl_errno w = Some w'"
  obtains qi qis where "q_is_busy (w_queue w)" "q_items (w_queue w) = qi # qis" "work_rel (finish_item qis w) w'"
  using assms(2)
proof (cases rule: handle_queue_completed_cases)
  case (1 qi qis)
  then have "work_rel (finish_item qis w) w'"
    by (auto simp: work_rel_refl dest: worksD(3) [OF K] split: option.splits)
  with 1 show ?thesis by (blast intro: that)
qed

lemma finish_item_inv:
  assumes "queue_inv (w_queue w)" "q_is_busy (w_queue w)" "q_items (w_queue w) = qi # qis"
  shows "queue_inv (w_queue (finish_item qis w))" "\<not> q_is_busy (w_queue (finish_item qis w))"
    "q_conn (w_queue (finish_item qis w)) = q_conn (w_queue w)"
    "w_send_ok (finish_item qis w) = w_send_ok w" "w_config (finish_item qis w) = w_config w"
    "proto_of (finish_item qis w) = (proto_of w)\<lparr>pr_line := Idle\<rparr>"
  using assms by (auto simp: finish_item_def queue_inv_def proto_of_def line_of_def)

lemma begin_item_fields:
  "q_conn (w_queue (begin_item qi qis w)) = q_conn (w_queue w)"
  "q_items (w_queue (begin_item qi qis w)) = qi\<lparr>qi_state := QUEUE_ITEM_STATE_SENT\<rparr> # qis"
  "w_send_ok (begin_item qi qis w) = w_send_ok w" "w_config (begin_item qi qis w) = w_config w"
  "w_sent (begin_item qi qis w) = w_sent w" "conn_seq (sc_conn (w_scan (begin_item qi qis w))) = pr_seq (proto_of w)"
  by (simp_all add: begin_item_def proto_of_def)

text \<open>An item from the head of an idle queue: one step of the protocol, then submissions.\<close>

lemma execute_item_steps:
  assumes q: "\<not> q_is_busy (w_queue w)" "q_items (w_queue w) = qi # qis" "qi_state qi = QUEUE_ITEM_STATE_NEW"
    and w: "q_conn (w_queue w)" "queue_inv (w_queue w)"
    and ex: "executes (qi_execute qi) (begin_item qi qis w) w2"
  shows "q_conn (w_queue w2)" "queue_inv (w_queue w2)" "w_send_ok w2 = w_send_ok w" "w_config w2 = w_config w"
    "q_is_busy (w_queue w2)"
    "(work_step (w_send_ok w) (w_config w))\<^sup>*\<^sup>* (proto_of w)
      (if q_has_sent_request (w_queue w2) then proto_of w2 else (proto_of w2)\<lparr>pr_line := Idle\<rparr>)"
proof -
  let ?ok = "w_send_ok w" and ?cfg = "w_config w" and ?f = "qi_execute qi"
  have "q_conn (w_queue (begin_item qi qis w))" "queue_inv (w_queue (begin_item qi qis w))"
    using q w by (auto simp: begin_item_def queue_inv_def)
  with ex [unfolded executes_def begin_item_fields append_Cons] obtain new where w2: "q_conn (w_queue w2)" "queue_inv (w_queue w2)" "w_send_ok w2 = ?ok"
    "w_config w2 = ?cfg" "q_is_busy (w_queue w2)" "q_items (w_queue w2) = qi\<lparr>qi_state := QUEUE_ITEM_STATE_SENT\<rparr> # qis @ new"
    and sent: "let seq = pr_seq (proto_of w) in
        if ?f = Exec_scan_break then \<not> q_has_sent_request (w_queue w2)
          \<and> conn_seq (sc_conn (w_scan w2)) = seq \<and> w_sent w2 = w_sent w
        else seq \<noteq> 0 \<and> conn_seq (sc_conn (w_scan w2)) = seq + 1
          \<and> q_has_sent_request (w_queue w2) = ?ok (seq + 1)
          \<and> (if ?ok (seq + 1)
             then \<exists>req. request_fits ?cfg ?f req \<and> w_sent w2 = w_sent w @ [(seq + 1, req)]
             else w_sent w2 = w_sent w)"
    using w running_begin [of qi qis w] by blast
  show "q_conn (w_queue w2)" "queue_inv (w_queue w2)" "w_send_ok w2 = ?ok" "w_config w2 = ?cfg" "q_is_busy (w_queue w2)"
    by fact+
  have idle: "pr_line (proto_of w) = Idle" "pr_waiting (proto_of w) = ?f # map qi_execute qis"
    using q by (simp_all add: proto_of_def line_of_def)
  let ?result = "if q_has_sent_request (w_queue w2) then proto_of w2 else (proto_of w2)\<lparr>pr_line := Idle\<rparr>"
  obtain s where step: "work_step ?ok ?cfg (proto_of w) s"
    and s: "?result = s\<lparr>pr_waiting := pr_waiting s @ map qi_execute new\<rparr>"
  proof (cases "?f = Exec_scan_break")
    case True
    with idle have "work_step ?ok ?cfg (proto_of w) ((proto_of w)\<lparr>pr_waiting := map qi_execute qis\<rparr>)"
      by (auto intro: run_break)
    then show ?thesis by (rule that) (use w2 sent True q in \<open>simp add: proto_of_def line_of_def\<close>)
  next
    case False
    show ?thesis
    proof (cases "?ok (pr_seq (proto_of w) + 1)")
      case True
      with False sent obtain req where req: "request_fits ?cfg ?f req" "w_sent w2 = w_sent w @ [(pr_seq (proto_of w) + 1, req)]"
        by (auto simp: Let_def)
      with run_sent [OF idle, of ?ok ?cfg req] sent False True
      have "work_step ?ok ?cfg (proto_of w) ((proto_of w)\<lparr>pr_waiting := map qi_execute qis, pr_line := Awaiting ?f,
          pr_seq := pr_seq (proto_of w) + 1, pr_log := pr_log (proto_of w) @ [(pr_seq (proto_of w) + 1, req)]\<rparr>)"
        by (simp add: Let_def)
      then show ?thesis
        by (rule that) (use w2 sent False True req q in \<open>simp add: proto_of_def line_of_def Let_def\<close>)
    next
      case no: False
      with False sent run_refused [OF idle, of ?ok ?cfg]
      have "work_step ?ok ?cfg (proto_of w) ((proto_of w)\<lparr>pr_waiting := map qi_execute qis, pr_seq := pr_seq (proto_of w) + 1\<rparr>)"
        by (simp add: Let_def)
      then show ?thesis
        by (rule that) (use w2 sent False no q in \<open>simp add: proto_of_def line_of_def Let_def\<close>)
    qed
  qed
  from step submits [of ?ok ?cfg s "map qi_execute new"] show "(work_step ?ok ?cfg)\<^sup>*\<^sup>* (proto_of w) ?result"
    unfolding s by (rule converse_rtranclp_into_rtranclp)
qed

lemma queue_process_loop_works:
  assumes K: "works K" and "queue_process_loop K w = Some w'"
  shows "work_rel w w'"
  using assms(2)
proof (cases rule: queue_process_loop_cases)
  case (2 qi qis w2)
  have ex: "executes (qi_execute qi) (begin_item qi qis w) w2" using 2(4) by (rule worksD(1) [OF K])
  show ?thesis
  proof (rule work_relI)
    assume w: "q_conn (w_queue w)" "queue_inv (w_queue w)"
    note x = execute_item_steps [OF 2(1-3) w ex]
    have "q_conn (w_queue w') \<and> queue_inv (w_queue w') \<and> w_send_ok w' = w_send_ok w \<and> w_config w' = w_config w
      \<and> (work_step (w_send_ok w) (w_config w))\<^sup>*\<^sup>* (proto_of w) (proto_of w')
      \<and> (q_is_busy (w_queue w') \<longrightarrow> q_has_sent_request (w_queue w'))"
    proof (cases "q_has_sent_request (w_queue w2)")
      case True
      with 2(5) x show ?thesis by auto
    next
      case False
      with 2(5) obtain w3 where w3: "handle_queue_completed K 0 w2 = Some w3"
        and w': "K Call_queue_process_loop w3 = Some w'" by auto
      from K w3 obtain qi' qis' where f: "q_items (w_queue w2) = qi' # qis'" "work_rel (finish_item qis' w2) w3"
        by (rule handle_queue_completed_work)
      note i = finish_item_inv [OF x(2,5) f(1)]
      have "work_rel (finish_item qis' w2) w'"
        using f(2) worksD(2) [OF K w'] by (rule work_rel_trans)
      note r = work_relD [OF this] 
      show ?thesis using r i x False by (auto intro: rtranclp_trans)
    qed
    then show "q_conn (w_queue w') \<and> queue_inv (w_queue w') \<and> w_send_ok w' = w_send_ok w \<and> w_config w' = w_config w"
      and "(work_step (w_send_ok w) (w_config w))\<^sup>*\<^sup>* (proto_of w) (proto_of w')
      \<and> (q_is_busy (w_queue w') \<longrightarrow> q_has_sent_request (w_queue w'))"
      by blast+
  qed (use 2 in simp)
qed (simp add: work_rel_refl)

lemma queue_schedule_works:
  assumes K: "works K" and "queue_schedule K ex co w = Some w'"
  shows "work_rel w w'"
  using assms(2)
proof (cases rule: queue_schedule_cases)
  case (1 qi)
  have push: "work_rel w (push_item qi w)" by (rule work_rel_push) (rule 1)
  show ?thesis
  proof (cases "q_is_busy (w_queue w)")
    case False
    with 1 have "work_rel (push_item qi w) w'" by (auto intro: queue_process_loop_works [OF K])
    with push show ?thesis by (rule work_rel_trans)
  qed (use 1 push in simp)
qed

lemma works_ops: "works K \<Longrightarrow> ops_rel work_rel K"
  by unfold_locales
    (blast intro: work_rel_refl work_rel_trans work_rel_local work_rel_init queue_schedule_works worksD)+

lemma calls_work: "works (calls n)"
proof (induction n)
  case 0
  show ?case by (simp add: works_def)
next
  case (Suc n)
  note ops = works_ops [OF Suc]
  note bodies = ops_rel.callback_bodies [OF ops] execute_executes [OF ops] queue_process_loop_works [OF Suc]
  show ?case unfolding works_def by (auto intro: bodies split: call.split)
qed

interpretation work: ops_rel work_rel "calls n" for n
  by (rule works_ops [OF calls_work])

section \<open>Events\<close>

lemma handle_event_works:
  assumes "handle_event L rt_nexthops n e w = Some w'" "\<forall>nl_errno. e \<noteq> Ev_complete nl_errno"
  shows "work_rel w w'"
proof (cases e)
  case (Ev_message m)
  with assms obtain cb where "decode_nlmsg_cb L rt_nexthops (calls n) m w = Some (cb, w')"
    by (auto simp: handle_event_def elim!: bind_SomeE)
  then show ?thesis by (rule work.event_bodies(1))
next
  case Ev_timeout
  with assms have "scan_timeout_cb (calls n) n w = Some w'" by (simp add: handle_event_def)
  then show ?thesis by (rule work.event_bodies(3))
qed (use assms in simp)

text \<open>An answer ends the item at the head, and the line is idle when the rest goes on.\<close>

lemma handle_answer_works:
  assumes "handle_event L rt_nexthops n (Ev_complete nl_errno) w = Some w'"
  obtains qi qis where "q_is_busy (w_queue w)" "q_items (w_queue w) = qi # qis" "work_rel (finish_item qis w) w'"
proof -
  from assms have "queue_is_complete (calls n) nl_errno w = Some w'" by (simp add: handle_event_def)
  then obtain w1 where w1: "handle_queue_completed (calls n) nl_errno w = Some w1"
    and loop: "queue_process_loop (calls n) w1 = Some w'" by (rule queue_is_complete_cases)
  from calls_work w1 obtain qi qis where "q_is_busy (w_queue w)" "q_items (w_queue w) = qi # qis"
    and "work_rel (finish_item qis w) w1" by (rule handle_queue_completed_work)
  with queue_process_loop_works [OF calls_work loop] show ?thesis by (blast intro: that work_rel_trans)
qed

lemma handle_event_work_steps:
  assumes "handle_event L rt_nexthops n e w = Some w'"
    and w: "q_conn (w_queue w)" "queue_inv (w_queue w)" "settled w"
  shows "case e of
      Ev_complete nl_errno \<Rightarrow> (\<exists>f. pr_line (proto_of w) = Awaiting f)
        \<and> (work_step (w_send_ok w) (w_config w))\<^sup>*\<^sup>* ((proto_of w)\<lparr>pr_line := Idle\<rparr>) (proto_of w')
    | _ \<Rightarrow> (work_step (w_send_ok w) (w_config w))\<^sup>*\<^sup>* (proto_of w) (proto_of w')"
proof (cases e)
  case (Ev_complete nl_errno)
  with assms(1) obtain qi qis where b: "q_is_busy (w_queue w)" "q_items (w_queue w) = qi # qis"
    and r: "work_rel (finish_item qis w) w'" by (blast elim: handle_answer_works)
  note i = finish_item_inv [OF w(2) b]
  have "pr_line (proto_of w) = Awaiting (qi_execute qi)"
    using b w(3) by (simp add: proto_of_def line_of_def settled_def)
  with work_relD(7) [OF r] i w(1) Ev_complete show ?thesis by simp
qed (use work_relD(7) [OF handle_event_works [OF assms(1)] w(1,2)] in simp_all)

end
