(* ===== verification/Depth.thy ===== *)
theory Depth
  imports Daemon
begin

text \<open>
  The depth of re-entries and the fuel of the passes over the rules bound a run, and never
  change its result: an operation that has a result keeps it when it is given more.
\<close>

definition le_opt :: "'x option \<Rightarrow> 'x option \<Rightarrow> bool" where
  "le_opt m m' \<longleftrightarrow> (\<forall>x. m = Some x \<longrightarrow> m' = Some x)"

named_theorems deep "results that survive a greater depth"

lemma le_refl [simp, deep]: "le_opt m m"
  by (simp add: le_opt_def)

lemma le_None [simp, deep]: "le_opt None m"
  by (simp add: le_opt_def)

lemma le_optD: "le_opt m m' \<Longrightarrow> m = Some x \<Longrightarrow> m' = Some x"
  by (simp add: le_opt_def)

lemma le_trans: "le_opt a b \<Longrightarrow> le_opt b c \<Longrightarrow> le_opt a c"
  by (simp add: le_opt_def)

lemma le_bind [deep]: "le_opt m m' \<Longrightarrow> (\<And>x. le_opt (f x) (f' x)) \<Longrightarrow> le_opt (m \<bind> f) (m' \<bind> f')"
  by (auto simp: le_opt_def elim!: bind_SomeE)

lemma le_if [deep]: "(b \<Longrightarrow> le_opt m m') \<Longrightarrow> (\<not> b \<Longrightarrow> le_opt n n') \<Longrightarrow> le_opt (if b then m else n) (if b then m' else n')"
  by simp

lemma le_case [deep]:
  "le_opt m m' \<Longrightarrow> (\<And>y. le_opt (f y) (f' y)) \<Longrightarrow> le_opt (case x of None \<Rightarrow> m | Some y \<Rightarrow> f y) (case x of None \<Rightarrow> m' | Some y \<Rightarrow> f' y)"
  by (cases x) simp_all

lemma le_prod [deep]: "(\<And>x y. le_opt (f x y) (f' x y)) \<Longrightarrow> le_opt (case p of (x, y) \<Rightarrow> f x y) (case p of (x, y) \<Rightarrow> f' x y)"
  by (cases p) simp

lemma le_let [deep]: "(\<And>x. le_opt (f x) (f' x)) \<Longrightarrow> le_opt (Let v f) (Let v f')"
  by simp

locale deeper =
  fixes K K' :: calls
  assumes K_le [deep]: "le_opt (K c w) (K' c w)"
begin

lemma queue_le [deep]: "le_opt (queue_process K w) (queue_process K' w)"
  "le_opt (handle_queue_completed K nl_errno w) (handle_queue_completed K' nl_errno w)"
  unfolding queue_process_def handle_queue_completed_def
  by (auto intro!: deep split: list.split)

lemma queue_loop_le [deep]: "le_opt (queue_process_loop K w) (queue_process_loop K' w)"
  unfolding queue_process_loop_def by (auto intro!: deep)

lemma queue_schedule_le [deep]: "le_opt (queue_schedule K ex co w) (queue_schedule K' ex co w)"
  "le_opt (queue_is_complete K nl_errno w) (queue_is_complete K' nl_errno w)"
  unfolding queue_schedule_def queue_is_complete_def by (auto intro!: deep)

lemma action_le [deep]: "le_opt (tc_action_install K chain_no prio tcr data w) (tc_action_install K' chain_no prio tcr data w)"
  unfolding tc_action_install_def by (auto intro!: deep)

section \<open>Rules\<close>

lemma rule_queue_le [deep]: "le_opt (obj_rule_queue_install K p w) (obj_rule_queue_install K' p w)"
  "le_opt (obj_rule_queue_uninstall K p w) (obj_rule_queue_uninstall K' p w)"
  unfolding obj_rule_queue_install_def obj_rule_queue_uninstall_def by (auto intro!: deep)

lemma rule_update_le [deep]: "le_opt (obj_rule_update_state K p w) (obj_rule_update_state K' p w)"
  unfolding obj_rule_update_state_def by (auto intro!: deep)

lemma rule_unref_le [deep]: "le_opt (obj_rule_uninstall K p w) (obj_rule_uninstall K' p w)"
  "le_opt (obj_rule_unref K p w) (obj_rule_unref K' p w)"
  unfolding obj_rule_unref_def obj_rule_uninstall_def by (auto intro!: deep)

lemma rule_request_le [deep]: "le_opt (obj_rule_new K p w) (obj_rule_new K' p w)"
  "le_opt (obj_rule_delete K p w) (obj_rule_delete K' p w)"
  "le_opt (obj_rule_queue_request K p w) (obj_rule_queue_request K' p w)"
  "le_opt (obj_rule_request K tcr w) (obj_rule_request K' tcr w)"
  "le_opt (obj_rule_static_want K chain_no prio tcr w) (obj_rule_static_want K' chain_no prio tcr w)"
  unfolding obj_rule_new_def obj_rule_delete_def obj_rule_queue_request_def obj_rule_request_def
    obj_rule_static_want_def
  by (auto intro!: deep)

lemma rule_found_le [deep]:
  "le_opt (obj_rule_netlink_found K nltype chain_no prio tcr w) (obj_rule_netlink_found K' nltype chain_no prio tcr w)"
  unfolding obj_rule_netlink_found_def by (auto intro!: deep)

lemma remove_pin_pass_le [deep]: "n \<le> m \<Longrightarrow> le_opt (remove_pin_pass K n q w) (remove_pin_pass K' m q w)"
proof (induction n arbitrary: m q w)
  case (Suc n)
  then obtain m' where m: "m = Suc m'" "n \<le> m'" by (cases m) auto
  show ?case by (cases q) (auto simp: m intro!: deep Suc.IH)
qed (auto simp: le_opt_def elim: remove_pin_pass.elims)

lemma remove_pin_loop_le [deep]: "n \<le> m \<Longrightarrow> le_opt (remove_pin_loop K n is w) (remove_pin_loop K' m is w)"
  by (induction "is" arbitrary: w) (auto intro!: deep simp: Let_def)

lemma remove_pin_le [deep]: "n \<le> m \<Longrightarrow> le_opt (obj_rule_remove_pin K n w) (obj_rule_remove_pin K' m w)"
  unfolding obj_rule_remove_pin_def by (auto intro!: deep)

lemma place_prefixes_le [deep]: "le_opt (place_prefixes K base_prio pfxs w) (place_prefixes K' base_prio pfxs w)"
  by (induction pfxs arbitrary: w) (auto intro!: deep simp: request_onload_rule_def)

lemma sched_init_le: "le_opt (sched_init pton K w) (sched_init pton K' w)"
  unfolding sched_init_def sched_basic_initial_requests_def request_af_goto_rule_def request_ttl_check_def
    sched_basic_place_prefix_list_def
  by (auto intro!: deep)

section \<open>Targets and routes\<close>

lemma route_install_le [deep]: "le_opt (obj_route_install K p w) (obj_route_install K' p w)"
  unfolding obj_route_install_def by (auto intro!: deep)

lemma target_loops_le [deep]: "le_opt (notify_routes_loop K n t q w) (notify_routes_loop K' n t q w)"
  "le_opt (unref_routes_loop K n q w) (unref_routes_loop K' n q w)"
  "le_opt (unlink_route_loop K n t rp prev q w) (unlink_route_loop K' n t rp prev q w)"
  by (induction n arbitrary: q w prev; case_tac q; auto intro!: deep)+

lemma target_notify_le [deep]: "le_opt (obj_target_notify_routes K p w) (obj_target_notify_routes K' p w)"
  "le_opt (obj_target_reap K p w) (obj_target_reap K' p w)"
  unfolding obj_target_notify_routes_def obj_target_reap_def by (auto intro!: deep)

lemma target_le [deep]: "le_opt (obj_target_unref K p w) (obj_target_unref K' p w)"
  "le_opt (obj_target_set_rule K p r w) (obj_target_set_rule K' p r w)"
  unfolding obj_target_unref_def obj_target_set_rule_def by (auto intro!: deep)

lemma target_link_le [deep]: "le_opt (obj_target_install K p w) (obj_target_install K' p w)"
  "le_opt (obj_target_neigh_update K p w) (obj_target_neigh_update K' p w)"
  "le_opt (obj_target_unlink_route K p rp w) (obj_target_unlink_route K' p rp w)"
  unfolding obj_target_install_def obj_target_neigh_update_def obj_target_unlink_route_def
  by (auto intro!: deep)

lemma target_link_route_le [deep]: "le_opt (obj_target_link_route K tp rp w) (obj_target_link_route K' tp rp w)"
  unfolding obj_target_link_route_def by (auto intro!: deep)

lemma route_reap_le [deep]: "le_opt (obj_route_reap K p w) (obj_route_reap K' p w)"
  unfolding obj_route_reap_def by (auto intro!: deep)

lemma route_unref_le [deep]: "le_opt (obj_route_unref K p w) (obj_route_unref K' p w)"
  unfolding obj_route_unref_def by (auto intro!: deep)

lemma route_le [deep]: "le_opt (obj_route_delete K p w) (obj_route_delete K' p w)"
  "le_opt (obj_route_netlink_update K nltype tp dst w) (obj_route_netlink_update K' nltype tp dst w)"
  unfolding obj_route_delete_def obj_route_netlink_update_def by (auto intro!: deep)

section \<open>Neighbours and links\<close>

lemma neigh_loops_le [deep]: "le_opt (unref_targets_loop K n q w) (unref_targets_loop K' n q w)"
  "le_opt (notify_targets_loop K n q w) (notify_targets_loop K' n q w)"
  by (induction n arbitrary: q w; case_tac q; auto intro!: deep)+

lemma neigh_reap_le [deep]: "le_opt (obj_neigh_reap K p w) (obj_neigh_reap K' p w)"
  "le_opt (obj_neigh_notify_targets K p w) (obj_neigh_notify_targets K' p w)"
  unfolding obj_neigh_reap_def obj_neigh_notify_targets_def by (auto intro!: deep)

lemma neigh_unref_le [deep]: "le_opt (obj_neigh_unref K p w) (obj_neigh_unref K' p w)"
  "le_opt (obj_neigh_delete K p w) (obj_neigh_delete K' p w)"
  "le_opt (obj_neigh_link_update K p w) (obj_neigh_link_update K' p w)"
  unfolding obj_neigh_unref_def obj_neigh_delete_def obj_neigh_link_update_def by (auto intro!: deep)

lemma neigh_le [deep]: "le_opt (obj_neigh_new K p w) (obj_neigh_new K' p w)"
  "le_opt (obj_neigh_update K p w) (obj_neigh_update K' p w)"
  "le_opt (obj_neigh_link_gone K p w) (obj_neigh_link_gone K' p w)"
  unfolding obj_neigh_new_def obj_neigh_update_def obj_neigh_link_gone_def by (auto intro!: deep)

lemma neigh_netlink_le [deep]:
  "le_opt (obj_neigh_netlink_update K nltype ifindex f addr lladdr w) (obj_neigh_netlink_update K' nltype ifindex f addr lladdr w)"
  unfolding obj_neigh_netlink_update_def by (auto intro!: deep)

lemma link_loops_le [deep]: "le_opt (link_gone_loop K n lp q w) (link_gone_loop K' n lp q w)"
  "le_opt (link_update_loop K n lp q w) (link_update_loop K' n lp q w)"
  by (induction n arbitrary: q w; case_tac q; auto intro!: deep)+

lemma link_reap_le [deep]: "le_opt (obj_link_reap K p w) (obj_link_reap K' p w)"
  "le_opt (obj_link_update K p w) (obj_link_update K' p w)"
  unfolding obj_link_reap_def obj_link_update_def by (auto intro!: deep)

lemma link_le [deep]: "le_opt (obj_link_delete K p w) (obj_link_delete K' p w)"
  unfolding obj_link_delete_def by (auto intro!: deep)

lemma link_netlink_le [deep]:
  "le_opt (obj_link_netlink_update K nltype ifindex lladdr lower vlan mtu ifname w)
     (obj_link_netlink_update K' nltype ifindex lladdr lower vlan mtu ifname w)"
  unfolding obj_link_netlink_update_def by (auto intro!: deep)

section \<open>The scan and the messages\<close>

lemma scan_loop_le [deep]: "n \<le> m \<Longrightarrow> le_opt (advance_scan_loop K n i w) (advance_scan_loop K' m i w)"
  by (induction i arbitrary: w) (auto intro!: deep split: scan_state.split)

lemma scan_le [deep]: "n \<le> m \<Longrightarrow> le_opt (advance_scan K n w) (advance_scan K' m w)"
  unfolding advance_scan_def by (auto intro!: deep)

lemma scan_timeout_le [deep]: "n \<le> m \<Longrightarrow> le_opt (scan_timeout_cb K n w) (scan_timeout_cb K' m w)"
  unfolding scan_timeout_cb_def by (auto intro!: deep)

lemma call_bodies_le: "le_opt (execute K f w) (execute K' f w)"
  "n \<le> m \<Longrightarrow> le_opt (completed K n g nl_errno w) (completed K' m g nl_errno w)"
  unfolding execute_def completed_def tc_action_execute_def obj_rule_post_install_def
  by (auto intro!: deep split: execute_fn.split completed_fn.split)

lemma decode_le [deep]: "le_opt (decode_link L K nltype ifi attrs w) (decode_link L K' nltype ifi attrs w)"
  "le_opt (decode_neigh L K nltype ndm attrs w) (decode_neigh L K' nltype ndm attrs w)"
  "le_opt (decode_route L rt_nexthops K nltype rm attrs w) (decode_route L rt_nexthops K' nltype rm attrs w)"
  "le_opt (decode_filter L K m w) (decode_filter L K' m w)"
  unfolding decode_link_def decode_neigh_def decode_route_def decode_filter_def by (auto intro!: deep)

lemma decode_nlmsg_le: "le_opt (decode_nlmsg_cb L rt_nexthops K m w) (decode_nlmsg_cb L rt_nexthops K' m w)"
  unfolding decode_nlmsg_cb_def by (auto intro!: deep split: nl_message.split)

end


section \<open>Depth and fuel never change a result\<close>

lemma calls_Suc_le: "le_opt (calls n c w) (calls (Suc n) c w)"
proof (induction n arbitrary: c w)
  case (Suc n)
  have deeper: "deeper (calls n) (calls (Suc n))" using Suc by unfold_locales
  note le = deeper.call_bodies_le [OF deeper] deeper.queue_loop_le [OF deeper]
    deeper.target_notify_le [OF deeper] deeper.route_unref_le [OF deeper]
  show ?case
    by (cases c) (simp_all only: calls.simps(2) call.case le order.refl le_SucI)
qed simp

interpretation calls: deeper "calls n" "calls (Suc n)" for n
  by unfold_locales (rule calls_Suc_le)

lemma handle_event_Suc_le: "le_opt (handle_event L rt_nexthops n e w) (handle_event L rt_nexthops (Suc n) e w)"
  unfolding handle_event_def
  by (auto intro!: deep calls.decode_nlmsg_le calls.queue_schedule_le calls.scan_timeout_le split: event.split)

lemma start_Suc_le: "le_opt (start inet_pton n send_ok cfg c) (start inet_pton (Suc n) send_ok cfg c)"
  unfolding start_def scan_init_def by (auto intro!: deep calls.sched_init_le calls.scan_le)

lemma le_opt_Suc_mono:
  assumes "\<And>n. le_opt (f n) (f (Suc n))" and "n \<le> m"
  shows "le_opt (f n) (f m)"
  using assms(2) by (induction m) (auto simp: le_Suc_eq intro: le_trans assms(1))

text \<open>The bounds of the model do not show in its results: an event that is handled at some depth is
  handled with the same result at every greater depth, and so is the start.\<close>

theorem depth_irrelevant:
  assumes "n \<le> m"
  shows "(handle_event L rt_nexthops n e w = Some w' \<longrightarrow> handle_event L rt_nexthops m e w = Some w')
    \<and> (start inet_pton n send_ok cfg c = Some w' \<longrightarrow> start inet_pton m send_ok cfg c = Some w')"
  using le_opt_Suc_mono [where f = "\<lambda>n. handle_event L rt_nexthops n e w", OF handle_event_Suc_le assms]
    le_opt_Suc_mono [where f = "\<lambda>n. start inet_pton n send_ok cfg c", OF start_Suc_le assms]
  by (simp add: le_opt_def)

text \<open>Two depths never disagree.\<close>

lemma handle_event_unique:
  "handle_event L rt_nexthops n e w = Some w1 \<Longrightarrow> handle_event L rt_nexthops m e w = Some w2 \<Longrightarrow> w1 = w2"
  using le_opt_Suc_mono [where f = "\<lambda>n. handle_event L rt_nexthops n e w", OF handle_event_Suc_le]
  by (metis le_optD nat_le_linear option.inject)

end
