(* ===== verification/Protocol_Props.thy ===== *)
theory Protocol_Props
  imports Stop_And_Wait Depth Rule_Props MNL_Tree
begin

text \<open>
  What holds in every state the daemon reaches: the queue's discipline, the stop-and-wait
  protocol with the kernel, and the numbers of the requests.
\<close>

section \<open>Invariants\<close>

definition sent_inv :: "u32 \<Rightarrow> world \<Rightarrow> bool" where
  "sent_inv s w \<longleftrightarrow> (\<exists>k. unat s + k \<le> 2 ^ 32 \<and> conn_seq (sc_conn (w_scan w)) = s + of_nat k
     \<and> map fst (w_sent w) = filter (w_send_ok w) (map (\<lambda>i. s + of_nat i) [1..<Suc k]))"

lemma sent_inv_cong:
  "w_sent w' = w_sent w \<Longrightarrow> w_send_ok w' = w_send_ok w \<Longrightarrow> conn_seq (sc_conn (w_scan w')) = conn_seq (sc_conn (w_scan w))
    \<Longrightarrow> sent_inv s w' \<longleftrightarrow> sent_inv s w"
  by (simp only: sent_inv_def)

lemma queue_upd_store:
  fixes w :: world
  assumes "w' = w\<lparr>w_queue := q\<rparr>"
  shows "w_config w' = w_config w \<and> w_send_ok w' = w_send_ok w \<and> w_next w \<le> w_next w'
    \<and> (fresh_ok w \<longrightarrow> fresh_ok w') \<and> (sent_inv s w \<longrightarrow> sent_inv s w') \<and> w_sent w' = w_sent w"
  using sent_inv_cong [of w' w s] assms by (simp add: fresh_ok_def)

lemma sent_invD_step:
  assumes "unat (s :: u32) + k \<le> 2 ^ 32" "s + of_nat k \<noteq> 0"
  shows "unat s + Suc k \<le> 2 ^ 32"
proof (rule ccontr)
  assume "\<not> unat s + Suc k \<le> 2 ^ 32"
  with assms(1) have "unat s + k = 2 ^ 32" by simp
  then have "of_nat (unat s + k) = (0 :: u32)" by (simp only: word_of_nat_eq_0_iff) simp
  with assms(2) show False by simp
qed

lemma qstep_store:
  assumes "qstep w w'"
  shows "w_config w' = w_config w \<and> w_send_ok w' = w_send_ok w \<and> w_next w \<le> w_next w'
    \<and> (fresh_ok w \<longrightarrow> fresh_ok w') \<and> (sent_inv s w \<longrightarrow> sent_inv s w')
    \<and> (q_conn (w_queue w') \<or> \<not> q_conn (w_queue w) \<and> w_sent w' = w_sent w)"
  using assms
proof (cases rule: qstep.cases)
  case step_local
  with sent_inv_cong [of w' w s] show ?thesis by (auto simp: local_upd_def)
next
  case (step_send req)
  from step_send(2) show ?thesis
  proof (cases rule: nl_send_req_cases)
    case (1 c)
    have "sent_inv s w'" if "sent_inv s w"
    proof -
      from that obtain k where k: "unat s + k \<le> 2 ^ 32" "conn_seq (sc_conn (w_scan w)) = s + of_nat k"
        "map fst (w_sent w) = filter (w_send_ok w) (map (\<lambda>i. s + of_nat i) [1..<Suc k])"
        by (auto simp: sent_inv_def)
      have "unat s + Suc k \<le> 2 ^ 32" using k 1 by (intro sent_invD_step) auto
      moreover have "conn_seq c = s + of_nat (Suc k)" using 1 k by (simp add: ac_simps)
      ultimately show ?thesis
        unfolding sent_inv_def by (intro exI [of _ "Suc k"]) (use 1 k in \<open>auto simp: upt_Suc ac_simps split: if_splits\<close>)
    qed
    moreover have "w_config w' = w_config w \<and> w_send_ok w' = w_send_ok w \<and> w_next w' = w_next w
      \<and> (fresh_ok w \<longrightarrow> fresh_ok w')
      \<and> (q_conn (w_queue w') \<or> \<not> q_conn (w_queue w) \<and> w_sent w' = w_sent w)"
      using 1 by (auto simp: fresh_ok_def split: if_splits)
    ultimately show ?thesis by auto
  qed
next
  case (step_push qi)
  with queue_upd_store [OF step_push(1) [unfolded push_item_def], of s] show ?thesis by (simp add: push_item_def)
next
  case (step_begin qi qis)
  with queue_upd_store [OF step_begin(1) [unfolded begin_item_def], of s] show ?thesis by (simp add: begin_item_def)
next
  case (step_finish qi qis)
  with queue_upd_store [OF step_finish(1) [unfolded finish_item_def], of s] show ?thesis by (simp add: finish_item_def)
next
  case step_init
  then have "w' = w\<lparr>w_queue := empty_queue\<lparr>q_conn := True\<rparr>\<rparr>" by (simp add: queue_init_def)
  with queue_upd_store [OF this, of s] show ?thesis by simp
qed

lemma qsteps_store:
  "qstep\<^sup>*\<^sup>* w w' \<Longrightarrow> w_config w' = w_config w \<and> w_send_ok w' = w_send_ok w \<and> w_next w \<le> w_next w'
    \<and> (fresh_ok w \<longrightarrow> fresh_ok w') \<and> (sent_inv s w \<longrightarrow> sent_inv s w')
    \<and> (q_conn (w_queue w') \<or> \<not> q_conn (w_queue w) \<and> w_sent w' = w_sent w)"
proof (induction rule: rtranclp_induct)
  case (step y z)
  from qstep_store [OF step(2), of s] step.IH show ?case by auto
qed (cases "q_conn (w_queue w)", auto)


section \<open>The start\<close>

lemma start_cases:
  assumes "start inet_pton n send_ok cfg c = Some w"
  obtains wa wc where "qstep\<^sup>*\<^sup>* (initial_world send_ok cfg) wa" "\<not> q_conn (w_queue wa)"
    "wc = wa\<lparr>w_scan := \<lparr>sc_state = SCAN_RUN_HELPERS, sc_helper_idx = 0, sc_next_chain = None, sc_q_chain_no = 0,
       sc_timer = False, sc_conn = c\<rparr>, w_queue := empty_queue\<lparr>q_conn := True\<rparr>\<rparr>"
    "qstep\<^sup>*\<^sup>* wc w" "busy_rel wc w"
proof -
  let ?s = "\<lparr>sc_state = SCAN_NEW, sc_helper_idx = 0, sc_next_chain = None, sc_q_chain_no = 0,
       sc_timer = False, sc_conn = c\<rparr>"
  from assms obtain wa wd where wa: "sched_init inet_pton (calls n) (initial_world send_ok cfg) = Some wa"
    and wd: "scan_init (calls n) n c wa = Some wd" and w: "w = obj_rule_init wd"
    by (auto simp: start_def elim!: bind_SomeE)
  have eight: "(8 :: nat) = Suc 7" by simp
  from wd obtain wq where init: "queue_init (wa\<lparr>w_scan := ?s\<rparr>) = Some wq"
    and run: "advance_scan_loop (calls n) n 7 (mod_scan (\<lambda>s. s\<lparr>sc_state := SCAN_RUN_HELPERS\<rparr>) wq) = Some wd"
    unfolding scan_init_def advance_scan_def eight advance_scan_loop.simps(2)
    by (auto elim!: bind_SomeE)
  define wc where "wc = mod_scan (\<lambda>s. s\<lparr>sc_state := SCAN_RUN_HELPERS\<rparr>) wq"
  have "local_upd wd w" by (simp add: w obj_rule_init_def local_upd_def fresh_ok_def)
  then have "qstep wd w" "busy_rel wd w" by (auto intro: step_local busy.local_step)
  with steps.event_keeps(2) [OF run] busy.event_keeps(2) [OF run]
  have "qstep\<^sup>*\<^sup>* wc w" "busy_rel wc w"
    unfolding wc_def by (auto intro: rtranclp.rtrancl_into_rtrancl busy.trans)
  moreover have "\<not> q_conn (w_queue wa)" using init by (simp add: queue_init_def)
  moreover have "wc = wa\<lparr>w_scan := ?s\<lparr>sc_state := SCAN_RUN_HELPERS\<rparr>, w_queue := empty_queue\<lparr>q_conn := True\<rparr>\<rparr>"
    using init by (auto simp: wc_def queue_init_def mod_scan_def)
  ultimately show ?thesis
    using that [of wa wc] steps.event_keeps(4) [OF wa] by simp
qed

definition reach_inv :: "(u32 \<Rightarrow> bool) \<Rightarrow> config \<Rightarrow> conn \<Rightarrow> world \<Rightarrow> bool" where
  "reach_inv send_ok cfg c w \<longleftrightarrow> q_conn (w_queue w) \<and> queue_inv (w_queue w) \<and> settled w \<and> fresh_ok w
     \<and> w_config w = cfg \<and> w_send_ok w = send_ok \<and> sent_inv (conn_seq c) w"

lemma start_reach_inv:
  assumes "start inet_pton n send_ok cfg c = Some w"
  shows "reach_inv send_ok cfg c w"
  using assms
proof (cases rule: start_cases)
  case (1 wa wc)
  from qsteps_store [OF 1(1)] 1(2)
  have wa: "w_config wa = cfg" "w_send_ok wa = send_ok" "w_sent wa = []" "fresh_ok wa"
    by (auto simp: initial_world_def fresh_ok_def empty_queue_def)
  have wc: "w_config wc = cfg" "w_send_ok wc = send_ok" "w_sent wc = []" "fresh_ok wc" "settled wc"
    "queue_inv (w_queue wc)" "q_conn (w_queue wc)" "conn_seq (sc_conn (w_scan wc)) = conn_seq c"
    using wa by (simp_all add: 1(3) fresh_ok_def settled_def empty_queue_def queue_inv_def)
  have "unat (conn_seq c) < 2 ^ LENGTH(32)" by (rule unsigned_less)
  with wc have "sent_inv (conn_seq c) wc"
    unfolding sent_inv_def by (intro exI [of _ 0]) simp
  with wc qsteps_store [OF 1(4), of "conn_seq c"] qsteps_queue_inv [OF 1(4)] 1(5) show ?thesis
    by (auto simp: reach_inv_def busy_rel_def)
qed

lemma reachable_inv: "reachable inet_pton L rt_nexthops send_ok cfg c w \<Longrightarrow> reach_inv send_ok cfg c w"
proof (induction rule: reachable.induct)
  case (reach_start n w)
  then show ?case by (rule start_reach_inv)
next
  case (reach_event w n e w')
  from reach_event.IH qsteps_store [OF handle_event_steps [OF reach_event(2)], of "conn_seq c"]
    qsteps_queue_inv [OF handle_event_steps [OF reach_event(2)]] handle_event_settled [OF reach_event(2)]
  show ?case by (auto simp: reach_inv_def)
qed

text \<open>Between events the line awaits an answer, or nothing waits.\<close>

lemma settled_line:
  "reach_inv send_ok cfg c w \<Longrightarrow>
    (\<exists>f. pr_line (proto_of w) = Awaiting f) \<or> pr_line (proto_of w) = Idle \<and> pr_waiting (proto_of w) = []"
  by (auto simp: reach_inv_def settled_def proto_of_def line_of_def split: if_splits)

section \<open>Properties of the reachable states\<close>

text \<open>C2. Between events the queue is connected and waits for the kernel exactly when it holds an
  item: an empty queue is idle, the item at the head of a nonempty one has sent its request,
  and the others wait. So the queue never stalls.\<close>

theorem reachable_queue_discipline:
  assumes "reachable inet_pton L rt_nexthops send_ok cfg c w"
  shows "q_conn (w_queue w)
    \<and> (q_is_busy (w_queue w) \<longleftrightarrow> q_items (w_queue w) \<noteq> [])
    \<and> (q_is_busy (w_queue w) \<longrightarrow> q_has_sent_request (w_queue w))
    \<and> map qi_state (q_items (w_queue w))
        = (if q_is_busy (w_queue w) then [QUEUE_ITEM_STATE_SENT] else [])
          @ replicate (length (q_items (w_queue w)) - 1) QUEUE_ITEM_STATE_NEW"
  using reachable_inv [OF assms]
  by (auto simp: reach_inv_def queue_inv_def settled_def map_replicate_const [symmetric] intro!: map_cong split: if_splits)


text \<open>While an answer is awaited, any other event only appends to the queue.\<close>

lemma handle_event_awaiting:
  assumes "reachable inet_pton L rt_nexthops send_ok cfg c w" "handle_event L rt_nexthops n e w = Some w'"
    and "\<forall>nl_errno. e \<noteq> Ev_complete nl_errno" "pr_line (proto_of w) = Awaiting f"
  shows "\<exists>new. proto_of w' = (proto_of w)\<lparr>pr_waiting := pr_waiting (proto_of w) @ new\<rparr>"
  using reachable_inv [OF assms(1)] handle_event_works [OF assms(2,3)] assms(4)
  by (auto simp: reach_inv_def intro: work_steps_awaiting dest: work_relD(7))

text \<open>
  What an event does to the functions queued, when the socket takes every request: an answer takes
  away the one at the head and has the request of the next one sent; other events append.
\<close>

lemma handle_event_answer:
  assumes r: "reachable inet_pton L rt_nexthops send_ok cfg c w"
    and ev: "handle_event L rt_nexthops n (Ev_complete nl_errno) w = Some w'"
    and ok: "\<And>x. send_ok x" and fns: "map qi_execute (q_items (w_queue w)) = f # g # fs" "g \<noteq> Exec_scan_break"
  obtains new req where "map qi_execute (q_items (w_queue w')) = g # fs @ new" "request_fits cfg g req"
    "map snd (w_sent w') = map snd (w_sent w) @ [req]"
proof -
  note inv = reachable_inv [OF r] and inv' = reachable_inv [OF reach_event [OF r ev]]
  from inv handle_event_work_steps [OF ev] obtain f' where aw: "pr_line (proto_of w) = Awaiting f'"
    and steps: "(work_step send_ok cfg)\<^sup>*\<^sup>* ((proto_of w)\<lparr>pr_line := Idle\<rparr>) (proto_of w')"
    by (auto simp: reach_inv_def)
  have "pr_waiting (proto_of w) = g # fs"
    using fns queued_functions [of w] inv aw by (simp add: reach_inv_def)
  then have idle: "pr_line ((proto_of w)\<lparr>pr_line := Idle\<rparr>) = Idle" "pr_waiting ((proto_of w)\<lparr>pr_line := Idle\<rparr>) = g # fs"
    by simp_all
  from steps idle fns(2) ok settled_line [OF inv']
  obtain new req where "pr_line (proto_of w') = Awaiting g" "pr_waiting (proto_of w') = fs @ new" "request_fits cfg g req"
    "map snd (pr_log (proto_of w')) = map snd (pr_log (proto_of w)) @ [req]"
    by (rule work_steps_next) auto
  with queued_functions [of w'] inv' that [of new req] show ?thesis
    by (simp add: reach_inv_def proto_of_def)
qed

lemma handle_event_other:
  assumes "reachable inet_pton L rt_nexthops send_ok cfg c w" "handle_event L rt_nexthops n e w = Some w'"
    and "\<forall>nl_errno. e \<noteq> Ev_complete nl_errno" "q_items (w_queue w) \<noteq> []"
  obtains new where "map qi_execute (q_items (w_queue w')) = map qi_execute (q_items (w_queue w)) @ new"
    "w_sent w' = w_sent w"
proof -
  note inv = reachable_inv [OF assms(1)]
  have "appends w w'"
    using inv assms(4) work_relD(5) [OF handle_event_works [OF assms(2,3)]]
    by (auto simp: reach_inv_def settled_def split: if_splits)
  then show ?thesis by (auto simp: appends_def intro: that)
qed

text \<open>C27. The requests sent bear consecutive numbers, from the connection's first number on, less
  the numbers of the requests that the socket refused; no number is used twice.\<close>

theorem reachable_sent_numbers:
  assumes "reachable inet_pton L rt_nexthops send_ok cfg c w"
  shows "(\<exists>k. unat (conn_seq c) + k \<le> 2 ^ 32
      \<and> map fst (w_sent w) = filter send_ok (map (\<lambda>i. conn_seq c + of_nat i) [1..<Suc k]))
    \<and> distinct (map fst (w_sent w))"
proof -
  from reachable_inv [OF assms] obtain k where k: "unat (conn_seq c) + k \<le> 2 ^ 32"
    "map fst (w_sent w) = filter send_ok (map (\<lambda>i. conn_seq c + of_nat i) [1..<Suc k])"
    by (auto simp: reach_inv_def sent_inv_def)
  have "inj_on (\<lambda>i. conn_seq c + of_nat i) {1..k}"
  proof (rule inj_onI)
    fix i j assume ij: "i \<in> {1..k}" "j \<in> {1..k}" "conn_seq c + of_nat i = conn_seq c + of_nat j"
    then have "(of_nat (i - 1) :: u32) = of_nat (j - 1)" by (simp add: of_nat_diff)
    moreover have "i - 1 < 2 ^ LENGTH(32)" "j - 1 < 2 ^ LENGTH(32)" using ij k(1) by auto
    ultimately have "i - 1 = j - 1" by (metis unat_of_nat mod_less)
    then show "i = j" using ij by auto
  qed
  then have "distinct (map (\<lambda>i. conn_seq c + of_nat i) [1..<Suc k])"
    by (simp add: distinct_map atLeastLessThanSuc_atLeastAtMost del: upt_Suc)
  with k show ?thesis by auto
qed

section \<open>A concrete run\<close>

definition demo_conn :: conn where
  "demo_conn = \<lparr>conn_portid = 4711, conn_seq = 100, conn_name = None\<rparr>"

abbreviation demo_reachable :: "world \<Rightarrow> bool" where
  "demo_reachable \<equiv> reachable demo_inet_pton tree_libmnl (\<lambda>_. []) (\<lambda>_. True) demo_config demo_conn"

definition demo_start :: "world option" where
  "demo_start = start demo_inet_pton 20 (\<lambda>_. True) demo_config demo_conn"

definition demo_event :: "world option" where
  "demo_event = demo_start \<bind> handle_event tree_libmnl (\<lambda>_. []) 20 (Ev_complete 0)"

lemma demo_run: "map_option (\<lambda>w. map snd (w_sent w)) demo_start = Some [Req_dump_qdisc 0]"
  "map_option (\<lambda>w. map snd (w_sent w)) demo_event = Some [Req_dump_qdisc 0, Req_dump_chains 0]"
  by code_simp+

lemma demo_states:
  obtains w w' where "demo_start = Some w" "demo_event = Some w'" "demo_reachable w" "demo_reachable w'"
    "handle_event tree_libmnl (\<lambda>_. []) 20 (Ev_complete 0) w = Some w'"
    "map snd (w_sent w) = [Req_dump_qdisc 0]" "map snd (w_sent w') = [Req_dump_qdisc 0, Req_dump_chains 0]"
proof -
  from demo_run obtain w w' where w: "demo_start = Some w" "demo_event = Some w'"
    and sent: "map snd (w_sent w) = [Req_dump_qdisc 0]" "map snd (w_sent w') = [Req_dump_qdisc 0, Req_dump_chains 0]"
    by auto
  from w have ev: "handle_event tree_libmnl (\<lambda>_. []) 20 (Ev_complete 0) w = Some w'"
    unfolding demo_event_def by (metis bind.bind_lunit)
  have r: "demo_reachable w" using w(1) unfolding demo_start_def by (rule reach_start)
  then have r': "demo_reachable w'" using ev by (rule reach_event)
  show ?thesis by (rule that [OF w r r' ev sent])
qed

lemma reachable_queue_discipline_witness:
  "\<exists>w. demo_event = Some w \<and> q_conn (w_queue w) \<and> (q_is_busy (w_queue w) \<longleftrightarrow> q_items (w_queue w) \<noteq> [])"
  by (rule demo_states) (blast dest: reachable_queue_discipline)


lemma reachable_sent_numbers_witness: "\<exists>w. demo_event = Some w \<and> length (w_sent w) = 2 \<and> distinct (map fst (w_sent w))"
proof (rule demo_states)
  fix w assume w: "demo_event = Some w" "demo_reachable w" "map snd (w_sent w) = [Req_dump_qdisc 0, Req_dump_chains 0]"
  from arg_cong [OF w(3), of length] reachable_sent_numbers [OF w(2)] w(1) show ?thesis by auto
qed

end
