(* ===== verification/Scan_Props.thy ===== *)
theory Scan_Props
  imports Protocol_Props
begin

text \<open>
  The scan: what each turn of its state machine does, and what happens when the socket does not
  take its requests.
\<close>

section \<open>Requests that cannot be sent\<close>

text \<open>
  The daemon's calls with something else at the bottom. With the calls that have no result this is
  the daemon of that depth. With calls that do nothing, a run that would go deeper is cut off
  there and returns, and what it has done by then can be seen.
\<close>

fun knot :: "calls \<Rightarrow> nat \<Rightarrow> call \<Rightarrow> world \<Rightarrow> world option" where
  "knot bottom 0 c w = bottom c w"
| "knot bottom (Suc n) c w =
     (case c of
        Call_queue_process_loop \<Rightarrow> queue_process_loop (knot bottom n) w
      | Call_execute f \<Rightarrow> execute (knot bottom n) f w
      | Call_completed f nl_errno \<Rightarrow> completed (knot bottom n) n f nl_errno w
      | Call_target_notify_routes p \<Rightarrow> obj_target_notify_routes (knot bottom n) p w
      | Call_route_unref p \<Rightarrow> obj_route_unref (knot bottom n) p w)"

lemma knot_calls: "knot (\<lambda>_ _. None) n = calls n"
proof (induction n)
  case (Suc n)
  have "knot (\<lambda>_ _. None) (Suc n) c w = calls (Suc n) c w" for c w by (cases c) (simp_all add: Suc)
  then show ?case by (intro ext)
qed (simp add: fun_eq_iff)

definition queue_idle :: "world \<Rightarrow> bool" where
  "queue_idle w \<longleftrightarrow> q_conn (w_queue w) \<and> \<not> q_is_busy (w_queue w) \<and> q_items (w_queue w) = []"

definition refusing :: "world \<Rightarrow> bool" where
  "refusing w \<longleftrightarrow> w_send_ok w = (\<lambda>_. False) \<and> w_chains w = Null \<and> queue_idle w \<and> sc_helper_idx (w_scan w) = 0
     \<and> sc_state (w_scan w) \<in> {SCAN_RUN_HELPERS, SCAN_DUMP_CHAINS, SCAN_DUMP_EACH_CHAIN_INIT}"

abbreviation (input) "seq_of w \<equiv> conn_seq (sc_conn (w_scan w))"

text \<open>An item that sends nothing is completed, and the queue is idle again.\<close>

lemma queue_schedule_nothing_sent:
  fixes ex f defines "qi \<equiv> \<lparr>qi_execute = ex, qi_completed = Some f, qi_state = QUEUE_ITEM_STATE_NEW\<rparr>"
  assumes w: "queue_idle w" and ex: "K (Call_execute ex) (begin_item qi [] (push_item qi w)) = Some w2"
    and q: "w_queue w2 = w_queue (begin_item qi [] (push_item qi w))"
  shows "queue_schedule K ex (Some f) w = K (Call_completed f 0) (finish_item [] w2) \<bind> K Call_queue_process_loop"
  using w ex q
  by (simp add: queue_schedule_def queue_process_loop_def queue_process_def handle_queue_completed_def queue_pop_def
      queue_idle_def qi_def push_item_def begin_item_def finish_item_def Let_def bind_assoc)

lemma queue_process_loop_idle: "queue_idle w \<Longrightarrow> queue_process_loop K w = Some w"
  by (simp add: queue_process_loop_def queue_idle_def)

lemma nl_send_req_refused:
  "w_send_ok w = (\<lambda>_. False) \<Longrightarrow> seq_of w \<noteq> 0 \<Longrightarrow>
    nl_send_req req w = Some (w\<lparr>w_scan := (w_scan w)\<lparr>sc_conn := (sc_conn (w_scan w))\<lparr>conn_seq := seq_of w + 1\<rparr>\<rparr>\<rparr>)"
  by (simp add: nl_send_req_def common_netlink_set_seq_def word_gt_0 Let_def AN_def)

lemma next_seq:
  assumes "unat (s :: u32) + Suc m < 2 ^ 32"
  shows "s + 1 \<noteq> 0" "unat (s + 1) + m < 2 ^ 32" "s + 1 + of_nat m = s + of_nat (Suc m)"
proof -
  have "unat (s + 1) = unat s + 1" using assms by (simp add: unat_word_ariths)
  then show "s + 1 \<noteq> 0" "unat (s + 1) + m < 2 ^ 32" using assms by (auto simp: unat_eq_0 [symmetric])
qed simp

text \<open>What a cut-off run of depth \<open>n\<close> has done: \<open>n\<close> numbers have been used up and nothing has been sent.\<close>

definition used_up :: "nat \<Rightarrow> world \<Rightarrow> world \<Rightarrow> bool" where
  "used_up n w w' \<longleftrightarrow> queue_idle w' \<and> w_sent w' = w_sent w \<and> seq_of w' = seq_of w + of_nat n"

lemma schedule_refused:
  assumes IH: "\<And>m w. n = Suc m \<Longrightarrow> refusing w \<Longrightarrow> seq_of w \<noteq> 0 \<Longrightarrow> unat (seq_of w) + m < 2 ^ 32
      \<Longrightarrow> \<exists>w'. advance_scan (knot (\<lambda>_. Some) m) m w = Some w' \<and> used_up m w w'"
    and w: "refusing w" "seq_of w \<noteq> 0" "unat (seq_of w) + n < 2 ^ 32"
    and ex: "ex = Exec_scan_filters \<or> ex = Exec_scan_chains \<and> sc_state (w_scan w) = SCAN_DUMP_EACH_CHAIN_INIT"
  shows "\<exists>w'. queue_schedule (knot (\<lambda>_. Some) n) ex (Some Done_advance_scan) w = Some w' \<and> used_up n w w'"
proof -
  define qi where "qi = \<lparr>qi_execute = ex, qi_completed = Some Done_advance_scan, qi_state = QUEUE_ITEM_STATE_NEW\<rparr>"
  let ?wb = "begin_item qi [] (push_item qi w)"
  have wb: "w_send_ok ?wb = w_send_ok w" "w_scan ?wb = w_scan w" "w_chains ?wb = w_chains w" "w_sent ?wb = w_sent w"
    by (simp_all add: begin_item_def push_item_def)
  have idle: "queue_idle w" using w(1) by (simp add: refusing_def)
  have fin: "queue_idle (finish_item [] v) \<and> w_scan (finish_item [] v) = w_scan v \<and> w_send_ok (finish_item [] v) = w_send_ok v
      \<and> w_chains (finish_item [] v) = w_chains v \<and> w_sent (finish_item [] v) = w_sent v"
    if "w_queue v = w_queue ?wb" for v
    using that idle by (simp add: queue_idle_def finish_item_def begin_item_def push_item_def)
  note sched = queue_schedule_nothing_sent [OF idle, of _ ex Done_advance_scan, folded qi_def]
  show ?thesis
  proof (cases n)
    case 0
    have "queue_schedule (knot (\<lambda>_. Some) n) ex (Some Done_advance_scan) w = Some (finish_item [] ?wb)"
      by (subst sched) (simp_all add: 0)
    with fin [OF refl] show ?thesis by (simp add: used_up_def 0 wb)
  next
    case (Suc m)
    obtain v where v: "knot (\<lambda>_. Some) n (Call_execute ex) ?wb = Some v" "w_queue v = w_queue ?wb" "w_sent v = w_sent w"
      "w_chains v = w_chains w" "w_send_ok v = w_send_ok w" "seq_of v = seq_of w + 1" "sc_helper_idx (w_scan v) = 0"
      "sc_state (w_scan v) \<in> {SCAN_DUMP_CHAINS, SCAN_DUMP_EACH_CHAIN_INIT}"
    proof -
      let ?v = "?wb\<lparr>w_scan := (w_scan w)\<lparr>sc_conn := (sc_conn (w_scan w))\<lparr>conn_seq := seq_of w + 1\<rparr>,
        sc_state := (if ex = Exec_scan_filters then SCAN_DUMP_CHAINS else sc_state (w_scan w))\<rparr>\<rparr>"
      have "knot (\<lambda>_. Some) n (Call_execute ex) ?wb = Some ?v"
        using ex w(1,2) nl_send_req_refused [of ?wb]
        by (auto simp: Suc execute_def scan_filters_def filter_dump_def filter_dump_chains_def mod_scan_def refusing_def wb)
      then show ?thesis by (rule that) (use ex w(1) in \<open>auto simp: refusing_def wb\<close>)
    qed
    have "queue_schedule (knot (\<lambda>_. Some) n) ex (Some Done_advance_scan) w
        = knot (\<lambda>_. Some) n (Call_completed Done_advance_scan 0) (finish_item [] v) \<bind> knot (\<lambda>_. Some) n Call_queue_process_loop"
      using v(1,2) by (rule sched)
    moreover have "knot (\<lambda>_. Some) n (Call_completed Done_advance_scan 0) x = advance_scan (knot (\<lambda>_. Some) m) m x"
      "knot (\<lambda>_. Some) n Call_queue_process_loop = queue_process_loop (knot (\<lambda>_. Some) m)" for x
      by (simp_all add: Suc completed_def fun_eq_iff)
    ultimately have run: "queue_schedule (knot (\<lambda>_. Some) n) ex (Some Done_advance_scan) w
        = advance_scan (knot (\<lambda>_. Some) m) m (finish_item [] v) \<bind> queue_process_loop (knot (\<lambda>_. Some) m)"
      by (simp only:)
    note nseq = next_seq [OF w(3) [unfolded Suc]] and f = fin [OF v(2)]
    have "refusing (finish_item [] v)" using f w(1) v(4,5,7,8) by (auto simp: refusing_def)
    then have "\<exists>w'. advance_scan (knot (\<lambda>_. Some) m) m (finish_item [] v) = Some w' \<and> used_up m (finish_item [] v) w'"
      by (rule IH [OF Suc]) (use nseq f v(6) in simp_all)
    then obtain w' where w': "advance_scan (knot (\<lambda>_. Some) m) m (finish_item [] v) = Some w'" "used_up m (finish_item [] v) w'"
      by blast
    then have "queue_process_loop (knot (\<lambda>_. Some) m) w' = Some w'" by (simp add: used_up_def queue_process_loop_idle)
    moreover have "used_up n w w'"
      using w'(2) f nseq(3) v(3,6) by (simp add: used_up_def Suc)
    ultimately show ?thesis using run w'(1) by simp
  qed
qed


lemma advance_scan_refused:
  "refusing w \<Longrightarrow> seq_of w \<noteq> 0 \<Longrightarrow> unat (seq_of w) + n < 2 ^ 32 \<Longrightarrow> 2 \<le> k
    \<Longrightarrow> \<exists>w'. advance_scan_loop (knot (\<lambda>_. Some) n) pin_fuel k w = Some w' \<and> used_up n w w'"
proof (induction n arbitrary: w k pin_fuel rule: less_induct)
  case (less n)
  have IH: "\<exists>w'. advance_scan (knot (\<lambda>_. Some) m) m v = Some w' \<and> used_up m v w'"
    if "n = Suc m" "refusing v" "seq_of v \<noteq> 0" "unat (seq_of v) + m < 2 ^ 32" for m v
    using that less.IH [of m v 8 m] by (simp add: advance_scan_def)
  note sched = schedule_refused [OF IH]
  have helpers: "\<exists>w'. advance_scan_loop (knot (\<lambda>_. Some) n) pin_fuel (Suc j) v = Some w' \<and> used_up n v w'"
    if v: "refusing v" "seq_of v = seq_of w" "sc_state (w_scan v) = SCAN_RUN_HELPERS" for v j
  proof -
    have "\<exists>w'. queue_schedule (knot (\<lambda>_. Some) n) Exec_scan_filters (Some Done_advance_scan) v = Some w' \<and> used_up n v w'"
      using v less.prems by (intro sched) auto
    moreover have "scan_helpers ! sc_helper_idx (w_scan v) = Exec_scan_filters" "sc_helper_idx (w_scan v) < length scan_helpers"
      using v(1) by (simp_all add: refusing_def scan_helpers_def)
    ultimately show ?thesis using v(3) by (auto simp: Let_def used_up_def queue_idle_def mod_scan_def)
  qed
  obtain j where k: "k = Suc (Suc j)" using less.prems(4) by (cases k; cases "k - 1") auto
  from less.prems(1) consider "sc_state (w_scan w) = SCAN_RUN_HELPERS" | "sc_state (w_scan w) = SCAN_DUMP_CHAINS"
    | "sc_state (w_scan w) = SCAN_DUMP_EACH_CHAIN_INIT" by (auto simp: refusing_def)
  then show ?case
  proof cases
    case 1
    then show ?thesis using helpers [OF less.prems(1) refl] by (simp add: k)
  next
    case 2
    let ?v = "mod_scan (\<lambda>s. s\<lparr>sc_state := SCAN_DUMP_EACH_CHAIN_INIT\<rparr>) w"
    have "\<exists>w'. queue_schedule (knot (\<lambda>_. Some) n) Exec_scan_chains (Some Done_advance_scan) ?v = Some w' \<and> used_up n ?v w'"
      using less.prems by (intro sched) (auto simp: refusing_def queue_idle_def mod_scan_def)
    then show ?thesis using 2 by (simp add: k used_up_def mod_scan_def)
  next
    case 3
    let ?v = "mod_scan (\<lambda>s. s\<lparr>sc_next_chain := None, sc_state := SCAN_RUN_HELPERS\<rparr>) w"
    have "\<exists>w'. advance_scan_loop (knot (\<lambda>_. Some) n) pin_fuel (Suc j) ?v = Some w' \<and> used_up n ?v w'"
      using less.prems(1) by (intro helpers) (auto simp: refusing_def queue_idle_def mod_scan_def)
    moreover have first: "rb_first (map_rb ch_chain_no (w_chains w)) = None" using less.prems(1) by (simp add: refusing_def)
    have "advance_scan_loop (knot (\<lambda>_. Some) n) pin_fuel k w = advance_scan_loop (knot (\<lambda>_. Some) n) pin_fuel (Suc j) ?v"
      unfolding k by (subst advance_scan_loop.simps(2)) (simp only: 3 first scan_state.case Let_def simp_thms if_True)
    ultimately show ?thesis by (simp add: used_up_def mod_scan_def)
  qed
qed

text \<open>The daemon itself has no result there, at any depth.\<close>

definition scanning :: "world \<Rightarrow> bool" where
  "scanning w \<longleftrightarrow> w_send_ok w = (\<lambda>_. False) \<and> sc_helper_idx (w_scan w) < length scan_helpers
     \<and> sc_state (w_scan w) \<in> {SCAN_RUN_HELPERS, SCAN_DUMP_CHAINS, SCAN_DUMP_EACH_CHAIN_INIT, SCAN_DUMP_EACH_CHAIN}"

definition scan_request :: "execute_fn \<Rightarrow> bool" where
  "scan_request ex \<longleftrightarrow> (case ex of Exec_tc_action p \<Rightarrow> False | Exec_scan_break \<Rightarrow> False | _ \<Rightarrow> True)"

lemma scan_helpers_request: "i < length scan_helpers \<Longrightarrow> scan_request (scan_helpers ! i)"
  by (auto simp: scan_helpers_def scan_request_def less_Suc_eq nth_Cons split: nat.split)

lemma nl_send_req_unsent:
  assumes "nl_send_req req w = Some w'" "w_send_ok w = (\<lambda>_. False)"
  shows "\<exists>c. w' = w\<lparr>w_scan := (w_scan w)\<lparr>sc_conn := c\<rparr>\<rparr>"
  by (cases rule: nl_send_req_cases [OF assms(1)]) (use assms(2) in auto)

lemma execute_unsent:
  assumes "execute K ex w = Some w'" "scan_request ex" "scanning w"
  shows "scanning w' \<and> w_queue w' = w_queue w"
proof -
  have send: "scanning w' \<and> w_queue w' = w_queue w" if "nl_send_req req w = Some w'" for req w'
    using nl_send_req_unsent [OF that] assms(3) by (auto simp: scanning_def)
  have "scanning w' \<and> w_queue w' = w_queue w" if "scan_filters w = Some w'"
    using that send [of "Req_dump_qdisc (cfg_ifidx (w_config w))"]
    by (auto simp: scan_filters_def filter_dump_def mod_scan_def scanning_def elim!: bind_SomeE)
  with assms(1,2) show ?thesis
    by (auto simp: execute_def scan_request_def nl_dump_link_def nl_dump_neigh_def nl_dump_route_def
        filter_dump_chains_def filter_dump_chain_def split: execute_fn.splits dest: send)
qed

lemma queue_schedule_unsent:
  assumes IH: "\<And>m w. m < n \<Longrightarrow> scanning w \<Longrightarrow> queue_idle w \<Longrightarrow> advance_scan (calls m) m w = None"
    and w: "scanning w" "queue_idle w" "scan_request ex"
  shows "queue_schedule (calls n) ex (Some Done_advance_scan) w = None"
proof (rule ccontr)
  define qi where "qi = \<lparr>qi_execute = ex, qi_completed = Some Done_advance_scan, qi_state = QUEUE_ITEM_STATE_NEW\<rparr>"
  define wb where "wb = begin_item qi [] (push_item qi w)"
  assume "queue_schedule (calls n) ex (Some Done_advance_scan) w \<noteq> None"
  then obtain w' where "queue_process_loop (calls n) (push_item qi w) = Some w'"
    using w(2) by (auto simp: queue_schedule_def qi_def push_item_def queue_idle_def)
  then obtain w2 w3 where exec: "calls n (Call_execute ex) wb = Some w2"
    and fin: "q_has_sent_request (w_queue w2) \<or> handle_queue_completed (calls n) 0 w2 = Some w3"
    by (cases rule: queue_process_loop_cases) (use w(2) in \<open>auto simp: wb_def qi_def push_item_def queue_idle_def split: if_splits\<close>)
  from exec obtain m where n: "n = Suc m" by (cases n) auto
  have "scanning wb" using w(1) by (simp add: wb_def scanning_def begin_item_def push_item_def)
  with exec w(3) have w2: "scanning w2" "w_queue w2 = w_queue wb"
    using execute_unsent [of "calls m" ex wb w2] by (simp_all add: n)
  then have "handle_queue_completed (calls n) 0 w2 = Some w3" using fin by (simp add: wb_def begin_item_def)
  then have "advance_scan (calls m) m (finish_item [] w2) = Some w3"
    by (cases rule: handle_queue_completed_cases) (use w2 in \<open>auto simp: n wb_def begin_item_def qi_def completed_def\<close>)
  moreover have "scanning (finish_item [] w2)" "queue_idle (finish_item [] w2)"
    using w2 w(2) by (simp_all add: scanning_def finish_item_def queue_idle_def wb_def begin_item_def push_item_def)
  ultimately show False using IH [of m "finish_item [] w2"] by (simp add: n)
qed

lemma advance_scan_unsent: "scanning w \<Longrightarrow> queue_idle w \<Longrightarrow> advance_scan_loop (calls n) pin_fuel k w = None"
proof (induction n arbitrary: w k pin_fuel rule: less_induct)
  case (less n)
  have sched: "queue_schedule (calls n) ex (Some Done_advance_scan) w = None"
    if "scanning w" "queue_idle w" "scan_request ex" for w ex
    using that by (intro queue_schedule_unsent) (auto simp: advance_scan_def less.IH)
  from less.prems show ?case
  proof (induction k arbitrary: w)
    case (Suc k)
    have chain: "scan_request Exec_scan_chains" "scan_request Exec_scan_chain" by (simp_all add: scan_request_def)
    have mods: "scanning (mod_scan (\<lambda>s. s\<lparr>sc_state := SCAN_DUMP_EACH_CHAIN_INIT\<rparr>) w)"
      "scanning (mod_scan (\<lambda>s. s\<lparr>sc_q_chain_no := no\<rparr>) w)"
      "scanning (mod_scan (\<lambda>s. s\<lparr>sc_next_chain := next, sc_state := (if next = None then SCAN_RUN_HELPERS else SCAN_DUMP_EACH_CHAIN)\<rparr>) w)"
      "queue_idle (mod_scan f w)" for no "next" f
      using Suc.prems by (auto simp: scanning_def mod_scan_def queue_idle_def)
    show ?case
      using Suc.prems(1) sched [OF Suc.prems scan_helpers_request] sched [OF mods(1,4) chain(1)]
        sched [OF mods(2,4) chain(2)] Suc.IH [OF mods(3,4)]
      by (auto simp: scanning_def Let_def bind_eq_None_conv split: scan_state.splits)
  qed simp
qed

text \<open>C33. When the socket refuses the requests of the first scan, its start does not return: a refused
  request is completed at once, and its completion has the next one sent from inside. The calls
  nest, one refused request on each level, whatever the depth: a run that is cut off at depth
  \<open>n\<close> has used up \<open>n\<close> numbers, sent nothing and run into no assertion, and a run that is not
  cut off has no result. So the stack overflows, or after up to 2^32 requests the numbers
  run out and the assertion on them stops the program.\<close>

theorem scan_init_never_returns_unsent:
  assumes "w_send_ok w = (\<lambda>_. False)" "w_chains w = Null" "\<not> q_conn (w_queue w)"
    and "conn_seq c \<noteq> 0" "unat (conn_seq c) + n < 2 ^ 32"
  shows "scan_init (calls n) pin_fuel c w = None
    \<and> (\<exists>w'. scan_init (knot (\<lambda>_. Some) n) pin_fuel c w = Some w'
         \<and> conn_seq (sc_conn (w_scan w')) = conn_seq c + of_nat n \<and> w_sent w' = w_sent w)"
proof -
  have eight: "(8 :: nat) = Suc 7" by simp
  let ?w = "w\<lparr>w_queue := empty_queue\<lparr>q_conn := True\<rparr>, w_scan := \<lparr>sc_state = SCAN_RUN_HELPERS,
    sc_helper_idx = 0, sc_next_chain = None, sc_q_chain_no = 0, sc_timer = False, sc_conn = c\<rparr>\<rparr>"
  have init: "scan_init K pin_fuel c w = advance_scan_loop K pin_fuel 7 ?w" for K
    using assms(3) unfolding scan_init_def advance_scan_def eight advance_scan_loop.simps(2)
    by (simp add: queue_init_def mod_scan_def AN_def)
  have "scanning ?w" "queue_idle ?w"
    using assms(1) by (simp_all add: scanning_def queue_idle_def empty_queue_def scan_helpers_def)
  then have "advance_scan_loop (calls n) pin_fuel 7 ?w = None" by (rule advance_scan_unsent)
  moreover have "\<exists>w'. advance_scan_loop (knot (\<lambda>_. Some) n) pin_fuel 7 ?w = Some w' \<and> used_up n ?w w'"
    using assms \<open>queue_idle ?w\<close> by (intro advance_scan_refused) (simp_all add: refusing_def)
  ultimately show ?thesis unfolding init by (auto simp: used_up_def)
qed

lemma scan_init_never_returns_unsent_witness:
  "(let w = initial_world (\<lambda>_. False) demo_config in scan_init (calls 1000) 5 demo_conn w = None
     \<and> (\<exists>w'. scan_init (knot (\<lambda>_. Some) 1000) 5 demo_conn w = Some w' \<and> conn_seq (sc_conn (w_scan w')) = 1100))"
proof -
  have "unat (conn_seq demo_conn) + 1000 < 2 ^ 32" by (simp add: demo_conn_def)
  with scan_init_never_returns_unsent [of "initial_world (\<lambda>_. False) demo_config" demo_conn 1000 5] show ?thesis
    by (auto simp: initial_world_def demo_conn_def empty_queue_def Let_def)
qed

section \<open>The fuel of the scan\<close>

fun scan_rank :: "scan_state \<Rightarrow> nat" where
  "scan_rank SCAN_NEW = 4"
| "scan_rank SCAN_RUN_HELPERS = 3"
| "scan_rank SCAN_DUMP_CHAINS = 1"
| "scan_rank SCAN_DUMP_EACH_CHAIN_INIT = 4"
| "scan_rank SCAN_DUMP_EACH_CHAIN = 1"
| "scan_rank SCAN_DONE = 2"
| "scan_rank SCAN_WAIT = 1"

lemma sc_state_mod_scan [simp]: "sc_state (w_scan (mod_scan f w)) = sc_state (f (w_scan w))"
  by (simp add: mod_scan_def)

lemma advance_scan_loop_rank:
  "scan_rank (sc_state (w_scan w)) \<le> n \<Longrightarrow> scan_rank (sc_state (w_scan w)) \<le> m
    \<Longrightarrow> advance_scan_loop K pin_fuel n w = advance_scan_loop K pin_fuel m w"
proof (induction n arbitrary: m w)
  case 0
  then show ?case by (cases "sc_state (w_scan w)") auto
next
  case (Suc n)
  from Suc.prems(2) obtain m' where m: "m = Suc m'" by (cases m; cases "sc_state (w_scan w)") auto
  have IH: "advance_scan_loop K pin_fuel n w' = advance_scan_loop K pin_fuel m' w'"
    if "scan_rank (sc_state (w_scan w')) < scan_rank (sc_state (w_scan w))" for w'
    using that Suc.prems by (intro Suc.IH) (auto simp: m)
  have eq: "advance_scan_loop K pin_fuel n (mod_scan f w') = advance_scan_loop K pin_fuel m' (mod_scan f w')"
    if "\<And>s. sc_state (f s) = st" "scan_rank st < scan_rank (sc_state (w_scan w))" for f w' st
    using that by (intro IH) simp
  show ?case
  proof (cases "sc_state (w_scan w)")
    case SCAN_NEW
    then show ?thesis by (simp add: m eq [where st = SCAN_RUN_HELPERS])
  next
    case SCAN_RUN_HELPERS
    then show ?thesis by (simp add: m Let_def eq [where st = SCAN_DONE])
  next
    case SCAN_DUMP_EACH_CHAIN_INIT
    then show ?thesis
      by (cases "rb_first (map_rb ch_chain_no (w_chains w))")
        (simp_all add: m Let_def eq [where st = SCAN_RUN_HELPERS] eq [where st = SCAN_DUMP_EACH_CHAIN])
  next
    case SCAN_DONE
    then show ?thesis by (simp add: m eq [where st = SCAN_WAIT])
  qed (simp_all add: m)
qed

text \<open>\<open>advance_scan\<close> takes at most four turns from any state: more fuel than that never changes
  what it does.\<close>

theorem advance_scan_fuel_enough:
  assumes "4 \<le> n"
  shows "advance_scan_loop K pin_fuel n w = advance_scan K pin_fuel w"
proof -
  have "scan_rank (sc_state (w_scan w)) \<le> 4" by (cases "sc_state (w_scan w)") simp_all
  with assms show ?thesis unfolding advance_scan_def by (intro advance_scan_loop_rank) simp_all
qed

lemma advance_scan_fuel_enough_witness:
  "advance_scan_loop no_calls 0 100 demo_world = advance_scan no_calls 0 demo_world"
  by (rule advance_scan_fuel_enough) simp

end
