(* ===== verification/Install.thy ===== *)
theory Install
  imports Protocol_Props
begin

text \<open>
  Installing a rule, from the decision in \<open>obj_rule.c\<close> through the action of \<open>tc_action.c\<close>, the
  queue and the encoder to the request that is sent.
\<close>

text \<open>The daemon can send: the queue is connected and idle, the rule callbacks are set.\<close>

definition can_send :: "world \<Rightarrow> bool" where
  "can_send w \<longleftrightarrow> q_conn (w_queue w) \<and> \<not> q_is_busy (w_queue w) \<and> q_items (w_queue w) = []
     \<and> w_tacb_hooks w \<and> cfg_dry_run (w_config w) = 0 \<and> conn_seq (sc_conn (w_scan w)) \<noteq> 0
     \<and> w_send_ok w (conn_seq (sc_conn (w_scan w)) + 1)"

text \<open>A rule that is wanted, is not known to be in the kernel, and has not been asked for.\<close>

definition missing_rule :: "ptr \<Rightarrow> obj_rule \<Rightarrow> tc_rule \<Rightarrow> world \<Rightarrow> bool" where
  "missing_rule p r tcr w \<longleftrightarrow> w_rules w p = Some r \<and> oc_kind (oru_obj r) = OBJ_KIND_RULE
     \<and> (\<exists>wn. oru_want r = Some wn \<and> w_tcrs w wn = Some tcr) \<and> oru_have r = None
     \<and> oru_state r \<noteq> OBJ_RULE_STATE_QUEUED"

text \<open>The references and the target of a rule have no part in the tables.\<close>

lemma rules_ok_touch:
  assumes ok: "rules_ok w" and r: "w_rules w q = Some r"
    and r': "oru_chain_no r' = oru_chain_no r" "oru_prio r' = oru_prio r" "oru_want r' = oru_want r" "oru_have r' = oru_have r"
    and w': "w_rules w' = (w_rules w)(q \<mapsto> r')" "w_pos_tree w' = w_pos_tree w" "w_laf_tree w' = w_laf_tree w"
      "w_tcrs w' = w_tcrs w"
  shows "fresh_ok w' \<Longrightarrow> rules_ok w'" "table b w' = table b w" "rule_at w' = rule_at w"
proof -
  have "slot_of r' b = slot_of r b" for b using r' by (cases b) simp_all
  then have sl: "slots w' = slots w" by (rule rule_slot_cong [OF r _ w'(1)])
  have pos: "rule_pos w' = rule_pos w" using r r' by (auto simp: rule_pos_def w'(1))
  have "w_rules w' p = None \<longleftrightarrow> w_rules w p = None" for p using r by (simp add: w'(1))
  note c = rule_world_cong [OF pos this w'(2)]
  show "rule_at w' = rule_at w" by (rule c)
  then show "table b w' = table b w" by (simp add: table_def [abs_def] sl w'(4))
  show "fresh_ok w' \<Longrightarrow> rules_ok w'" using ok c sl w' by (simp add: rules_ok_def laf_ok_def)
qed

text \<open>
  The state in which the request of an action on a rule has been sent; \<open>x\<close> is the content that
  the action installs, or none when it removes the filter.
\<close>

definition sent_state :: "ptr \<Rightarrow> obj_rule \<Rightarrow> ptr option \<Rightarrow> nlmsg \<Rightarrow> world \<Rightarrow> world" where
  "sent_state p r x m w =
     (let q = w_next w; seq = conn_seq (sc_conn (w_scan w)) + 1 in
      w\<lparr>w_actions := (w_actions w)(q \<mapsto> \<lparr>tca_chain_no = oru_chain_no r, tca_prio = oru_prio r, tca_tcr = x, tca_data = p\<rparr>),
        w_next := Suc q,
        w_rules := (w_rules w)(p \<mapsto> r\<lparr>oru_obj := obj_ref (oru_obj r), oru_state := OBJ_RULE_STATE_PENDING\<rparr>),
        w_scan := (w_scan w)\<lparr>sc_conn := (sc_conn (w_scan w))\<lparr>conn_seq := seq\<rparr>\<rparr>,
        w_sent := w_sent w @ [(seq, Req_filter m)],
        w_queue := (w_queue w)\<lparr>q_is_busy := True, q_items := [\<lparr>qi_execute = Exec_tc_action q,
          qi_completed = Some (Done_tc_action q), qi_state = QUEUE_ITEM_STATE_SENT\<rparr>], q_has_sent_request := True\<rparr>\<rparr>)"

text \<open>The action is created for a rule that has been marked and referenced, and put on the queue.\<close>

definition ask :: "calls \<Rightarrow> ptr \<Rightarrow> obj_rule \<Rightarrow> ptr option \<Rightarrow> world \<Rightarrow> world option" where
  "ask K p r x w = queue_schedule K (Exec_tc_action (w_next w)) (Some (Done_tc_action (w_next w)))
    (w\<lparr>w_rules := (w_rules w)(p \<mapsto> r\<lparr>oru_state := OBJ_RULE_STATE_QUEUED, oru_obj := obj_ref (oru_obj r)\<rparr>),
       w_actions := (w_actions w)(w_next w \<mapsto> \<lparr>tca_chain_no = oru_chain_no r, tca_prio = oru_prio r,
         tca_tcr = x, tca_data = p\<rparr>), w_next := Suc (w_next w)\<rparr>)"

lemma update_state_missing:
  assumes "missing_rule p r tcr w" "2 \<le> w_pin_changes w"
  shows "obj_rule_update_state K p w = ask K p r (oru_want r) w"
  using assms
  by (auto simp: missing_rule_def obj_rule_update_state_def set_rule_state_def mod_eq_Some obj_rule_queue_install_def
      obj_rule_ref_def obj_assert_kind_def tc_action_install_def ask_def Let_def)

lemma queue_schedule_idle:
  assumes "q_items (w_queue w) = []" "\<not> q_is_busy (w_queue w)"
    and "K (Call_execute ex) (begin_item \<lparr>qi_execute = ex, qi_completed = co, qi_state = QUEUE_ITEM_STATE_NEW\<rparr> [] w) = Some w'"
    and "q_has_sent_request (w_queue w')"
  shows "queue_schedule K ex co w = Some w'"
  using assms by (simp add: queue_schedule_def queue_process_loop_def queue_process_def begin_item_def Let_def)

text \<open>A dropped reference leaves the rule when another one remains, or when it is installed.\<close>

definition stays :: "obj_core \<Rightarrow> obj_rule \<Rightarrow> world \<Rightarrow> bool" where
  "stays c r w \<longleftrightarrow> oc_refcnt c \<noteq> 0 \<or> (oru_want r = None \<or> oru_type r = OBJ_RULE_TYPE_STATIC)
     \<and> oc_state c = OBJ_STATE_INSTALLED \<and> w_mode w = OBJ_MODE_NORMAL"

lemma obj_rule_unref_keeps:
  assumes "w_rules w p = Some r" "oc_kind (oru_obj r) = OBJ_KIND_RULE" "obj_unref (oru_obj r) = Some c" "stays c r w"
  shows "obj_rule_unref K p w = Some (w\<lparr>w_rules := (w_rules w)(p \<mapsto> r\<lparr>oru_obj := c\<rparr>)\<rparr>)"
  using assms
  by (auto simp: obj_rule_unref_def obj_assert_kind_def mod_eq_Some obj_is_reapable_def stays_def split: obj_operating_mode.split)

lemma execute_action:
  assumes "w_actions w q = Some \<lparr>tca_chain_no = chain_no, tca_prio = prio, tca_tcr = x, tca_data = p\<rparr>"
    and "w_tacb_hooks w" "w_rules w p = Some r" "oru_state r = OBJ_RULE_STATE_QUEUED"
    and "x = None \<and> rule = None \<or> (\<exists>wn tcr. x = Some wn \<and> w_tcrs w wn = Some tcr \<and> rule = Some tcr)"
    and "tc_encode_rule (w_config w) chain_no prio rule NO_TCE_FLAGS = Some m" "cfg_dry_run (w_config w) = 0"
    and "q_conn (w_queue w)" "conn_seq (sc_conn (w_scan w)) \<noteq> 0" "w_send_ok w (conn_seq (sc_conn (w_scan w)) + 1)"
  shows "execute K (Exec_tc_action q) w = obj_rule_unref K p
    (w\<lparr>w_rules := (w_rules w)(p \<mapsto> r\<lparr>oru_state := OBJ_RULE_STATE_PENDING\<rparr>),
       w_scan := (w_scan w)\<lparr>sc_conn := (sc_conn (w_scan w))\<lparr>conn_seq := conn_seq (sc_conn (w_scan w)) + 1\<rparr>\<rparr>,
       w_sent := w_sent w @ [(conn_seq (sc_conn (w_scan w)) + 1, Req_filter m)],
       w_queue := (w_queue w)\<lparr>q_has_sent_request := True\<rparr>\<rparr>)"
  using assms
  by (auto simp: execute_def tc_action_execute_def obj_rule_pre_install_def mod_eq_Some tc_action_do_install_def
      queue_get_conn_def nl_send_req_def common_netlink_set_seq_def queue_has_sent_request_def word_gt_0
      obj_rule_post_install_def Let_def)

lemma ask_unref:
  assumes "can_send w" and x: "x = None \<and> rule = None \<or> (\<exists>wn tcr. x = Some wn \<and> w_tcrs w wn = Some tcr \<and> rule = Some tcr)"
    and m: "tc_encode_rule (w_config w) (oru_chain_no r) (oru_prio r) rule NO_TCE_FLAGS = Some m"
    and un: "obj_rule_unref (calls n) p (sent_state p r x m w) = Some w'" "q_has_sent_request (w_queue w')"
  shows "ask (calls (Suc n)) p r x w = Some w'"
  unfolding ask_def
proof (rule queue_schedule_idle)
  let ?q = "w_next w"
  let ?r = "r\<lparr>oru_state := OBJ_RULE_STATE_QUEUED, oru_obj := obj_ref (oru_obj r)\<rparr>"
  let ?w = "begin_item \<lparr>qi_execute = Exec_tc_action ?q, qi_completed = Some (Done_tc_action ?q), qi_state = QUEUE_ITEM_STATE_NEW\<rparr> []
     (w\<lparr>w_rules := (w_rules w)(p \<mapsto> ?r), w_actions := (w_actions w)(?q \<mapsto> \<lparr>tca_chain_no = oru_chain_no r,
       tca_prio = oru_prio r, tca_tcr = x, tca_data = p\<rparr>), w_next := Suc ?q\<rparr>)"
  have "execute (calls n) (Exec_tc_action ?q) ?w = obj_rule_unref (calls n) p (sent_state p r x m w)"
    using assms(1) m x
    by (subst execute_action [where r = ?r and x = x and rule = rule and m = m])
      (auto simp: begin_item_def can_send_def sent_state_def Let_def)
  with un show "calls (Suc n) (Call_execute (Exec_tc_action ?q)) ?w = Some w'" by simp
qed (use assms(1) un in \<open>simp_all add: can_send_def\<close>)

lemma ref_unref: "oc_refcnt c \<noteq> -1 \<Longrightarrow> oc_state c \<noteq> OBJ_STATE_ZOMBIE \<Longrightarrow> obj_unref (obj_ref c) = Some c"
  by (cases c) (auto simp: obj_ref_def obj_unref_def word_plus_1_eq_0 word_gt_0)

text \<open>The request is sent, and the rule is pending and otherwise as it was.\<close>

definition pending_state :: "ptr \<Rightarrow> obj_rule \<Rightarrow> ptr option \<Rightarrow> nlmsg \<Rightarrow> world \<Rightarrow> world" where
  "pending_state p r x m w = (sent_state p r x m w)\<lparr>w_rules := (w_rules w)(p \<mapsto> r\<lparr>oru_state := OBJ_RULE_STATE_PENDING\<rparr>)\<rparr>"

lemma pending_state_sel [simp]:
  "w_rules (pending_state p r x m w) = (w_rules w)(p \<mapsto> r\<lparr>oru_state := OBJ_RULE_STATE_PENDING\<rparr>)"
  "w_tcrs (pending_state p r x m w) = w_tcrs w" "w_sent (pending_state p r x m w) = w_sent w @ [(conn_seq (sc_conn (w_scan w)) + 1, Req_filter m)]"
  "w_pos_tree (pending_state p r x m w) = w_pos_tree w" "w_laf_tree (pending_state p r x m w) = w_laf_tree w"
  "w_rule_cnt (pending_state p r x m w) = w_rule_cnt w" "w_mode (pending_state p r x m w) = w_mode w"
  "w_targets (pending_state p r x m w) = w_targets w" "w_config (pending_state p r x m w) = w_config w"
  "w_pin_changes (pending_state p r x m w) = w_pin_changes w"
  by (simp_all add: pending_state_def sent_state_def Let_def)

lemma line_of_pending [simp]: "line_of (w_queue (pending_state p r x m w)) = Awaiting (Exec_tc_action (w_next w))"
  by (simp add: pending_state_def sent_state_def line_of_def Let_def)

lemma ask_sends:
  assumes "can_send w" and x: "x = None \<and> rule = None \<or> (\<exists>wn tcr. x = Some wn \<and> w_tcrs w wn = Some tcr \<and> rule = Some tcr)"
    and m: "tc_encode_rule (w_config w) (oru_chain_no r) (oru_prio r) rule NO_TCE_FLAGS = Some m"
    and obj: "oc_kind (oru_obj r) = OBJ_KIND_RULE" "stays (oru_obj r) r w" "oc_refcnt (oru_obj r) \<noteq> -1"
      "oc_state (oru_obj r) \<noteq> OBJ_STATE_ZOMBIE"
  shows "ask (calls (Suc n)) p r x w = Some (pending_state p r x m w)"
proof -
  have "obj_rule_unref (calls n) p (sent_state p r x m w) = Some (pending_state p r x m w)"
    using ref_unref [OF obj(3,4)] obj
    by (subst obj_rule_unref_keeps [where r = "r\<lparr>oru_obj := obj_ref (oru_obj r), oru_state := OBJ_RULE_STATE_PENDING\<rparr>" and c = "oru_obj r"])
      (auto simp: sent_state_def pending_state_def stays_def obj_ref_def Let_def)
  from ask_unref [OF assms(1-3) this] show ?thesis by (simp add: pending_state_def sent_state_def Let_def)
qed

lemma update_state_sends:
  assumes "can_send w" "missing_rule p r tcr w" "2 \<le> w_pin_changes w"
    and m: "tc_encode_rule (w_config w) (oru_chain_no r) (oru_prio r) (Some tcr) NO_TCE_FLAGS = Some m"
    and obj: "oc_refcnt (oru_obj r) \<noteq> 0" "oc_refcnt (oru_obj r) \<noteq> -1" "oc_state (oru_obj r) \<noteq> OBJ_STATE_ZOMBIE"
  shows "obj_rule_update_state (calls (Suc n)) p w = Some (pending_state p r (oru_want r) m w)"
  unfolding update_state_missing [OF assms(2,3)]
  using assms(2) by (intro ask_sends [OF assms(1) _ m]) (use obj in \<open>auto simp: missing_rule_def stays_def\<close>)

text \<open>While the daemon waits for an answer, what is asked for is put on the queue.\<close>

definition queued_state :: "ptr \<Rightarrow> obj_rule \<Rightarrow> ptr option \<Rightarrow> world \<Rightarrow> world" where
  "queued_state p r x w = w\<lparr>w_rules := (w_rules w)(p \<mapsto> r\<lparr>oru_state := OBJ_RULE_STATE_QUEUED, oru_obj := obj_ref (oru_obj r)\<rparr>),
     w_actions := (w_actions w)(w_next w \<mapsto> \<lparr>tca_chain_no = oru_chain_no r, tca_prio = oru_prio r, tca_tcr = x, tca_data = p\<rparr>),
     w_next := Suc (w_next w),
     w_queue := (w_queue w)\<lparr>q_items := q_items (w_queue w) @ [\<lparr>qi_execute = Exec_tc_action (w_next w),
       qi_completed = Some (Done_tc_action (w_next w)), qi_state = QUEUE_ITEM_STATE_NEW\<rparr>]\<rparr>\<rparr>"

lemma ask_busy: "q_is_busy (w_queue w) \<Longrightarrow> ask K p r x w = Some (queued_state p r x w)"
  by (simp add: ask_def queue_schedule_def queued_state_def Let_def)

text \<open>A rule that is wanted and missing in the kernel is asked for as soon as the pins allow it:
  the request encoded from the rule's wanted content goes out with the next sequence number,
  the queue waits for its answer, and the rule, which someone holds a reference to, is pending
  and otherwise as it was.\<close>

theorem obj_rule_update_state_installs:
  assumes "can_send w" "missing_rule p r tcr w" "2 \<le> w_pin_changes w"
    and "tc_encode_rule (w_config w) (oru_chain_no r) (oru_prio r) (Some tcr) NO_TCE_FLAGS = Some m"
    and "oc_refcnt (oru_obj r) \<noteq> 0" "oc_refcnt (oru_obj r) \<noteq> -1" "oc_state (oru_obj r) \<noteq> OBJ_STATE_ZOMBIE"
  shows "\<exists>w'. obj_rule_update_state (calls (Suc n)) p w = Some w'
    \<and> w_sent w' = w_sent w @ [(conn_seq (sc_conn (w_scan w)) + 1, Req_filter m)]
    \<and> line_of (w_queue w') = Awaiting (Exec_tc_action (w_next w))
    \<and> w_rules w' = (w_rules w)(p \<mapsto> r\<lparr>oru_state := OBJ_RULE_STATE_PENDING\<rparr>) \<and> w_tcrs w' = w_tcrs w"
  using update_state_sends [OF assms] by simp

text \<open>A static rule has no reference of its own: it is freed when its request has been sent.\<close>

lemma rb_next_None: "x \<notin> set (rb_inorder t) \<Longrightarrow> rb_next x t = None"
  by (simp add: rb_next_def rb_locate_None [THEN iffD2])

lemma obj_rule_unref_frees:
  assumes "w_rules w p = Some r" "oc_kind (oru_obj r) = OBJ_KIND_RULE" "obj_unref (oru_obj r) = Some c"
    and "oc_refcnt c = 0" "oc_weak_refcnt c = 0" "oc_state c = OBJ_STATE_PRESENT" "oc_kind c = OBJ_KIND_RULE"
    and "oru_target r = None" "oru_have r = None" "oru_want r = Some wn" "w_tcrs w wn = Some tcr"
    and "\<not> oru_have_laf r" "oru_have_pos r" "rb_erase p (w_pos_tree w) = Some t" "w_rule_cnt w \<noteq> 0"
  shows "\<exists>w'. obj_rule_unref K p w = Some w' \<and> w_rules w' p = None \<and> w_pos_tree w' = t
    \<and> w_tcrs w' wn = None \<and> w_queue w' = w_queue w \<and> w_sent w' = w_sent w"
  using assms
  by (auto simp: obj_rule_unref_def obj_assert_kind_def mod_eq_Some obj_is_reapable_def obj_rule_reap_def
      obj_rule_unset_target_def free_tcr_opt_def free_tcr_def obj_free_ok_def split: obj_operating_mode.split)

text \<open>C35. A rule that nobody holds a reference to is freed by its own installation: the reference
  that the request takes is dropped as soon as it is sent, and nothing else keeps the rule. The
  pass over the rules that asked for it then reads the rule it has just freed. The static rules
  are such rules: the first scan that finds one of them missing runs into this.\<close>

theorem static_rule_freed_by_install:
  assumes w: "can_send w" "missing_rule p r tcr w" "2 \<le> w_pin_changes w"
    and m: "tc_encode_rule (w_config w) (oru_chain_no r) (oru_prio r) (Some tcr) NO_TCE_FLAGS = Some m"
    and obj: "oc_refcnt (oru_obj r) = 0" "oc_weak_refcnt (oru_obj r) = 0" "oc_state (oru_obj r) = OBJ_STATE_PRESENT"
    and r: "oru_target r = None" "\<not> oru_have_laf r" "oru_have_pos r" "w_rule_cnt w \<noteq> 0"
    and t: "rbt_ok (w_pos_tree w)" "distinct (rb_inorder (w_pos_tree w))" "p \<in> set (rb_inorder (w_pos_tree w))"
  shows "(\<exists>w'. obj_rule_update_state (calls (Suc n)) p w = Some w' \<and> w_rules w' p = None
      \<and> w_sent w' = w_sent w @ [(conn_seq (sc_conn (w_scan w)) + 1, Req_filter m)])
    \<and> remove_pin_pass (calls (Suc n)) fuel (Some p) w = None"
proof -
  obtain u where u: "rb_erase p (w_pos_tree w) = Some u" "rb_inorder u = remove1 p (rb_inorder (w_pos_tree w))"
    using t by (rule rb_erase_spec)
  obtain wn where wn: "oru_want r = Some wn" "w_tcrs w wn = Some tcr"
    using w(2) by (auto simp: missing_rule_def)
  let ?r = "r\<lparr>oru_obj := obj_ref (oru_obj r), oru_state := OBJ_RULE_STATE_PENDING\<rparr>"
  have un: "obj_unref (obj_ref (oru_obj r)) = Some (oru_obj r)" using obj by (intro ref_unref) simp_all
  have kind: "oc_kind (oru_obj r) = OBJ_KIND_RULE" "oc_kind (obj_ref (oru_obj r)) = OBJ_KIND_RULE" "oru_have r = None"
    using w(2) by (simp_all add: missing_rule_def obj_ref_def)
  have "\<exists>w'. obj_rule_unref (calls n) p (sent_state p r (oru_want r) m w) = Some w' \<and> w_rules w' p = None \<and> w_pos_tree w' = u
    \<and> w_tcrs w' wn = None \<and> w_queue w' = w_queue (sent_state p r (oru_want r) m w) \<and> w_sent w' = w_sent (sent_state p r (oru_want r) m w)"
    by (rule obj_rule_unref_frees [where r = ?r and c = "oru_obj r" and tcr = tcr])
      (use un kind obj r wn u in \<open>simp_all add: sent_state_def Let_def\<close>)
  then obtain w' where w': "obj_rule_unref (calls n) p (sent_state p r (oru_want r) m w) = Some w'" "w_rules w' p = None"
    "w_pos_tree w' = u" "w_queue w' = w_queue (sent_state p r (oru_want r) m w)" "w_sent w' = w_sent (sent_state p r (oru_want r) m w)"
    by blast
  then have "q_has_sent_request (w_queue w')" by (simp add: sent_state_def Let_def)
  with w(1) _ m w'(1) have "ask (calls (Suc n)) p r (oru_want r) w = Some w'" by (rule ask_unref) (use wn in simp)
  then have up: "obj_rule_update_state (calls (Suc n)) p w = Some w'" by (simp add: update_state_missing [OF w(2,3)])
  have "rb_next p u = None" using u(2) t(2) by (intro rb_next_None) simp
  with up w'(3) have "remove_pin_pass (calls (Suc n)) fuel (Some p) w = None"
    by (cases fuel) simp_all
  with up w' show ?thesis by (simp add: sent_state_def Let_def)
qed

section \<open>Concrete instances\<close>

definition demo_tcr :: tc_rule where
  "demo_tcr = ttl_rule demo_config AF_INET"

definition demo_rule :: "u32 \<Rightarrow> obj_rule" where
  "demo_rule refs = \<lparr>oru_obj = zero_obj_core\<lparr>oc_kind := OBJ_KIND_RULE, oc_refcnt := refs\<rparr>, oru_type = OBJ_RULE_TYPE_STATIC,
     oru_state = OBJ_RULE_STATE_WANT, oru_chain_no = 1, oru_prio = 1, oru_have_laf = False, oru_have_pos = True,
     oru_target = None, oru_route = None, oru_have = None, oru_want = Some 2\<rparr>"

definition demo_pin_world :: "u32 \<Rightarrow> world" where
  "demo_pin_world refs = demo_world\<lparr>w_rules := [1 \<mapsto> demo_rule refs], w_tcrs := [2 \<mapsto> demo_tcr], w_next := 3,
     w_pos_tree := Nd Null RB_BLACK 1 Null, w_rule_cnt := 1, w_pin_changes := 2, w_tacb_hooks := True,
     w_queue := empty_queue\<lparr>q_conn := True\<rparr>, w_scan := (w_scan demo_world)\<lparr>sc_conn := demo_conn\<rparr>\<rparr>"

lemma demo_pin_world_ok: "can_send (demo_pin_world refs)" "missing_rule 1 (demo_rule refs) demo_tcr (demo_pin_world refs)"
  by (simp_all add: can_send_def missing_rule_def demo_pin_world_def demo_rule_def demo_world_def initial_world_def
      empty_queue_def demo_conn_def demo_config_def config_init_def zero_obj_core_def)

lemma demo_encodes: "tc_encode_rule demo_config 1 1 (Some demo_tcr) NO_TCE_FLAGS \<noteq> None"
  by code_simp

lemma obj_rule_update_state_installs_witness:
  "\<exists>w' m. obj_rule_update_state (calls 1) 1 (demo_pin_world 1) = Some w' \<and> map snd (w_sent w') = [Req_filter m]"
proof -
  obtain m where m: "tc_encode_rule demo_config 1 1 (Some demo_tcr) NO_TCE_FLAGS = Some m"
    using demo_encodes by auto
  show ?thesis
    using obj_rule_update_state_installs [OF demo_pin_world_ok [of 1], of m 0] m
    by (auto simp: demo_pin_world_def demo_rule_def demo_world_def initial_world_def zero_obj_core_def)
qed

lemma static_rule_freed_by_install_witness:
  "\<exists>w'. obj_rule_update_state (calls 1) 1 (demo_pin_world 0) = Some w' \<and> w_rules w' 1 = None
     \<and> remove_pin_pass (calls 1) 100 (Some 1) (demo_pin_world 0) = None"
proof -
  obtain m where m: "tc_encode_rule demo_config 1 1 (Some demo_tcr) NO_TCE_FLAGS = Some m"
    using demo_encodes by auto
  show ?thesis
    using static_rule_freed_by_install [OF demo_pin_world_ok [of 0], of m 0 100] m
    by (auto simp: demo_pin_world_def demo_rule_def demo_world_def initial_world_def zero_obj_core_def rbt_ok_def)
qed

end
