(* ===== verification/Removal.thy ===== *)
theory Removal
  imports Install
begin

text \<open>
  The other half of \<open>obj_rule.c\<close>: a filter that is not wanted, or not as it is, is asked to be
  removed, and what becomes of its rule when the kernel reports that it is gone.
\<close>

section \<open>Asking for a removal\<close>

text \<open>A rule whose filter is in the kernel and is not wanted, or wanted with other content.\<close>

definition alien_rule :: "ptr \<Rightarrow> obj_rule \<Rightarrow> world \<Rightarrow> bool" where
  "alien_rule p r w \<longleftrightarrow> w_rules w p = Some r \<and> oc_kind (oru_obj r) = OBJ_KIND_RULE \<and> oru_state r \<noteq> OBJ_RULE_STATE_QUEUED
     \<and> (\<exists>h have. oru_have r = Some h \<and> w_tcrs w h = Some have
          \<and> (\<forall>wn. oru_want r = Some wn \<longrightarrow> (\<exists>want. w_tcrs w wn = Some want \<and> tc_rule_cmp want have \<noteq> 0)))"

lemma update_state_alien:
  assumes "alien_rule p r w" "3 \<le> w_pin_changes w"
  shows "obj_rule_update_state K p w = ask K p r None w"
  using assms
  by (auto simp: alien_rule_def obj_rule_update_state_def set_rule_state_def mod_eq_Some obj_rule_queue_uninstall_def
      obj_rule_ref_def obj_assert_kind_def tc_action_install_def ask_def Let_def split: option.split)

text \<open>C6. When all pins are removed, a filter that is in the kernel and not wanted there, or wanted with
  other content, is asked to be removed: the request bears the next sequence number and names the
  rule's chain and priority, the queue waits for its answer, and the rule stays, pending.\<close>

theorem obj_rule_update_state_removes:
  assumes "can_send w" "alien_rule p r w" "3 \<le> w_pin_changes w"
    and "stays (oru_obj r) r w" "oc_refcnt (oru_obj r) \<noteq> -1" "oc_state (oru_obj r) \<noteq> OBJ_STATE_ZOMBIE"
  shows "\<exists>w'. obj_rule_update_state (calls (Suc n)) p w = Some w'
    \<and> w_sent w' = w_sent w @ [(conn_seq (sc_conn (w_scan w)) + 1,
        Req_filter (tc_encode_drop_rule (w_config w) (oru_chain_no r) (oru_prio r) NO_TCE_FLAGS))]
    \<and> line_of (w_queue w') = Awaiting (Exec_tc_action (w_next w))
    \<and> w_rules w' = (w_rules w)(p \<mapsto> r\<lparr>oru_state := OBJ_RULE_STATE_PENDING\<rparr>) \<and> w_tcrs w' = w_tcrs w"
proof -
  have "ask (calls (Suc n)) p r None w = Some (pending_state p r None
    (tc_encode_drop_rule (w_config w) (oru_chain_no r) (oru_prio r) NO_TCE_FLAGS) w)"
    by (rule ask_sends [where rule = None]) (use assms in \<open>auto simp: tc_encode_rule_def alien_rule_def\<close>)
  then show ?thesis by (simp add: update_state_alien [OF assms(2,3)])
qed

section \<open>A filter that is gone\<close>

text \<open>What a report that a filter is gone makes of its rule, before it is looked at again.\<close>

definition gone_rule :: "obj_rule \<Rightarrow> obj_rule" where
  "gone_rule r = r\<lparr>oru_obj := (obj_ref (oru_obj r))\<lparr>oc_state := OBJ_STATE_PRESENT\<rparr>, oru_have := None\<rparr>"

definition gone_state :: "ptr \<Rightarrow> obj_rule \<Rightarrow> world \<Rightarrow> world" where
  "gone_state p r w = w\<lparr>w_tcrs := free_slot (oru_have r) (w_tcrs w), w_rules := (w_rules w)(p \<mapsto> gone_rule r)\<rparr>"

lemma gone_state_sel [simp]:
  "w_rules (gone_state p r w) = (w_rules w)(p \<mapsto> gone_rule r)" "w_tcrs (gone_state p r w) = free_slot (oru_have r) (w_tcrs w)"
  "w_pos_tree (gone_state p r w) = w_pos_tree w" "w_laf_tree (gone_state p r w) = w_laf_tree w"
  "w_config (gone_state p r w) = w_config w" "w_scan (gone_state p r w) = w_scan w" "w_sent (gone_state p r w) = w_sent w"
  "w_pin_changes (gone_state p r w) = w_pin_changes w" "w_rule_cnt (gone_state p r w) = w_rule_cnt w"
  "can_send (gone_state p r w) = can_send w" "w_mode (gone_state p r w) = w_mode w" "w_next (gone_state p r w) = w_next w"
  by (simp_all add: gone_state_def can_send_def)

lemma netlink_gone:
  assumes ok: "rules_ok w" and k: "chain_no < 0x80000000" and at: "rule_at w (chain_no, prio) = Some p"
    and r: "w_rules w p = Some r" "oc_kind (oru_obj r) = OBJ_KIND_RULE"
  shows "obj_rule_netlink_found K RTM_DELTFILTER chain_no prio tcr w =
    (case oru_want r of None \<Rightarrow> Some (gone_state p r w) | Some wn \<Rightarrow> obj_rule_update_state K p (gone_state p r w)) \<bind> obj_rule_unref K p"
proof -
  have ok': "pos_ok w" "owned (slots w) (w_tcrs w)" using ok by (simp_all add: rules_ok_def)
  have lk: "obj_rule_pos_lookup chain_no prio w = Some (Some p)"
    using ok'(1) k at obj_rule_pos_lookup_eq [of w chain_no prio] by (simp add: pos_keys_def)
  have "slots w (p, Have) = oru_have r" using r by (simp add: slots_def)
  then have "w_tcrs w h \<noteq> None" if "oru_have r = Some h" for h using ok'(2) that unfolding owned_def by metis
  then have "obj_rule_delete K p w =
    (case oru_want r of None \<Rightarrow> Some (gone_state p r w) | Some wn \<Rightarrow> obj_rule_update_state K p (gone_state p r w)) \<bind> obj_rule_unref K p"
    using r
    by (auto simp: obj_rule_delete_def obj_rule_ref_def obj_assert_kind_def mod_eq_Some free_tcr_opt_def free_tcr_def
        free_slot_def gone_state_def gone_rule_def split: option.split)
  with lk show ?thesis by (simp add: obj_rule_netlink_found_def)
qed

lemma gone_want:
  assumes ok: "rules_ok w" and r: "w_rules w p = Some r" "oru_want r = Some wn"
  shows "\<exists>tcr. w_tcrs w wn = Some tcr \<and> free_slot (oru_have r) (w_tcrs w) wn = Some tcr"
proof -
  have own: "owned (slots w) (w_tcrs w)" using ok by (simp add: rules_ok_def)
  have sl: "slots w (p, Want) = Some wn" "slots w (p, Have) = oru_have r" using r by (simp_all add: slots_def)
  have "h \<noteq> wn" if "oru_have r = Some h" for h
  proof
    assume "h = wn"
    then have "(p, Have) = (p, Want)" using own sl that unfolding owned_def by metis
    then show False by simp
  qed
  moreover have "w_tcrs w wn \<noteq> None" using own sl(1) unfolding owned_def by metis
  ultimately show ?thesis by (auto simp: free_slot_def split: option.splits)
qed


section \<open>A rule that leaves the tables\<close>

lemma drop_rule:
  assumes ok: "rules_ok w" and at: "rule_at w k = Some p" and r: "w_rules w p = Some r"
    and laf: "rbt_ok (w_laf_tree w')" "set (rb_inorder (w_laf_tree w')) = set (rb_inorder (w_laf_tree w)) - {p}"
    and pos: "rb_erase p (w_pos_tree w) = Some (w_pos_tree w')"
    and w': "w_rules w' = (w_rules w)(p := None)" "w_tcrs w' = free_slot (oru_want r) (free_slot (oru_have r) (w_tcrs w))"
      "fresh_ok w'"
  shows "rules_ok w'" "rule_at w' = (rule_at w)(k := None)" "table b w' = (table b w)(k := None)"
proof -
  have ok': "pos_ok w" "owned (slots w) (w_tcrs w)" "laf_ok w" "\<forall>h t. w_tcrs w h = Some t \<longrightarrow> wf_tc_rule t"
    using ok by (simp_all add: rules_ok_def)
  have idx: "index_ok pos_cmp pos_keys (rule_pos w) (w_pos_tree w)" using ok'(1) by (simp add: pos_ok_def)
  have p: "p \<in> set (rb_inorder (w_pos_tree w))" "rule_pos w p = k" using at ok'(1) by (simp_all add: rule_at_eq_Some)
  obtain v where v: "rb_erase p (w_pos_tree w) = Some v" "index_ok pos_cmp pos_keys (rule_pos w) v"
    "rb_inorder v = remove1 p (rb_inorder (w_pos_tree w))"
    using idx p(1) by (rule pos.erase_present)
  have u: "index_ok pos_cmp pos_keys (rule_pos w) (w_pos_tree w')" "set (rb_inorder (w_pos_tree w')) = set (rb_inorder (w_pos_tree w)) - {p}"
    using v pos pos.distinct_inorder [OF idx] by simp_all
  have same: "rule_pos w' q = rule_pos w q" if "q \<in> set (rb_inorder (w_pos_tree w'))" for q
    using that u(2) by (simp add: rule_pos_def w')
  have pos': "pos_ok w'"
    using u ok'(1) by (auto simp: pos_ok_def index_ok_cong [OF same] w')
  have at': "rule_at w' = (rule_at w)(k := None)"
  proof (rule map_eqI)
    fix l q
    have "q = p \<longleftrightarrow> l = k" if "rule_at w l = Some q"
      using that at rule_at_inj [OF ok'(1), of l p k] by auto
    moreover have "rule_at w' l = Some q \<longleftrightarrow> q \<noteq> p \<and> rule_at w l = Some q"
      unfolding rule_at_eq_Some [OF pos'] rule_at_eq_Some [OF ok'(1)] u(2) using same [of q] u(2) by (metis Diff_iff singleton_iff)
    ultimately show "rule_at w' l = Some q \<longleftrightarrow> ((rule_at w)(k := None)) l = Some q" by auto
  qed
  then show "rule_at w' = (rule_at w)(k := None)" .
  let ?S = "(slots w)((p, Have) := None)"
  have sl_r: "slots w (p, Have) = oru_have r" "?S (p, Want) = oru_want r" using r by (simp_all add: slots_def)
  have sl: "slots w' = ?S((p, Want) := None)"
  proof
    fix x show "slots w' x = (?S((p, Want) := None)) x"
    proof (cases x)
      case (Pair q b)
      then show ?thesis by (cases b) (auto simp: slots_def w')
    qed
  qed
  have tcrs: "w_tcrs w' = free_slot (?S (p, Want)) (free_slot (slots w (p, Have)) (w_tcrs w))" using w'(2) sl_r by simp
  note one = owned_clear [OF ok'(2), of "(p, Have)"]
  note two = owned_clear [OF one(1), of "(p, Want)"]
  have own: "owned (slots w') (w_tcrs w')" unfolding sl tcrs by (rule two)
  have val: "(slots w' x \<bind> w_tcrs w') = (if fst x = p then None else slots w x \<bind> w_tcrs w)" for x
    unfolding sl tcrs two(2) one(2) by (cases x; cases "snd x") auto
  have "wf_tc_rule t" if "w_tcrs w' h = Some t" for h t
    using that ok'(4) unfolding w'(2) by (auto simp: free_slot_def split: option.splits if_splits)
  moreover have "laf_ok w'"
    using ok'(3) laf u(2) unfolding laf_ok_def sl by auto
  ultimately show "rules_ok w'" using pos' own w'(3) by (simp add: rules_ok_def)
  show "table b w' = (table b w)(k := None)"
  proof
    fix l
    show "table b w' l = ((table b w)(k := None)) l"
    proof (cases "rule_at w' l")
      case None
      then show ?thesis using at' by (auto simp: table_def split: if_splits)
    next
      case (Some q)
      then have "q \<in> set (rb_inorder (w_pos_tree w'))" by (simp add: rule_at_eq_Some [OF pos'])
      then have "q \<noteq> p" unfolding u(2) by simp
      moreover have "l \<noteq> k" "rule_at w l = Some q" using Some unfolding at' by (simp_all split: if_splits)
      ultimately show ?thesis using Some val [of "(q, b)"] by (simp add: table_def)
    qed
  qed
qed

text \<open>Dropping the last reference to a rule that the kernel does not have.\<close>

definition in_trees :: "ptr \<Rightarrow> obj_rule \<Rightarrow> world \<Rightarrow> bool" where
  "in_trees p r w \<longleftrightarrow> oru_have_pos r \<and> (oru_have_laf r \<longleftrightarrow> p \<in> set (rb_inorder (w_laf_tree w)))
     \<and> distinct (rb_inorder (w_laf_tree w)) \<and> w_rule_cnt w \<noteq> 0"

lemma unref_frees:
  assumes ok: "rules_ok v" and r0: "w_rules v p = Some r0" "rule_at v k = Some p"
    and w: "w_rules w p = Some r" "w_rules w = (w_rules v)(p \<mapsto> r)" "w_pos_tree w = w_pos_tree v" "w_laf_tree w = w_laf_tree v"
      "w_tcrs w = free_slot (oru_have r0) (w_tcrs v)" "oru_want r = oru_want r0" "oru_have r = None" "fresh_ok w"
    and obj: "oc_kind (oru_obj r) = OBJ_KIND_RULE" "oc_refcnt (oru_obj r) = 1" "oc_weak_refcnt (oru_obj r) = 0"
      "oc_state (oru_obj r) = OBJ_STATE_PRESENT" "oru_target r = None" "in_trees p r w"
  obtains w' where "obj_rule_unref K p w = Some w'" "rules_ok w'" "w_rules w' = (w_rules v)(p := None)"
    "rule_at w' = (rule_at v)(k := None)" "\<And>b. table b w' = (table b v)(k := None)" "same_net w w'"
proof -
  have ok': "pos_ok v" "laf_ok v" using ok by (simp_all add: rules_ok_def)
  have p: "p \<in> set (rb_inorder (w_pos_tree v))" using r0(2) ok'(1) by (simp add: rule_at_eq_Some)
  obtain u where u: "rb_erase p (w_pos_tree v) = Some u"
    using pos.erase_present [OF _ p] ok'(1) unfolding pos_ok_def by blast
  have rb: "rbt_ok (w_laf_tree v)" using ok'(2) by (simp add: laf_ok_def)
  obtain l where l: "rbt_ok l" "set (rb_inorder l) = set (rb_inorder (w_laf_tree v)) - {p}"
    "if oru_have_laf r then rb_erase p (w_laf_tree v) = Some l else l = w_laf_tree v"
  proof (cases "oru_have_laf r")
    case True
    with obj(6) w(4) have "p \<in> set (rb_inorder (w_laf_tree v))" "distinct (rb_inorder (w_laf_tree v))" by (simp_all add: in_trees_def)
    with rb rb_erase_spec [OF rb] that True show thesis by (metis set_remove1_eq)
  next
    case False
    with obj(6) w(4) rb that show thesis by (auto simp: in_trees_def)
  qed
  have want: "w_tcrs w wn \<noteq> None" if "oru_want r = Some wn" for wn
    using gone_want [OF ok r0(1), of wn] that w(5,6) by auto
  let ?w = "w\<lparr>w_rules := (w_rules v)(p := None), w_tcrs := free_slot (oru_want r) (w_tcrs w), w_laf_tree := l, w_pos_tree := u,
    w_rule_cnt := w_rule_cnt w - 1\<rparr>"
  have un: "obj_unref (oru_obj r) = Some ((oru_obj r)\<lparr>oc_refcnt := 0\<rparr>)"
    using obj by (simp add: obj_unref_def)
  have "obj_rule_unref K p w = Some ?w"
    using w(1-4) w(6,7) obj un u l(3) want
    by (auto simp: obj_rule_unref_def obj_assert_kind_def mod_eq_Some obj_is_reapable_def obj_rule_reap_def in_trees_def
      obj_rule_unset_target_def free_tcr_opt_def free_tcr_def free_slot_def obj_free_ok_def split: obj_operating_mode.split option.split)
  moreover have "rules_ok ?w" "rule_at ?w = (rule_at v)(k := None)" "table b ?w = (table b v)(k := None)" for b
    by (rule drop_rule [OF ok r0(2,1)]; use l u w in \<open>auto simp: fresh_ok_def free_slot_def split: option.split\<close>)+
  ultimately show thesis by (intro that [of ?w]) (simp_all add: same_net_def)
qed


lemma gone_fresh: "fresh_ok w \<Longrightarrow> w_rules w p = Some r \<Longrightarrow> fresh_ok (gone_state p r w)"
  by (auto simp: fresh_ok_def gone_state_def free_slot_def split: option.split)

lemma pending_fresh: "fresh_ok w \<Longrightarrow> w_rules w p = Some r0 \<Longrightarrow> fresh_ok (pending_state p r x m w)"
  by (auto simp: fresh_ok_def pending_state_def sent_state_def Let_def)

lemma fresh_rule: "fresh_ok u \<Longrightarrow> w_rules u p = Some x \<Longrightarrow> fresh_ok (u\<lparr>w_rules := (w_rules u)(p \<mapsto> y)\<rparr>)"
  by (auto simp: fresh_ok_def)

lemma gone_tables:
  assumes ok: "rules_ok w" and r: "w_rules w p = Some r" and at: "rule_at w k = Some p" and laf: "p \<notin> set (rb_inorder (w_laf_tree w))"
  shows "rules_ok (gone_state p r w)" "present (gone_state p r w) = (present w)(k := None)" "wanted (gone_state p r w) = wanted w"
proof -
  have fr: "fresh_ok (gone_state p r w)" using ok r by (intro gone_fresh) (simp_all add: rules_ok_def)
  have other: "slot_of (gone_rule r) c = slot_of r c" if "c \<noteq> Have" for c using that by (cases c) (simp_all add: gone_rule_def)
  show "rules_ok (gone_state p r w)" "present (gone_state p r w) = (present w)(k := None)" "wanted (gone_state p r w) = wanted w"
    by (rule clear_slot [where b = Have, OF ok r at _ _ _ other]; use fr laf in \<open>simp add: gone_rule_def\<close>)+
qed

text \<open>C25. When the kernel reports that a filter that nobody wants is gone, its rule is freed and leaves
  both trees: nothing is present at its position any more, and nothing else of what is wanted or
  present changes.\<close>

theorem obj_rule_netlink_gone_frees:
  assumes ok: "rules_ok w" and k: "chain_no < 0x80000000" and at: "rule_at w (chain_no, prio) = Some p"
    and r: "w_rules w p = Some r" "oc_kind (oru_obj r) = OBJ_KIND_RULE" "oru_want r = None" "oru_target r = None" "in_trees p r w"
    and obj: "oc_refcnt (oru_obj r) = 0" "oc_weak_refcnt (oru_obj r) = 0" "oc_state (oru_obj r) \<noteq> OBJ_STATE_ZOMBIE"
  shows "\<exists>w'. obj_rule_netlink_found K RTM_DELTFILTER chain_no prio tcr w = Some w' \<and> rules_ok w'
    \<and> w_rules w' = (w_rules w)(p := None) \<and> rule_at w' = (rule_at w)((chain_no, prio) := None)
    \<and> present w' = (present w)((chain_no, prio) := None) \<and> wanted w' = wanted w \<and> same_net w w'"
proof -
  have fresh: "fresh_ok w" and pos: "pos_ok w" using ok by (simp_all add: rules_ok_def)
  let ?v = "gone_state p r w"
  obtain w' where w': "obj_rule_unref K p ?v = Some w'" "rules_ok w'" "w_rules w' = (w_rules w)(p := None)"
    "rule_at w' = (rule_at w)((chain_no, prio) := None)" "\<And>b. table b w' = (table b w)((chain_no, prio) := None)" "same_net ?v w'"
    by (rule unref_frees [OF ok r(1) at, of ?v "gone_rule r" K])
      (use r obj gone_fresh [OF fresh r(1)] in \<open>auto simp: gone_rule_def obj_ref_def in_trees_def gone_state_def\<close>)
  have "wanted w (chain_no, prio) = None" using at r by (simp add: table_def slots_def)
  then have "(wanted w)((chain_no, prio) := None) = wanted w" by auto
  moreover have "same_net w w'" using w'(6) by (simp add: same_net_def gone_state_def)
  ultimately show ?thesis using w' netlink_gone [OF ok k at r(1,2), of K tcr] r(3) by auto
qed

text \<open>The wanted content of a rule whose filter is gone is asked for again.\<close>

lemma gone_asks:
  assumes ok: "rules_ok w" and at: "rule_at w (chain_no, prio) = Some p"
    and r: "w_rules w p = Some r" "oc_kind (oru_obj r) = OBJ_KIND_RULE" "oru_state r \<noteq> OBJ_RULE_STATE_QUEUED"
    and want: "wanted w (chain_no, prio) = Some tcr" "tc_encode_rule (w_config w) chain_no prio (Some tcr) NO_TCE_FLAGS = Some m"
    and obj: "oc_refcnt (oru_obj r) < 0xfffffffe" "oc_state (oru_obj r) \<noteq> OBJ_STATE_ZOMBIE"
    and send: "can_send w" "2 \<le> w_pin_changes w"
  shows "oru_want r \<noteq> None"
    "obj_rule_update_state (calls (Suc n)) p (gone_state p r w) = Some (pending_state p (gone_rule r) (oru_want r) m (gone_state p r w))"
proof -
  have pos: "pos_ok w" using ok by (simp add: rules_ok_def)
  have k: "oru_chain_no r = chain_no" "oru_prio r = prio" using rule_at_Some(2) [OF pos at] r(1) by auto
  obtain wn where wn: "oru_want r = Some wn" "w_tcrs w wn = Some tcr"
    using want(1) at r(1) by (auto simp: table_def slots_def bind_eq_Some_conv)
  then show "oru_want r \<noteq> None" by simp
  have "missing_rule p (gone_rule r) tcr (gone_state p r w)"
    using gone_want [OF ok r(1) wn(1)] wn r by (auto simp: missing_rule_def gone_rule_def obj_ref_def)
  moreover have "oc_refcnt (oru_obj r) + 1 \<noteq> 0" "oc_refcnt (oru_obj r) + 1 \<noteq> - 1"
    using obj(1) by (auto simp: word_plus_1_eq_0 eq_diff_eq [symmetric])
  ultimately show "obj_rule_update_state (calls (Suc n)) p (gone_state p r w) = Some (pending_state p (gone_rule r) (oru_want r) m (gone_state p r w))"
    using update_state_sends [of "gone_state p r w" p "gone_rule r" tcr m n] send want(2) obj(2) k
    by (simp add: gone_rule_def obj_ref_def)
qed

text \<open>C7. When the kernel reports that the filter of a rule is gone, the rule is wanted, and somebody holds
  a reference to it, then the wanted content is asked for at once; the rule stays, and only what
  is present at its position changes. So the filter of a route or a target whose removal was
  asked for because its content was another one is replaced. A static rule has no
  reference to it and is not among these: what becomes of it is said further below. The
  queue is idle, the rule is not queued nor in the lost and found tree, and the pins are removed.\<close>

theorem obj_rule_netlink_gone_replaces:
  assumes ok: "rules_ok w" and k: "chain_no < 0x80000000" and at: "rule_at w (chain_no, prio) = Some p"
    and r: "w_rules w p = Some r" "oc_kind (oru_obj r) = OBJ_KIND_RULE" "oru_state r \<noteq> OBJ_RULE_STATE_QUEUED"
      "p \<notin> set (rb_inorder (w_laf_tree w))"
    and want: "wanted w (chain_no, prio) = Some tcr" "tc_encode_rule (w_config w) chain_no prio (Some tcr) NO_TCE_FLAGS = Some m"
    and obj: "oc_refcnt (oru_obj r) \<noteq> 0" "oc_refcnt (oru_obj r) < 0xfffffffe" "oc_state (oru_obj r) \<noteq> OBJ_STATE_ZOMBIE"
    and send: "can_send w" "2 \<le> w_pin_changes w"
  shows "\<exists>w'. obj_rule_netlink_found (calls (Suc n)) RTM_DELTFILTER chain_no prio tcr' w = Some w' \<and> rules_ok w'
    \<and> present w' = (present w)((chain_no, prio) := None) \<and> wanted w' = wanted w
    \<and> w_sent w' = w_sent w @ [(conn_seq (sc_conn (w_scan w)) + 1, Req_filter m)]
    \<and> line_of (w_queue w') = Awaiting (Exec_tc_action (w_next w))
    \<and> w_rules w' = (w_rules w)(p \<mapsto> r\<lparr>oru_obj := (oru_obj r)\<lparr>oc_state := OBJ_STATE_PRESENT\<rparr>,
        oru_have := None, oru_state := OBJ_RULE_STATE_PENDING\<rparr>)"
proof -
  have fresh: "fresh_ok w" using ok by (simp_all add: rules_ok_def)
  let ?v = "gone_state p r w" and ?r = "(gone_rule r)\<lparr>oru_state := OBJ_RULE_STATE_PENDING\<rparr>"
  let ?u = "pending_state p (gone_rule r) (oru_want r) m ?v"
  let ?f = "r\<lparr>oru_obj := (oru_obj r)\<lparr>oc_state := OBJ_STATE_PRESENT\<rparr>, oru_have := None, oru_state := OBJ_RULE_STATE_PENDING\<rparr>"
  let ?w = "?u\<lparr>w_rules := (w_rules w)(p \<mapsto> ?f)\<rparr>"
  note asks = gone_asks [OF ok at r(1-3) want obj(2,3) send]
  note tabs = gone_tables [OF ok r(1) at r(4)]
  have "oc_refcnt (oru_obj r) + 1 \<noteq> 0" using obj(2) by (auto simp: word_plus_1_eq_0)
  then have un: "obj_unref (oru_obj ?r) = Some (oru_obj ?f)" "stays (oru_obj ?f) ?r ?u"
    using obj by (auto simp: gone_rule_def obj_ref_def obj_unref_def stays_def word_gt_0)
  have "obj_rule_unref (calls (Suc n)) p ?u = Some ?w"
  proof -
    have "?r\<lparr>oru_obj := oru_obj ?f\<rparr> = ?f" by (cases r) (simp add: gone_rule_def)
    moreover have "oc_kind (oru_obj ?r) = OBJ_KIND_RULE" using r(2) by (simp add: gone_rule_def obj_ref_def)
    ultimately show ?thesis using obj_rule_unref_keeps [OF _ _ un, of p "calls (Suc n)"] by simp
  qed
  then have run: "obj_rule_netlink_found (calls (Suc n)) RTM_DELTFILTER chain_no prio tcr' w = Some ?w"
    using netlink_gone [OF ok k at r(1,2), of "calls (Suc n)" tcr'] asks by (auto simp del: calls.simps)
  have "fresh_ok ?u" using gone_fresh [OF fresh r(1)] by (rule pending_fresh) simp
  from fresh_rule [OF this, of p] have "fresh_ok ?w" by simp
  note touch = rules_ok_touch [OF tabs(1), of p "gone_rule r" ?f ?w]
  have t: "table b ?w = table b ?v" for b by (rule touch; simp add: gone_rule_def)
  have "rules_ok ?w" by (rule touch(1) [rotated -1]) (use \<open>fresh_ok ?w\<close> in \<open>simp_all add: gone_rule_def\<close>)
  moreover have "present ?w = (present w)((chain_no, prio) := None)" "wanted ?w = wanted w" unfolding t by (rule tabs)+
  ultimately show ?thesis using run by simp
qed

text \<open>C19. A static rule has no reference of its own. When the kernel reports that its filter is gone, the
  daemon asks for it again and then frees the rule: from then on nothing is wanted at its
  position.\<close>

theorem static_rule_forgotten_when_gone:
  assumes ok: "rules_ok w" and k: "chain_no < 0x80000000" and at: "rule_at w (chain_no, prio) = Some p"
    and r: "w_rules w p = Some r" "oc_kind (oru_obj r) = OBJ_KIND_RULE" "oru_state r \<noteq> OBJ_RULE_STATE_QUEUED"
      "oru_target r = None" "in_trees p r w"
    and want: "wanted w (chain_no, prio) = Some tcr" "tc_encode_rule (w_config w) chain_no prio (Some tcr) NO_TCE_FLAGS = Some m"
    and obj: "oc_refcnt (oru_obj r) = 0" "oc_weak_refcnt (oru_obj r) = 0" "oc_state (oru_obj r) \<noteq> OBJ_STATE_ZOMBIE"
    and send: "can_send w" "2 \<le> w_pin_changes w"
  shows "\<exists>w'. obj_rule_netlink_found (calls (Suc n)) RTM_DELTFILTER chain_no prio tcr' w = Some w' \<and> rules_ok w'
    \<and> w_sent w' = w_sent w @ [(conn_seq (sc_conn (w_scan w)) + 1, Req_filter m)]
    \<and> w_rules w' = (w_rules w)(p := None) \<and> rule_at w' = (rule_at w)((chain_no, prio) := None)
    \<and> wanted w' = (wanted w)((chain_no, prio) := None) \<and> present w' = (present w)((chain_no, prio) := None)"
proof -
  have fresh: "fresh_ok w" using ok by (simp_all add: rules_ok_def)
  let ?v = "gone_state p r w" and ?r = "(gone_rule r)\<lparr>oru_state := OBJ_RULE_STATE_PENDING\<rparr>"
  let ?u = "pending_state p (gone_rule r) (oru_want r) m ?v"
  have "oc_refcnt (oru_obj r) < 0xfffffffe" by (simp add: obj)
  note asks = gone_asks [OF ok at r(1-3) want this obj(3) send]
  have "fresh_ok ?u" using gone_fresh [OF fresh r(1)] by (rule pending_fresh) simp
  then obtain w' where w': "obj_rule_unref (calls (Suc n)) p ?u = Some w'" "rules_ok w'" "w_rules w' = (w_rules w)(p := None)"
    "rule_at w' = (rule_at w)((chain_no, prio) := None)" "\<And>b. table b w' = (table b w)((chain_no, prio) := None)" "same_net ?u w'"
    by (rule_tac unref_frees [OF ok r(1) at, of ?u ?r "calls (Suc n)"])
      (use r obj in \<open>auto simp: gone_rule_def obj_ref_def in_trees_def\<close>)
  have "obj_rule_netlink_found (calls (Suc n)) RTM_DELTFILTER chain_no prio tcr' w = Some w'"
    using netlink_gone [OF ok k at r(1,2), of "calls (Suc n)" tcr'] asks w'(1) by (auto simp del: calls.simps)
  with w' show ?thesis by (simp add: same_net_def)
qed

section \<open>Concrete instances\<close>

text \<open>One rule whose filter is in the kernel with an old content.\<close>

definition demo_old_tcr :: tc_rule where
  "demo_old_tcr = ttl_rule demo_config AF_INET6"

definition demo_old_rule :: "u32 \<Rightarrow> ptr option \<Rightarrow> obj_rule" where
  "demo_old_rule refs want = (demo_rule refs)\<lparr>oru_obj := zero_obj_core\<lparr>oc_kind := OBJ_KIND_RULE, oc_refcnt := refs,
     oc_state := OBJ_STATE_INSTALLED\<rparr>, oru_state := OBJ_RULE_STATE_OK, oru_have := Some 4, oru_want := want\<rparr>"

definition demo_old_world :: "u32 \<Rightarrow> ptr option \<Rightarrow> world" where
  "demo_old_world refs want = (demo_pin_world 0)\<lparr>w_rules := [1 \<mapsto> demo_old_rule refs want],
     w_tcrs := [2 \<mapsto> demo_tcr, 4 \<mapsto> demo_old_tcr], w_next := 5, w_pin_changes := 3\<rparr>"

lemma demo_old_rule_sel [simp]:
  "oru_have (demo_old_rule refs want) = Some 4" "oru_want (demo_old_rule refs want) = want"
  "oru_chain_no (demo_old_rule refs want) = 1" "oru_prio (demo_old_rule refs want) = 1"
  "oru_state (demo_old_rule refs want) = OBJ_RULE_STATE_OK" "oru_target (demo_old_rule refs want) = None"
  "oru_have_pos (demo_old_rule refs want)" "\<not> oru_have_laf (demo_old_rule refs want)"
  "oru_type (demo_old_rule refs want) = OBJ_RULE_TYPE_STATIC"
  "oc_kind (oru_obj (demo_old_rule refs want)) = OBJ_KIND_RULE" "oc_refcnt (oru_obj (demo_old_rule refs want)) = refs"
  "oc_weak_refcnt (oru_obj (demo_old_rule refs want)) = 0" "oc_state (oru_obj (demo_old_rule refs want)) = OBJ_STATE_INSTALLED"
  by (simp_all add: demo_old_rule_def demo_rule_def zero_obj_core_def)

lemma demo_old_world_sel [simp]:
  "w_rules (demo_old_world refs want) = [1 \<mapsto> demo_old_rule refs want]" "w_pin_changes (demo_old_world refs want) = 3"
  "w_tcrs (demo_old_world refs want) = [2 \<mapsto> demo_tcr, 4 \<mapsto> demo_old_tcr]" "w_laf_tree (demo_old_world refs want) = Null"
  "w_pos_tree (demo_old_world refs want) = Nd Null RB_BLACK 1 Null" "w_rule_cnt (demo_old_world refs want) = 1"
  "w_config (demo_old_world refs want) = demo_config" "w_mode (demo_old_world refs want) = OBJ_MODE_NORMAL"
  "can_send (demo_old_world refs want)" "w_sent (demo_old_world refs want) = []"
  using demo_pin_world_ok(1) [of 0]
  by (simp_all add: demo_old_world_def demo_pin_world_def demo_world_def initial_world_def can_send_def)

lemma demo_old_world_ok:
  assumes "want \<in> {None, Some 2}"
  shows "rules_ok (demo_old_world refs want)" "rule_at (demo_old_world refs want) = [(1, 1) \<mapsto> 1]"
    "wanted (demo_old_world refs want) = (case want of None \<Rightarrow> Map.empty | Some wn \<Rightarrow> [(1, 1) \<mapsto> demo_tcr])"
    "present (demo_old_world refs want) = [(1, 1) \<mapsto> demo_old_tcr]"
proof -
  let ?w = "demo_old_world refs want"
  have sl: "slots ?w x = (if x = (1, Have) then Some 4 else if x = (1, Want) then want else None)" for x
    by (cases x; cases "snd x") (auto simp: slots_def)
  have "pos_ok ?w" by (simp add: pos_ok_def index_ok_def rbt_ok_def pos_keys_def rule_pos_def)
  moreover have "fresh_ok ?w" by (simp add: fresh_ok_def demo_old_world_def demo_pin_world_def demo_world_def initial_world_def)
  moreover have "owned (slots ?w) (w_tcrs ?w)" using assms by (auto simp: owned_def sl split: if_splits)
  moreover have "laf_ok ?w" by (simp add: laf_ok_def rbt_ok_def)
  moreover have "\<forall>h t. w_tcrs ?w h = Some t \<longrightarrow> wf_tc_rule t"
    by (auto simp: demo_tcr_def demo_old_tcr_def split: if_splits)
  ultimately show "rules_ok ?w" by (simp add: rules_ok_def)
  show at: "rule_at ?w = [(1, 1) \<mapsto> 1]" by (simp add: rule_at_def index_map_def rule_pos_def)
  show "wanted ?w = (case want of None \<Rightarrow> Map.empty | Some wn \<Rightarrow> [(1, 1) \<mapsto> demo_tcr])"
    "present ?w = [(1, 1) \<mapsto> demo_old_tcr]"
    using assms by (auto simp: table_def at sl fun_eq_iff)
qed

lemma demo_differs: "tc_rule_cmp demo_tcr demo_old_tcr \<noteq> 0"
  by (simp add: tc_rule_cmp_0 demo_tcr_def demo_old_tcr_def) code_simp

lemma obj_rule_update_state_removes_witness:
  "\<exists>w'. obj_rule_update_state (calls 1) 1 (demo_old_world 0 (Some 2)) = Some w'
     \<and> map snd (w_sent w') = [Req_filter (tc_encode_drop_rule demo_config 1 1 NO_TCE_FLAGS)]"
proof -
  have "alien_rule 1 (demo_old_rule 0 (Some 2)) (demo_old_world 0 (Some 2))" using demo_differs by (simp add: alien_rule_def)
  from obj_rule_update_state_removes [OF _ this, of 0] show ?thesis by (auto simp: stays_def simp del: calls.simps)
qed

lemma demo_in_trees: "in_trees 1 (demo_old_rule refs want) (demo_old_world refs want)"
  by (simp add: in_trees_def)

lemma obj_rule_netlink_gone_frees_witness:
  "\<exists>w'. obj_rule_netlink_found no_calls RTM_DELTFILTER 1 1 demo_old_tcr (demo_old_world 0 None) = Some w'
     \<and> w_rules w' = Map.empty \<and> present w' = Map.empty"
  using obj_rule_netlink_gone_frees [OF demo_old_world_ok(1), of None 1 0 1 1 "demo_old_rule 0 None" no_calls demo_old_tcr]
    demo_in_trees [of 0 None]
  by (auto simp: demo_old_world_ok)

lemma obj_rule_netlink_gone_replaces_witness:
  "\<exists>w' m. obj_rule_netlink_found (calls 1) RTM_DELTFILTER 1 1 demo_old_tcr (demo_old_world 1 (Some 2)) = Some w'
     \<and> present w' = Map.empty \<and> wanted w' = [(1, 1) \<mapsto> demo_tcr] \<and> map snd (w_sent w') = [Req_filter m]"
proof -
  obtain m where m: "tc_encode_rule demo_config 1 1 (Some demo_tcr) NO_TCE_FLAGS = Some m" using demo_encodes by auto
  show ?thesis
    using obj_rule_netlink_gone_replaces [OF demo_old_world_ok(1), of "Some 2" 1 1 1 1 "demo_old_rule 1 (Some 2)" demo_tcr m 0 demo_old_tcr] m
    by (auto simp: demo_old_world_ok simp del: calls.simps)
qed

lemma static_rule_forgotten_when_gone_witness:
  "\<exists>w' m. obj_rule_netlink_found (calls 1) RTM_DELTFILTER 1 1 demo_old_tcr (demo_old_world 0 (Some 2)) = Some w'
     \<and> wanted w' = Map.empty \<and> map snd (w_sent w') = [Req_filter m]"
proof -
  obtain m where m: "tc_encode_rule demo_config 1 1 (Some demo_tcr) NO_TCE_FLAGS = Some m" using demo_encodes by auto
  show ?thesis
    using static_rule_forgotten_when_gone [OF demo_old_world_ok(1), of "Some 2" 1 0 1 1 "demo_old_rule 0 (Some 2)" demo_tcr m 0 demo_old_tcr] m
      demo_in_trees [of 0 "Some 2"]
    by (auto simp: demo_old_world_ok simp del: calls.simps)
qed

end
