(* ===== verification/Adopt.thy ===== *)
theory Adopt
  imports Removal
begin

text \<open>
  Filters that were in the kernel before the daemon wanted them: \<open>obj_rule_netlink_found\<close> enters
  them in the lost and found tree of \<open>obj_rule.c\<close>, \<open>obj_rule_prime_request\<close> takes them out of it,
  and \<open>obj_rule_unref\<close> withdraws a rule that nobody wants any more.
\<close>

section \<open>The tree of the rules found as a finite map\<close>

text \<open>The lost and found tree finds rules by the content that the kernel has reported for them.\<close>

interpretation bytes56: key_order memcmp "{bs. length bs = 56}"
  by (rule memcmp_key_order)

interpretation content_order: key_order tc_rule_cmp "Collect wf_tc_rule"
proof
  fix k l m assume kl: "k \<in> Collect wf_tc_rule" "l \<in> Collect wf_tc_rule"
  then have b: "tc_rule_bytes k \<in> {bs. length bs = 56}" "tc_rule_bytes l \<in> {bs. length bs = 56}"
    by (simp_all add: length_tc_rule_bytes)
  show "tc_rule_cmp k l = 0 \<longleftrightarrow> k = l" using kl by (simp add: tc_rule_cmp_0)
  show "tc_rule_cmp k l < 0 \<longleftrightarrow> tc_rule_cmp l k > 0"
    using bytes56.cmp_flip [OF b] by (simp add: tc_rule_cmp_def)
  assume "m \<in> Collect wf_tc_rule" "tc_rule_cmp k l < 0" "tc_rule_cmp l m < 0"
  then show "tc_rule_cmp k m < 0"
    using bytes56.cmp_trans [OF b, of "tc_rule_bytes m"] by (simp add: tc_rule_cmp_def length_tc_rule_bytes)
qed

definition content :: "world \<Rightarrow> ptr \<Rightarrow> tc_rule" where
  "content w p = (case obj_rule_have_tcr p w of None \<Rightarrow> zero_tc_rule | Some t \<Rightarrow> t)"

interpretation laf: rb_index tc_rule_cmp "Collect wf_tc_rule" "content w" for w ..

abbreviation laf_index :: "world \<Rightarrow> bool" where
  "laf_index w \<equiv> index_ok tc_rule_cmp (Collect wf_tc_rule) (content w) (w_laf_tree w)"

definition found_at :: "world \<Rightarrow> tc_rule \<rightharpoonup> ptr" where
  "found_at w = index_map (content w) (w_laf_tree w)"

lemma content_eq: "obj_rule_have_tcr p w = Some t \<Longrightarrow> content w p = t"
  by (simp add: content_def)

lemma obj_rule_laf_lookup_eq:
  assumes "rules_ok w" "laf_index w" "wf_tc_rule tcr"
  shows "obj_rule_laf_lookup tcr w = Some (found_at w tcr)"
proof -
  have "obj_rule_laf_lookup tcr w = Some (rb_search (\<lambda>p. tc_rule_cmp tcr (content w p)) (w_laf_tree w))"
    unfolding obj_rule_laf_lookup_def
    by (intro rb_search_ptr_eq) (use laf_have [OF assms(1)] content_eq in fastforce)
  then show ?thesis using assms laf.lookup_abs [of w "w_laf_tree w" tcr] by (simp add: found_at_def)
qed

lemma found_atD:
  assumes ok: "rules_ok w" "laf_index w" and found: "found_at w tcr = Some p" and r: "w_rules w p = Some r"
  shows "p \<in> set (rb_inorder (w_laf_tree w))" "rule_at w (oru_chain_no r, oru_prio r) = Some p"
    "\<exists>h. oru_have r = Some h \<and> w_tcrs w h = Some tcr" "wf_tc_rule tcr"
proof -
  have p: "p \<in> set (rb_inorder (w_laf_tree w))" "content w p = tcr"
    using found ok(2) by (simp_all add: found_at_def laf.index_map_eq_Some)
  then show "p \<in> set (rb_inorder (w_laf_tree w))" by simp
  have "p \<in> set (rb_inorder (w_pos_tree w))" using p(1) ok(1) by (auto simp: rules_ok_def laf_ok_def)
  then show "rule_at w (oru_chain_no r, oru_prio r) = Some p" using ok(1) r by (simp add: rules_ok_def rule_at_eq_Some)
  have "obj_rule_have_tcr p w = Some tcr" using laf_have [OF ok(1) p(1)] p(2) content_eq by fastforce
  then show "\<exists>h. oru_have r = Some h \<and> w_tcrs w h = Some tcr" using r by (simp add: obj_rule_have_tcr_def bind_eq_Some_conv)
  show "wf_tc_rule tcr" using p ok(2) by (auto simp: index_ok_def)
qed

section \<open>A filter that is found\<close>

lemma content_table:
  assumes "rules_ok w" "p \<in> set (rb_inorder (w_pos_tree w))" "obj_rule_have_tcr p w \<noteq> None"
  shows "present w (rule_pos w p) = Some (content w p)"
proof -
  have "rule_at w (rule_pos w p) = Some p" using assms by (simp add: rules_ok_def rule_at_eq_Some)
  then show ?thesis using assms(3) by (auto simp: table_def content_def obj_rule_have_tcr_eq)
qed

lemma laf_content: "rules_ok w \<Longrightarrow> q \<in> set (rb_inorder (w_laf_tree w)) \<Longrightarrow> obj_rule_have_tcr q w = Some (content w q)"
  by (drule (1) laf_have) (auto simp: content_def)

text \<open>A rule goes into the tree unless a rule with its content is there.\<close>

lemma obj_rule_laf_insert_eq:
  assumes ok: "rules_ok w" "laf_index w" and r: "w_rules w p = Some r" "\<not> oru_have_laf r"
    and p: "p \<in> set (rb_inorder (w_pos_tree w))" "oru_have r \<noteq> None"
  obtains t where "obj_rule_laf_insert p w = Some (if found_at w (content w p) = None
      then w\<lparr>w_laf_tree := t, w_rules := (w_rules w)(p \<mapsto> r\<lparr>oru_have_laf := True\<rparr>)\<rparr> else w)"
    "found_at w (content w p) = None \<Longrightarrow> index_ok tc_rule_cmp (Collect wf_tc_rule) (content w) t"
    "found_at w (content w p) = None \<Longrightarrow> index_map (content w) t = (found_at w)(content w p \<mapsto> p)"
proof -
  let ?g = "\<lambda>q. tc_rule_cmp (content w p) (content w q)"
  have own: "owned (slots w) (w_tcrs w)" "\<forall>h t. w_tcrs w h = Some t \<longrightarrow> wf_tc_rule t" using ok(1) by (simp_all add: rules_ok_def)
  obtain h where h: "oru_have r = Some h" using p(2) by auto
  have "slots w (p, Have) = Some h" using r h by (simp add: slots_def)
  then obtain t0 where "w_tcrs w h = Some t0" using own(1) unfolding owned_def by blast
  then have t0: "obj_rule_have_tcr p w = Some t0" "content w p = t0" "wf_tc_rule t0"
    using own(2) r h by (simp_all add: obj_rule_have_tcr_def content_def)
  have ins: "rb_insert_ptr (\<lambda>this. do { a \<leftarrow> obj_rule_have_tcr p w; h \<leftarrow> obj_rule_have_tcr this w; Some (tc_rule_cmp a h) })
    p (w_laf_tree w) = rb_insert ?g p (w_laf_tree w)"
    by (rule rb_insert_ptr_eq) (simp add: t0(1,2) laf_content [OF ok(1)])
  show thesis
  proof (cases "found_at w t0")
    case None
    then obtain t where "rb_insert ?g p (w_laf_tree w) = Some (t, True)" "index_ok tc_rule_cmp (Collect wf_tc_rule) (content w) t"
      "index_map (content w) t = (found_at w)(t0 \<mapsto> p)"
      using laf.insert_new [OF ok(2), of p] t0 by (auto simp: found_at_def)
    with ins r None t0(2) show thesis by (intro that [of t]) (simp_all add: obj_rule_laf_insert_def mod_eq_Some)
  next
    case (Some q)
    then have "rb_insert ?g p (w_laf_tree w) = Some (w_laf_tree w, False)"
      using laf.insert_old [OF ok(2), of p] t0 by (simp add: found_at_def)
    with ins r Some t0(2) show thesis by (intro that [of Null]) (simp_all add: obj_rule_laf_insert_def)
  qed
qed

lemma netlink_found_entered:
  assumes ok: "rules_ok w" "laf_index w" and pin: "w_pin_changes w = 0" and k: "chain_no < 0x80000000"
    and wf: "wf_tc_rule tcr" and None: "rule_at w (chain_no, prio) = None" and new: "found_at w tcr = None"
  obtains u where "obj_rule_netlink_found K RTM_NEWTFILTER chain_no prio tcr w = Some u" "rules_ok u" "laf_index u"
    "present u = (present w)((chain_no, prio) \<mapsto> tcr)" "wanted u = wanted w" "w_pin_changes u = 0" "same_net w u"
    "rule_at u = (rule_at w)((chain_no, prio) \<mapsto> w_next w)" "found_at u = (found_at w)(tcr \<mapsto> w_next w)"
    "w_rules u (w_next w) = Some ((found_rule chain_no prio (Suc (w_next w)))\<lparr>oru_have_laf := True\<rparr>)"
proof -
  let ?p = "w_next w" and ?r = "found_rule chain_no prio (Suc (w_next w))"
  obtain v where v: "obj_rule_netlink_found K RTM_NEWTFILTER chain_no prio tcr w
      = obj_rule_laf_insert (w_next w) v \<bind> obj_rule_update_state K (w_next w)" "rules_ok v"
    "present v = (present w)((chain_no, prio) \<mapsto> tcr)" "wanted v = wanted w" "w_pin_changes v = 0"
    "w_rules v = (w_rules w)(w_next w \<mapsto> ?r)" "w_laf_tree v = w_laf_tree w"
    "w_next w \<in> set (rb_inorder (w_pos_tree v))" "rule_at v = (rule_at w)((chain_no, prio) \<mapsto> w_next w)" "same_net w v"
    using ok(1) pin k wf None by (rule netlink_found_enters)
  have r: "w_rules v ?p = Some ?r" by (simp add: v(6))
  have laf_sub: "set (rb_inorder (w_laf_tree w)) \<subseteq> set (rb_inorder (w_pos_tree w))" using ok(1) by (simp add: rules_ok_def laf_ok_def)
  have have_v: "obj_rule_have_tcr q v \<noteq> None" if s: "slots v (q, Have) \<noteq> None" for q
  proof -
    obtain h where h: "slots v (q, Have) = Some h" using s by auto
    moreover have "owned (slots v) (w_tcrs v)" using v(2) by (simp add: rules_ok_def)
    ultimately have "w_tcrs v h \<noteq> None" unfolding owned_def by blast
    with h show ?thesis by (simp add: obj_rule_have_tcr_eq)
  qed
  have cont_p: "content v ?p = tcr"
    using content_table [OF v(2) v(8) have_v] r by (simp add: v(3) slots_def)
  have cont: "content v q = content w q" if q: "q \<in> set (rb_inorder (w_laf_tree w))" for q
  proof -
    have q': "q \<in> set (rb_inorder (w_pos_tree w))" using q laf_sub by auto
    have "w_rules w q \<noteq> None" using q' ok(1) by (auto simp: rules_ok_def pos_ok_def)
    moreover have "w_rules w ?p = None" using ok(1) by (intro fresh_okD(5)) (simp_all add: rules_ok_def)
    ultimately have "q \<noteq> ?p" by auto
    then have pos: "rule_pos v q = rule_pos w q" by (simp add: rule_pos_def v(6))
    have at: "rule_at w (rule_pos w q) = Some q" using q' ok(1) by (simp add: rules_ok_def rule_at_eq_Some)
    with None have "rule_pos w q \<noteq> (chain_no, prio)" by auto
    then have "present v (rule_pos v q) = present w (rule_pos w q)" by (simp add: v(3) pos)
    moreover have "present w (rule_pos w q) = Some (content w q)"
      using laf_have [OF ok(1) q] by (intro content_table [OF ok(1) q']) auto
    moreover have "present v (rule_pos v q) = Some (content v q)"
    proof (rule content_table [OF v(2)])
      show "q \<in> set (rb_inorder (w_pos_tree v))"
        using at v(2,9) \<open>rule_pos w q \<noteq> (chain_no, prio)\<close> rule_at_eq_Some [of v "rule_pos w q" q] by (simp add: rules_ok_def)
      have "slots w (q, Have) \<noteq> None" using q ok(1) by (simp add: rules_ok_def laf_ok_def)
      then show "obj_rule_have_tcr q v \<noteq> None" using \<open>q \<noteq> ?p\<close> by (intro have_v) (simp add: slots_def v(6))
    qed
    ultimately show ?thesis by simp
  qed
  have v_laf: "laf_index v" "found_at v = found_at w"
    using ok(2) by (simp_all add: v(7) found_at_def index_ok_cong [OF cont] index_map_cong [OF cont])
  obtain t where t: "obj_rule_laf_insert ?p v = Some (if found_at v (content v ?p) = None
      then v\<lparr>w_laf_tree := t, w_rules := (w_rules v)(?p \<mapsto> ?r\<lparr>oru_have_laf := True\<rparr>)\<rparr> else v)"
    "found_at v (content v ?p) = None \<Longrightarrow> index_ok tc_rule_cmp (Collect wf_tc_rule) (content v) t"
    "found_at v (content v ?p) = None \<Longrightarrow> index_map (content v) t = (found_at v)(content v ?p \<mapsto> ?p)"
    by (rule obj_rule_laf_insert_eq [OF v(2) v_laf(1) r]) (use v(8) in auto)
  let ?u = "v\<lparr>w_laf_tree := t, w_rules := (w_rules v)(?p \<mapsto> ?r\<lparr>oru_have_laf := True\<rparr>)\<rparr>"
  obtain u where u: "obj_rule_laf_insert ?p v = Some u" "rules_ok u" "\<And>b. table b u = table b v"
    "w_pin_changes u = w_pin_changes v"
    by (rule obj_rule_laf_insert_total [OF v(2) r]) (use v(8) in auto)
  have eq: "u = ?u" using u(1) t(1) new by (simp add: cont_p v_laf)
  have "content ?u = content v" using r by (auto simp: content_def obj_rule_have_tcr_def fun_eq_iff)
  moreover have "rule_at ?u = rule_at v"
    by (rule rule_world_cong) (use r in \<open>auto simp: rule_pos_def\<close>)
  moreover have "same_net w ?u" using v(10) by (simp add: same_net_def)
  ultimately show thesis
    using u t(2,3) v(1,3-5,9) new v_laf(2)
    by (intro that [of ?u]) (simp_all add: eq cont_p found_at_def obj_rule_update_state_def)
qed

section \<open>A rule that is adopted\<close>

text \<open>A rule that was found in the kernel and that nobody wants yet.\<close>

definition unclaimed :: "obj_rule \<Rightarrow> bool" where
  "unclaimed r \<longleftrightarrow> oc_kind (oru_obj r) = OBJ_KIND_RULE \<and> oc_state (oru_obj r) \<noteq> OBJ_STATE_ZOMBIE
     \<and> oru_want r = None \<and> oru_have_laf r \<and> oru_target r = None \<and> oru_state r \<noteq> OBJ_RULE_STATE_QUEUED"

definition adopted_rule :: "ptr \<Rightarrow> obj_rule_state \<Rightarrow> obj_rule \<Rightarrow> obj_rule" where
  "adopted_rule wn st r = r\<lparr>oru_obj := (oru_obj r)\<lparr>oc_refcnt := oc_refcnt (oru_obj r) + 2\<rparr>, oru_want := Some wn,
     oru_have_laf := False, oru_state := st\<rparr>"

definition adopted_world :: "ptr \<Rightarrow> obj_rule_state \<Rightarrow> ptr rb \<Rightarrow> tc_rule \<Rightarrow> obj_rule \<Rightarrow> world \<Rightarrow> world" where
  "adopted_world p st t tcr r w = w\<lparr>w_tcrs := (w_tcrs w)(w_next w \<mapsto> tcr), w_next := Suc (w_next w), w_laf_tree := t,
     w_rules := (w_rules w)(p \<mapsto> adopted_rule (w_next w) st r)\<rparr>"

lemma adopt_runs:
  assumes lk: "obj_rule_laf_lookup tcr w = Some (Some p)" and r: "w_rules w p = Some r" "unclaimed r"
    and h: "oru_have r = Some h" "w_tcrs w h = Some tcr" "h \<noteq> w_next w" and t: "rb_erase p (w_laf_tree w) = Some t"
  shows "obj_rule_request K tcr w = Some (Some p, adopted_world p
    (if w_pin_changes w = 0 then oru_state r else OBJ_RULE_STATE_OK) t tcr r w)"
proof -
  have two: "obj_ref (obj_ref (oru_obj r)) = (oru_obj r)\<lparr>oc_refcnt := oc_refcnt (oru_obj r) + 2\<rparr>"
    using r(2) by (simp add: obj_ref_def unclaimed_def)
  have same: "adopted_rule wn (oru_state r) r = r\<lparr>oru_want := Some wn, oru_have_laf := False,
    oru_obj := (oru_obj r)\<lparr>oc_refcnt := oc_refcnt (oru_obj r) + 2\<rparr>\<rparr>" for wn
    by (cases r) (simp add: adopted_rule_def)
  let ?w = "adopted_world p (oru_state r) t tcr r w"
  have kind: "oc_kind (obj_ref (oru_obj r)) = oc_kind (oru_obj r)" by (simp add: obj_ref_def)
  have "obj_rule_prime_request tcr w = Some (Some p, ?w)"
    using r lk t h
    by (simp add: obj_rule_prime_request_def obj_rule_ref_def obj_assert_kind_def mod_eq_Some new_tcr_def unclaimed_def
        kind two adopted_world_def same Let_def)
  moreover have "obj_rule_update_state K p ?w
    = Some (adopted_world p (if w_pin_changes w = 0 then oru_state r else OBJ_RULE_STATE_OK) t tcr r w)"
    using r(2) h
    by (simp add: obj_rule_update_state_def set_rule_state_def mod_eq_Some adopted_world_def adopted_rule_def unclaimed_def
        tc_rule_cmp_def)
  ultimately show ?thesis by (simp add: obj_rule_request_def obj_rule_queue_request_def)
qed

lemma adopted_tables:
  assumes ok: "rules_ok w" "laf_index w" and found: "found_at w tcr = Some p" and r: "w_rules w p = Some r" "unclaimed r"
  obtains t where "rb_erase p (w_laf_tree w) = Some t" "\<And>st. rules_ok (adopted_world p st t tcr r w)"
    "\<And>st. rule_at (adopted_world p st t tcr r w) = rule_at w"
    "\<And>st. present (adopted_world p st t tcr r w) = present w"
    "\<And>st. wanted (adopted_world p st t tcr r w) = (wanted w)((oru_chain_no r, oru_prio r) \<mapsto> tcr)"
    "\<And>st. laf_index (adopted_world p st t tcr r w)" "\<And>st. found_at (adopted_world p st t tcr r w) = (found_at w)(tcr := None)"
proof -
  note p = found_atD [OF ok found r(1)]
  have ok': "fresh_ok w" "owned (slots w) (w_tcrs w)" using ok by (simp_all add: rules_ok_def)
  have new: "w_tcrs w (w_next w) = None" using fresh_okD(6) [OF ok'(1)] by simp
  obtain t where t: "rb_erase p (w_laf_tree w) = Some t" "index_ok tc_rule_cmp (Collect wf_tc_rule) (content w) t"
    "rb_inorder t = remove1 p (rb_inorder (w_laf_tree w))"
    using ok(2) p(1) by (rule laf.erase_present)
  have set: "set (rb_inorder t) = set (rb_inorder (w_laf_tree w)) - {p}"
    using t(3) laf.distinct_inorder [OF ok(2)] by simp
  have cont: "content (adopted_world p st t tcr r w) = content w" for st
  proof
    fix q
    have "h \<noteq> w_next w" if "w_rules w q = Some x" "oru_have x = Some h" for x h
    proof -
      have "slots w (q, Have) = Some h" using that by (simp add: slots_def)
      with ok'(2) new show ?thesis unfolding owned_def by metis
    qed
    then have "obj_rule_have_tcr q (adopted_world p st t tcr r w) = obj_rule_have_tcr q w"
      using r(1) by (auto simp: obj_rule_have_tcr_def adopted_world_def adopted_rule_def bind_eq_Some_conv split: Option.bind_splits)
    then show "content (adopted_world p st t tcr r w) q = content w q" by (simp add: content_def)
  qed
  have other: "slot_of (adopted_rule wn st r) c = slot_of r c" if "c \<noteq> Want" for wn st c
    using that by (cases c) (simp_all add: adopted_rule_def)
  have fresh: "fresh_ok (adopted_world p st t tcr r w)" for st
    using ok'(1) r(1) by (auto simp: fresh_ok_def adopted_world_def)
  show thesis
  proof (rule that [OF t(1)])
    fix st
    let ?w = "adopted_world p st t tcr r w"
    have rw: "w_rules ?w = (w_rules w)(p \<mapsto> adopted_rule (w_next w) st r)" "w_pos_tree ?w = w_pos_tree w" "w_laf_tree ?w = t"
      "w_tcrs ?w = (free_slot (slot_of r Want) (w_tcrs w))(w_next w \<mapsto> tcr)"
      using r(2) by (simp_all add: adopted_world_def free_slot_def unclaimed_def)
    have rr: "oru_chain_no (adopted_rule (w_next w) st r) = oru_chain_no r" "oru_prio (adopted_rule (w_next w) st r) = oru_prio r"
      "slot_of (adopted_rule (w_next w) st r) Want = Some (w_next w)" by (simp_all add: adopted_rule_def)
    have laf: "rbt_ok (w_laf_tree ?w)" "set (rb_inorder (w_laf_tree ?w)) \<subseteq> set (rb_inorder (w_laf_tree w))"
      using t(2) set by (auto simp: rw index_ok_def)
    note tabs = store_slot [OF ok(1) r(1) p(2,4) rr other rw(1,2) fresh laf rw(4)]
    show "rules_ok ?w" "rule_at ?w = rule_at w" "present ?w = present w"
      "wanted ?w = (wanted w)((oru_chain_no r, oru_prio r) \<mapsto> tcr)"
      by (rule tabs; simp)+
    show "laf_index ?w" using t(2) by (simp add: cont, simp add: adopted_world_def)
    show "found_at ?w = (found_at w)(tcr := None)"
    proof (rule map_eqI)
      fix s q
      have "q = p \<longleftrightarrow> s = tcr" if "found_at w s = Some q"
        using that found ok(2) laf.index_map_eq_Some unfolding found_at_def by (metis option.inject)
      moreover have "found_at ?w s = Some q \<longleftrightarrow> q \<noteq> p \<and> found_at w s = Some q"
        unfolding found_at_def cont rw(3) laf.index_map_eq_Some [OF t(2)] laf.index_map_eq_Some [OF ok(2)] set by auto
      ultimately show "found_at ?w s = Some q \<longleftrightarrow> ((found_at w)(tcr := None)) s = Some q" by auto
    qed
  qed
qed

lemma adopt_run:
  assumes ok: "rules_ok w" "laf_index w" and found: "found_at w tcr = Some p" and r: "w_rules w p = Some r" "unclaimed r"
    and t: "rb_erase p (w_laf_tree w) = Some t"
  shows "obj_rule_request K tcr w = Some (Some p, adopted_world p
    (if w_pin_changes w = 0 then oru_state r else OBJ_RULE_STATE_OK) t tcr r w)"
proof -
  note p = found_atD [OF ok found r(1)]
  obtain h where h: "oru_have r = Some h" "w_tcrs w h = Some tcr" using p(3) by auto
  have "w_tcrs w (w_next w) = None" using ok(1) by (intro fresh_okD(6)) (simp_all add: rules_ok_def)
  then have "h \<noteq> w_next w" using h by auto
  then show ?thesis using obj_rule_laf_lookup_eq [OF ok p(4)] found r h t by (intro adopt_runs) simp_all
qed

text \<open>C9. A rule that is asked for, and whose filter was found in the kernel and is not wanted yet, is
  adopted: no request is sent, it is wanted where it is, at the position the kernel has it, and it
  leaves the lost and found tree. Two references are taken for its one new owner.\<close>

theorem obj_rule_request_adopts:
  assumes "rules_ok w" "laf_index w" and "found_at w tcr = Some p" and "w_rules w p = Some r" "unclaimed r"
  shows "\<exists>w' r'. obj_rule_request K tcr w = Some (Some p, w') \<and> rules_ok w' \<and> laf_index w' \<and> same_net w w'
    \<and> rule_at w' = rule_at w \<and> present w' = present w \<and> found_at w' = (found_at w)(tcr := None)
    \<and> wanted w' = (wanted w)((oru_chain_no r, oru_prio r) \<mapsto> tcr) \<and> present w (oru_chain_no r, oru_prio r) = Some tcr
    \<and> w_rules w' = (w_rules w)(p \<mapsto> r') \<and> oc_refcnt (oru_obj r') = oc_refcnt (oru_obj r) + 2
    \<and> oru_state r' = (if w_pin_changes w = 0 then oru_state r else OBJ_RULE_STATE_OK)"
proof -
  let ?st = "if w_pin_changes w = 0 then oru_state r else OBJ_RULE_STATE_OK"
  obtain t where t: "rb_erase p (w_laf_tree w) = Some t"
    "rules_ok (adopted_world p ?st t tcr r w)" "laf_index (adopted_world p ?st t tcr r w)"
    "rule_at (adopted_world p ?st t tcr r w) = rule_at w" "present (adopted_world p ?st t tcr r w) = present w"
    "wanted (adopted_world p ?st t tcr r w) = (wanted w)((oru_chain_no r, oru_prio r) \<mapsto> tcr)"
    "found_at (adopted_world p ?st t tcr r w) = (found_at w)(tcr := None)"
    using assms by (rule adopted_tables) (rule that; assumption)
  have run: "obj_rule_request K tcr w = Some (Some p, adopted_world p ?st t tcr r w)"
    using assms t(1) by (rule adopt_run)
  have "present w (oru_chain_no r, oru_prio r) = Some tcr"
    using found_atD [OF assms(1-4)] assms(4) by (auto simp: table_def slots_def)
  moreover have "same_net w (adopted_world p ?st t tcr r w)" by (simp add: same_net_def adopted_world_def)
  moreover have "w_rules (adopted_world p ?st t tcr r w) = (w_rules w)(p \<mapsto> adopted_rule (w_next w) ?st r)"
    by (simp add: adopted_world_def)
  ultimately show ?thesis using run t(2-) by (intro exI [of _ "adopted_world p ?st t tcr r w"] exI [of _ "adopted_rule (w_next w) ?st r"])
    (simp add: adopted_rule_def)
qed

text \<open>C20. An adopted rule is never withdrawn: when its owner drops the reference to the rule that the
  request has returned, the rule is wanted and present as before, and nothing is sent.\<close>

theorem adopted_rule_never_withdrawn:
  assumes "rules_ok w" "laf_index w" and "found_at w tcr = Some p" and "w_rules w p = Some r" "unclaimed r"
    and "oc_refcnt (oru_obj r) = 0"
  shows "\<exists>w' w''. obj_rule_request K tcr w = Some (Some p, w') \<and> obj_rule_unref K p w' = Some w'' \<and> same_net w w''
    \<and> wanted w'' = wanted w' \<and> present w'' = present w'
    \<and> wanted w'' (oru_chain_no r, oru_prio r) = Some tcr \<and> present w'' (oru_chain_no r, oru_prio r) = Some tcr"
proof -
  let ?st = "if w_pin_changes w = 0 then oru_state r else OBJ_RULE_STATE_OK"
  obtain t where t: "rb_erase p (w_laf_tree w) = Some t" "rules_ok (adopted_world p ?st t tcr r w)"
    "present (adopted_world p ?st t tcr r w) = present w"
    "wanted (adopted_world p ?st t tcr r w) = (wanted w)((oru_chain_no r, oru_prio r) \<mapsto> tcr)"
    using assms(1-5) by (rule adopted_tables) (rule that; assumption)
  let ?w = "adopted_world p ?st t tcr r w" and ?r = "adopted_rule (w_next w) ?st r"
  let ?r' = "?r\<lparr>oru_obj := (oru_obj ?r)\<lparr>oc_refcnt := 1\<rparr>\<rparr>"
  let ?v = "?w\<lparr>w_rules := (w_rules ?w)(p \<mapsto> ?r')\<rparr>"
  have run: "obj_rule_request K tcr w = Some (Some p, ?w)"
    using assms(1-5) t(1) by (rule adopt_run)
  have r: "w_rules ?w p = Some ?r" by (simp add: adopted_world_def)
  have "obj_unref (oru_obj ?r) = Some ((oru_obj ?r)\<lparr>oc_refcnt := 1\<rparr>)"
    using assms(5,6) by (simp add: obj_unref_def adopted_rule_def unclaimed_def)
  then have "obj_rule_unref K p ?w = Some ?v"
    using obj_rule_unref_keeps [OF r] assms(5) by (simp add: adopted_rule_def unclaimed_def stays_def)
  moreover have tab: "table b ?v = table b ?w" for b
    by (rule rules_ok_touch [OF t(2) r, of ?r']) simp_all
  moreover have "present w (oru_chain_no r, oru_prio r) = Some tcr"
    using found_atD [OF assms(1-4)] assms(4) by (auto simp: table_def slots_def)
  moreover have "same_net w ?v" by (simp add: same_net_def adopted_world_def)
  ultimately show ?thesis using run t by simp
qed

section \<open>A rule that is withdrawn\<close>

text \<open>C10. When the last reference to a rule is dropped whose filter is in the kernel, and which is not a
  static one, it is no longer wanted, and the removal of its filter is asked for at once; the rule
  stays, pending, until the kernel reports that the filter is gone.\<close>

theorem obj_rule_unref_withdraws:
  assumes ok: "rules_ok w" and at: "rule_at w (chain_no, prio) = Some p"
    and r: "w_rules w p = Some r" "oc_kind (oru_obj r) = OBJ_KIND_RULE" "oru_type r \<noteq> OBJ_RULE_TYPE_STATIC"
      "oru_state r \<noteq> OBJ_RULE_STATE_QUEUED" "oru_have r \<noteq> None" "oru_want r \<noteq> None"
    and obj: "oc_refcnt (oru_obj r) = 1" "oc_state (oru_obj r) = OBJ_STATE_INSTALLED"
    and send: "can_send w" "3 \<le> w_pin_changes w" "w_mode w = OBJ_MODE_NORMAL"
  shows "\<exists>w'. obj_rule_unref (calls (Suc n)) p w = Some w' \<and> rules_ok w'
    \<and> wanted w' = (wanted w)((chain_no, prio) := None) \<and> present w' = present w
    \<and> w_sent w' = w_sent w @ [(conn_seq (sc_conn (w_scan w)) + 1,
        Req_filter (tc_encode_drop_rule (w_config w) chain_no prio NO_TCE_FLAGS))]
    \<and> line_of (w_queue w') = Awaiting (Exec_tc_action (w_next w))
    \<and> w_rules w' = (w_rules w)(p \<mapsto> r\<lparr>oru_obj := (oru_obj r)\<lparr>oc_refcnt := 0\<rparr>, oru_want := None,
        oru_state := OBJ_RULE_STATE_PENDING\<rparr>)"
proof -
  have ok': "pos_ok w" "fresh_ok w" "owned (slots w) (w_tcrs w)" "laf_ok w" using ok by (simp_all add: rules_ok_def)
  have k: "oru_chain_no r = chain_no" "oru_prio r = prio" using rule_at_Some(2) [OF ok'(1) at] r(1) by auto
  obtain wn h where wn: "oru_want r = Some wn" "oru_have r = Some h" using r by auto
  have sl: "slots w (p, Want) = Some wn" "slots w (p, Have) = Some h" using r(1) wn by (simp_all add: slots_def)
  then have val: "w_tcrs w wn \<noteq> None" "w_tcrs w h \<noteq> None" using ok'(3) unfolding owned_def by metis+
  have "h \<noteq> wn"
  proof
    assume "h = wn"
    then have "(p, Have) = (p, Want)" using ok'(3) sl unfolding owned_def by metis
    then show False by simp
  qed
  let ?c = "(oru_obj r)\<lparr>oc_refcnt := 0\<rparr>"
  let ?r = "r\<lparr>oru_obj := ?c, oru_want := None\<rparr>" and ?T = "(w_tcrs w)(wn := None)"
  let ?v = "w\<lparr>w_tcrs := ?T, w_rules := (w_rules w)(p \<mapsto> ?r)\<rparr>"
  let ?m = "tc_encode_drop_rule (w_config w) chain_no prio NO_TCE_FLAGS"
  let ?u = "pending_state p ?r None ?m ?v"
  have un: "obj_unref (oru_obj r) = Some ?c" using obj by (simp add: obj_unref_def)
  have alien: "alien_rule p ?r ?v" using r wn val \<open>h \<noteq> wn\<close> by (simp add: alien_rule_def)
  have "can_send ?v" using send(1) by (simp add: can_send_def)
  then have "ask (calls (Suc n)) p ?r None ?v = Some ?u"
    by (rule ask_sends [where rule = None]) (use r obj k send(3) in \<open>simp_all add: tc_encode_rule_def stays_def\<close>)
  then have up: "obj_rule_update_state (calls (Suc n)) p ?v = Some ?u"
    using update_state_alien [OF alien] send(2) by simp
  have swap: "r\<lparr>oru_want := None, oru_obj := ?c\<rparr> = ?r" by (cases r) simp
  have run: "obj_rule_unref (calls (Suc n)) p w = Some ?u"
    using r(1-3) un wn val up obj send(3) swap
    by (auto simp: obj_rule_unref_def obj_assert_kind_def mod_eq_Some obj_rule_uninstall_def obj_get_operating_mode_def
        free_tcr_opt_def free_tcr_def obj_is_reapable_def simp del: calls.simps)
  have other: "slot_of ?r c = slot_of r c" if "c \<noteq> Want" for c using that by (cases c) simp_all
  have fresh: "fresh_ok ?v" using ok'(2) r(1) by (auto simp: fresh_ok_def)
  have v: "rules_ok ?v" "wanted ?v = (wanted w)((chain_no, prio) := None)" "present ?v = present w"
    by (rule clear_slot [where b = Want, OF ok r(1) at _ _ _ other]; use fresh wn in \<open>simp add: free_slot_def\<close>)+
  note touch = rules_ok_touch [OF v(1), of p ?r "?r\<lparr>oru_state := OBJ_RULE_STATE_PENDING\<rparr>" ?u]
  have "fresh_ok ?u" using fresh by (rule pending_fresh) simp
  then have "rules_ok ?u" by (rule touch(1) [rotated -1]) simp_all
  moreover have t: "table b ?u = table b ?v" for b by (rule touch) simp_all
  ultimately show ?thesis using run v by simp
qed

section \<open>Found and then wanted\<close>

text \<open>C8. What a restarted daemon does with a filter that it left behind: before the pins are removed the
  report enters it in the lost and found tree, and a request for the same content takes it from
  there. In the end it is wanted and present at the position reported, the tree is as it was
  before, and no request has been sent.\<close>

theorem found_rule_is_adopted:
  assumes "rules_ok w" "laf_index w" and "w_pin_changes w = 0" and "chain_no < 0x80000000" and "wf_tc_rule tcr"
    and "rule_at w (chain_no, prio) = None" and "found_at w tcr = None"
  shows "\<exists>u w'. obj_rule_netlink_found K RTM_NEWTFILTER chain_no prio tcr w = Some u
    \<and> found_at u = (found_at w)(tcr \<mapsto> w_next w) \<and> obj_rule_request K' tcr u = Some (Some (w_next w), w')
    \<and> rules_ok w' \<and> laf_index w' \<and> found_at w' = found_at w \<and> same_net w w'
    \<and> present w' = (present w)((chain_no, prio) \<mapsto> tcr) \<and> wanted w' = (wanted w)((chain_no, prio) \<mapsto> tcr)"
proof -
  let ?r = "(found_rule chain_no prio (Suc (w_next w)))\<lparr>oru_have_laf := True\<rparr>"
  obtain u where u: "obj_rule_netlink_found K RTM_NEWTFILTER chain_no prio tcr w = Some u" "rules_ok u" "laf_index u"
    "present u = (present w)((chain_no, prio) \<mapsto> tcr)" "wanted u = wanted w" "same_net w u"
    "found_at u = (found_at w)(tcr \<mapsto> w_next w)" "w_rules u (w_next w) = Some ?r"
    using assms by (rule netlink_found_entered)
  have found: "found_at u tcr = Some (w_next w)" by (simp add: u(7))
  have r: "unclaimed ?r" by (simp add: unclaimed_def zero_obj_core_def)
  let ?st = "if w_pin_changes u = 0 then oru_state ?r else OBJ_RULE_STATE_OK"
  obtain t where t: "rb_erase (w_next w) (w_laf_tree u) = Some t"
    "rules_ok (adopted_world (w_next w) ?st t tcr ?r u)" "laf_index (adopted_world (w_next w) ?st t tcr ?r u)"
    "present (adopted_world (w_next w) ?st t tcr ?r u) = present u"
    "wanted (adopted_world (w_next w) ?st t tcr ?r u) = (wanted u)((oru_chain_no ?r, oru_prio ?r) \<mapsto> tcr)"
    "found_at (adopted_world (w_next w) ?st t tcr ?r u) = (found_at u)(tcr := None)"
    using u(2,3) found u(8) r by (rule adopted_tables) (rule that; assumption)
  have run: "obj_rule_request K' tcr u = Some (Some (w_next w), adopted_world (w_next w) ?st t tcr ?r u)"
    using u(2,3) found u(8) r t(1) by (rule adopt_run)
  have "same_net w (adopted_world (w_next w) ?st t tcr ?r u)" using u(6) by (simp add: same_net_def adopted_world_def)
  moreover have "(found_at u)(tcr := None) = found_at w" using assms(7) by (auto simp: u(7))
  ultimately show ?thesis using u run t(2-)
    by (intro exI [of _ u] exI [of _ "adopted_world (w_next w) ?st t tcr ?r u"]) (simp add: u(4,5))
qed

section \<open>Concrete instances\<close>

definition demo_goto :: "u32 \<Rightarrow> tc_rule" where
  "demo_goto n = zero_tc_rule\<lparr>tcr_goto_target := n\<rparr>"

definition demo_found_rule :: "u16 \<Rightarrow> ptr \<Rightarrow> obj_rule" where
  "demo_found_rule prio h = (found_rule 1 prio h)\<lparr>oru_have_laf := True\<rparr>"

definition demo_found_world :: world where
  "demo_found_world = demo_world\<lparr>w_rules := [1 \<mapsto> demo_found_rule 1 4, 2 \<mapsto> demo_found_rule 2 5],
     w_tcrs := [4 \<mapsto> demo_goto 1, 5 \<mapsto> demo_goto 2], w_next := 6, w_rule_cnt := 2,
     w_pos_tree := Nd Null RB_BLACK 1 (Nd Null RB_RED 2 Null), w_laf_tree := Nd Null RB_BLACK 1 (Nd Null RB_RED 2 Null)\<rparr>"

lemma wf_demo_goto [simp]: "wf_tc_rule (demo_goto n)"
  by (simp add: demo_goto_def)

lemma demo_goto_less: "tc_rule_cmp (demo_goto 1) (demo_goto 2) < 0" "tc_rule_cmp (demo_goto 2) (demo_goto 3) < 0"
  by code_simp+

lemma demo_found_rule_sel [simp]:
  "oru_have (demo_found_rule prio h) = Some h" "oru_want (demo_found_rule prio h) = None"
  "oru_chain_no (demo_found_rule prio h) = 1" "oru_prio (demo_found_rule prio h) = prio" "unclaimed (demo_found_rule prio h)"
  "oc_refcnt (oru_obj (demo_found_rule prio h)) = 0"
  by (simp_all add: demo_found_rule_def unclaimed_def zero_obj_core_def)

lemma demo_found_world_sel [simp]:
  "w_rules demo_found_world = [1 \<mapsto> demo_found_rule 1 4, 2 \<mapsto> demo_found_rule 2 5]"
  "w_tcrs demo_found_world = [4 \<mapsto> demo_goto 1, 5 \<mapsto> demo_goto 2]" "w_pin_changes demo_found_world = 0"
  "w_pos_tree demo_found_world = Nd Null RB_BLACK 1 (Nd Null RB_RED 2 Null)"
  "w_laf_tree demo_found_world = Nd Null RB_BLACK 1 (Nd Null RB_RED 2 Null)" "w_next demo_found_world = 6"
  by (simp_all add: demo_found_world_def demo_world_def initial_world_def)

lemma demo_content: "content demo_found_world 1 = demo_goto 1" "content demo_found_world 2 = demo_goto 2"
  by (simp_all add: content_def obj_rule_have_tcr_def)

lemma demo_goto_ne: "demo_goto 1 \<noteq> demo_goto 2" "demo_goto 2 \<noteq> demo_goto 1"
  by (simp_all add: demo_goto_def zero_tc_rule_def)

lemma demo_found_world_ok:
  "rules_ok demo_found_world" "laf_index demo_found_world"
  "found_at demo_found_world = [demo_goto 1 \<mapsto> 1, demo_goto 2 \<mapsto> 2]" "rule_at demo_found_world = [(1, 1) \<mapsto> 1, (1, 2) \<mapsto> 2]"
proof -
  let ?w = demo_found_world
  have sl: "slots ?w x = (if x = (1, Have) then Some 4 else if x = (2, Have) then Some 5 else None)" for x
    by (cases x; cases "snd x") (auto simp: slots_def)
  have rp: "rule_pos ?w 1 = (1, 1)" "rule_pos ?w 2 = (1, 2)" by (simp_all add: rule_pos_def)
  have "pos_ok ?w" by (simp add: pos_ok_def index_ok_def rbt_ok_def pos_keys_def rp pos_cmp_def u32cmp_def u16cmp_def)
  moreover have "fresh_ok ?w" by (simp add: fresh_ok_def demo_found_world_def demo_world_def initial_world_def)
  moreover have "owned (slots ?w) (w_tcrs ?w)" by (auto simp: owned_def sl split: if_splits)
  moreover have "laf_ok ?w" by (simp add: laf_ok_def rbt_ok_def sl)
  ultimately show "rules_ok ?w" by (simp add: rules_ok_def)
  show "laf_index ?w" by (simp add: index_ok_def rbt_ok_def demo_content demo_goto_less del: One_nat_def)
  show "found_at ?w = [demo_goto 1 \<mapsto> 1, demo_goto 2 \<mapsto> 2]"
    by (simp add: found_at_def index_map_def demo_content fun_upd_twist demo_goto_ne del: One_nat_def)
  show "rule_at ?w = [(1, 1) \<mapsto> 1, (1, 2) \<mapsto> 2]" by (simp add: rule_at_def index_map_def rp fun_upd_twist)
qed

section \<open>A filter that changes\<close>

text \<open>C21. A report that changes the content of a rule in the lost and found tree leaves the rule at the
  place of its old content. The tree is then out of order: here another rule, still in it with the
  content it had, is no longer found by that content.\<close>

theorem found_rule_lost_when_changed:
  "\<exists>w w' q. rules_ok w \<and> laf_index w \<and> found_at w (demo_goto 2) = Some q
     \<and> obj_rule_netlink_found K RTM_NEWTFILTER 1 1 (demo_goto 3) w = Some w' \<and> rules_ok w'
     \<and> q \<in> set (rb_inorder (w_laf_tree w')) \<and> content w' q = demo_goto 2
     \<and> obj_rule_laf_lookup (demo_goto 2) w' = Some None"
proof -
  let ?w = demo_found_world and ?r = "(demo_found_rule 1 4)\<lparr>oru_have := Some 6\<rparr>"
  let ?v = "?w\<lparr>w_tcrs := (free_slot (Some 4) (w_tcrs ?w))(w_next ?w \<mapsto> demo_goto 3), w_next := Suc (w_next ?w),
    w_rules := (w_rules ?w)(1 \<mapsto> ?r)\<rparr>"
  have ne: "tc_rule_cmp (demo_goto 1) (demo_goto 3) \<noteq> 0" by code_simp
  have "obj_rule_pos_lookup 1 1 ?w = Some (Some 1)"
    using demo_found_world_ok by (subst obj_rule_pos_lookup_eq) (simp_all add: rules_ok_def pos_keys_def)
  then have run: "obj_rule_netlink_found K RTM_NEWTFILTER 1 1 (demo_goto 3) ?w = Some ?v"
    using ne by (simp add: obj_rule_netlink_found_def mod_rule_def new_tcr_def free_tcr_def free_slot_def obj_rule_update_state_def)
  have "rules_ok ?v"
    by (rule store_have(1) [OF demo_found_world_ok(1), of 1 "demo_found_rule 1 4" "(1, 1)" "demo_goto 3" ?r])
      (simp_all add: demo_found_world_ok)
  moreover have "obj_rule_laf_lookup (demo_goto 2) ?v = Some None"
    using demo_goto_less by (simp add: obj_rule_laf_lookup_def obj_rule_have_tcr_def)
  moreover have "content ?v 2 = demo_goto 2" by (simp add: content_def obj_rule_have_tcr_def free_slot_def)
  moreover have "found_at ?w (demo_goto 2) = Some 2" by (simp add: demo_found_world_ok)
  ultimately show ?thesis using demo_found_world_ok(1,2) run
    by (intro exI [of _ ?w] exI [of _ ?v] exI [of _ 2]) simp
qed

lemma obj_rule_request_adopts_witness:
  "\<exists>w'. obj_rule_request no_calls (demo_goto 2) demo_found_world = Some (Some 2, w')
     \<and> wanted w' (1, 2) = Some (demo_goto 2) \<and> found_at w' = [demo_goto 1 \<mapsto> 1]"
proof -
  have "[demo_goto 1 \<mapsto> (1 :: ptr), demo_goto 2 \<mapsto> 2](demo_goto 2 := None) = [demo_goto 1 \<mapsto> 1]"
    using demo_goto_ne by auto
  then show ?thesis
    using obj_rule_request_adopts [OF demo_found_world_ok(1,2), of "demo_goto 2" 2 "demo_found_rule 2 5" no_calls]
    by (auto simp: demo_found_world_ok)
qed

lemma adopted_rule_never_withdrawn_witness:
  "\<exists>w' w''. obj_rule_request no_calls (demo_goto 2) demo_found_world = Some (Some 2, w')
     \<and> obj_rule_unref no_calls 2 w' = Some w'' \<and> wanted w'' (1, 2) = Some (demo_goto 2)"
  using adopted_rule_never_withdrawn [OF demo_found_world_ok(1,2), of "demo_goto 2" 2 "demo_found_rule 2 5" no_calls]
  by (auto simp: demo_found_world_ok)

lemma found_rule_is_adopted_witness:
  "\<exists>u w'. obj_rule_netlink_found no_calls RTM_NEWTFILTER 1 3 (demo_goto 3) demo_found_world = Some u
     \<and> obj_rule_request no_calls (demo_goto 3) u = Some (Some 6, w') \<and> wanted w' (1, 3) = Some (demo_goto 3)"
proof -
  have "demo_goto 1 \<noteq> demo_goto 3" "demo_goto 2 \<noteq> demo_goto 3" by (simp_all add: demo_goto_def zero_tc_rule_def)
  then show ?thesis
    using found_rule_is_adopted [OF demo_found_world_ok(1,2), of 1 "demo_goto 3" 3 no_calls no_calls]
    by (auto simp: demo_found_world_ok)
qed

text \<open>A rule with one owner, whose filter is in the kernel.\<close>

definition demo_owned_rule :: obj_rule where
  "demo_owned_rule = (demo_old_rule 1 (Some 2))\<lparr>oru_type := OBJ_RULE_TYPE_NOT_SET\<rparr>"

definition demo_owned_world :: world where
  "demo_owned_world = (demo_old_world 1 (Some 2))\<lparr>w_rules := [1 \<mapsto> demo_owned_rule]\<rparr>"

lemma demo_owned_world_ok:
  "rules_ok demo_owned_world" "rule_at demo_owned_world = [(1, 1) \<mapsto> 1]" "wanted demo_owned_world = [(1, 1) \<mapsto> demo_tcr]"
proof -
  note touch = rules_ok_touch [OF demo_old_world_ok(1), of "Some 2" 1 1 "demo_old_rule 1 (Some 2)" demo_owned_rule demo_owned_world]
  have "fresh_ok demo_owned_world"
    using demo_old_world_ok(1) [of "Some 2" 1] by (auto simp: rules_ok_def fresh_ok_def demo_owned_world_def)
  then show "rules_ok demo_owned_world" by (rule touch(1) [rotated -1]) (simp_all add: demo_owned_world_def demo_owned_rule_def)
  have "table b demo_owned_world = table b (demo_old_world 1 (Some 2))" "rule_at demo_owned_world = rule_at (demo_old_world 1 (Some 2))" for b
    by (rule touch; simp add: demo_owned_world_def demo_owned_rule_def)+
  then show "rule_at demo_owned_world = [(1, 1) \<mapsto> 1]" "wanted demo_owned_world = [(1, 1) \<mapsto> demo_tcr]"
    by (simp_all add: demo_old_world_ok)
qed

lemma obj_rule_unref_withdraws_witness:
  "\<exists>w'. obj_rule_unref (calls 1) 1 demo_owned_world = Some w' \<and> wanted w' = Map.empty
     \<and> map snd (w_sent w') = [Req_filter (tc_encode_drop_rule demo_config 1 1 NO_TCE_FLAGS)]"
proof -
  have "can_send demo_owned_world = can_send (demo_old_world 1 (Some 2))"
    unfolding can_send_def demo_owned_world_def by simp
  then show ?thesis
    using obj_rule_unref_withdraws [OF demo_owned_world_ok(1), of 1 1 1 demo_owned_rule 0]
    by (auto simp: demo_owned_world_ok) (auto simp: demo_owned_world_def demo_owned_rule_def simp del: calls.simps)
qed

end
