(* ===== verification/Target_Props.thy ===== *)
theory Target_Props
  imports Daemon Obj_Lemmas
begin

text \<open>
  What happens to the routes of a neighbour that goes away (\<open>src/obj_neigh.c\<close>, \<open>src/obj_target.c\<close>):
  a route that the kernel still has is not released with its target, and the reference it holds
  makes the daemon abort.
\<close>

section \<open>Routes in the kernel survive the loss of a reference\<close>

definition routes_installed :: "world \<Rightarrow> bool" where
  "routes_installed w \<longleftrightarrow> w_mode w = OBJ_MODE_NORMAL \<and>
     (\<forall>p r. w_routes w p = Some r \<longrightarrow> oc_state (or_obj r) = OBJ_STATE_INSTALLED)"

lemma route_unref_installed:
  assumes "routes_installed w" "obj_route_unref K p w = Some w'"
  shows "routes_installed w' \<and> w_targets w' = w_targets w"
  using assms
  by (auto simp: obj_route_unref_def obj_unref_def routes_installed_def obj_is_reapable_def mod_route_def obj_assert_kind_def
      elim!: bind_SomeE split: if_splits)

lemma unref_routes_installed:
  assumes "routes_installed w" "unref_routes_loop (calls n) fuel p w = Some w'"
  shows "w_targets w' = w_targets w"
  using assms
proof (induction "calls n" fuel p w rule: unref_routes_loop.induct)
  case (3 fuel p w)
  from 3(3) have "\<exists>r v. w_routes w p = Some r \<and> calls n (Call_route_unref p) w = Some v
    \<and> unref_routes_loop (calls n) fuel (or_t_next_route r) v = Some w'" by (simp add: bind_eq_Some_conv)
  then obtain r v where r: "w_routes w p = Some r" and v: "calls n (Call_route_unref p) w = Some v"
    "unref_routes_loop (calls n) fuel (or_t_next_route r) v = Some w'" by blast
  from v(1) obtain m where "obj_route_unref (calls m) p w = Some v" by (cases n) auto
  with 3(2) have "routes_installed v \<and> w_targets v = w_targets w" by (rule route_unref_installed)
  with 3(1) r v show ?case by metis
qed auto

lemma unref_nexthops_same:
  "unref_nexthops ns w = Some w' \<Longrightarrow> w_targets w' = w_targets w \<and> w_routes w' = w_routes w \<and> w_mode w' = w_mode w"
  by (induction ns arbitrary: w) (fastforce simp: obj_neigh_weak_unref_def mod_neigh_def elim!: bind_SomeE)+

lemma target_reap_aborts:
  assumes "routes_installed w" "w_targets w p = Some t" "ot_rule t = None" "oc_weak_refcnt (ot_obj t) \<noteq> 0"
  shows "obj_target_reap (calls n) p w = None"
proof (rule ccontr)
  let ?t = "t\<lparr>ot_obj := (ot_obj t)\<lparr>oc_state := OBJ_STATE_ZOMBIE\<rparr>\<rparr>"
  let ?w = "w\<lparr>w_targets := (w_targets w)(p \<mapsto> ?t)\<rparr>"
  assume "obj_target_reap (calls n) p w \<noteq> None"
  then obtain v k u t' x t'' where v: "unref_nexthops (ot_nexthop t) ?w = Some v"
    "unref_routes_loop (calls n) (w_next v) k v = Some u" "w_targets u p = Some t'"
    "(case ot_rule t' of None \<Rightarrow> Some u | Some rp \<Rightarrow> do { w \<leftarrow> obj_rule_unref (calls n) rp u;
       mod_target p (\<lambda>t. t\<lparr>ot_rule := None\<rparr>) w }) = Some x"
    "w_targets x p = Some t''" "oc_weak_refcnt (ot_obj t'') = 0"
    using assms(2) by (fastforce simp: obj_target_reap_def mod_target_def elim!: bind_SomeE)
  have same: "w_targets v = w_targets ?w" "routes_installed v"
    using unref_nexthops_same [OF v(1)] assms(1) by (auto simp: routes_installed_def)
  with unref_routes_installed [OF same(2) v(2)] have "w_targets u p = Some ?t" by simp
  with v(3-6) assms(3,4) show False by auto
qed

section \<open>A neighbour that goes away\<close>

text \<open>C18. When the kernel removes a neighbour while a route through it is still in the kernel, the daemon
  aborts: the neighbour's target is released, its route is not, and the target may not be freed
  with the weak reference of the route. (The target has no rule of its own yet.)\<close>

theorem neigh_delete_with_route_aborts:
  assumes "routes_installed w" "w_neighs w p = Some n" "oc_refcnt (on_obj n) = 0" "on_targets n = Some tp"
    "w_targets w tp = Some t" "oc_refcnt (ot_obj t) = 1" "oc_weak_refcnt (ot_obj t) \<noteq> 0"
    "oc_state (ot_obj t) = OBJ_STATE_PRESENT" "ot_rule t = None"
  shows "obj_neigh_delete (calls d) p w = None"
proof (rule ccontr)
  let ?n = "n\<lparr>on_obj := (on_obj n)\<lparr>oc_state := OBJ_STATE_ZOMBIE\<rparr>\<rparr>"
  let ?w = "w\<lparr>w_neighs := (w_neighs w)(p \<mapsto> ?n)\<rparr>"
  assume "obj_neigh_delete (calls d) p w \<noteq> None"
  then have "obj_neigh_reap (calls d) p (w\<lparr>w_neighs := (w_neighs w)(p \<mapsto> n\<lparr>on_obj := (on_obj n)\<lparr>oc_state := OBJ_STATE_PRESENT\<rparr>\<rparr>)\<rparr>) \<noteq> None"
    using assms(1-3) by (simp add: obj_neigh_delete_def set_neigh_state_def mod_neigh_def obj_is_reapable_def routes_installed_def)
  then obtain fuel v where "unref_targets_loop (calls d) fuel (Some tp) ?w = Some v"
    using assms(4) by (auto simp: obj_neigh_reap_def mod_neigh_def elim!: bind_SomeE)
  then obtain u where "obj_target_unref (calls d) tp (?w\<lparr>w_targets := (w_targets w)(tp \<mapsto> t\<lparr>ot_n_next_target := None\<rparr>)\<rparr>) = Some u"
    using assms(5) by (cases fuel) (auto simp: mod_target_def elim!: bind_SomeE)
  then have "obj_target_reap (calls d) tp (?w\<lparr>w_targets := (w_targets w)
      (tp \<mapsto> t\<lparr>ot_n_next_target := None, ot_obj := (ot_obj t)\<lparr>oc_refcnt := 0\<rparr>\<rparr>)\<rparr>) = Some u"
    using assms(1,6,8) by (auto simp: obj_target_unref_def obj_unref_def mod_target_def obj_is_reapable_def routes_installed_def
        elim!: bind_SomeE)
  moreover have "obj_target_reap (calls d) tp (?w\<lparr>w_targets := (w_targets w)
      (tp \<mapsto> t\<lparr>ot_n_next_target := None, ot_obj := (ot_obj t)\<lparr>oc_refcnt := 0\<rparr>\<rparr>)\<rparr>) = None"
    by (rule target_reap_aborts [where t = "t\<lparr>ot_n_next_target := None, ot_obj := (ot_obj t)\<lparr>oc_refcnt := 0\<rparr>\<rparr>"])
      (use assms(1,7,9) in \<open>simp_all add: routes_installed_def\<close>)
  ultimately show False by simp
qed

section \<open>A concrete instance\<close>

definition demo_gone_world :: world where
  "demo_gone_world = (initial_world (\<lambda>_. True) (config_init ''flower-route''))\<lparr>
     w_neighs := [1 \<mapsto> \<lparr>on_obj = zero_obj_core\<lparr>oc_kind := OBJ_KIND_NEIGH, oc_state := OBJ_STATE_INSTALLED,
       oc_weak_refcnt := 1\<rparr>, on_link = None, on_addr = zero_af_addr, on_lladdr = replicate 6 0, on_targets = Some 2\<rparr>],
     w_targets := [2 \<mapsto> \<lparr>ot_obj = zero_obj_core\<lparr>oc_kind := OBJ_KIND_TARGET, oc_refcnt := 1, oc_weak_refcnt := 1\<rparr>,
       ot_nexthop_cnt = 1, ot_nexthop = [1], ot_first_route = Some 3, ot_last_route = Some 3,
       ot_n_next_target = None, ot_rule = None\<rparr>],
     w_routes := [3 \<mapsto> \<lparr>or_obj = zero_obj_core\<lparr>oc_kind := OBJ_KIND_ROUTE, oc_state := OBJ_STATE_INSTALLED, oc_refcnt := 1\<rparr>,
       or_dst = zero_af_addr, or_target = Some 2, or_t_next_route = None, or_target_rule = None, or_rule = None\<rparr>],
     w_next := 4, w_neigh_cnt := 1, w_target_cnt := 1, w_route_cnt := 1\<rparr>"

lemma neigh_delete_with_route_witness: "obj_neigh_delete (calls 9) 1 demo_gone_world = None"
  by (rule neigh_delete_with_route_aborts [where n = "the (w_neighs demo_gone_world 1)" and tp = 2
        and t = "the (w_targets demo_gone_world 2)"])
    (simp_all add: demo_gone_world_def initial_world_def routes_installed_def zero_obj_core_def)

end
