(* ===== verification/Store_Index.thy ===== *)
theory Store_Index
  imports RB_Index
begin

text \<open>
  Tables whose nodes are pointers into a store of objects, with the key in a field of the object.
  \<open>store_index\<close> is the contract of such a table: what a comparison of the field promises, and what
  the searches, insertions and removals that follow the pointers then do to the finite map from
  keys to pointers, also while the objects themselves change.
\<close>

definition node_key :: "('a \<Rightarrow> 'k) \<Rightarrow> 'k \<Rightarrow> ('p \<rightharpoonup> 'a) \<Rightarrow> 'p \<Rightarrow> 'k" where
  "node_key field dflt S p = (case S p of None \<Rightarrow> dflt | Some x \<Rightarrow> field x)"

definition table_ok ::
  "('k \<Rightarrow> 'k \<Rightarrow> int) \<Rightarrow> 'k set \<Rightarrow> ('a \<Rightarrow> 'k) \<Rightarrow> 'k \<Rightarrow> ('p \<rightharpoonup> 'a) \<Rightarrow> 'p rb \<Rightarrow> bool" where
  "table_ok cmp ks field dflt S t \<longleftrightarrow>
     index_ok cmp ks (node_key field dflt S) t \<and> set (rb_inorder t) \<subseteq> dom S"

definition table_at :: "('a \<Rightarrow> 'k) \<Rightarrow> 'k \<Rightarrow> ('p \<rightharpoonup> 'a) \<Rightarrow> 'p rb \<Rightarrow> 'k \<rightharpoonup> 'p" where
  "table_at field dflt S t = index_map (node_key field dflt S) t"

lemma node_key_Some [simp]: "S p = Some x \<Longrightarrow> node_key field dflt S p = field x"
  by (simp add: node_key_def)

lemma index_ok_keys:
  "(\<And>p. p \<in> set (rb_inorder t) \<Longrightarrow> f p = g p) \<Longrightarrow> index_ok cmp ks f t = index_ok cmp ks g t"
  by (auto simp: index_ok_def sorted_wrt_iff_nth_less image_subset_iff)

lemma index_map_keys:
  "(\<And>p. p \<in> set (rb_inorder t) \<Longrightarrow> f p = g p) \<Longrightarrow> index_map f t = index_map g t"
  by (simp add: index_map_def cong: map_cong)

lemma table_Null [simp]: "table_ok cmp ks field dflt S Null" "table_at field dflt S Null = Map.empty"
  by (simp_all add: table_ok_def table_at_def)

text \<open>The table depends on the keys of its own nodes only.\<close>

lemma table_cong:
  assumes "\<And>p. p \<in> set (rb_inorder t) \<Longrightarrow> map_option field (S p) = map_option field (T p)"
  shows "table_ok cmp ks field dflt S t = table_ok cmp ks field dflt T t"
    and "table_at field dflt S t = table_at field dflt T t"
proof -
  have eq: "node_key field dflt S p = node_key field dflt T p" "p \<in> dom S \<longleftrightarrow> p \<in> dom T"
    if "p \<in> set (rb_inorder t)" for p
    using assms [OF that] by (cases "S p"; cases "T p"; simp add: node_key_def domIff)+
  show "table_ok cmp ks field dflt S t = table_ok cmp ks field dflt T t"
  proof -
    have "index_ok cmp ks (node_key field dflt S) t = index_ok cmp ks (node_key field dflt T) t"
      by (rule index_ok_keys) (rule eq(1))
    with eq(2) show ?thesis unfolding table_ok_def by blast
  qed
  show "table_at field dflt S t = table_at field dflt T t"
    unfolding table_at_def by (rule index_map_keys) (rule eq(1))
qed

locale store_index = key_order cmp keys for cmp :: "'k \<Rightarrow> 'k \<Rightarrow> int" and keys +
  fixes field :: "'a \<Rightarrow> 'k" and dflt :: 'k

sublocale store_index \<subseteq> idx: rb_index cmp keys "node_key field dflt S" for S ..

context store_index begin

abbreviation tok :: "('p \<rightharpoonup> 'a) \<Rightarrow> 'p rb \<Rightarrow> bool" where
  "tok \<equiv> table_ok cmp keys field dflt"

abbreviation at :: "('p \<rightharpoonup> 'a) \<Rightarrow> 'p rb \<Rightarrow> 'k \<rightharpoonup> 'p" where
  "at \<equiv> table_at field dflt"

lemma at_Some: "tok S t \<Longrightarrow> at S t k = Some p \<longleftrightarrow> p \<in> set (rb_inorder t) \<and> node_key field dflt S p = k"
  by (simp add: table_ok_def table_at_def idx.index_map_eq_Some)

lemma at_SomeD:
  assumes "tok S t" "at S t k = Some p"
  obtains x where "S p = Some x" "field x = k" "k \<in> keys" "p \<in> set (rb_inorder t)"
proof -
  have p: "p \<in> set (rb_inorder t)" "node_key field dflt S p = k" using assms by (simp_all add: at_Some)
  then obtain x where x: "S p = Some x" using assms(1) by (auto simp: table_ok_def)
  have "k \<in> keys" using p assms(1) by (auto simp: table_ok_def index_ok_def)
  with p x show thesis by (intro that [of x]) auto
qed

lemma lookup_at:
  assumes "tok S t" "k \<in> keys"
  shows "rb_search_ptr (\<lambda>this. do { x \<leftarrow> S this; Some (cmp k (field x)) }) t = Some (at S t k)"
proof -
  have "rb_search_ptr (\<lambda>this. do { x \<leftarrow> S this; Some (cmp k (field x)) }) t
    = Some (rb_search (\<lambda>p. cmp k (node_key field dflt S p)) t)"
    using assms(1) by (intro rb_search_ptr_eq) (auto simp: table_ok_def)
  with assms show ?thesis using idx.lookup_abs [of S t k] by (simp add: table_ok_def table_at_def)
qed

lemma insert_at:
  assumes "tok S t" "S p = Some x" "field x \<in> keys" "at S t (field x) = None"
  obtains u where "rb_insert_ptr (\<lambda>this. do { y \<leftarrow> S this; Some (cmp (field x) (field y)) }) p t = Some (u, True)"
    "tok S u" "at S u = (at S t)(field x \<mapsto> p)" "set (rb_inorder u) = insert p (set (rb_inorder t))"
proof -
  have t: "index_ok cmp keys (node_key field dflt S) t" "node_key field dflt S p \<in> keys"
    "index_map (node_key field dflt S) t (node_key field dflt S p) = None"
    using assms by (simp_all add: table_ok_def table_at_def)
  obtain u xs ys where u: "rb_insert (\<lambda>q. cmp (node_key field dflt S p) (node_key field dflt S q)) p t = Some (u, True)"
    "index_ok cmp keys (node_key field dflt S) u" "rb_inorder t = xs @ ys" "rb_inorder u = xs @ p # ys"
    using t by (rule idx.insert_fresh)
  have "rb_insert_ptr (\<lambda>this. do { y \<leftarrow> S this; Some (cmp (field x) (field y)) }) p t
    = rb_insert (\<lambda>q. cmp (node_key field dflt S p) (node_key field dflt S q)) p t"
    using assms(1,2) by (intro rb_insert_ptr_eq) (auto simp: table_ok_def)
  moreover have "at S u = (at S t)(field x \<mapsto> p)"
    using idx.insert_new [OF t] u(1) assms(2) by (auto simp: table_at_def)
  ultimately show thesis using u assms(1,2) by (intro that [of u]) (auto simp: table_ok_def)
qed

text \<open>Objects change while they are in the table, and objects outside it come and go.\<close>

lemma update_at:
  assumes "S p = Some x" "field y = field x"
  shows "tok (S(p \<mapsto> y)) t = tok S t" "at (S(p \<mapsto> y)) t = at S t"
proof -
  have "map_option field ((S(p \<mapsto> y)) q) = map_option field (S q)" for q using assms by simp
  note same = this
  show "tok (S(p \<mapsto> y)) t = tok S t" by (rule table_cong(1)) (rule same)
  show "at (S(p \<mapsto> y)) t = at S t" by (rule table_cong(2)) (rule same)
qed

lemma outside_at:
  assumes "p \<notin> set (rb_inorder t)"
  shows "tok (S(p := v)) t = tok S t" "at (S(p := v)) t = at S t"
proof -
  have "map_option field ((S(p := v)) q) = map_option field (S q)" if "q \<in> set (rb_inorder t)" for q
    using that assms by auto
  note same = this
  show "tok (S(p := v)) t = tok S t" by (rule table_cong(1)) (rule same)
  show "at (S(p := v)) t = at S t" by (rule table_cong(2)) (rule same)
qed

lemma erase_at:
  assumes "tok S t" "at S t k = Some p"
  obtains u where "rb_erase p t = Some u" "tok (S(p := None)) u" "at (S(p := None)) u = (at S t)(k := None)"
    "set (rb_inorder u) = set (rb_inorder t) - {p}"
proof -
  have t: "index_ok cmp keys (node_key field dflt S) t" using assms(1) by (simp add: table_ok_def)
  have p: "p \<in> set (rb_inorder t)" "node_key field dflt S p = k" using assms by (simp_all add: at_Some)
  obtain u where u: "rb_erase p t = Some u" "index_ok cmp keys (node_key field dflt S) u"
    "rb_inorder u = remove1 p (rb_inorder t)"
    using t p(1) by (rule idx.erase_present)
  have in': "set (rb_inorder u) = set (rb_inorder t) - {p}"
    unfolding u(3) using idx.distinct_inorder [OF t] by (rule set_remove1_eq)
  then have "tok S u" using u(2) assms(1) by (auto simp: table_ok_def)
  moreover have "at S u = (at S t)(k := None)"
    using idx.erase_abs [OF t, of p] p u(1) idx.index_map_eq_Some [OF t] by (auto simp: table_at_def)
  moreover have "p \<notin> set (rb_inorder u)" using in' by simp
  ultimately show thesis using u(1) in' outside_at [of p u S None] by (intro that [of u]) simp_all
qed

end

end
