(* ===== verification/Forwarding.thy ===== *)
theory Forwarding
  imports Install Target_Props Store_Index TC_Codec_Props
begin

text \<open>
  From what the kernel tells of links, neighbours and routes to the rules the daemon asks it for:
  the forwarding rule of a target, and the rule of a route that leads to it.
\<close>

section \<open>A new request\<close>

definition new_rule :: "u32 \<Rightarrow> u16 \<Rightarrow> ptr \<Rightarrow> obj_rule" where
  "new_rule chain_no prio wn = \<lparr>oru_obj = zero_obj_core\<lparr>oc_kind := OBJ_KIND_RULE, oc_refcnt := 1\<rparr>,
     oru_type = OBJ_RULE_TYPE_NOT_SET, oru_state = OBJ_RULE_STATE_NEW, oru_chain_no = chain_no, oru_prio = prio,
     oru_have_laf = False, oru_have_pos = False, oru_target = None, oru_route = None, oru_have = None, oru_want = Some wn\<rparr>"

text \<open>The objects other than rules, and what else a request that is not yet queued leaves alone.\<close>

definition same_objs :: "world \<Rightarrow> world \<Rightarrow> bool" where
  "same_objs w w' \<longleftrightarrow> w_targets w' = w_targets w \<and> w_routes w' = w_routes w \<and> w_route_tree w' = w_route_tree w
     \<and> w_neighs w' = w_neighs w \<and> w_links w' = w_links w"

definition same_rest :: "world \<Rightarrow> world \<Rightarrow> bool" where
  "same_rest w w' \<longleftrightarrow> same_objs w w' \<and> same_net w w' \<and> w_scan w' = w_scan w \<and> w_pin_changes w' = w_pin_changes w
     \<and> w_tacb_hooks w' = w_tacb_hooks w"

lemma same_objs_refl [simp]: "same_objs w w"
  by (simp add: same_objs_def)

lemma can_send_rest: "same_rest w w' \<Longrightarrow> can_send w' = can_send w"
  by (simp add: can_send_def same_rest_def same_net_def)

lemma obj_rule_pos_insert_rest: "obj_rule_pos_insert p w = Some w' \<Longrightarrow> same_rest w w' \<and> w_chains w' = w_chains w
    \<and> w_laf_tree w' = w_laf_tree w \<and> w_tcrs w' = w_tcrs w"
  by (auto simp: obj_rule_pos_insert_def mod_rule_def same_rest_def same_objs_def same_net_def elim!: bind_SomeE split: if_splits)

lemma rules_ok_same:
  assumes "w_rules w' = w_rules w" "w_pos_tree w' = w_pos_tree w" "w_laf_tree w' = w_laf_tree w" "w_tcrs w' = w_tcrs w"
  shows "rules_ok w \<Longrightarrow> fresh_ok w' \<Longrightarrow> rules_ok w'" "table b w' = table b w" "rule_at w' = rule_at w"
    "obj_rule_laf_lookup tcr w' = obj_rule_laf_lookup tcr w"
proof -
  have eq: "rule_pos w' = rule_pos w" "slots w' = slots w" using assms(1) by (auto simp: rule_pos_def slots_def fun_eq_iff)
  then show at: "rule_at w' = rule_at w" by (simp add: rule_at_def assms)
  show "rules_ok w \<Longrightarrow> fresh_ok w' \<Longrightarrow> rules_ok w'" using eq assms by (simp add: rules_ok_def pos_ok_def laf_ok_def)
  show "table b w' = table b w" using eq at by (simp add: table_def [abs_def] assms)
  show "obj_rule_laf_lookup tcr w' = obj_rule_laf_lookup tcr w"
    by (simp add: obj_rule_laf_lookup_def obj_rule_have_tcr_def assms)
qed

text \<open>A rule that nothing was found for has no part in the lookups by content.\<close>

lemma new_rule_have:
  assumes ok: "rules_ok w" and r: "w_rules w' = (w_rules w)(w_next w \<mapsto> r)" "oru_have r = None"
    and t: "w_tcrs w' = (w_tcrs w)(Suc (w_next w) \<mapsto> tcr)"
  shows "obj_rule_have_tcr p w' = obj_rule_have_tcr p w"
proof -
  have fr: "fresh_ok w" and own: "owned (slots w) (w_tcrs w)" using ok by (simp_all add: rules_ok_def)
  have "h \<noteq> Suc (w_next w)" if "slots w (p, Have) = Some h" for h
    using that own fresh_okD(6) [OF fr, of "Suc (w_next w)"] unfolding owned_def by (metis le_Suc_eq order_refl)
  then show ?thesis
    using r t fresh_okD(5) [OF fr, of "w_next w"]
    by (cases "w_rules w p"; cases "oru_have (the (w_rules w p))") (auto simp: obj_rule_have_tcr_def slots_def)
qed

lemma prime_request_new:
  assumes ok: "rules_ok w" and laf: "obj_rule_laf_lookup tcr w = Some None"
    and place: "sched_place tcr w = Some (Some (no, prio), w\<lparr>w_chains := cs\<rparr>)" "no < 0x80000000" "rule_at w (no, prio) = None"
    and wf: "wf_tc_rule tcr"
  obtains w' where "obj_rule_prime_request tcr w = Some (Some (w_next w), w')" "rules_ok w'" "same_rest w w'" "w_chains w' = cs"
    "wanted w' = (wanted w)((no, prio) \<mapsto> tcr)" "present w' = present w"
    "rule_at w' = (rule_at w)((no, prio) \<mapsto> w_next w)"
    "w_rules w' = (w_rules w)(w_next w \<mapsto> (new_rule no prio (Suc (w_next w)))\<lparr>oru_have_pos := True\<rparr>)"
    "\<And>t. obj_rule_laf_lookup t w' = obj_rule_laf_lookup t w"
proof -
  let ?c = "w\<lparr>w_chains := cs\<rparr>" and ?r = "new_rule no prio (Suc (w_next w))"
  have same: "table b ?c = table b w" "rule_at ?c = rule_at w" for b by (rule rules_ok_same; simp)+
  have "fresh_ok ?c" using ok by (simp add: rules_ok_def fresh_ok_def)
  with ok have c: "rules_ok ?c" "rule_at ?c (no, prio) = None" using place(3) by (simp_all add: same rules_ok_same(1) [of ?c w])
  obtain w' where w': "obj_rule_pos_insert (w_next ?c) (with_rule ?r tcr ?c) = Some w'" "rules_ok w'"
    "wanted w' = (wanted ?c)((oru_chain_no ?r, oru_prio ?r) \<mapsto> tcr)" "\<And>c. c \<noteq> Want \<Longrightarrow> table c w' = table c ?c"
    "w_rules w' = (w_rules ?c)(w_next ?c \<mapsto> ?r\<lparr>oru_have_pos := True\<rparr>)"
    "rule_at w' = (rule_at ?c)((oru_chain_no ?r, oru_prio ?r) \<mapsto> w_next ?c)"
  proof (rule enter_rule [OF c(1), of ?r Want tcr])
    fix d show "d \<noteq> Want \<Longrightarrow> slot_of ?r d = None" by (cases d) (simp_all add: new_rule_def)
  qed (use place(2) c(2) wf in \<open>simp_all add: pos_keys_def new_rule_def\<close>)
  have rest: "same_rest w w' \<and> w_chains w' = cs" and laf': "w_laf_tree w' = w_laf_tree w" "w_tcrs w' = (w_tcrs w)(Suc (w_next w) \<mapsto> tcr)"
    using obj_rule_pos_insert_rest [OF w'(1)] by (simp_all add: same_rest_def same_objs_def same_net_def with_rule_def)
  have "obj_rule_have_tcr q w' = obj_rule_have_tcr q w" for q
    by (rule new_rule_have [where r = "?r\<lparr>oru_have_pos := True\<rparr>", OF ok _ _ laf'(2)]) (use w'(5) in \<open>simp_all add: new_rule_def\<close>)
  then have laf'': "obj_rule_laf_lookup t w' = obj_rule_laf_lookup t w" for t by (simp add: obj_rule_laf_lookup_def laf'(1))
  have "obj_rule_prime_request tcr w = Some (Some (w_next w), w')"
    using w'(1) laf place(1)
    by (simp add: obj_rule_prime_request_def obj_rule_alloc_def obj_rule_ref_def obj_assert_kind_def obj_ref_def new_tcr_def
        mod_rule_def with_rule_def new_rule_def zero_obj_core_def Let_def)
  with w' rest laf'' show thesis by (intro that [of w']) (simp_all add: same new_rule_def)
qed


text \<open>
  A rule that has just been placed is asked for, and nothing else changes: its request is sent at
  once, or put on the queue when the daemon waits for an answer.
\<close>

definition ready :: "world \<Rightarrow> bool" where
  "ready w \<longleftrightarrow> can_send w \<or> q_is_busy (w_queue w)"

definition asked :: "u32 \<Rightarrow> u16 \<Rightarrow> tc_rule \<Rightarrow> world \<Rightarrow> world \<Rightarrow> bool" where
  "asked chain_no prio tcr w w' \<longleftrightarrow> q_is_busy (w_queue w')
     \<and> length (q_items (w_queue w')) = Suc (length (q_items (w_queue w)))
     \<and> (\<exists>m. tc_encode_rule (w_config w) chain_no prio (Some tcr) NO_TCE_FLAGS = Some m
          \<and> w_sent w' = (if q_is_busy (w_queue w) then w_sent w
                          else w_sent w @ [(conn_seq (sc_conn (w_scan w)) + 1, Req_filter m)]))"

lemma asked_sent:
  assumes "can_send w" "asked c prio tcr w w'"
  obtains m where "tc_encode_rule (w_config w) c prio (Some tcr) NO_TCE_FLAGS = Some m"
    "w_sent w' = w_sent w @ [(conn_seq (sc_conn (w_scan w)) + 1, Req_filter m)]"
  using assms by (auto simp: asked_def can_send_def)

lemma asked_rest:
  assumes "w_queue u = w_queue w" "w_config u = w_config w" "w_sent u = w_sent w" "w_scan u = w_scan w"
    "w_queue v = w_queue v'" "w_sent v = w_sent v'"
  shows "asked c prio tcr u v = asked c prio tcr w v'"
  using assms by (simp add: asked_def)

text \<open>What requests leave alone, beside the tables.\<close>

definition same_frame :: "world \<Rightarrow> world \<Rightarrow> bool" where
  "same_frame w w' \<longleftrightarrow> w_pin_changes w' = w_pin_changes w \<and> w_config w' = w_config w
     \<and> (\<forall>t. obj_rule_laf_lookup t w' = obj_rule_laf_lookup t w)"

lemma wanted_rule_asked:
  assumes ok: "rules_ok w" and send: "ready w" "2 \<le> w_pin_changes w" and at: "rule_at w (no, prio) = Some q"
    and r: "w_rules w q = Some r" "oc_kind (oru_obj r) = OBJ_KIND_RULE" "oru_have r = None"
      "oru_state r \<noteq> OBJ_RULE_STATE_QUEUED" "oc_refcnt (oru_obj r) = 1" "oc_state (oru_obj r) = OBJ_STATE_PRESENT"
    and tcr: "wanted w (no, prio) = Some tcr" "encodable tcr"
  obtains w' st c where "obj_rule_update_state (calls (Suc n)) q w = Some w'" "asked no prio tcr w w'"
    "rules_ok w'" "\<And>b. table b w' = table b w" "rule_at w' = rule_at w" "same_objs w w'" "w_chains w' = w_chains w"
    "w_rules w' = (w_rules w)(q \<mapsto> r\<lparr>oru_state := st, oru_obj := c\<rparr>)" "same_frame w w'"
proof -
  have pos: "pos_ok w" and fr: "fresh_ok w" using ok by (simp_all add: rules_ok_def)
  have q: "q < w_next w" using fresh_okD(5) [OF fr, of q] r(1) by (cases "w_next w \<le> q") auto
  from pos have k: "(no, prio) = (oru_chain_no r, oru_prio r)" using rule_at_Some(2) [of w "(no, prio)" q] at r(1) by auto
  obtain wn where wn: "oru_want r = Some wn" "w_tcrs w wn = Some tcr"
    using tcr(1) at r(1) by (auto simp: table_def slots_def bind_eq_Some_conv)
  then have miss: "missing_rule q r tcr w" using r by (simp add: missing_rule_def)
  obtain m where m: "tc_encode_rule (w_config w) no prio (Some tcr) NO_TCE_FLAGS = Some m"
    using encodable_encodes [OF tcr(2)] by blast
  obtain w' st c where w': "obj_rule_update_state (calls (Suc n)) q w = Some w'" "asked no prio tcr w w'"
    "w_rules w' = (w_rules w)(q \<mapsto> r\<lparr>oru_state := st, oru_obj := c\<rparr>)" "w_pos_tree w' = w_pos_tree w" "w_laf_tree w' = w_laf_tree w"
    "w_tcrs w' = w_tcrs w" "w_chains w' = w_chains w" "same_objs w w'" "w_pin_changes w' = w_pin_changes w" "w_config w' = w_config w"
    "fresh_ok w'"
  proof (cases "q_is_busy (w_queue w)")
    case True
    let ?w = "queued_state q r (oru_want r) w"
    have "obj_rule_update_state (calls (Suc n)) q w = Some ?w"
      using update_state_missing [OF miss send(2)] ask_busy [OF True] by simp
    with True m fr r(1) q show thesis
      by (intro that [of ?w "obj_ref (oru_obj r)" OBJ_RULE_STATE_QUEUED])
        (simp_all add: queued_state_def asked_def same_objs_def fresh_ok_def)
  next
    case False
    with send(1) have cs: "can_send w" by (simp add: ready_def)
    let ?w = "pending_state q r (oru_want r) m w"
    have "obj_rule_update_state (calls (Suc n)) q w = Some ?w"
      by (rule update_state_sends [OF cs miss send(2)]) (use m k r in simp_all)
    moreover have "fresh_ok ?w" using fr r(1) by (auto simp: fresh_ok_def pending_state_def sent_state_def Let_def)
    moreover have "asked no prio tcr w ?w"
      using False m cs by (simp add: asked_def pending_state_def sent_state_def can_send_def Let_def)
    moreover have "same_objs w ?w" "w_chains ?w = w_chains w" by (simp_all add: pending_state_def sent_state_def same_objs_def Let_def)
    ultimately show thesis by (intro that [of ?w "oru_obj r" OBJ_RULE_STATE_PENDING]) simp_all
  qed
  have "obj_rule_have_tcr p w' = obj_rule_have_tcr p w" for p using r(1) w'(3,6) by (simp add: obj_rule_have_tcr_def)
  then have "same_frame w w'" using w'(5,9,10) by (simp add: same_frame_def obj_rule_laf_lookup_def)
  moreover note touch = rules_ok_touch [OF ok r(1), of "r\<lparr>oru_state := st, oru_obj := c\<rparr>" w']
  have "table b w' = table b w" "rule_at w' = rule_at w" "rules_ok w'" for b
    by (rule touch(2) touch(3); use w' in simp)+ (rule touch(1) [rotated -1]; use w' in simp)
  ultimately show thesis using w' by (intro that [of w' c st])
qed

section \<open>The forwarding rule of a target\<close>

text \<open>A target's first next hop is resolved when both link addresses and the VLAN are known.\<close>

definition resolved :: "obj_target \<Rightarrow> obj_neigh \<Rightarrow> obj_link \<Rightarrow> world \<Rightarrow> bool" where
  "resolved t n l w \<longleftrightarrow> (\<exists>np ns lp. ot_nexthop t = np # ns \<and> w_neighs w np = Some n \<and> on_link n = Some lp
     \<and> w_links w lp = Some l) \<and> ol_vlan_id l \<noteq> 0
     \<and> length (on_lladdr n) = 6 \<and> on_lladdr n \<noteq> replicate 6 0 \<and> length (ol_lladdr l) = 6 \<and> ol_lladdr l \<noteq> replicate 6 0"

text \<open>Packets of the neighbour's family are sent to its address from the link's, tagged with the link's VLAN.\<close>

definition forward_rule :: "config \<Rightarrow> obj_neigh \<Rightarrow> obj_link \<Rightarrow> tc_rule" where
  "forward_rule cfg n l = zero_tc_rule\<lparr>tcr_type := TC_RULE_TYPE_FORWARD, tcr_traits := type_traits TC_RULE_TYPE_FORWARD,
     tcr_flower_flags := cfg_flower_flags cfg, tcr_vlan_id := ol_vlan_id l, tcr_lladdr := on_lladdr n @ ol_lladdr l,
     tcr_af_addr := zero_af_addr\<lparr>aa_af := aa_af (on_addr n)\<rparr>\<rparr>"

lemma prepare_resolved:
  assumes "w_targets w p = Some t" "resolved t n l w"
  shows "obj_target_prepare_rule p w = Some (Some (forward_rule (w_config w) n l))"
  using assms
  by (auto simp: resolved_def obj_target_prepare_rule_def is_lladdr_zero_def tc_rule_set_type_and_traits_def
      tc_rule_set_type_def tc_rule_init_def forward_rule_def type_traits_values zero_tc_rule_def Let_def)

lemma forward_rule_ok:
  assumes "resolved t n l w" "aa_af (on_addr n) \<in> {AF_INET, AF_INET6}"
  shows "encodable (forward_rule cfg n l)" "wf_tc_rule (forward_rule cfg n l)" "tcr_type (forward_rule cfg n l) = TC_RULE_TYPE_FORWARD"
  using assms
  by (simp_all add: resolved_def forward_rule_def encodable_def family_only_def wf_tc_rule_def wf_af_addr_def
      zero_tc_rule_def zero_af_addr_def word_gt_0)

text \<open>C3. The daemon's purpose, first half: when the first route of a target is linked, or whenever the target is
  installed, and its next hop is resolved, the daemon asks the kernel for the target's forwarding
  rule. It picks a free chain from 5 on, reserves it, wants exactly the rule of the
  neighbour's and the link's addresses at its first priority, and sends the request encoded from it.
  (Nothing like it was found in the kernel, the daemon can send, and free chains hold no rules.)\<close>

theorem obj_target_install_sends:
  assumes ok: "rules_ok w" "chains_ok (w_chains w)" "can_send w" "2 \<le> w_pin_changes w"
    and chains: "\<forall>no\<in>dom (chain_map (w_chains w)). no < 0x7fffffff"
      "\<forall>no. 5 \<le> no \<and> chain_map (w_chains w) no = None \<longrightarrow> rule_at w (no, 1) = None"
    and t: "w_targets w p = Some t" "oc_kind (ot_obj t) = OBJ_KIND_TARGET" "ot_rule t = None" "resolved t n l w"
      "aa_af (on_addr n) \<in> {AF_INET, AF_INET6}"
    and laf: "obj_rule_laf_lookup (forward_rule (w_config w) n l) w = Some None"
  shows "\<exists>w' no q m. obj_target_install (calls (Suc k)) p w = Some w'
    \<and> 5 \<le> no \<and> chain_map (w_chains w) no = None
    \<and> chain_map (w_chains w') = (chain_map (w_chains w))(no \<mapsto> CHAIN_STATE_RESERVED)
    \<and> wanted w' = (wanted w)((no, 1) \<mapsto> forward_rule (w_config w) n l) \<and> present w' = present w
    \<and> map_option ot_rule (w_targets w' p) = Some (Some q) \<and> rule_at w' (no, 1) = Some q
    \<and> map_option oru_target (w_rules w' q) = Some (Some p)
    \<and> tc_encode_rule (w_config w) no 1 (Some (forward_rule (w_config w) n l)) NO_TCE_FLAGS = Some m
    \<and> w_sent w' = w_sent w @ [(conn_seq (sc_conn (w_scan w)) + 1, Req_filter m)]"
proof -
  let ?tcr = "forward_rule (w_config w) n l" and ?q = "w_next w"
  note fwd = forward_rule_ok [OF t(4,5), of "w_config w"]
  obtain no cs where no: "filter_find_available_chain_no 5 (w_chains w) = Some (no, cs)" "no < 0x80000000" "5 \<le> no"
    "chain_map (w_chains w) no = None" "chain_map cs = (chain_map (w_chains w))(no \<mapsto> CHAIN_STATE_RESERVED)"
    using available_chain [OF ok(2) chains(1), of 5] by auto
  have "sched_place ?tcr w = Some (Some (no, 1), w\<lparr>w_chains := cs\<rparr>)"
    using no(1) fwd(3) by (simp add: sched_place_def sched_basic_place_def)
  moreover have free: "rule_at w (no, 1) = None" using chains(2) no(3,4) by blast
  ultimately obtain v where v: "obj_rule_prime_request ?tcr w = Some (Some ?q, v)" "rules_ok v" "same_rest w v" "w_chains v = cs"
    "wanted v = (wanted w)((no, 1) \<mapsto> ?tcr)" "present v = present w" "rule_at v = (rule_at w)((no, 1) \<mapsto> ?q)"
    "w_rules v = (w_rules w)(?q \<mapsto> (new_rule no 1 (Suc ?q))\<lparr>oru_have_pos := True\<rparr>)"
    using no(2) by (elim prime_request_new [OF ok(1) laf]) (use fwd(2) in simp_all)
  let ?r = "(new_rule no 1 (Suc ?q))\<lparr>oru_have_pos := True, oru_target := Some p\<rparr>"
  let ?t = "t\<lparr>ot_rule := Some ?q, ot_obj := obj_weak_ref (ot_obj t)\<rparr>"
  let ?u = "v\<lparr>w_targets := (w_targets v)(p \<mapsto> ?t), w_rules := (w_rules v)(?q \<mapsto> ?r)\<rparr>"
  have tv: "w_targets v p = Some t" using v(3) t(1) by (simp add: same_rest_def same_objs_def)
  have "obj_target_install (calls (Suc k)) p w = obj_rule_update_state (calls (Suc k)) ?q ?u"
    using v(1,8) tv t
    by (simp add: obj_target_install_def prepare_resolved [OF t(1,4)] obj_target_set_rule_def mod_target_def
        obj_rule_set_target_def obj_assert_kind_def new_rule_def zero_obj_core_def obj_target_weak_ref_def
        mod_rule_def obj_rule_queue_request_def)
  note run = this
  have u: "w_rules v ?q = Some ((new_rule no 1 (Suc ?q))\<lparr>oru_have_pos := True\<rparr>)" using v(8) by simp
  note touch = rules_ok_touch [OF v(2) u(1), of ?r ?u]
  have "fresh_ok ?u" using v(2) tv u(1) by (auto simp: rules_ok_def fresh_ok_def)
  then have u_ok: "rules_ok ?u" by (rule touch(1) [rotated -1]) simp_all
  have u_tab: "table b ?u = table b v" "rule_at ?u = rule_at v" for b by (rule touch; simp)+
  have u_send: "can_send ?u" "2 \<le> w_pin_changes ?u" "w_config ?u = w_config w" "w_scan ?u = w_scan w" "w_sent ?u = w_sent w"
    using v(3) ok(3,4) by (simp_all add: can_send_def same_rest_def same_net_def)
  have u_r: "w_rules ?u ?q = Some ?r" by simp
  have u_rule: "oc_kind (oru_obj ?r) = OBJ_KIND_RULE" "oru_have ?r = None" "oru_state ?r \<noteq> OBJ_RULE_STATE_QUEUED"
    "oc_refcnt (oru_obj ?r) = 1" "oc_state (oru_obj ?r) = OBJ_STATE_PRESENT" by (simp_all add: new_rule_def zero_obj_core_def)
  have u_at: "rule_at ?u (no, 1) = Some ?q" "wanted ?u (no, 1) = Some ?tcr" unfolding u_tab using v by simp_all
  have u_ready: "ready ?u" using u_send(1) by (simp add: ready_def)
  obtain w' st c where up: "obj_rule_update_state (calls (Suc k)) ?q ?u = Some w'" "asked no 1 ?tcr ?u w'"
    "\<And>b. table b w' = table b ?u" "rule_at w' = rule_at ?u" "same_objs ?u w'" "w_chains w' = w_chains ?u"
    "w_rules w' = (w_rules ?u)(?q \<mapsto> ?r\<lparr>oru_state := st, oru_obj := c\<rparr>)"
    by (rule wanted_rule_asked [OF u_ok u_ready u_send(2) u_at(1) u_r u_rule u_at(2) fwd(1), of k]) blast
  obtain m where m: "tc_encode_rule (w_config ?u) no 1 (Some ?tcr) NO_TCE_FLAGS = Some m"
    "w_sent w' = w_sent ?u @ [(conn_seq (sc_conn (w_scan ?u)) + 1, Req_filter m)]"
    using u_send(1) up(2) by (rule asked_sent)
  note w' = up(1) m up(3-7)
  have fin: "wanted w' = (wanted w)((no, 1) \<mapsto> ?tcr)" "present w' = present w" "rule_at w' (no, 1) = Some ?q"
    unfolding w'(4,5) u_tab using v(5-7) by simp_all
  have "w_chains w' = cs" "w_targets w' p = Some ?t" "map_option oru_target (w_rules w' ?q) = Some (Some p)"
    "tc_encode_rule (w_config w) no 1 (Some ?tcr) NO_TCE_FLAGS = Some m"
    using w'(2,6-8) v(4) u_send(3) by (simp_all add: same_objs_def)
  with fin run w'(1,3) no(3-5) u_send(4,5) show ?thesis
    by (intro exI [of _ w'] exI [of _ no] exI [of _ ?q] exI [of _ m]) simp
qed

text \<open>C16. A target whose next hop is resolved too late never gets its rule: when the neighbour of a target
  without a rule becomes known, or changes, the target is told of it and nothing happens, although it could be
  installed now. Only the next route to be linked to the target has it installed.\<close>

theorem late_neighbour_ignored:
  assumes "w_targets w p = Some t" "oc_kind (ot_obj t) = OBJ_KIND_TARGET" "ot_rule t = None" "resolved t n l w"
  shows "obj_target_neigh_update K p w = Some w
    \<and> obj_target_install K p w = obj_target_set_rule K p (Some (forward_rule (w_config w) n l)) w"
  using assms
  by (simp add: obj_target_neigh_update_def obj_target_install_def prepare_resolved [OF assms(1,4)] obj_assert_kind_def)

section \<open>The rule of a route\<close>

text \<open>Packets to the route's destination go on in the chain of the target's rule.\<close>

definition route_rule :: "config \<Rightarrow> af_addr \<Rightarrow> u32 \<Rightarrow> tc_rule" where
  "route_rule cfg dst chain_no = zero_tc_rule\<lparr>tcr_type := TC_RULE_TYPE_ROUTE_GOTO, tcr_traits := type_traits TC_RULE_TYPE_ROUTE_GOTO,
     tcr_flower_flags := cfg_flower_flags cfg, tcr_af_addr := dst, tcr_goto_target := chain_no\<rparr>"

lemma prepare_route:
  assumes "w_rules w rp = Some ru" "oru_state ru = OBJ_RULE_STATE_OK"
  shows "obj_route_prepare_rule r (Some rp) w = Some (route_rule (w_config w) (or_dst r) (oru_chain_no ru))"
  using assms
  by (simp add: obj_route_prepare_rule_def tc_rule_set_type_and_traits_def tc_rule_set_type_def tc_rule_init_def
      route_rule_def type_traits_values zero_tc_rule_def Let_def)

lemma route_rule_ok:
  assumes "prefix_ok dst" "chain_no \<le> TC_ACT_EXT_VAL_MASK"
  shows "encodable (route_rule cfg dst chain_no)" "wf_tc_rule (route_rule cfg dst chain_no)"
    "tcr_type (route_rule cfg dst chain_no) = TC_RULE_TYPE_ROUTE_GOTO" "tcr_af_addr (route_rule cfg dst chain_no) = dst"
  using assms
  by (auto simp: prefix_ok_def route_rule_def encodable_def wf_tc_rule_def zero_tc_rule_def)

lemma af_chain_small: "get_af_chain f = Some c \<Longrightarrow> c < 0x80000000"
  by (auto simp: get_af_chain_def split: if_splits)

text \<open>A route whose target's rule is in the kernel, and that has no rule of its own yet.\<close>

definition installable :: "ptr \<Rightarrow> obj_route \<Rightarrow> ptr \<Rightarrow> obj_rule \<Rightarrow> world \<Rightarrow> bool" where
  "installable p r rp ru w \<longleftrightarrow> w_routes w p = Some r \<and> oc_kind (or_obj r) = OBJ_KIND_ROUTE \<and> or_rule r = None
     \<and> (\<exists>tp t. or_target r = Some tp \<and> w_targets w tp = Some t \<and> ot_rule t = Some rp)
     \<and> w_rules w rp = Some ru \<and> oc_kind (oru_obj ru) = OBJ_KIND_RULE \<and> oru_state ru = OBJ_RULE_STATE_OK"

text \<open>A request for a rule that has a place.\<close>

lemma request_asked:
  assumes ok: "rules_ok w" "ready w" "2 \<le> w_pin_changes w" and laf: "obj_rule_laf_lookup tcr w = Some None"
    and place: "sched_place tcr w = Some (Some (no, prio), w\<lparr>w_chains := cs\<rparr>)" "no < 0x80000000" "rule_at w (no, prio) = None"
    and tcr: "encodable tcr" "wf_tc_rule tcr"
  obtains w' where "obj_rule_request (calls (Suc k)) tcr w = Some (Some (w_next w), w')" "rules_ok w'"
    "wanted w' = (wanted w)((no, prio) \<mapsto> tcr)" "present w' = present w" "rule_at w' = (rule_at w)((no, prio) \<mapsto> w_next w)" "same_objs w w'"
    "asked no prio tcr w w'" "same_frame w w'" "\<And>p. p \<noteq> w_next w \<Longrightarrow> w_rules w' p = w_rules w p"
proof -
  from prime_request_new [OF ok(1) laf place tcr(2)]
  obtain u where u: "obj_rule_prime_request tcr w = Some (Some (w_next w), u)" "rules_ok u" "same_rest w u"
    "wanted u = (wanted w)((no, prio) \<mapsto> tcr)" "present u = present w" "rule_at u = (rule_at w)((no, prio) \<mapsto> w_next w)"
    "w_rules u = (w_rules w)(w_next w \<mapsto> (new_rule no prio (Suc (w_next w)))\<lparr>oru_have_pos := True\<rparr>)"
    "\<And>t. obj_rule_laf_lookup t u = obj_rule_laf_lookup t w" by metis
  let ?r = "(new_rule no prio (Suc (w_next w)))\<lparr>oru_have_pos := True\<rparr>"
  have rule: "w_rules u (w_next w) = Some ?r" "oc_kind (oru_obj ?r) = OBJ_KIND_RULE" "oru_have ?r = None"
    "oru_state ?r \<noteq> OBJ_RULE_STATE_QUEUED" "oc_refcnt (oru_obj ?r) = 1" "oc_state (oru_obj ?r) = OBJ_STATE_PRESENT"
    using u(7) by (simp_all add: new_rule_def zero_obj_core_def)
  have at: "rule_at u (no, prio) = Some (w_next w)" "wanted u (no, prio) = Some tcr" using u(4,6) by simp_all
  have net: "ready u" "2 \<le> w_pin_changes u" "w_config u = w_config w" "w_scan u = w_scan w" "w_sent u = w_sent w" "w_queue u = w_queue w"
    "w_pin_changes u = w_pin_changes w"
    using u(3) ok(2,3) by (simp_all add: ready_def can_send_def same_rest_def same_net_def)
  obtain x st c where x: "obj_rule_update_state (calls (Suc k)) (w_next w) u = Some x" "asked no prio tcr u x" "rules_ok x"
    "\<And>b. table b x = table b u" "rule_at x = rule_at u" "same_objs u x"
    "w_rules x = (w_rules u)(w_next w \<mapsto> ?r\<lparr>oru_state := st, oru_obj := c\<rparr>)" "same_frame u x"
    by (rule wanted_rule_asked [OF u(2) net(1,2) at(1) rule at(2) tcr(1), of k]) blast
  have "asked no prio tcr w x" using x(2) asked_rest [OF net(6,3,5,4), of x x] by simp
  moreover have "same_frame w x" using x(8) net(3,7) u(8) by (simp add: same_frame_def)
  ultimately show thesis
    by (rule_tac that [of x]) (use u x in \<open>simp_all add: obj_rule_request_def obj_rule_queue_request_def same_rest_def same_objs_def\<close>)
qed

lemma goto_place:
  assumes ok: "rules_ok w" and c: "get_af_chain (aa_af (tcr_af_addr tcr)) = Some c" and t: "tcr_type tcr = TC_RULE_TYPE_ROUTE_GOTO"
    and last: "\<forall>prio q. rule_at w (c, prio) = Some q \<longrightarrow> prio < 65535"
  obtains prio where "sched_place tcr w = Some (Some (c, prio), w\<lparr>w_chains := w_chains w\<rparr>)" "c < 0x80000000" "100 \<le> prio"
    "rule_at w (c, prio) = None"
    "\<And>b. b < 65536 \<Longrightarrow> 100 \<le> b \<Longrightarrow> (\<And>q. rule_at w (c, q) \<noteq> None \<Longrightarrow> unat q < b) \<Longrightarrow> unat prio \<le> b"
proof -
  have small: "c < 0x80000000" using c by (rule af_chain_small)
  have pos: "pos_ok w" using ok by (simp add: rules_ok_def)
  from available_prio_fresh [OF this small last, of 100]
  obtain prio where prio: "obj_rule_find_available_prio c 100 w = Some prio" "100 \<le> prio" "rule_at w (c, prio) = None" by blast
  have "unat prio \<le> b" if "b < 65536" "100 \<le> b" "\<And>q. rule_at w (c, q) \<noteq> None \<Longrightarrow> unat q < b" for b
    using available_prio_bound [OF pos _ _ that(1) prio(1)] that(2,3) by simp
  with prio c t small show thesis by (intro that [of prio]) (simp_all add: sched_place_def sched_basic_place_def)
qed

text \<open>What the routes of a target rely on in the target's rule.\<close>

definition rule_view :: "world \<Rightarrow> ptr \<Rightarrow> (obj_kind \<times> obj_rule_state \<times> u32) option" where
  "rule_view w p = map_option (\<lambda>ru. (oc_kind (oru_obj ru), oru_state ru, oru_chain_no ru)) (w_rules w p)"

lemma route_install_asked:
  assumes ok: "rules_ok w" "ready w" "2 \<le> w_pin_changes w" and inst: "installable p r rp ru w"
    and dst: "prefix_ok (or_dst r)" "oru_chain_no ru \<le> TC_ACT_EXT_VAL_MASK" "get_af_chain (aa_af (or_dst r)) = Some c"
    and last: "\<forall>prio q. rule_at w (c, prio) = Some q \<longrightarrow> prio < 65535"
    and laf: "obj_rule_laf_lookup (route_rule (w_config w) (or_dst r) (oru_chain_no ru)) w = Some None"
  obtains w' prio q where "obj_route_install (calls (Suc k)) p w = Some w'" "100 \<le> prio" "rule_at w (c, prio) = None"
    "\<And>b. b < 65536 \<Longrightarrow> 100 \<le> b \<Longrightarrow> (\<And>q. rule_at w (c, q) \<noteq> None \<Longrightarrow> unat q < b) \<Longrightarrow> unat prio \<le> b"
    "wanted w' = (wanted w)((c, prio) \<mapsto> route_rule (w_config w) (or_dst r) (oru_chain_no ru))" "present w' = present w"
    "rule_at w' = (rule_at w)((c, prio) \<mapsto> q)" "w_routes w' = (w_routes w)(p \<mapsto> r\<lparr>or_target_rule := Some rp, or_rule := Some q\<rparr>)"
    "w_route_tree w' = w_route_tree w" "asked c prio (route_rule (w_config w) (or_dst r) (oru_chain_no ru)) w w'"
    "rules_ok w'" "same_frame w w'" "w_targets w' = w_targets w" "rule_view w' rp = rule_view w rp"
proof -
  let ?tcr = "route_rule (w_config w) (or_dst r) (oru_chain_no ru)" and ?ru = "ru\<lparr>oru_obj := obj_ref (oru_obj ru)\<rparr>"
  note rr = route_rule_ok [OF dst(1,2), of "w_config w"]
  obtain tp t where t: "or_target r = Some tp" "w_targets w tp = Some t" "ot_rule t = Some rp"
    using inst by (auto simp: installable_def)
  have r: "w_routes w p = Some r" "oc_kind (or_obj r) = OBJ_KIND_ROUTE" "or_rule r = None" "w_rules w rp = Some ru"
    "oc_kind (oru_obj ru) = OBJ_KIND_RULE" "oru_state ru = OBJ_RULE_STATE_OK" using inst by (simp_all add: installable_def)
  let ?v = "w\<lparr>w_rules := (w_rules w)(rp \<mapsto> ?ru), w_routes := (w_routes w)(p \<mapsto> r\<lparr>or_target_rule := Some rp\<rparr>)\<rparr>"
  note touch = rules_ok_touch [OF ok(1) r(4), of ?ru ?v]
  have fr: "fresh_ok w" "fresh_ok ?v" using ok(1) r(1,4) by (auto simp: rules_ok_def fresh_ok_def)
  then have v_ok: "rules_ok ?v" by (elim touch(1) [rotated -1]) simp_all
  have v_tab: "table b ?v = table b w" "rule_at ?v = rule_at w" for b by (rule touch; simp)+
  have "obj_rule_have_tcr x ?v = obj_rule_have_tcr x w" for x using r(4) by (simp add: obj_rule_have_tcr_def)
  then have v_laf: "obj_rule_laf_lookup t ?v = obj_rule_laf_lookup t w" for t by (simp add: obj_rule_laf_lookup_def)
  then have v_new: "obj_rule_laf_lookup ?tcr ?v = Some None" using laf by simp
  have v_net: "ready ?v" "2 \<le> w_pin_changes ?v" using ok(2,3) by (simp_all add: ready_def can_send_def)
  obtain prio where prio: "sched_place ?tcr ?v = Some (Some (c, prio), ?v\<lparr>w_chains := w_chains ?v\<rparr>)" "c < 0x80000000" "100 \<le> prio"
    "rule_at ?v (c, prio) = None"
    "\<And>b. b < 65536 \<Longrightarrow> 100 \<le> b \<Longrightarrow> (\<And>q. rule_at ?v (c, q) \<noteq> None \<Longrightarrow> unat q < b) \<Longrightarrow> unat prio \<le> b"
    by (rule goto_place [OF v_ok, of ?tcr c]) (use dst(3) last in \<open>simp_all add: rr v_tab\<close>)
  obtain x where x: "obj_rule_request (calls (Suc k)) ?tcr ?v = Some (Some (w_next ?v), x)" "rules_ok x"
    "wanted x = (wanted ?v)((c, prio) \<mapsto> ?tcr)" "present x = present ?v" "rule_at x = (rule_at ?v)((c, prio) \<mapsto> w_next ?v)" "same_objs ?v x"
    "asked c prio ?tcr ?v x" "same_frame ?v x" "\<And>p. p \<noteq> w_next ?v \<Longrightarrow> w_rules x p = w_rules ?v p"
    by (rule request_asked [OF v_ok v_net v_new prio(1,2,4) rr(1,2), of k]) (rule that; assumption)
  let ?q = "w_next w"
  let ?w = "x\<lparr>w_routes := (w_routes w)(p \<mapsto> r\<lparr>or_target_rule := Some rp, or_rule := Some ?q\<rparr>)\<rparr>"
  have xr: "w_routes x = w_routes ?v" using x(6) by (simp add: same_objs_def)
  moreover have "obj_rule_ref_opt (Some rp) w = Some (w\<lparr>w_rules := (w_rules w)(rp \<mapsto> ?ru)\<rparr>)"
    using r by (simp add: obj_rule_ref_opt_def obj_rule_ref_def obj_assert_kind_def mod_rule_def)
  ultimately have run: "obj_route_install (calls (Suc k)) p w = Some ?w"
    using r t x(1) by (simp add: obj_route_install_def obj_assert_kind_def prepare_route mod_route_def)
  note same = rules_ok_same [of ?w x]
  have w_tab: "rule_at ?w = rule_at x" "table b ?w = table b x" "obj_rule_laf_lookup t ?w = obj_rule_laf_lookup t x" for b t by (rule same; simp)+
  have "fresh_ok x" using x(2) by (simp add: rules_ok_def)
  then have "\<forall>y\<ge>w_next x. w_routes x y = None" by (simp add: fresh_ok_def)
  then have "\<forall>y\<ge>w_next x. ((w_routes w)(p \<mapsto> r\<lparr>or_target_rule := Some rp, or_rule := Some ?q\<rparr>)) y = None"
    unfolding xr by (auto split: if_splits)
  with \<open>fresh_ok x\<close> have "fresh_ok ?w" by (simp add: fresh_ok_def)
  with x(2) have w_ok: "rules_ok ?w" by (rule same(1) [rotated -2]) simp_all
  have "rp \<noteq> ?q" using fresh_okD(5) [OF fr(1), of ?q] r(4) by auto
  then have view: "rule_view ?w rp = rule_view w rp" using x(9) [of rp] r(4) by (simp add: rule_view_def obj_ref_def)
  have "asked c prio ?tcr ?v x = asked c prio ?tcr w ?w" by (rule asked_rest) simp_all
  with x(7) have asked: "asked c prio ?tcr w ?w" by blast
  have frame: "same_frame w ?w" using x(8) by (simp add: same_frame_def w_tab v_laf)
  show thesis
    by (rule that [OF run prio(3), of ?q]) (use prio(4,5) x w_ok asked frame view in \<open>simp_all add: v_tab w_tab same_objs_def\<close>)
qed

section \<open>The table of routes\<close>

interpretation bytes20: key_order memcmp "{bs. length bs = 20}"
  by (rule memcmp_key_order)

interpretation addr_order: key_order af_addr_cmp "Collect wf_af_addr"
proof
  fix k l m assume kl: "k \<in> Collect wf_af_addr" "l \<in> Collect wf_af_addr"
  then have b: "af_addr_bytes k \<in> {bs. length bs = 20}" "af_addr_bytes l \<in> {bs. length bs = 20}"
    by (simp_all add: length_af_addr_bytes)
  show "af_addr_cmp k l = 0 \<longleftrightarrow> k = l"
    using bytes20.cmp_eq [OF b] kl by (simp add: af_addr_cmp_def af_addr_bytes_inject)
  show "af_addr_cmp k l < 0 \<longleftrightarrow> af_addr_cmp l k > 0"
    using bytes20.cmp_flip [OF b] by (simp add: af_addr_cmp_def)
  assume "m \<in> Collect wf_af_addr" "af_addr_cmp k l < 0" "af_addr_cmp l m < 0"
  then show "af_addr_cmp k m < 0"
    using bytes20.cmp_trans [OF b, of "af_addr_bytes m"] by (simp add: af_addr_cmp_def length_af_addr_bytes)
qed

interpretation routes: store_index af_addr_cmp "Collect wf_af_addr" or_dst zero_af_addr ..

abbreviation routes_ok :: "world \<Rightarrow> bool" where
  "routes_ok w \<equiv> table_ok af_addr_cmp (Collect wf_af_addr) or_dst zero_af_addr (w_routes w) (w_route_tree w)"

definition route_at :: "world \<Rightarrow> af_addr \<rightharpoonup> ptr" where
  "route_at w = table_at or_dst zero_af_addr (w_routes w) (w_route_tree w)"

lemma obj_route_lookup_eq: "routes_ok w \<Longrightarrow> wf_af_addr dst \<Longrightarrow> obj_route_lookup dst w = Some (route_at w dst)"
  by (simp add: obj_route_lookup_def route_at_def routes.lookup_at)

text \<open>Linking a route that has no target to one with a rule.\<close>

lemma link_route:
  assumes t: "w_targets w tp = Some t" "oc_kind (ot_obj t) = OBJ_KIND_TARGET" "ot_rule t \<noteq> None"
    and last: "\<forall>lr. ot_last_route t = Some lr \<longrightarrow> w_routes w lr \<noteq> None"
    and r: "w_routes w p = Some r" "oc_kind (or_obj r) = OBJ_KIND_ROUTE" "or_target r = None"
  obtains T R t' r' where "obj_target_link_route K tp p w = Some (w\<lparr>w_targets := T, w_routes := R\<rparr>)"
    "T tp = Some t'" "ot_rule t' = ot_rule t" "\<And>x. T x = None \<longleftrightarrow> w_targets w x = None"
    "R p = Some r'" "or_target r' = Some tp" "or_rule r' = or_rule r" "oc_kind (or_obj r') = OBJ_KIND_ROUTE"
    "\<And>x. map_option or_dst (R x) = map_option or_dst (w_routes w x)"
proof -
  let ?r = "r\<lparr>or_target := Some tp, or_obj := obj_ref (or_obj r)\<rparr>" and ?t = "t\<lparr>ot_obj := obj_weak_ref (ot_obj t), ot_last_route := Some p\<rparr>"
    and ?t1 = "t\<lparr>ot_obj := obj_weak_ref (ot_obj t), ot_first_route := Some p, ot_last_route := Some p\<rparr>"
  have kind: "oc_kind (obj_ref (or_obj r)) = OBJ_KIND_ROUTE" using r(2) by (simp add: obj_ref_def)
  note defs = obj_target_link_route_def obj_assert_kind_def obj_target_weak_ref_def mod_target_def mod_route_def obj_route_ref_def
  show thesis
  proof (cases "ot_last_route t")
    case None
    have "obj_target_link_route K tp p w = Some (w\<lparr>w_targets := (w_targets w)(tp \<mapsto> ?t1), w_routes := (w_routes w)(p \<mapsto> ?r)\<rparr>)"
      using t r None by (auto simp: defs)
    then show thesis using t r kind by (intro that [of "(w_routes w)(p \<mapsto> ?r)" "(w_targets w)(tp \<mapsto> ?t1)" ?t1 ?r]) auto
  next
    case (Some lr)
    with last obtain l where l: "w_routes w lr = Some l" by auto
    let ?R = "(w_routes w)(p \<mapsto> ?r)"
    let ?R' = "?R(lr \<mapsto> (the (?R lr))\<lparr>or_t_next_route := Some p\<rparr>)"
    have "obj_target_link_route K tp p w = Some (w\<lparr>w_targets := (w_targets w)(tp \<mapsto> ?t), w_routes := ?R'\<rparr>)"
      using t r Some l by (auto simp: defs intro: world.equality)
    then show thesis using t r l kind by (intro that [of ?R' "(w_targets w)(tp \<mapsto> ?t)" ?t "the (?R' p)"]) auto
  qed
qed

lemma route_enter:
  assumes ok: "routes_ok w" and new: "w_routes w p = None" "route_at w dst = None" "wf_af_addr dst"
    and v: "w_route_tree v = w_route_tree w" "\<And>x. x \<noteq> p \<Longrightarrow> map_option or_dst (w_routes v x) = map_option or_dst (w_routes w x)"
      "w_routes v p = Some r" "or_dst r = dst" "oc_kind (or_obj r) = OBJ_KIND_ROUTE"
  obtains u where "obj_route_new p v = Some (v\<lparr>w_routes := (w_routes v)(p \<mapsto> r\<lparr>or_obj := (or_obj r)\<lparr>oc_state := OBJ_STATE_INSTALLED\<rparr>\<rparr>),
      w_route_tree := u\<rparr>)"
    "table_at or_dst zero_af_addr ((w_routes v)(p \<mapsto> r\<lparr>or_obj := (or_obj r)\<lparr>oc_state := OBJ_STATE_INSTALLED\<rparr>\<rparr>)) u = (route_at w)(dst \<mapsto> p)"
proof -
  let ?r = "r\<lparr>or_obj := (or_obj r)\<lparr>oc_state := OBJ_STATE_INSTALLED\<rparr>\<rparr>" and ?tree = "w_route_tree w"
  let ?R = "(w_routes v)(p \<mapsto> ?r)"
  have same: "map_option or_dst (w_routes w x) = map_option or_dst (?R x)" if "x \<in> set (rb_inorder ?tree)" for x
    using that ok new(1) v(2) by (cases "x = p") (auto simp: table_ok_def)
  note cong = table_cong [of ?tree or_dst "w_routes w" ?R, OF same]
  have "table_ok af_addr_cmp (Collect wf_af_addr) or_dst zero_af_addr ?R ?tree" using ok cong(1) by blast
  moreover have at: "table_at or_dst zero_af_addr ?R ?tree = route_at w" using cong(2) by (metis route_at_def)
  have "?R p = Some ?r" "or_dst ?r \<in> Collect wf_af_addr" "table_at or_dst zero_af_addr ?R ?tree (or_dst ?r) = None"
    using at new(2,3) v(4) by simp_all
  ultimately obtain u where u: "rb_insert_ptr (\<lambda>this. do { q \<leftarrow> ?R this; Some (af_addr_cmp (or_dst ?r) (or_dst q)) }) p ?tree = Some (u, True)"
    "table_at or_dst zero_af_addr ?R u = (table_at or_dst zero_af_addr ?R ?tree)(or_dst ?r \<mapsto> p)"
    by (blast elim: routes.insert_at)
  then show thesis
    using v at by (intro that [of u]) (simp_all add: obj_route_new_def obj_route_insert_def mod_route_def obj_assert_kind_def)
qed

text \<open>A new route before its rule is asked for: allocated and linked to its target.\<close>

lemma new_route_linked:
  assumes ok: "rules_ok w"
    and t: "w_targets w tp = Some t" "oc_kind (ot_obj t) = OBJ_KIND_TARGET" "ot_rule t = Some rp"
      "\<forall>lr. ot_last_route t = Some lr \<longrightarrow> w_routes w lr \<noteq> None"
    and ru: "w_rules w rp = Some ru" "oc_kind (oru_obj ru) = OBJ_KIND_RULE" "oru_state ru = OBJ_RULE_STATE_OK"
  obtains w1 v t' r where "obj_route_alloc dst w = (w_next w, w1)"
    "map_option or_target (w_routes w1 (w_next w)) = Some None"
    "obj_target_link_route K tp (w_next w) w1 = Some v" "w_targets v tp = Some t'" "ot_rule t' = Some rp"
    "installable (w_next w) r rp ru v" "or_dst r = dst" "or_target r = Some tp"
    "\<And>x. x \<noteq> w_next w \<Longrightarrow> map_option or_dst (w_routes v x) = map_option or_dst (w_routes w x)"
    "rules_ok v" "\<And>b. table b v = table b w" "rule_at v = rule_at w" "\<And>tcr. obj_rule_laf_lookup tcr v = obj_rule_laf_lookup tcr w"
    "can_send v = can_send w" "w_pin_changes v = w_pin_changes w" "w_config v = w_config w" "w_scan v = w_scan w" "w_sent v = w_sent w"
    "w_route_tree v = w_route_tree w"
proof -
  let ?p = "w_next w"
  obtain w1 where w1: "obj_route_alloc dst w = (?p, w1)" by (simp add: obj_route_alloc_def Let_def)
  let ?r0 = "\<lparr>or_obj = zero_obj_core\<lparr>oc_kind := OBJ_KIND_ROUTE\<rparr>, or_dst = dst, or_target = None, or_t_next_route = None,
    or_target_rule = None, or_rule = None\<rparr>"
  have sel: "w_routes w1 = (w_routes w)(?p \<mapsto> ?r0)" "w_targets w1 = w_targets w" "w_rules w1 = w_rules w" "w_pos_tree w1 = w_pos_tree w"
    "w_laf_tree w1 = w_laf_tree w" "w_tcrs w1 = w_tcrs w" "w_next w1 = Suc ?p" "w_route_tree w1 = w_route_tree w"
    "w_config w1 = w_config w" "w_scan w1 = w_scan w" "w_sent w1 = w_sent w" "w_pin_changes w1 = w_pin_changes w" "can_send w1 = can_send w"
    using w1 by (auto simp: obj_route_alloc_def Let_def can_send_def)
  have last1: "\<forall>lr. ot_last_route t = Some lr \<longrightarrow> w_routes w1 lr \<noteq> None" using t(4) by (simp add: sel)
  obtain T R t' r' where link: "obj_target_link_route K tp ?p w1 = Some (w1\<lparr>w_targets := T, w_routes := R\<rparr>)"
    "T tp = Some t'" "ot_rule t' = ot_rule t" "\<And>x. T x = None \<longleftrightarrow> w_targets w1 x = None"
    "R ?p = Some r'" "or_target r' = Some tp" "or_rule r' = or_rule ?r0" "oc_kind (or_obj r') = OBJ_KIND_ROUTE"
    "\<And>x. map_option or_dst (R x) = map_option or_dst (w_routes w1 x)"
    by (rule link_route [of w1 tp t ?p ?r0 K]) (use t last1 in \<open>simp_all add: sel\<close>)
  let ?w = "w1\<lparr>w_targets := T, w_routes := R\<rparr>"
  have "fresh_ok w1" using ok w1 by (auto simp: rules_ok_def fresh_ok_def obj_route_alloc_def Let_def)
  moreover have "R x = None" if "x \<ge> Suc ?p" for x
    using link(9) [of x] ok that by (auto simp: sel rules_ok_def fresh_ok_def)
  ultimately have fr: "fresh_ok ?w" using link(4) by (simp add: fresh_ok_def sel)
  note same = rules_ok_same [of ?w w]
  have "rules_ok ?w" using ok fr by (rule same(1) [rotated -2]) (simp_all add: sel)
  moreover have "table b ?w = table b w" "rule_at ?w = rule_at w" "obj_rule_laf_lookup tcr ?w = obj_rule_laf_lookup tcr w" for b tcr
    by (rule same; simp add: sel)+
  moreover have "installable ?p r' rp ru ?w" using t link ru by (simp add: installable_def sel)
  moreover have "can_send ?w = can_send w" using sel(13) by (simp add: can_send_def)
  moreover have "or_dst r' = dst" using link(9) [of ?p] link(5) by (simp add: sel)
  ultimately show thesis using w1 link t(3) by (intro that [of w1 ?w t' r']) (simp_all add: sel)
qed

text \<open>C4. The daemon's purpose, second half: when the kernel reports a new route to a target whose forwarding rule is
  in the kernel, the daemon enters the route in its table and asks for the route's rule: in the chain of its
  address family, at a free priority from 100 on, packets for the destination are sent on to the chain
  of the target's rule. The route remembers both rules. (Nothing like its rule was found in the
  kernel, the daemon can send, and the chain's last priority is free.)\<close>

theorem route_netlink_update_sends:
  assumes ok: "rules_ok w" "routes_ok w" "can_send w" "2 \<le> w_pin_changes w"
    and t: "w_targets w tp = Some t" "oc_kind (ot_obj t) = OBJ_KIND_TARGET" "ot_rule t = Some rp"
      "\<forall>lr. ot_last_route t = Some lr \<longrightarrow> w_routes w lr \<noteq> None"
    and ru: "w_rules w rp = Some ru" "oc_kind (oru_obj ru) = OBJ_KIND_RULE" "oru_state ru = OBJ_RULE_STATE_OK"
      "oru_chain_no ru \<le> TC_ACT_EXT_VAL_MASK"
    and dst: "prefix_ok dst" "get_af_chain (aa_af dst) = Some c" "route_at w dst = None"
    and last: "\<forall>prio q. rule_at w (c, prio) = Some q \<longrightarrow> prio < 65535"
    and laf: "obj_rule_laf_lookup (route_rule (w_config w) dst (oru_chain_no ru)) w = Some None"
  shows "\<exists>w' p r prio q m. obj_route_netlink_update (calls (Suc k)) RTM_NEWROUTE tp dst w = Some w'
    \<and> route_at w' = (route_at w)(dst \<mapsto> p) \<and> w_routes w' p = Some r \<and> oc_state (or_obj r) = OBJ_STATE_INSTALLED
    \<and> or_target r = Some tp \<and> or_target_rule r = Some rp \<and> or_rule r = Some q \<and> rule_at w' (c, prio) = Some q
    \<and> 100 \<le> prio \<and> rule_at w (c, prio) = None \<and> present w' = present w
    \<and> wanted w' = (wanted w)((c, prio) \<mapsto> route_rule (w_config w) dst (oru_chain_no ru))
    \<and> tc_encode_rule (w_config w) c prio (Some (route_rule (w_config w) dst (oru_chain_no ru))) NO_TCE_FLAGS = Some m
    \<and> w_sent w' = w_sent w @ [(conn_seq (sc_conn (w_scan w)) + 1, Req_filter m)]"
proof -
  let ?p = "w_next w" and ?tcr = "route_rule (w_config w) dst (oru_chain_no ru)"
  have dst': "wf_af_addr dst" using dst(1) by (auto simp: prefix_ok_def)
  have fresh: "w_routes w ?p = None" using ok(1) by (auto simp: rules_ok_def fresh_ok_def)
  obtain w1 v t' r where new: "obj_route_alloc dst w = (?p, w1)" "map_option or_target (w_routes w1 ?p) = Some None"
    "obj_target_link_route (calls (Suc k)) tp ?p w1 = Some v" "w_targets v tp = Some t'" "ot_rule t' = Some rp"
    and r: "installable ?p r rp ru v" "or_dst r = dst" "or_target r = Some tp"
      "\<And>x. x \<noteq> ?p \<Longrightarrow> map_option or_dst (w_routes v x) = map_option or_dst (w_routes w x)"
    and v_ok: "rules_ok v" and tab: "\<And>b. table b v = table b w" "rule_at v = rule_at w" "\<And>tcr. obj_rule_laf_lookup tcr v = obj_rule_laf_lookup tcr w"
    and net: "can_send v = can_send w" "w_pin_changes v = w_pin_changes w" "w_config v = w_config w" "w_scan v = w_scan w" "w_sent v = w_sent w"
      "w_route_tree v = w_route_tree w"
    using new_route_linked [OF ok(1) t ru(1-3), of dst "calls (Suc k)"] by metis
  have v_send: "can_send v" using ok(3) by (simp add: net)
  obtain x prio q where i: "obj_route_install (calls (Suc k)) ?p v = Some x" "100 \<le> prio" "rule_at v (c, prio) = None"
    "wanted x = (wanted v)((c, prio) \<mapsto> ?tcr)" "present x = present v" "rule_at x = (rule_at v)((c, prio) \<mapsto> q)"
    "w_routes x = (w_routes v)(?p \<mapsto> r\<lparr>or_target_rule := Some rp, or_rule := Some q\<rparr>)" "w_route_tree x = w_route_tree v"
    "asked c prio ?tcr v x"
    by (rule route_install_asked [OF v_ok _ _ r(1), of c k]) (use ok(4) v_send dst r(2) ru last laf in \<open>auto simp: tab net ready_def\<close>)
  obtain m where m: "tc_encode_rule (w_config v) c prio (Some ?tcr) NO_TCE_FLAGS = Some m"
    "w_sent x = w_sent v @ [(conn_seq (sc_conn (w_scan v)) + 1, Req_filter m)]"
    using v_send i(9) by (rule asked_sent)
  have at_x: "rule_at x (c, prio) = Some q" using i(6) by simp
  note x = i(1-5) at_x i(7,8) m
  let ?r = "r\<lparr>or_target_rule := Some rp, or_rule := Some q\<rparr>"
  have kind: "oc_kind (or_obj r) = OBJ_KIND_ROUTE" "w_routes v ?p = Some r" "or_rule r = None" "w_rules v rp = Some ru"
    using r(1) by (simp_all add: installable_def)
  have same_dst: "map_option or_dst (w_routes x y) = map_option or_dst (w_routes w y)" if "y \<noteq> ?p" for y
    using that r(4) [of y] x(7) by simp
  obtain u where u: "obj_route_new ?p x = Some (x\<lparr>w_routes := (w_routes x)(?p \<mapsto> ?r\<lparr>or_obj := (or_obj ?r)\<lparr>oc_state := OBJ_STATE_INSTALLED\<rparr>\<rparr>),
      w_route_tree := u\<rparr>)"
    "table_at or_dst zero_af_addr ((w_routes x)(?p \<mapsto> ?r\<lparr>or_obj := (or_obj ?r)\<lparr>oc_state := OBJ_STATE_INSTALLED\<rparr>\<rparr>)) u = (route_at w)(dst \<mapsto> ?p)"
    by (rule route_enter [where v = x and r = ?r, OF ok(2) fresh dst(3) dst' _ same_dst]) (use x(7,8) net(6) r(2) kind in simp_all)
  let ?v = "x\<lparr>w_routes := (w_routes x)(?p \<mapsto> ?r\<lparr>or_obj := (or_obj ?r)\<lparr>oc_state := OBJ_STATE_INSTALLED\<rparr>\<rparr>), w_route_tree := u\<rparr>"
  have "obj_route_lookup dst w = Some None" using ok(2) dst' dst(3) by (simp add: obj_route_lookup_eq)
  then have run: "obj_route_netlink_update (calls (Suc k)) RTM_NEWROUTE tp dst w = Some ?v"
    using new ru(3) kind x(1) u(1) by (auto simp: obj_route_netlink_update_def RTM_NEWROUTE_def RTM_DELROUTE_def)
  have v_tab: "table b ?v = table b x" "rule_at ?v = rule_at x" for b by (rule rules_ok_same; simp)+
  have fin: "wanted ?v = (wanted w)((c, prio) \<mapsto> ?tcr)" "present ?v = present w" "rule_at ?v (c, prio) = Some q"
    unfolding v_tab x(4-6) tab by (rule refl)+
  have at: "route_at ?v = (route_at w)(dst \<mapsto> ?p)" using u(2) by (simp add: route_at_def)
  show ?thesis
    by (rule exI [of _ ?v], rule exI [of _ ?p], rule exI [of _ "?r\<lparr>or_obj := (or_obj ?r)\<lparr>oc_state := OBJ_STATE_INSTALLED\<rparr>\<rparr>"],
        rule exI [of _ prio], rule exI [of _ q], rule exI [of _ m])
      (use run fin at x(2,3,9,10) r(3) in \<open>simp add: tab net\<close>)
qed

section \<open>Concrete instances\<close>

definition demo_link :: obj_link where
  "demo_link = \<lparr>ol_obj = zero_obj_core\<lparr>oc_kind := OBJ_KIND_LINK, oc_state := OBJ_STATE_INSTALLED\<rparr>, ol_ifindex = 7, ol_lower_ifindex = 2,
     ol_vlan_id = 200, ol_mtu = 1500, ol_lladdr = [2, 0, 0, 0, 0, 1], ol_ifname = Some ''eth0.200'', ol_fdb = Null\<rparr>"

definition demo_neigh :: obj_neigh where
  "demo_neigh = \<lparr>on_obj = zero_obj_core\<lparr>oc_kind := OBJ_KIND_NEIGH, oc_state := OBJ_STATE_INSTALLED, oc_weak_refcnt := 1\<rparr>, on_link = Some 1,
     on_addr = zero_af_addr\<lparr>aa_af := AF_INET\<rparr>, on_lladdr = [2, 0, 0, 0, 0, 9], on_targets = Some 3\<rparr>"

definition demo_target :: "ptr option \<Rightarrow> obj_target" where
  "demo_target rule = \<lparr>ot_obj = zero_obj_core\<lparr>oc_kind := OBJ_KIND_TARGET, oc_refcnt := 1\<rparr>, ot_nexthop_cnt = 1, ot_nexthop = [2],
     ot_first_route = None, ot_last_route = None, ot_n_next_target = None, ot_rule = rule\<rparr>"

definition demo_ready_world :: world where
  "demo_ready_world = demo_world\<lparr>w_pin_changes := 2, w_tacb_hooks := True, w_queue := empty_queue\<lparr>q_conn := True\<rparr>,
     w_scan := (w_scan demo_world)\<lparr>sc_conn := demo_conn\<rparr>, w_links := [1 \<mapsto> demo_link], w_neighs := [2 \<mapsto> demo_neigh],
     w_targets := [3 \<mapsto> demo_target None], w_next := 4\<rparr>"

lemma demo_ready_world_ok:
  "rules_ok demo_ready_world" "can_send demo_ready_world" "chain_map (w_chains demo_ready_world) = Map.empty"
  "chains_ok (w_chains demo_ready_world)" "rule_at demo_ready_world = Map.empty" "obj_rule_laf_lookup tcr demo_ready_world = Some None"
  by (simp_all add: demo_ready_world_def demo_world_def initial_world_def rules_ok_def pos_ok_def fresh_ok_def owned_def slots_def
      laf_ok_def rule_at_def rbt_ok_def fun_eq_iff can_send_def empty_queue_def demo_conn_def demo_config_def config_init_def
      chain_map_def index_map_def obj_rule_laf_lookup_def)

lemma replicate_6: "replicate 6 x = [x, x, x, x, x, x]" "replicate 2 x = [x, x]"
  by (simp_all add: numeral_eq_Suc)

lemma demo_resolved: "resolved (demo_target rule) demo_neigh demo_link demo_ready_world"
  by (simp add: resolved_def demo_ready_world_def demo_target_def demo_neigh_def demo_link_def replicate_6)

lemma obj_target_install_sends_witness:
  "\<exists>w' m. obj_target_install (calls 1) 3 demo_ready_world = Some w' \<and> map snd (w_sent w') = [Req_filter m]
     \<and> ran (wanted w') = {forward_rule demo_config demo_neigh demo_link}"
proof -
  have w: "w_targets demo_ready_world 3 = Some (demo_target None)" "w_config demo_ready_world = demo_config" "w_sent demo_ready_world = []"
    "w_pin_changes demo_ready_world = 2" "wanted demo_ready_world = Map.empty"
    by (simp_all add: demo_ready_world_def demo_world_def initial_world_def table_def [abs_def] rule_at_def)
  show ?thesis
    using obj_target_install_sends [OF demo_ready_world_ok(1,4,2) _ _ _ w(1) _ _ demo_resolved [of None], of 0] demo_ready_world_ok(3,5,6)
    by (auto simp: w demo_target_def demo_neigh_def)
qed

lemma late_neighbour_ignored_witness: "obj_target_neigh_update (calls 9) 3 demo_ready_world = Some demo_ready_world"
proof -
  have "w_targets demo_ready_world 3 = Some (demo_target None)" by (simp add: demo_ready_world_def)
  from late_neighbour_ignored [OF this _ _ demo_resolved [of None]]
  show ?thesis by (simp add: demo_target_def)
qed

definition demo_forwarding_world :: world where
  "demo_forwarding_world = demo_ready_world\<lparr>w_targets := [3 \<mapsto> demo_target (Some 4)],
     w_rules := [4 \<mapsto> \<lparr>oru_obj = zero_obj_core\<lparr>oc_kind := OBJ_KIND_RULE, oc_refcnt := 1, oc_state := OBJ_STATE_INSTALLED\<rparr>,
       oru_type = OBJ_RULE_TYPE_NOT_SET, oru_state = OBJ_RULE_STATE_OK, oru_chain_no = 5, oru_prio = 1, oru_have_laf = False,
       oru_have_pos = True, oru_target = Some 3, oru_route = None, oru_have = Some 5, oru_want = Some 6\<rparr>],
     w_tcrs := [5 \<mapsto> forward_rule demo_config demo_neigh demo_link, 6 \<mapsto> forward_rule demo_config demo_neigh demo_link],
     w_pos_tree := Nd Null RB_BLACK 4 Null, w_rule_cnt := 1, w_next := 7\<rparr>"

definition demo_dst :: af_addr where
  "demo_dst = zero_af_addr\<lparr>aa_af := AF_INET, aa_mask_len := 24, aa_in := [192, 0, 2, 0] @ replicate 12 0\<rparr>"

lemma demo_forward_wf: "wf_tc_rule (forward_rule demo_config demo_neigh demo_link)"
  by (rule forward_rule_ok(2) [OF demo_resolved]) (simp add: demo_neigh_def)

lemma demo_forwarding_slots: "slots demo_forwarding_world = [(4, Have) \<mapsto> 5, (4, Want) \<mapsto> 6]"
proof
  fix x show "slots demo_forwarding_world x = [(4, Have) \<mapsto> 5, (4, Want) \<mapsto> 6] x"
    by (cases x; cases "snd x") (simp_all add: slots_def demo_forwarding_world_def)
qed

lemma demo_forwarding_world_ok:
  "rules_ok demo_forwarding_world" "can_send demo_forwarding_world" "routes_ok demo_forwarding_world"
  "route_at demo_forwarding_world = Map.empty" "obj_rule_laf_lookup tcr demo_forwarding_world = Some None"
  "rule_at demo_forwarding_world = [(5, 1) \<mapsto> 4]"
proof -
  note defs = demo_forwarding_world_def demo_ready_world_def demo_world_def initial_world_def
  have "pos_ok demo_forwarding_world"
    by (simp add: pos_ok_def index_ok_def rbt_ok_def pos_keys_def rule_pos_def demo_forwarding_world_def)
  moreover have "fresh_ok demo_forwarding_world" by (simp add: fresh_ok_def defs)
  moreover have "owned (slots demo_forwarding_world) (w_tcrs demo_forwarding_world)"
    unfolding demo_forwarding_slots by (auto simp: owned_def demo_forwarding_world_def split: if_splits)
  moreover have "laf_ok demo_forwarding_world" by (simp add: laf_ok_def rbt_ok_def defs)
  moreover have "\<forall>h t. w_tcrs demo_forwarding_world h = Some t \<longrightarrow> wf_tc_rule t"
    using demo_forward_wf by (simp add: demo_forwarding_world_def)
  ultimately show "rules_ok demo_forwarding_world" by (simp add: rules_ok_def)
  show "can_send demo_forwarding_world" using demo_ready_world_ok(2) by (simp add: can_send_def demo_forwarding_world_def)
  show "rule_at demo_forwarding_world = [(5, 1) \<mapsto> 4]"
    by (simp add: rule_at_def index_map_def rule_pos_def demo_forwarding_world_def)
qed (simp_all add: demo_forwarding_world_def demo_ready_world_def demo_world_def initial_world_def route_at_def obj_rule_laf_lookup_def)

lemma route_netlink_update_sends_witness:
  "\<exists>w' m. obj_route_netlink_update (calls 1) RTM_NEWROUTE 3 demo_dst demo_forwarding_world = Some w' \<and> map snd (w_sent w') = [Req_filter m]
     \<and> dom (route_at w') = {demo_dst}"
proof -
  let ?w = demo_forwarding_world
  let ?ru = "the (w_rules ?w 4)"
  have w: "w_targets ?w 3 = Some (demo_target (Some 4))" "w_rules ?w 4 = Some ?ru" "oc_kind (oru_obj ?ru) = OBJ_KIND_RULE"
    "oru_state ?ru = OBJ_RULE_STATE_OK" "oru_chain_no ?ru \<le> TC_ACT_EXT_VAL_MASK" "w_sent ?w = []" "2 \<le> w_pin_changes ?w"
    by (simp_all add: demo_forwarding_world_def demo_ready_world_def demo_world_def initial_world_def act_defs)
  have t: "oc_kind (ot_obj (demo_target (Some 4))) = OBJ_KIND_TARGET" "ot_rule (demo_target (Some 4)) = Some 4"
    "\<forall>lr. ot_last_route (demo_target (Some 4)) = Some lr \<longrightarrow> w_routes ?w lr \<noteq> None" by (simp_all add: demo_target_def)
  have dst: "prefix_ok demo_dst" "get_af_chain (aa_af demo_dst) = Some 1" "route_at ?w demo_dst = None"
    by (simp_all add: demo_dst_def prefix_ok_def wf_af_addr_def zero_af_addr_def get_af_chain_def demo_forwarding_world_ok replicate_6)
  have last: "\<forall>prio q. rule_at ?w (1, prio) = Some q \<longrightarrow> prio < 65535" by (simp add: demo_forwarding_world_ok)
  from route_netlink_update_sends [OF demo_forwarding_world_ok(1,3,2) w(7) w(1) t w(2-5) dst last demo_forwarding_world_ok(5), of 0]
  show ?thesis by (auto simp: w(6) demo_forwarding_world_ok(4))
qed

end
