(* ===== verification/Confirm.thy ===== *)
theory Confirm
  imports Forwarding
begin

text \<open>
  What the kernel's confirmation of a target's forwarding rule sets off: the target notifies the
  routes in its list (\<open>obj_target_notify_routes\<close>), and each of them has its own rule placed and
  asked for.
\<close>

section \<open>The list of a target's routes\<close>

fun route_list :: "world \<Rightarrow> ptr option \<Rightarrow> ptr list \<Rightarrow> bool" where
  "route_list w x [] \<longleftrightarrow> x = None"
| "route_list w x (p # ps) \<longleftrightarrow> x = Some p \<and> (\<exists>r. w_routes w p = Some r \<and> route_list w (or_t_next_route r) ps)"

lemma route_list_unique: "route_list w x ps \<Longrightarrow> route_list w x qs \<Longrightarrow> ps = qs"
proof (induction ps arbitrary: x qs)
  case Nil
  then show ?case by (cases qs) auto
next
  case (Cons p ps)
  then show ?case by (cases qs) auto
qed

lemma route_list_suffix: "route_list w x (as @ p # bs) \<Longrightarrow> route_list w (Some p) (p # bs)"
  by (induction as arbitrary: x) auto

lemma route_list_distinct: "route_list w x ps \<Longrightarrow> distinct ps"
proof (induction ps arbitrary: x)
  case (Cons p ps)
  have "p \<notin> set ps"
  proof
    assume "p \<in> set ps"
    then obtain as bs where ps: "ps = as @ p # bs" by (auto dest: split_list)
    from Cons.prems have "route_list w (Some p) (p # ps)" by simp
    moreover from Cons.prems have "route_list w x ((p # as) @ p # bs)" by (simp add: ps)
    then have "route_list w (Some p) (p # bs)" by (rule route_list_suffix)
    ultimately have "p # ps = p # bs" by (rule route_list_unique)
    then show False by (simp add: ps)
  qed
  with Cons show ?case by auto
qed simp

lemma route_list_cong:
  "route_list w x ps \<Longrightarrow> \<forall>p\<in>set ps. map_option or_t_next_route (w_routes w' p) = map_option or_t_next_route (w_routes w p) \<Longrightarrow>
   route_list w' x ps"
proof (induction ps arbitrary: x)
  case (Cons p ps)
  then obtain r where r: "x = Some p" "w_routes w p = Some r" "route_list w (or_t_next_route r) ps" by auto
  then obtain r' where "w_routes w' p = Some r'" "or_t_next_route r' = or_t_next_route r" using Cons.prems(2) by fastforce
  with Cons r show ?case by simp
qed simp

lemma route_list_valid: "route_list w x ps \<Longrightarrow> p \<in> set ps \<Longrightarrow> w_routes w p \<noteq> None"
  by (induction ps arbitrary: x) auto

lemma route_list_fuel:
  assumes "fresh_ok w" "route_list w x ps"
  shows "length ps \<le> w_next w"
proof -
  have "set ps \<subseteq> {..<w_next w}"
  proof
    fix p assume "p \<in> set ps"
    then have "w_routes w p \<noteq> None" by (rule route_list_valid [OF assms(2)])
    then show "p \<in> {..<w_next w}" using fresh_okD(4) [OF assms(1), of p] by (cases "w_next w \<le> p") auto
  qed
  then have "card (set ps) \<le> card {..<w_next w}" by (rule card_mono [rotated]) simp
  then show ?thesis using route_list_distinct [OF assms(2)] by (simp add: distinct_card)
qed

section \<open>Notifying the routes\<close>

text \<open>A route that waits for the rule of its target, the rule it will want, and the chain that it goes to.\<close>

definition dst_of :: "world \<Rightarrow> ptr \<Rightarrow> af_addr" where
  "dst_of w p = (case w_routes w p of None \<Rightarrow> zero_af_addr | Some r \<Rightarrow> or_dst r)"

definition goto_of :: "world \<Rightarrow> u32 \<Rightarrow> ptr \<Rightarrow> tc_rule" where
  "goto_of w no p = route_rule (w_config w) (dst_of w p) no"

definition chain_of :: "world \<Rightarrow> ptr \<Rightarrow> u32" where
  "chain_of w p = the (get_af_chain (aa_af (dst_of w p)))"

definition waiting :: "world \<Rightarrow> ptr \<Rightarrow> u32 \<Rightarrow> ptr \<Rightarrow> bool" where
  "waiting w tp no p \<longleftrightarrow> (\<exists>r. w_routes w p = Some r \<and> oc_kind (or_obj r) = OBJ_KIND_ROUTE \<and> or_target r = Some tp
     \<and> or_rule r = None) \<and> prefix_ok (dst_of w p) \<and> get_af_chain (aa_af (dst_of w p)) \<noteq> None
     \<and> obj_rule_laf_lookup (goto_of w no p) w = Some None"

lemma waiting_cong:
  assumes "waiting w tp no p" "w_routes w' p = w_routes w p" "same_frame w w'"
  shows "waiting w' tp no p" "dst_of w' p = dst_of w p" "goto_of w' no p = goto_of w no p" "chain_of w' p = chain_of w p"
  using assms by (auto simp: waiting_def dst_of_def goto_of_def chain_of_def same_frame_def)

text \<open>No rule has a priority of \<open>b\<close> or more.\<close>

definition below :: "world \<Rightarrow> nat \<Rightarrow> bool" where
  "below w b \<longleftrightarrow> (\<forall>c q. rule_at w (c, q) \<noteq> None \<longrightarrow> unat q < b)"

lemma notify_routes_loop_asks:
  assumes "rules_ok w" "ready w" "2 \<le> w_pin_changes w"
    and "w_targets w tp = Some t" "ot_rule t = Some rp" "rule_view w rp = Some (OBJ_KIND_RULE, OBJ_RULE_STATE_OK, no)"
    and "no \<le> TC_ACT_EXT_VAL_MASK"
    and "route_list w x ps" "\<forall>p\<in>set ps. waiting w tp no p" "length ps \<le> fuel"
    and "below w b" "100 \<le> b" "b + length ps \<le> 65535"
  shows "\<exists>w' ks. notify_routes_loop (calls (Suc k)) fuel tp x w = Some w' \<and> rules_ok w' \<and> length ks = length ps \<and> distinct ks
    \<and> map fst ks = map (chain_of w) ps \<and> (\<forall>key\<in>set ks. 100 \<le> snd key \<and> rule_at w key = None)
    \<and> wanted w' = wanted w ++ map_of (zip ks (map (goto_of w no) ps)) \<and> present w' = present w
    \<and> length (q_items (w_queue w')) = length (q_items (w_queue w)) + length ps
    \<and> (\<forall>p. p \<notin> set ps \<longrightarrow> w_routes w' p = w_routes w p) \<and> rule_at w \<subseteq>\<^sub>m rule_at w'
    \<and> (\<forall>i<length ps. \<exists>q. map_option or_rule (w_routes w' (ps ! i)) = Some (Some q) \<and> rule_at w' (ks ! i) = Some q)
    \<and> (if ps = [] then w' = w else q_is_busy (w_queue w')
        \<and> (\<exists>m. tc_encode_rule (w_config w) (fst (hd ks)) (snd (hd ks)) (Some (goto_of w no (hd ps))) NO_TCE_FLAGS = Some m
            \<and> w_sent w' = (if q_is_busy (w_queue w) then w_sent w else w_sent w @ [(conn_seq (sc_conn (w_scan w)) + 1, Req_filter m)])))"
  using assms
proof (induction ps arbitrary: w x fuel b)
  case Nil
  then show ?case by (intro exI [of _ w] exI [of _ "[]"]) (auto simp: map_le_def)
next
  case (Cons p ps)
  obtain r where r: "x = Some p" "w_routes w p = Some r" "route_list w (or_t_next_route r) ps" using Cons.prems(8) by auto
  have dis: "distinct (p # ps)" using Cons.prems(8) by (rule route_list_distinct)
  have wait: "waiting w tp no p" using Cons.prems(9) by simp
  have dst: "dst_of w p = or_dst r" using r(2) by (simp add: dst_of_def)
  obtain ru where ru: "w_rules w rp = Some ru" "oc_kind (oru_obj ru) = OBJ_KIND_RULE" "oru_state ru = OBJ_RULE_STATE_OK" "oru_chain_no ru = no"
    using Cons.prems(6) by (auto simp: rule_view_def)
  have inst: "installable p r rp ru w" and tgt: "or_target r = Some tp"
    using wait r(2) ru Cons.prems(4,5) by (auto simp: installable_def waiting_def)
  obtain c where c: "get_af_chain (aa_af (or_dst r)) = Some c" using wait dst by (auto simp: waiting_def)
  have chain: "chain_of w p = c" using c dst by (simp add: chain_of_def)
  have goto: "route_rule (w_config w) (or_dst r) (oru_chain_no ru) = goto_of w no p" using dst ru(4) by (simp add: goto_of_def)
  have last: "\<forall>prio q. rule_at w (c, prio) = Some q \<longrightarrow> prio < 65535"
    using Cons.prems(11,13) by (fastforce simp: below_def word_less_nat_alt)
  obtain v prio q where v: "obj_route_install (calls (Suc k)) p w = Some v" "100 \<le> prio" "rule_at w (c, prio) = None"
    "\<And>b. b < 65536 \<Longrightarrow> 100 \<le> b \<Longrightarrow> (\<And>q. rule_at w (c, q) \<noteq> None \<Longrightarrow> unat q < b) \<Longrightarrow> unat prio \<le> b"
    "wanted v = (wanted w)((c, prio) \<mapsto> goto_of w no p)" "present v = present w" "rule_at v = (rule_at w)((c, prio) \<mapsto> q)"
    "w_routes v = (w_routes w)(p \<mapsto> r\<lparr>or_target_rule := Some rp, or_rule := Some q\<rparr>)" "w_route_tree v = w_route_tree w"
    "asked c prio (goto_of w no p) w v" "rules_ok v" "same_frame w v" "w_targets v = w_targets w" "rule_view v rp = rule_view w rp"
    by (rule route_install_asked [OF Cons.prems(1-3) inst, of c k, unfolded goto])
      (use wait c last Cons.prems(7) ru(4) in \<open>simp_all add: waiting_def dst\<close>)
  have busy: "q_is_busy (w_queue v)" using v(10) by (simp add: asked_def)
  have rest: "w_routes v p' = w_routes w p'" if "p' \<in> set ps" for p' using that dis v(8) by auto
  have cong: "waiting v tp no p'" "dst_of v p' = dst_of w p'" "goto_of v no p' = goto_of w no p'" "chain_of v p' = chain_of w p'"
    if "p' \<in> set ps" for p'
    using waiting_cong [OF _ rest [OF that] v(12), of tp no] Cons.prems(9) that by auto
  have bound: "unat prio \<le> b" by (rule v(4)) (use Cons.prems(11-13) in \<open>auto simp: below_def\<close>)
  have below': "below v (Suc b)" unfolding below_def v(7) using Cons.prems(11) bound by (auto simp: below_def less_Suc_eq_le less_imp_le)
  obtain f where f: "fuel = Suc f" "length ps \<le> f" using Cons.prems(10) by (cases fuel) auto
  have list': "route_list v (or_t_next_route r) ps" using r(3) by (rule route_list_cong) (simp add: rest)
  have pins: "2 \<le> w_pin_changes v" "w_config v = w_config w" using Cons.prems(3) v(12) by (simp_all add: same_frame_def)
  have v_ready: "ready v" using busy by (simp add: ready_def)
  have tv: "w_targets v tp = Some t" using Cons.prems(4) by (simp add: v(13))
  have view: "rule_view v rp = Some (OBJ_KIND_RULE, OBJ_RULE_STATE_OK, no)" using Cons.prems(6) by (simp add: v(14))
  have waits: "\<forall>p\<in>set ps. waiting v tp no p" using cong(1) by blast
  have room: "100 \<le> Suc b" "Suc b + length ps \<le> 65535" using Cons.prems(12,13) by simp_all
  obtain w' ks where w': "notify_routes_loop (calls (Suc k)) f tp (or_t_next_route r) v = Some w'" "rules_ok w'" "length ks = length ps" "distinct ks"
    "map fst ks = map (chain_of v) ps" "\<forall>key\<in>set ks. 100 \<le> snd key \<and> rule_at v key = None"
    "wanted w' = wanted v ++ map_of (zip ks (map (goto_of v no) ps))" "present w' = present v"
    "length (q_items (w_queue w')) = length (q_items (w_queue v)) + length ps"
    "\<forall>p. p \<notin> set ps \<longrightarrow> w_routes w' p = w_routes v p" "rule_at v \<subseteq>\<^sub>m rule_at w'"
    "\<forall>i<length ps. \<exists>q. map_option or_rule (w_routes w' (ps ! i)) = Some (Some q) \<and> rule_at w' (ks ! i) = Some q"
    "if ps = [] then w' = v else q_is_busy (w_queue w') \<and> (\<exists>m. tc_encode_rule (w_config v) (fst (hd ks)) (snd (hd ks)) (Some (goto_of v no (hd ps))) NO_TCE_FLAGS = Some m
       \<and> w_sent w' = (if q_is_busy (w_queue v) then w_sent v else w_sent v @ [(conn_seq (sc_conn (w_scan v)) + 1, Req_filter m)]))"
    using Cons.IH [OF v(11) v_ready pins(1) tv Cons.prems(5) view Cons.prems(7) list' waits f(2) below' room]
    by (elim exE conjE) (rule that; assumption)
  have run: "notify_routes_loop (calls (Suc k)) fuel tp x w = Some w'"
    using r tgt v(1,8) w'(1) by (simp add: f(1) del: calls.simps)
  have fresh_keys: "(c, prio) \<notin> set ks" using w'(6) v(7) by auto
  have tail: "map (goto_of v no) ps = map (goto_of w no) ps" "map (chain_of v) ps = map (chain_of w) ps" using cong(3,4) by simp_all
  have "wanted w' = wanted w ++ map_of (zip ((c, prio) # ks) (map (goto_of w no) (p # ps)))"
  proof -
    have "(c, prio) \<notin> dom (map_of (zip ks (map (goto_of w no) ps)))"
      using fresh_keys w'(3) by (simp add: dom_map_of_zip)
    then show ?thesis using w'(7) v(5) tail(1) by (simp add: map_add_upd_left)
  qed
  moreover have "\<forall>i<length (p # ps). \<exists>q. map_option or_rule (w_routes w' ((p # ps) ! i)) = Some (Some q) \<and> rule_at w' (((c, prio) # ks) ! i) = Some q"
  proof (intro allI impI)
    fix i assume i: "i < length (p # ps)"
    show "\<exists>q. map_option or_rule (w_routes w' ((p # ps) ! i)) = Some (Some q) \<and> rule_at w' (((c, prio) # ks) ! i) = Some q"
    proof (cases i)
      case 0
      have "rule_at v (c, prio) = Some q" by (simp add: v(7))
      then have "rule_at w' (c, prio) = Some q" using w'(11) by (metis domI map_le_def)
      moreover have "w_routes w' p = w_routes v p" using w'(10) dis by simp
      ultimately show ?thesis using 0 v(8) by simp
    next
      case (Suc j)
      then show ?thesis using w'(12) i by simp
    qed
  qed
  moreover have "rule_at w \<subseteq>\<^sub>m rule_at w'"
  proof -
    have "rule_at w \<subseteq>\<^sub>m rule_at v" using v(3) by (auto simp: v(7) map_le_def)
    then show ?thesis using w'(11) by (rule map_le_trans)
  qed
  moreover have "\<forall>key\<in>set ((c, prio) # ks). 100 \<le> snd key \<and> rule_at w key = None"
    using w'(6) v(2,3,7) by (auto split: if_splits)
  moreover have "\<forall>p'. p' \<notin> set (p # ps) \<longrightarrow> w_routes w' p' = w_routes w p'" using w'(10) v(8) by auto
  moreover have "length (q_items (w_queue w')) = length (q_items (w_queue w)) + length (p # ps)" using w'(9) v(10) by (simp add: asked_def)
  moreover obtain m where m: "tc_encode_rule (w_config w) c prio (Some (goto_of w no p)) NO_TCE_FLAGS = Some m"
    "w_sent v = (if q_is_busy (w_queue w) then w_sent w else w_sent w @ [(conn_seq (sc_conn (w_scan w)) + 1, Req_filter m)])"
    using v(10) by (auto simp: asked_def)
  moreover have "q_is_busy (w_queue w') \<and> w_sent w' = w_sent v" using w'(13) busy by (cases "ps = []") auto
  ultimately show ?case
    using run w'(2-5,8) v(6) fresh_keys tail(2) chain
    by (intro exI [of _ w'] exI [of _ "(c, prio) # ks"] conjI) (assumption | simp del: calls.simps)+
qed

section \<open>The confirmation\<close>

text \<open>A lookup by content looks only at the contents of the rules in the tree.\<close>

lemma rb_search_ptr_cong: "\<forall>x\<in>set (rb_inorder t). f x = g x \<Longrightarrow> rb_search_ptr f t = rb_search_ptr g t"
proof (induction t)
  case (Nd l c x r)
  then show ?case by (cases "g x") auto
qed simp


section \<open>A concrete instance\<close>

text \<open>A target whose rule has been asked for, with two routes that wait for it.\<close>

definition demo_route :: "u8 \<Rightarrow> ptr option \<Rightarrow> obj_route" where
  "demo_route net next_route = \<lparr>or_obj = zero_obj_core\<lparr>oc_kind := OBJ_KIND_ROUTE, oc_refcnt := 1, oc_state := OBJ_STATE_INSTALLED\<rparr>,
     or_dst = demo_dst\<lparr>aa_in := [192, 0, net, 0] @ replicate 12 0\<rparr>, or_target = Some 3, or_t_next_route = next_route,
     or_target_rule = None, or_rule = None\<rparr>"

definition demo_asked_rule :: obj_rule where
  "demo_asked_rule = (new_rule 5 1 6)\<lparr>oru_have_pos := True, oru_target := Some 3, oru_state := OBJ_RULE_STATE_PENDING\<rparr>"

definition demo_confirm_world :: world where
  "demo_confirm_world = demo_ready_world\<lparr>
     w_targets := [3 \<mapsto> (demo_target (Some 4))\<lparr>ot_first_route := Some 7, ot_last_route := Some 8\<rparr>],
     w_rules := [4 \<mapsto> demo_asked_rule], w_tcrs := [6 \<mapsto> forward_rule demo_config demo_neigh demo_link],
     w_routes := [7 \<mapsto> demo_route 2 (Some 8), 8 \<mapsto> demo_route 3 None],
     w_pos_tree := Nd Null RB_BLACK 4 Null, w_rule_cnt := 1, w_next := 9\<rparr>"

lemma demo_confirm_sel [simp]:
  "w_targets demo_confirm_world = [3 \<mapsto> (demo_target (Some 4))\<lparr>ot_first_route := Some 7, ot_last_route := Some 8\<rparr>]"
  "w_rules demo_confirm_world = [4 \<mapsto> demo_asked_rule]" "w_tcrs demo_confirm_world = [6 \<mapsto> forward_rule demo_config demo_neigh demo_link]"
  "w_routes demo_confirm_world = [7 \<mapsto> demo_route 2 (Some 8), 8 \<mapsto> demo_route 3 None]" "w_pos_tree demo_confirm_world = Nd Null RB_BLACK 4 Null"
  "w_laf_tree demo_confirm_world = Null" "w_pin_changes demo_confirm_world = 2" "w_config demo_confirm_world = demo_config" "w_sent demo_confirm_world = []"
  "\<not> q_is_busy (w_queue demo_confirm_world)" "q_items (w_queue demo_confirm_world) = []"
  by (simp_all add: demo_confirm_world_def demo_ready_world_def demo_world_def initial_world_def empty_queue_def)

lemma demo_confirm_world_ok:
  "rules_ok demo_confirm_world" "ready demo_confirm_world" "rule_at demo_confirm_world = [(5, 1) \<mapsto> 4]"
  "wanted demo_confirm_world = [(5, 1) \<mapsto> forward_rule demo_config demo_neigh demo_link]"
proof -
  let ?w = demo_confirm_world
  have sl: "slots ?w x = (if x = (4, Want) then Some 6 else None)" for x
    by (cases x; cases "snd x") (auto simp: slots_def demo_asked_rule_def new_rule_def)
  have "pos_ok ?w" by (simp add: pos_ok_def index_ok_def rbt_ok_def pos_keys_def rule_pos_def demo_asked_rule_def new_rule_def)
  moreover have "fresh_ok ?w" by (simp add: fresh_ok_def demo_confirm_world_def demo_ready_world_def demo_world_def initial_world_def)
  moreover have "owned (slots ?w) (w_tcrs ?w)" by (simp add: owned_def sl)
  moreover have "laf_ok ?w" by (simp add: laf_ok_def rbt_ok_def)
  moreover have "\<forall>h t. w_tcrs ?w h = Some t \<longrightarrow> wf_tc_rule t" using demo_forward_wf by simp
  ultimately show "rules_ok ?w" by (simp add: rules_ok_def)
  show "ready ?w" using demo_ready_world_ok(2) by (simp add: ready_def can_send_def demo_confirm_world_def)
  show at: "rule_at ?w = [(5, 1) \<mapsto> 4]" by (simp add: rule_at_def index_map_def rule_pos_def demo_asked_rule_def new_rule_def)
  show "wanted ?w = [(5, 1) \<mapsto> forward_rule demo_config demo_neigh demo_link]" by (auto simp: table_def at sl fun_eq_iff)
qed

lemma demo_waiting: "p \<in> {7, 8} \<Longrightarrow> waiting demo_confirm_world 3 no p"
  by (auto simp: waiting_def dst_of_def demo_route_def demo_dst_def prefix_ok_def wf_af_addr_def zero_af_addr_def
      get_af_chain_def obj_rule_laf_lookup_def replicate_6)


end
