(* ===== verification/Link_Props.thy ===== *)
theory Link_Props
  imports Daemon Obj_Lemmas Store_Index
begin

text \<open>
  The tables of \<open>src/obj_link.c\<close> as finite maps: what the kernel reports of the links is a map
  from interface numbers to their attributes, and an update or a removal changes it at one place.
\<close>

section \<open>The tables\<close>

interpretation links: store_index u32cmp small_nos ol_ifindex 0 ..

definition link_ok :: "obj_link \<Rightarrow> bool" where
  "link_ok l \<longleftrightarrow> oc_kind (ol_obj l) = OBJ_KIND_LINK \<and> length (ol_lladdr l) = 6"

definition links_ok :: "world \<Rightarrow> bool" where
  "links_ok w \<longleftrightarrow> table_ok u32cmp small_nos ol_ifindex 0 (w_links w) (w_link_tree w)
     \<and> (\<forall>p\<in>set (rb_inorder (w_link_tree w)). \<forall>l. w_links w p = Some l \<longrightarrow> link_ok l) \<and> (\<forall>q\<ge>w_next w. w_links w q = None)"

definition link_at :: "world \<Rightarrow> u32 \<rightharpoonup> ptr" where
  "link_at w = table_at ol_ifindex 0 (w_links w) (w_link_tree w)"

type_synonym link_attrs = "bytes \<times> u32 \<times> u16 \<times> u32 \<times> string option"

definition link_attrs :: "obj_link \<Rightarrow> link_attrs" where
  "link_attrs l = (ol_lladdr l, ol_lower_ifindex l, ol_vlan_id l, ol_mtu l, ol_ifname l)"

definition view :: "('k \<rightharpoonup> 'p) \<Rightarrow> ('p \<rightharpoonup> 'a) \<Rightarrow> ('a \<Rightarrow> 'v) \<Rightarrow> 'k \<rightharpoonup> 'v" where
  "view at S f k = (case at k of None \<Rightarrow> None | Some p \<Rightarrow> map_option f (S p))"

definition link_view :: "world \<Rightarrow> u32 \<rightharpoonup> link_attrs" where
  "link_view w = view (link_at w) (w_links w) link_attrs"

lemma obj_link_lookup_eq:
  "links_ok w \<Longrightarrow> i < 0x80000000 \<Longrightarrow> obj_link_lookup i w = Some (link_at w i)"
  by (simp add: obj_link_lookup_def links_ok_def link_at_def links.lookup_at small_nos_def)

lemma link_atE:
  assumes "links_ok w" "link_at w i = Some p"
  obtains l where "w_links w p = Some l" "ol_ifindex l = i" "link_ok l" "p \<in> set (rb_inorder (w_link_tree w))"
proof -
  have "table_ok u32cmp small_nos ol_ifindex 0 (w_links w) (w_link_tree w)" using assms(1) by (simp add: links_ok_def)
  with assms(2) obtain l where "w_links w p = Some l" "ol_ifindex l = i" "p \<in> set (rb_inorder (w_link_tree w))"
    unfolding link_at_def by (auto elim: links.at_SomeD)
  with assms(1) that show thesis by (simp add: links_ok_def)
qed

lemma link_at_inj: "links_ok w \<Longrightarrow> link_at w i = Some p \<Longrightarrow> link_at w j = Some p \<Longrightarrow> i = j"
  by (metis link_atE option.inject)

section \<open>Changes\<close>

text \<open>The attributes of a link change.\<close>

lemma links_ok_modify:
  assumes ok: "links_ok w" and at: "link_at w i = Some p" and l: "w_links w p = Some l"
    and l': "ol_ifindex l' = ol_ifindex l" "link_ok l'" and w': "w' = w\<lparr>w_links := (w_links w)(p \<mapsto> l')\<rparr>"
  shows "links_ok w'" "link_at w' = link_at w" "link_view w' = (link_view w)(i \<mapsto> link_attrs l')"
proof -
  have p: "p \<in> set (rb_inorder (w_link_tree w))" using ok at by (rule link_atE)
  note upd = links.update_at [where S = "w_links w", OF l l'(1)]
  have "\<forall>q\<ge>w_next w. ((w_links w)(p \<mapsto> l')) q = None" using ok l by (auto simp: links_ok_def)
  moreover have "\<forall>q\<in>set (rb_inorder (w_link_tree w)). \<forall>l. ((w_links w)(p \<mapsto> l')) q = Some l \<longrightarrow> link_ok l"
    using ok l'(2) by (auto simp: links_ok_def)
  moreover have "table_ok u32cmp small_nos ol_ifindex 0 ((w_links w)(p \<mapsto> l')) (w_link_tree w)"
    unfolding upd using ok by (simp add: links_ok_def)
  moreover have sel: "w_links w' = (w_links w)(p \<mapsto> l')" "w_link_tree w' = w_link_tree w" "w_next w' = w_next w"
    by (simp_all add: w')
  ultimately show "links_ok w'" unfolding links_ok_def sel by blast
  show at': "link_at w' = link_at w" by (simp add: w' link_at_def upd)
  show "link_view w' = (link_view w)(i \<mapsto> link_attrs l')"
  proof
    fix j show "link_view w' j = ((link_view w)(i \<mapsto> link_attrs l')) j"
      using at link_at_inj [OF ok at, of j] unfolding link_view_def at' view_def sel
      by (cases "link_at w j") auto
  qed
qed

text \<open>A link is entered.\<close>

lemma links_ok_enter:
  assumes ok: "links_ok w" and new: "link_at w (ol_ifindex l) = None" and l: "link_ok l" "ol_ifindex l < 0x80000000"
    and w: "w_links w p = None" "w_links w' = (w_links w)(p \<mapsto> l)" "\<forall>q\<ge>w_next w'. w_links w' q = None"
      "w_link_tree w' = w_link_tree w"
  obtains u where "obj_link_insert p w' = Some (w'\<lparr>w_link_tree := u\<rparr>)" "links_ok (w'\<lparr>w_link_tree := u\<rparr>)"
    "link_view (w'\<lparr>w_link_tree := u\<rparr>) = (link_view w)(ol_ifindex l \<mapsto> link_attrs l)"
proof -
  have tok: "table_ok u32cmp small_nos ol_ifindex 0 (w_links w) (w_link_tree w)" using ok by (simp add: links_ok_def)
  then have p: "p \<notin> set (rb_inorder (w_link_tree w))" using w(1) by (auto simp: table_ok_def)
  note out = links.outside_at [OF p, of "w_links w" "Some l"]
  have "table_ok u32cmp small_nos ol_ifindex 0 (w_links w') (w_link_tree w)" "w_links w' p = Some l"
    "ol_ifindex l \<in> small_nos" "table_at ol_ifindex 0 (w_links w') (w_link_tree w) (ol_ifindex l) = None"
    using tok out l new by (simp_all add: w(2) small_nos_def link_at_def)
  then obtain u where u: "rb_insert_ptr (\<lambda>this. do { y \<leftarrow> w_links w' this; Some (u32cmp (ol_ifindex l) (ol_ifindex y)) })
      p (w_link_tree w) = Some (u, True)" "table_ok u32cmp small_nos ol_ifindex 0 (w_links w') u"
    "table_at ol_ifindex 0 (w_links w') u = (table_at ol_ifindex 0 (w_links w') (w_link_tree w))(ol_ifindex l \<mapsto> p)"
    "set (rb_inorder u) = insert p (set (rb_inorder (w_link_tree w)))"
    by (rule links.insert_at)
  let ?w = "w'\<lparr>w_link_tree := u\<rparr>"
  have at: "link_at ?w = (link_at w)(ol_ifindex l \<mapsto> p)" using u(3) out by (simp add: link_at_def w(2,4))
  have "obj_link_insert p w' = Some ?w"
    using u(1) l(1) by (simp add: obj_link_insert_def w(2,4) link_ok_def obj_assert_kind_def)
  moreover have "link_ok k" if "q \<in> set (rb_inorder u)" "w_links w' q = Some k" for q k
    using that ok l(1) u(4) by (auto simp: w(2) links_ok_def split: if_splits)
  then have "links_ok ?w" using u(2) w(3) by (simp add: links_ok_def)
  moreover have "link_at w i \<noteq> Some p" for i
    using p link_atE [OF ok, of i p] by blast
  then have "link_view ?w = (link_view w)(ol_ifindex l \<mapsto> link_attrs l)"
    unfolding link_view_def at by (auto simp: fun_eq_iff view_def w(2) split: option.split)
  ultimately show thesis by (rule that)
qed

text \<open>A link is removed.\<close>

lemma links_ok_remove:
  assumes ok: "links_ok w" and at: "link_at w i = Some p"
  obtains u where "rb_erase p (w_link_tree w) = Some u"
    "\<And>c. links_ok (w\<lparr>w_link_tree := u, w_links := (w_links w)(p := None), w_link_cnt := c\<rparr>)"
    "\<And>c. link_view (w\<lparr>w_link_tree := u, w_links := (w_links w)(p := None), w_link_cnt := c\<rparr>) = (link_view w)(i := None)"
proof -
  have tok: "table_ok u32cmp small_nos ol_ifindex 0 (w_links w) (w_link_tree w)" using ok by (simp add: links_ok_def)
  obtain u where u: "rb_erase p (w_link_tree w) = Some u"
    "table_ok u32cmp small_nos ol_ifindex 0 ((w_links w)(p := None)) u"
    "table_at ol_ifindex 0 ((w_links w)(p := None)) u = (table_at ol_ifindex 0 (w_links w) (w_link_tree w))(i := None)"
    "set (rb_inorder u) = set (rb_inorder (w_link_tree w)) - {p}"
    using tok at unfolding link_at_def by (rule links.erase_at)
  let ?w = "\<lambda>c. w\<lparr>w_link_tree := u, w_links := (w_links w)(p := None), w_link_cnt := c\<rparr>"
  have "\<forall>q\<in>set (rb_inorder u). \<forall>l. ((w_links w)(p := None)) q = Some l \<longrightarrow> link_ok l"
    using ok u(4) by (auto simp: links_ok_def)
  moreover have "\<forall>q\<ge>w_next w. ((w_links w)(p := None)) q = None" using ok by (simp add: links_ok_def)
  ultimately have "links_ok (?w c)" for c using u(2) by (simp add: links_ok_def)
  moreover have at': "link_at (?w c) = (link_at w)(i := None)" for c using u(3) by (simp add: link_at_def)
  have "link_view (?w c) = (link_view w)(i := None)" for c
    using link_at_inj [OF ok _ at] unfolding link_view_def at'
    by (auto simp: fun_eq_iff view_def split: option.split)
  ultimately show thesis using u(1) by (intro that [of u])
qed

section \<open>Reports of the kernel\<close>

definition lladdr_of :: "bytes option \<Rightarrow> bytes" where
  "lladdr_of src = (case src of None \<Rightarrow> replicate 6 0 | Some bs \<Rightarrow> take 6 bs)"

lemma lladdr_set_eq:
  assumes "length dst = 6" "\<forall>bs. src = Some bs \<longrightarrow> 6 \<le> length bs"
  obtains n where "lladdr_set dst src = Some (lladdr_of src, n)" "length (lladdr_of src) = 6"
proof (cases src)
  case None
  with that show thesis by (simp add: lladdr_set_def lladdr_of_def)
next
  case (Some bs)
  with assms that show thesis
    by (cases "dst = take 6 bs") (auto simp: lladdr_set_def lladdr_of_def memcmp_0_iff)
qed

lemma ifname_set_fst: "fst (ifname_set dst src) = src"
  by (auto simp: ifname_set_def split: option.split)

lemma obj_link_update_no_neighs: "w_links w p = Some l \<Longrightarrow> ol_fdb l = Null \<Longrightarrow> obj_link_update K p w = Some w"
  by (simp add: obj_link_update_def rb_first_eq)

text \<open>A report about a link in the table, one that is not in it, and the report of a removal.\<close>

lemma link_known:
  assumes ok: "links_ok w" and i: "ifindex < 0x80000000" and at: "link_at w ifindex = Some p"
    and lladdr: "\<forall>bs. lladdr = Some bs \<longrightarrow> 6 \<le> length bs" and l: "w_links w p = Some l" "ol_fdb l = Null"
    and new: "nltype \<noteq> RTM_DELLINK"
  shows "\<exists>w'. obj_link_netlink_update K nltype ifindex lladdr lower vlan mtu ifname w = Some w' \<and> links_ok w'
    \<and> link_view w' = (link_view w)(ifindex \<mapsto> (lladdr_of lladdr, lower, vlan, mtu, ifname))"
proof -
  have lk: "ol_ifindex l = ifindex" "link_ok l" using link_atE [OF ok at] l(1) by auto
  obtain n where n: "lladdr_set (ol_lladdr l) lladdr = Some (lladdr_of lladdr, n)" "length (lladdr_of lladdr) = 6"
    using lladdr_set_eq [OF _ lladdr] lk(2) unfolding link_ok_def by metis
  obtain c2 where c2: "ifname_set (ol_ifname l) ifname = (ifname, c2)"
    using ifname_set_fst [of "ol_ifname l" ifname] by (metis prod.collapse)
  let ?l = "l\<lparr>ol_lladdr := lladdr_of lladdr, ol_ifname := ifname, ol_lower_ifindex := lower, ol_mtu := mtu, ol_vlan_id := vlan\<rparr>"
  let ?w = "w\<lparr>w_links := (w_links w)(p \<mapsto> ?l)\<rparr>"
  have upd: "obj_link_update K p ?w = Some ?w" by (rule obj_link_update_no_neighs [of _ _ ?l]) (simp_all add: l)
  have "obj_link_netlink_update K nltype ifindex lladdr lower vlan mtu ifname w = Some ?w"
    using lk l n(1) c2 upd new
    by (simp add: obj_link_netlink_update_def obj_link_lookup_eq [OF ok i] at obj_assert_kind_def link_ok_def mod_link_def)
  moreover have "ol_ifindex ?l = ol_ifindex l" "link_ok ?l" using lk n(2) by (simp_all add: link_ok_def)
  from links_ok_modify [OF ok at l(1) this refl]
  have "links_ok ?w \<and> link_view ?w = (link_view w)(ifindex \<mapsto> link_attrs ?l)" by blast
  moreover have "link_attrs ?l = (lladdr_of lladdr, lower, vlan, mtu, ifname)" by (simp add: link_attrs_def)
  ultimately show ?thesis by auto
qed

lemma link_unknown:
  assumes ok: "links_ok w" and i: "ifindex < 0x80000000" and at: "link_at w ifindex = None"
    and lladdr: "\<forall>bs. lladdr = Some bs \<longrightarrow> 6 \<le> length bs"
    and new: "nltype \<noteq> RTM_DELLINK"
  shows "\<exists>w'. obj_link_netlink_update K nltype ifindex lladdr lower vlan mtu ifname w = Some w' \<and> links_ok w'
    \<and> link_view w' = (link_view w)(ifindex \<mapsto> (lladdr_of lladdr, lower, vlan, mtu, ifname))"
proof -
  obtain n where n: "lladdr_set (replicate 6 0) lladdr = Some (lladdr_of lladdr, n)" "length (lladdr_of lladdr) = 6"
    using lladdr_set_eq [OF _ lladdr, of "replicate 6 0"] by auto
  obtain c2 where c2: "ifname_set None ifname = (ifname, c2)"
    using ifname_set_fst [of None ifname] by (metis prod.collapse)
  let ?p = "w_next w"
  let ?l = "\<lparr>ol_obj = zero_obj_core\<lparr>oc_kind := OBJ_KIND_LINK, oc_state := OBJ_STATE_INSTALLED\<rparr>, ol_ifindex = ifindex,
    ol_lower_ifindex = lower, ol_vlan_id = vlan, ol_mtu = mtu, ol_lladdr = lladdr_of lladdr, ol_ifname = ifname,
    ol_fdb = Null\<rparr>"
  let ?w = "w\<lparr>w_next := Suc ?p, w_link_cnt := w_link_cnt w + 1, w_links := (w_links w)(?p \<mapsto> ?l)\<rparr>"
  have run: "obj_link_netlink_update K nltype ifindex lladdr lower vlan mtu ifname w = obj_link_insert ?p ?w"
    using n(1) c2 new
    by (simp add: obj_link_netlink_update_def obj_link_lookup_eq [OF ok i] at obj_link_alloc_def obj_link_new_def
        obj_assert_kind_def mod_link_def Let_def)
  have "link_at w (ol_ifindex ?l) = None" "link_ok ?l" "ol_ifindex ?l < 0x80000000" "w_links w ?p = None"
    using at n(2) i ok by (simp_all add: link_ok_def links_ok_def)
  then obtain u where "obj_link_insert ?p ?w = Some (?w\<lparr>w_link_tree := u\<rparr>)" "links_ok (?w\<lparr>w_link_tree := u\<rparr>)"
    "link_view (?w\<lparr>w_link_tree := u\<rparr>) = (link_view w)(ol_ifindex ?l \<mapsto> link_attrs ?l)"
    by (rule links_ok_enter [OF ok, where w' = ?w]) (use ok in \<open>simp_all add: links_ok_def\<close>)
  with run show ?thesis by (auto simp: link_attrs_def)
qed

lemma link_removed:
  assumes ok: "links_ok w" and i: "ifindex < 0x80000000" and at: "link_at w ifindex = Some p"
    and l: "w_links w p = Some l" "ol_fdb l = Null" "oc_refcnt (ol_obj l) = 0" "oc_weak_refcnt (ol_obj l) = 0"
    and cnt: "w_link_cnt w \<noteq> 0"
  shows "\<exists>w'. obj_link_netlink_update K RTM_DELLINK ifindex lladdr lower vlan mtu ifname w = Some w' \<and> links_ok w'
    \<and> link_view w' = (link_view w)(ifindex := None)"
proof -
  have lk: "ol_ifindex l = ifindex" "link_ok l" using link_atE [OF ok at] l(1) by auto
  let ?l = "l\<lparr>ol_obj := (ol_obj l)\<lparr>oc_state := OBJ_STATE_ZOMBIE\<rparr>, ol_ifname := None\<rparr>"
  let ?w = "w\<lparr>w_links := (w_links w)(p \<mapsto> ?l)\<rparr>"
  have "ol_ifindex ?l = ol_ifindex l" "link_ok ?l" using lk by (simp_all add: link_ok_def)
  from links_ok_modify [OF ok at l(1) this refl]
  have ok': "links_ok ?w" "link_at ?w = link_at w" "link_view ?w = (link_view w)(ifindex \<mapsto> link_attrs ?l)" by blast+
  obtain u where u: "rb_erase p (w_link_tree ?w) = Some u"
    "\<And>c. links_ok (?w\<lparr>w_link_tree := u, w_links := (w_links ?w)(p := None), w_link_cnt := c\<rparr>)"
    "\<And>c. link_view (?w\<lparr>w_link_tree := u, w_links := (w_links ?w)(p := None), w_link_cnt := c\<rparr>)
      = (link_view ?w)(ifindex := None)"
    by (rule links_ok_remove [OF ok'(1), of ifindex p]) (use at ok'(2) in simp_all)
  have "obj_link_netlink_update K RTM_DELLINK ifindex lladdr lower vlan mtu ifname w
    = Some (?w\<lparr>w_link_tree := u, w_links := (w_links ?w)(p := None), w_link_cnt := w_link_cnt w - 1\<rparr>)"
    using lk l cnt u(1)
    by (simp add: obj_link_netlink_update_def obj_link_lookup_eq [OF ok i] at obj_link_delete_def mod_link_def
        obj_is_reapable_def obj_link_reap_def rb_first_eq obj_free_ok_def link_ok_def split: obj_operating_mode.split)
  with u(2,3) ok'(3) show ?thesis by auto
qed

text \<open>C15. What the daemon knows of the links is a map from interface numbers to attributes: a report of
  a link enters it or replaces its attributes, also with those that the report leaves out, and the
  report that it is gone removes it; no other link changes. (The link has no neighbours, and for
  the removal nothing refers to it.)\<close>

theorem obj_link_netlink_update_correct:
  assumes ok: "links_ok w" and i: "ifindex < 0x80000000"
    and lladdr: "\<forall>bs. lladdr = Some bs \<longrightarrow> 6 \<le> length bs"
    and quiet: "\<forall>p l. link_at w ifindex = Some p \<longrightarrow> w_links w p = Some l \<longrightarrow> ol_fdb l = Null
      \<and> (nltype = RTM_DELLINK \<longrightarrow> oc_refcnt (ol_obj l) = 0 \<and> oc_weak_refcnt (ol_obj l) = 0 \<and> w_link_cnt w \<noteq> 0)"
  shows "\<exists>w'. obj_link_netlink_update K nltype ifindex lladdr lower vlan mtu ifname w = Some w' \<and> links_ok w'
    \<and> link_view w' = (link_view w)(ifindex := if nltype = RTM_DELLINK then None
        else Some (lladdr_of lladdr, lower, vlan, mtu, ifname))"
proof (cases "link_at w ifindex")
  case None
  then have "link_view w ifindex = None" by (simp add: link_view_def view_def)
  with None link_unknown [OF ok i None lladdr] show ?thesis
    by (cases "nltype = RTM_DELLINK")
      (use ok in \<open>simp_all add: obj_link_netlink_update_def obj_link_lookup_eq [OF ok i] fun_upd_idem\<close>)
next
  case (Some p)
  then obtain l where l: "w_links w p = Some l" using link_atE [OF ok] by blast
  show ?thesis
  proof (cases "nltype = RTM_DELLINK")
    case True
    with link_removed [OF ok i Some l] quiet Some l show ?thesis by simp
  next
    case False
    with link_known [OF ok i Some lladdr l _ False] quiet Some l show ?thesis by simp
  qed
qed

definition demo_link :: obj_link where
  "demo_link = \<lparr>ol_obj = zero_obj_core\<lparr>oc_kind := OBJ_KIND_LINK, oc_state := OBJ_STATE_INSTALLED\<rparr>, ol_ifindex = 7,
     ol_lower_ifindex = 2, ol_vlan_id = 100, ol_mtu = 1500, ol_lladdr = replicate 6 1, ol_ifname = Some ''vlan100'',
     ol_fdb = Null\<rparr>"

definition demo_link_world :: world where
  "demo_link_world = (initial_world (\<lambda>_. True) (config_init ''flower-route''))
     \<lparr>w_links := [1 \<mapsto> demo_link], w_link_tree := Nd Null RB_BLACK 1 Null, w_next := 2, w_link_cnt := 1\<rparr>"

lemma demo_link_world_ok:
  "links_ok demo_link_world" "link_at demo_link_world = [7 \<mapsto> 1]" "w_links demo_link_world = [1 \<mapsto> demo_link]"
  "w_link_cnt demo_link_world = 1"
  by (auto simp: demo_link_world_def initial_world_def demo_link_def links_ok_def link_at_def table_ok_def table_at_def
      index_ok_def index_map_def rbt_ok_def node_key_def small_nos_def link_ok_def zero_obj_core_def)

lemma obj_link_netlink_update_witness:
  "\<exists>w1 w2. obj_link_netlink_update (\<lambda>_ _. None) RTM_NEWLINK 7 None 2 200 9000 None demo_link_world = Some w1
     \<and> link_view w1 = [7 \<mapsto> (replicate 6 0, 2, 200, 9000, None)]
     \<and> obj_link_netlink_update (\<lambda>_ _. None) RTM_DELLINK 7 None 2 200 9000 None demo_link_world = Some w2
     \<and> link_view w2 = Map.empty"
proof -
  have view: "link_view demo_link_world = [7 \<mapsto> link_attrs demo_link]"
    by (simp add: fun_eq_iff link_view_def view_def demo_link_world_ok)
  have quiet: "\<forall>p l. link_at demo_link_world 7 = Some p \<longrightarrow> w_links demo_link_world p = Some l \<longrightarrow> ol_fdb l = Null
      \<and> (nltype = RTM_DELLINK \<longrightarrow> oc_refcnt (ol_obj l) = 0 \<and> oc_weak_refcnt (ol_obj l) = 0 \<and> w_link_cnt demo_link_world \<noteq> 0)"
    for nltype by (simp add: demo_link_world_ok) (simp add: demo_link_def zero_obj_core_def)
  note run = obj_link_netlink_update_correct [where lladdr = None and K = "\<lambda>_ _. None" and lower = 2 and vlan = 200
      and mtu = 9000 and ifname = None, OF demo_link_world_ok(1) _ _ quiet]
  have "RTM_NEWLINK \<noteq> RTM_DELLINK" by (simp add: RTM_NEWLINK_def RTM_DELLINK_def)
  with run [where nltype = RTM_NEWLINK] run [where nltype = RTM_DELLINK] show ?thesis by (auto simp: view lladdr_of_def)
qed

end
