(* ===== verification/Neigh_Props.thy ===== *)
theory Neigh_Props
  imports Link_Props Forwarding
begin

text \<open>
  The forwarding tables of the links, \<open>src/obj_neigh.c\<close>: each link has a table of the neighbours that
  the kernel has reported behind it. A neighbour that was first met as the next hop of a route is
  not entered in it.
\<close>

section \<open>The table of a link\<close>

interpretation neighs: store_index af_addr_cmp "Collect wf_af_addr" on_addr zero_af_addr ..

definition fdb_ok :: "world \<Rightarrow> ptr \<Rightarrow> bool" where
  "fdb_ok w lp \<longleftrightarrow> (\<exists>l. w_links w lp = Some l \<and> oc_kind (ol_obj l) = OBJ_KIND_LINK
     \<and> table_ok af_addr_cmp (Collect wf_af_addr) on_addr zero_af_addr (w_neighs w) (ol_fdb l))
     \<and> (\<forall>q\<ge>w_next w. w_neighs w q = None)"

definition neigh_at :: "world \<Rightarrow> ptr \<Rightarrow> af_addr \<rightharpoonup> ptr" where
  "neigh_at w lp = (case w_links w lp of None \<Rightarrow> Map.empty | Some l \<Rightarrow> table_at on_addr zero_af_addr (w_neighs w) (ol_fdb l))"

lemma fdb_okE:
  assumes "fdb_ok w lp"
  obtains l where "w_links w lp = Some l" "oc_kind (ol_obj l) = OBJ_KIND_LINK"
    "table_ok af_addr_cmp (Collect wf_af_addr) on_addr zero_af_addr (w_neighs w) (ol_fdb l)"
    "neigh_at w lp = table_at on_addr zero_af_addr (w_neighs w) (ol_fdb l)"
  using assms by (auto simp: fdb_ok_def neigh_at_def)

lemma obj_neigh_fdb_lookup_eq:
  "fdb_ok w lp \<Longrightarrow> wf_af_addr key \<Longrightarrow> obj_neigh_fdb_lookup lp key w = Some (neigh_at w lp key)"
  by (elim fdb_okE) (simp add: obj_neigh_fdb_lookup_def obj_assert_kind_def neighs.lookup_at)

text \<open>Allocating a neighbour and counting references changes no table.\<close>

lemma fdb_aside:
  assumes ok: "fdb_ok w lp" and l: "w_links w lp = Some l"
    and w': "w_neighs w' = (w_neighs w)(w_next w \<mapsto> n)" "w_links w' lp = Some l'" "ol_fdb l' = ol_fdb l"
      "oc_kind (ol_obj l') = OBJ_KIND_LINK" "w_next w < w_next w'"
  shows "fdb_ok w' lp" "neigh_at w' lp = neigh_at w lp"
proof -
  have tok: "table_ok af_addr_cmp (Collect wf_af_addr) on_addr zero_af_addr (w_neighs w) (ol_fdb l)"
    using ok l by (auto simp: fdb_ok_def)
  moreover have "w_neighs w (w_next w) = None" using ok by (simp add: fdb_ok_def)
  ultimately have out: "w_next w \<notin> set (rb_inorder (ol_fdb l))" by (auto simp: table_ok_def)
  note same = neighs.outside_at [OF out, of "w_neighs w" "Some n"]
  show "fdb_ok w' lp" using ok l w' tok same(1) by (auto simp: fdb_ok_def)
  show "neigh_at w' lp = neigh_at w lp" using l w' same(2) by (simp add: neigh_at_def)
qed

text \<open>A neighbour that the kernel reports and that is not in the table is entered.\<close>

definition known_neigh :: "af_addr \<Rightarrow> ptr \<Rightarrow> bytes \<Rightarrow> obj_neigh" where
  "known_neigh key lp lladdr = \<lparr>on_obj = zero_obj_core\<lparr>oc_kind := OBJ_KIND_NEIGH, oc_state := OBJ_STATE_INSTALLED\<rparr>,
     on_link = Some lp, on_addr = key, on_lladdr = lladdr, on_targets = None\<rparr>"

lemma neigh_update_new:
  assumes ok: "fdb_ok w lp" and lk: "obj_link_lookup ifindex w = Some (Some lp)"
    and key: "build_af_addr f addr 0 = Some key" "neigh_at w lp key = None"
    and lla: "lladdr_set (replicate 6 0) lladdr = Some (lla, c)" and mode: "w_mode w = OBJ_MODE_NORMAL"
  obtains w' where "obj_neigh_netlink_update K RTM_NEWNEIGH ifindex f addr lladdr w = Some w'" "fdb_ok w' lp"
    "neigh_at w' lp = (neigh_at w lp)(key \<mapsto> w_next w)" "w_neighs w' = (w_neighs w)(w_next w \<mapsto> known_neigh key lp lla)"
    "\<And>x. x \<noteq> lp \<Longrightarrow> w_links w' x = w_links w x" "\<And>i. obj_link_lookup i w' = obj_link_lookup i w"
    "w_targets w' = w_targets w" "w_sent w' = w_sent w" "map_option ol_lladdr (w_links w' lp) = map_option ol_lladdr (w_links w lp)"
proof -
  let ?p = "w_next w" and ?n = "known_neigh key lp lla"
  obtain l where l: "w_links w lp = Some l" "oc_kind (ol_obj l) = OBJ_KIND_LINK"
    "table_ok af_addr_cmp (Collect wf_af_addr) on_addr zero_af_addr (w_neighs w) (ol_fdb l)"
    "neigh_at w lp = table_at on_addr zero_af_addr (w_neighs w) (ol_fdb l)"
    using ok by (rule fdb_okE)
  have wf: "wf_af_addr key" using key(1) build_af_addr_wf by blast
  have fresh: "w_neighs w ?p = None" using ok by (simp add: fdb_ok_def)
  then have out: "?p \<notin> set (rb_inorder (ol_fdb l))" using l(3) by (auto simp: table_ok_def)
  let ?n1 = "?n\<lparr>on_obj := (on_obj ?n)\<lparr>oc_refcnt := 1\<rparr>\<rparr>"
  let ?N1 = "(w_neighs w)(?p \<mapsto> ?n1)" and ?N = "(w_neighs w)(?p \<mapsto> ?n)"
  note same = neighs.outside_at [OF out, of "w_neighs w" "Some ?n1"]
  have "table_ok af_addr_cmp (Collect wf_af_addr) on_addr zero_af_addr ?N1 (ol_fdb l)" "?N1 ?p = Some ?n1"
    "on_addr ?n1 \<in> Collect wf_af_addr" "table_at on_addr zero_af_addr ?N1 (ol_fdb l) (on_addr ?n1) = None"
    using l(3,4) wf key(2) unfolding same by (simp_all add: known_neigh_def)
  then obtain t where t: "rb_insert_ptr (\<lambda>this. do { y \<leftarrow> ?N1 this; Some (af_addr_cmp (on_addr ?n1) (on_addr y)) }) ?p (ol_fdb l) = Some (t, True)"
    "table_ok af_addr_cmp (Collect wf_af_addr) on_addr zero_af_addr ?N1 t"
    "table_at on_addr zero_af_addr ?N1 t = (table_at on_addr zero_af_addr ?N1 (ol_fdb l))(on_addr ?n1 \<mapsto> ?p)"
    "set (rb_inorder t) = insert ?p (set (rb_inorder (ol_fdb l)))"
    by (rule neighs.insert_at)
  have upd: "table_ok af_addr_cmp (Collect wf_af_addr) on_addr zero_af_addr ?N t" "table_at on_addr zero_af_addr ?N t = (neigh_at w lp)(key \<mapsto> ?p)"
    using neighs.update_at [of ?N1 ?p ?n1 ?n t] t(2,3) same(2) l(4) by (simp_all add: known_neigh_def)
  let ?l = "l\<lparr>ol_obj := obj_weak_ref (ol_obj l), ol_fdb := t\<rparr>"
  let ?w = "w\<lparr>w_neighs := ?N, w_links := (w_links w)(lp \<mapsto> ?l), w_next := Suc ?p, w_neigh_cnt := w_neigh_cnt w + 1\<rparr>"
  have "obj_neigh_netlink_update K RTM_NEWNEIGH ifindex f addr lladdr w = Some ?w"
  proof -
    let ?na = "\<lparr>on_obj = zero_obj_core\<lparr>oc_kind := OBJ_KIND_NEIGH\<rparr>, on_link = Some lp, on_addr = key, on_lladdr = lla, on_targets = None\<rparr>"
    let ?wa = "w\<lparr>w_next := Suc ?p, w_neigh_cnt := w_neigh_cnt w + 1,
      w_links := (w_links w)(lp \<mapsto> l\<lparr>ol_obj := obj_weak_ref (ol_obj l)\<rparr>), w_neighs := (w_neighs w)(?p \<mapsto> ?na)\<rparr>"
    have "obj_neigh_netlink_update K RTM_NEWNEIGH ifindex f addr lladdr w = obj_neigh_new K ?p ?wa"
      using lk key lla l obj_neigh_fdb_lookup_eq [OF ok wf]
      by (simp add: obj_neigh_netlink_update_def obj_neigh_alloc_def obj_link_weak_ref_def obj_assert_kind_def mod_link_def
          mod_neigh_def RTM_NEWNEIGH_def RTM_DELNEIGH_def Let_def)
    also have "\<dots> = Some ?w"
    proof -
      let ?wb = "w\<lparr>w_next := Suc ?p, w_neigh_cnt := w_neigh_cnt w + 1,
        w_links := (w_links w)(lp \<mapsto> l\<lparr>ol_obj := obj_weak_ref (ol_obj l)\<rparr>), w_neighs := ?N1\<rparr>"
      have "(obj_neigh_ref ?p ?wa \<bind> set_neigh_state ?p OBJ_STATE_INSTALLED) = Some ?wb"
        by (simp add: obj_neigh_ref_def set_neigh_state_def obj_assert_kind_def mod_neigh_def obj_ref_def zero_obj_core_def known_neigh_def)
      moreover have "obj_neigh_fdb_insert ?p ?wb = Some (?wb\<lparr>w_links := (w_links w)(lp \<mapsto> ?l)\<rparr>)"
        using t(1) by (simp add: obj_neigh_fdb_insert_def obj_assert_kind_def mod_link_def known_neigh_def zero_obj_core_def)
      moreover have "obj_neigh_unref K ?p (?wb\<lparr>w_links := (w_links w)(lp \<mapsto> ?l)\<rparr>) = Some ?w"
        using mode by (simp add: obj_neigh_unref_def obj_assert_kind_def mod_neigh_def obj_unref_def obj_is_reapable_def known_neigh_def zero_obj_core_def)
      ultimately show ?thesis by (auto simp: obj_neigh_new_def bind_eq_Some_conv)
    qed
    finally show ?thesis .
  qed
  moreover have "fdb_ok ?w lp" using l(2) upd(1) ok by (auto simp: fdb_ok_def obj_weak_ref_def)
  moreover have "neigh_at ?w lp = (neigh_at w lp)(key \<mapsto> ?p)" using upd(2) by (simp add: neigh_at_def)
  moreover have "obj_link_lookup i ?w = obj_link_lookup i w" for i
  proof -
    have "(w_links ?w this \<bind> (\<lambda>l. Some (u32cmp i (ol_ifindex l)))) = (w_links w this \<bind> (\<lambda>l. Some (u32cmp i (ol_ifindex l))))" for this
      using l(1) by simp
    then show ?thesis by (simp add: obj_link_lookup_def)
  qed
  ultimately show thesis using l(1) by (intro that [of ?w]) simp_all
qed

section \<open>A next hop that the kernel has not reported\<close>

definition unresolved_neigh :: "af_addr \<Rightarrow> ptr \<Rightarrow> obj_neigh" where
  "unresolved_neigh key lp = \<lparr>on_obj = zero_obj_core\<lparr>oc_kind := OBJ_KIND_NEIGH\<rparr>, on_link = Some lp, on_addr = key,
     on_lladdr = replicate 6 0, on_targets = None\<rparr>"

lemma neigh_get_new:
  assumes ok: "fdb_ok w lp" and lk: "obj_link_lookup ifindex w = Some (Some lp)"
    and key: "build_af_addr f addr 0 = Some key" "neigh_at w lp key = None"
  obtains w' where "obj_neigh_netlink_get ifindex f addr w = Some (Some (w_next w), w')" "fdb_ok w' lp"
    "neigh_at w' lp = neigh_at w lp" "w_neighs w' = (w_neighs w)(w_next w \<mapsto> unresolved_neigh key lp)"
    "\<And>i. obj_link_lookup i w' = obj_link_lookup i w" "w_next w' = Suc (w_next w)" "w_mode w' = w_mode w"
    "map_option ol_fdb (w_links w' lp) = map_option ol_fdb (w_links w lp)"
proof -
  let ?p = "w_next w"
  obtain l where l: "w_links w lp = Some l" "oc_kind (ol_obj l) = OBJ_KIND_LINK" using ok by (rule fdb_okE)
  have wf: "wf_af_addr key" using key(1) build_af_addr_wf by blast
  let ?l = "l\<lparr>ol_obj := obj_ref (ol_obj l)\<rparr>"
  let ?w = "w\<lparr>w_next := Suc ?p, w_neigh_cnt := w_neigh_cnt w + 1, w_links := (w_links w)(lp \<mapsto> ?l),
    w_neighs := (w_neighs w)(?p \<mapsto> unresolved_neigh key lp)\<rparr>"
  have "obj_neigh_netlink_get ifindex f addr w = Some (Some ?p, ?w)"
    using lk key l obj_neigh_fdb_lookup_eq [OF ok wf]
    by (simp add: obj_neigh_netlink_get_def obj_neigh_alloc_def obj_link_ref_def obj_assert_kind_def mod_link_def mod_neigh_def
        unresolved_neigh_def Let_def)
  moreover note aside = fdb_aside [OF ok l(1), of ?w "unresolved_neigh key lp" ?l]
  have "fdb_ok ?w lp" "neigh_at ?w lp = neigh_at w lp" by (rule aside; use l(2) in \<open>simp add: obj_ref_def\<close>)+
  moreover have "obj_link_lookup i ?w = obj_link_lookup i w" for i
  proof -
    have "(w_links ?w this \<bind> (\<lambda>l. Some (u32cmp i (ol_ifindex l)))) = (w_links w this \<bind> (\<lambda>l. Some (u32cmp i (ol_ifindex l))))" for this
      using l(1) by simp
    then show ?thesis by (simp add: obj_link_lookup_def)
  qed
  ultimately show thesis using l(1) by (intro that [of ?w]) simp_all
qed

text \<open>The target of such a next hop.\<close>

lemma get_unipath_unresolved:
  assumes "w_neighs w p = Some (unresolved_neigh key lp)"
  obtains w' n where "obj_target_get_unipath p w = Some (w_next w, w')" "w_neighs w' = (w_neighs w)(p \<mapsto> n)"
    "on_link n = Some lp" "on_lladdr n = replicate 6 0" "w_links w' = w_links w" "w_link_tree w' = w_link_tree w"
    "w_next w' = Suc (w_next w)" "w_mode w' = w_mode w" "map_option ot_nexthop (w_targets w' (w_next w)) = Some [p]"
  using assms
  by (auto simp: obj_target_get_unipath_def obj_assert_kind_def obj_target_alloc_def obj_neigh_weak_ref_def mod_neigh_def
      mod_target_def obj_target_ref_def Let_def unresolved_neigh_def obj_ref_def obj_weak_ref_def zero_obj_core_def intro!: that)

text \<open>C17. A next hop that a route names before the kernel has reported it is lost: a neighbour and a target
  are made for the route, but the neighbour is not entered in the table of its link, so that the
  kernel's report of it, with its address, makes a second one. The first has no address after
  the report, and so installing the target of the route still does nothing, although the
  address of the next hop is known; the next route over it is given the second.\<close>

theorem unknown_next_hop_orphaned:
  assumes ok: "fdb_ok w lp" and lk: "obj_link_lookup ifindex w = Some (Some lp)"
    and key: "build_af_addr f addr 0 = Some key" "neigh_at w lp key = None"
    and lla: "lladdr_set (replicate 6 0) lladdr = Some (lla, c)" and mode: "w_mode w = OBJ_MODE_NORMAL"
  shows "\<exists>p w0 tp w1 q w2. obj_neigh_netlink_get ifindex f addr w = Some (Some p, w0)
    \<and> obj_target_get_unipath p w0 = Some (tp, w1)
    \<and> obj_neigh_netlink_update K RTM_NEWNEIGH ifindex f addr lladdr w1 = Some w2 \<and> q \<noteq> p
    \<and> neigh_at w2 lp = (neigh_at w lp)(key \<mapsto> q) \<and> map_option on_lladdr (w_neighs w2 q) = Some lla
    \<and> map_option on_lladdr (w_neighs w2 p) = Some (replicate 6 0) \<and> obj_target_install K tp w2 = Some w2
    \<and> obj_neigh_netlink_get ifindex f addr w2 = Some (Some q, w2)"
proof -
  let ?p = "w_next w" and ?tp = "Suc (w_next w)" and ?q = "Suc (Suc (w_next w))"
  have wf: "wf_af_addr key" using key(1) build_af_addr_wf by blast
  obtain l where l: "w_links w lp = Some l" using ok by (rule fdb_okE)
  obtain v where v: "obj_neigh_netlink_get ifindex f addr w = Some (Some ?p, v)" "fdb_ok v lp"
    "neigh_at v lp = neigh_at w lp" "w_neighs v = (w_neighs w)(?p \<mapsto> unresolved_neigh key lp)"
    "\<And>i. obj_link_lookup i v = obj_link_lookup i w" "w_next v = ?tp" "w_mode v = w_mode w"
    "map_option ol_fdb (w_links v lp) = map_option ol_fdb (w_links w lp)"
    by (rule neigh_get_new [OF ok lk key]) (rule that; assumption)
  have "w_neighs v ?p = Some (unresolved_neigh key lp)" by (simp add: v(4))
  then obtain x n where x: "obj_target_get_unipath ?p v = Some (?tp, x)" "w_neighs x = (w_neighs v)(?p \<mapsto> n)"
    "on_link n = Some lp" "on_lladdr n = replicate 6 0" "w_links x = w_links v" "w_link_tree x = w_link_tree v"
    "w_next x = ?q" "w_mode x = w_mode v" "map_option ot_nexthop (w_targets x ?tp) = Some [?p]"
    by (rule get_unipath_unresolved) (simp add: v(6))
  obtain l' where l': "w_links v lp = Some l'" "oc_kind (ol_obj l') = OBJ_KIND_LINK" using v(2) by (rule fdb_okE)
  then have "ol_fdb l' = ol_fdb l" using v(8) l by simp
  moreover have "w_neighs x = (w_neighs w)(?p \<mapsto> n)" by (simp add: x(2) v(4))
  ultimately have x_ok: "fdb_ok x lp" "neigh_at x lp = neigh_at w lp"
    using fdb_aside [OF ok l, of x n l'] l' by (simp_all add: x)
  have lookup: "obj_link_lookup i x = obj_link_lookup i w" for i
    using v(5) [of i] by (simp add: obj_link_lookup_def x)
  have pre: "obj_link_lookup ifindex x = Some (Some lp)" "neigh_at x lp key = None" "w_mode x = OBJ_MODE_NORMAL"
    using lk key(2) mode by (simp_all add: lookup x_ok(2) x(8) v(7))
  obtain u where u: "obj_neigh_netlink_update K RTM_NEWNEIGH ifindex f addr lladdr x = Some u" "fdb_ok u lp"
    "neigh_at u lp = (neigh_at x lp)(key \<mapsto> w_next x)" "w_neighs u = (w_neighs x)(w_next x \<mapsto> known_neigh key lp lla)"
    "\<And>i. obj_link_lookup i u = obj_link_lookup i x" "w_targets u = w_targets x"
    by (rule neigh_update_new [OF x_ok(1) pre(1) key(1) pre(2) lla pre(3), where K = K]) (rule that; assumption)
  obtain l2 where l2: "w_links u lp = Some l2" using u(2) by (rule fdb_okE)
  have p: "w_neighs u ?p = Some n" by (simp add: u(4) x(2,7))
  have "obj_target_prepare_rule ?tp u = Some None"
    using x(9) p x(3,4) l2 by (auto simp: obj_target_prepare_rule_def u(6) is_lladdr_zero_def)
  then have "obj_target_install K ?tp u = Some u" by (simp add: obj_target_install_def)
  moreover have "obj_neigh_netlink_get ifindex f addr u = Some (Some ?q, u)"
    using lk key(1) obj_neigh_fdb_lookup_eq [OF u(2) wf]
    by (simp add: obj_neigh_netlink_get_def u(3,5) lookup x(7))
  moreover have "map_option on_lladdr (w_neighs u ?q) = Some lla" by (simp add: u(4) x(7) known_neigh_def)
  ultimately show ?thesis using v(1) x(1,4) x_ok(2) u(1,3) p
    by (intro exI [of _ ?p] exI [of _ v] exI [of _ ?tp] exI [of _ x] exI [of _ ?q] exI [of _ u]) (simp add: x(7))
qed

text \<open>The link of the examples, on which nothing is known yet.\<close>

definition demo_quiet_world :: world where
  "demo_quiet_world = demo_world\<lparr>w_links := [1 \<mapsto> demo_link], w_link_tree := Nd Null RB_BLACK 1 Null, w_next := 2\<rparr>"

lemma unknown_next_hop_orphaned_witness:
  "\<exists>p w0 tp w1 q w2. obj_neigh_netlink_get 7 AF_INET (Some [10, 0, 0, 1]) demo_quiet_world = Some (Some p, w0)
     \<and> obj_target_get_unipath p w0 = Some (tp, w1) \<and> obj_target_install no_calls tp w2 = Some w2
     \<and> obj_neigh_netlink_update no_calls RTM_NEWNEIGH 7 AF_INET (Some [10, 0, 0, 1]) (Some [2, 0, 0, 0, 0, 9]) w1 = Some w2
     \<and> q \<noteq> p \<and> map_option on_lladdr (w_neighs w2 q) = Some [2, 0, 0, 0, 0, 9]"
proof -
  let ?w = demo_quiet_world
  have ok: "fdb_ok ?w 1" and none: "neigh_at ?w 1 k = None" for k
    by (simp_all add: fdb_ok_def demo_quiet_world_def demo_world_def initial_world_def demo_link_def table_ok_def zero_obj_core_def
        neigh_at_def table_at_def)
  have lk: "obj_link_lookup 7 ?w = Some (Some 1)" by (simp add: obj_link_lookup_def demo_quiet_world_def demo_link_def u32cmp_def)
  obtain key where key: "build_af_addr AF_INET (Some [10, 0, 0, 1]) 0 = Some key" by (simp add: build_af_addr_def AN_def Let_def)
  have lla: "lladdr_set (replicate 6 0) (Some [2, 0, 0, 0, 0, 9]) = Some ([2, 0, 0, 0, 0, 9], 1)" by code_simp
  have "w_mode ?w = OBJ_MODE_NORMAL" by (simp add: demo_quiet_world_def demo_world_def initial_world_def)
  from unknown_next_hop_orphaned [OF ok lk key none lla this, of no_calls] show ?thesis by (elim exE conjE) (intro exI conjI; assumption)+
qed

end
