(* ===== verification/RT_Names.thy ===== *)
theory RT_Names
  imports C_Text
begin

text \<open>
  \<open>src/rt_names.c\<close>: the names of the routing tables, three built in and the others read from the
  files of iproute2. The file system is a parameter: \<open>files\<close> gives the content of a file or the
  error number of \<open>fopen\<close>, \<open>dirs\<close> the entries of a directory in the order of \<open>readdir\<close>.
\<close>

section \<open>The table\<close>

record rt_names_entry =
  rt_id :: u32
  rt_name :: string

definition RT_TABLE_DEFAULT :: u32 where "RT_TABLE_DEFAULT = 253"
definition RT_TABLE_MAIN :: u32 where "RT_TABLE_MAIN = 254"
definition RT_TABLE_LOCAL :: u32 where "RT_TABLE_LOCAL = 255"

text \<open>The list from \<open>rt_names_root\<close>.\<close>

definition rt_names_static :: "rt_names_entry list" where
  "rt_names_static = [\<lparr>rt_id = RT_TABLE_DEFAULT, rt_name = ''default''\<rparr>,
     \<lparr>rt_id = RT_TABLE_MAIN, rt_name = ''main''\<rparr>, \<lparr>rt_id = RT_TABLE_LOCAL, rt_name = ''local''\<rparr>]"

definition rt_names_add_entry :: "u32 \<Rightarrow> string \<Rightarrow> rt_names_entry list \<Rightarrow> rt_names_entry list" where
  "rt_names_add_entry i name es = es @ [\<lparr>rt_id = i, rt_name = name\<rparr>]"

fun rt_names_lookup :: "string \<Rightarrow> rt_names_entry list \<Rightarrow> u32" where
  "rt_names_lookup name [] = 0"
| "rt_names_lookup name (e # es) = (if rt_name e = name then rt_id e else rt_names_lookup name es)"

section \<open>Lines\<close>

text \<open>
  The four calls of \<open>sscanf\<close> on a line, in order, until one converts two items. A call may assign
  the number and then fail on the name, so the variables \<open>id\<close> and \<open>id2\<close> are threaded through. The
  formats of a pair differ only in what follows the name, which does not count.
\<close>

definition sscanf_hex :: "string \<Rightarrow> u32 \<Rightarrow> (string option) \<times> u32" where
  "sscanf_hex p i =
     (if take 2 p \<noteq> ''0x'' then (None, i)
      else case scan_x (drop 2 p) of
        None \<Rightarrow> (None, i)
      | Some (v, q) \<Rightarrow> (map_option fst (scan_s q), v))"

definition sscanf_dec :: "string \<Rightarrow> int \<Rightarrow> (string option) \<times> int" where
  "sscanf_dec p i =
     (case scan_d p of
        None \<Rightarrow> (None, i)
      | Some (v, q) \<Rightarrow> (map_option fst (scan_s q), v))"

definition scan_line :: "string \<Rightarrow> u32 \<Rightarrow> (string option) \<times> u32" where
  "scan_line p i =
     (let (name, i) = sscanf_hex p i in
      case name of
        Some _ \<Rightarrow> (name, i)
      | None \<Rightarrow>
          (let (name, id2) = sscanf_dec p 0 in
           case name of
             Some _ \<Rightarrow> (name, if id2 > 0 then word_of_int id2 else i)
           | None \<Rightarrow> (None, i)))"

definition skip_line :: "string \<Rightarrow> bool" where
  "skip_line p \<longleftrightarrow> (case p of [] \<Rightarrow> True | c # _ \<Rightarrow> c = CHR ''#'' \<or> c = CHR 0x0A)"

text \<open>
  \<open>rt_names_fread_id_name\<close> on the lines that are left: \<open>None\<close> at the end of the file, else the
  name, or the text that could not be read, with the number and the lines after it.
\<close>

fun rt_names_fread_id_name :: "string list \<Rightarrow> u32 \<Rightarrow> ((string + string) \<times> u32 \<times> string list) option" where
  "rt_names_fread_id_name [] i = None"
| "rt_names_fread_id_name (buf # bufs) i =
     (let p = dropWhile is_blank buf in
      if skip_line p then rt_names_fread_id_name bufs i
      else case scan_line p i of
        (None, i) \<Rightarrow> Some (Inl p, i, bufs)
      | (Some name, i) \<Rightarrow> Some (Inr name, i, bufs))"

lemma fread_id_name_shorter: "rt_names_fread_id_name bufs i = Some (x, j, bufs') \<Longrightarrow> length bufs' < length bufs"
  by (induction bufs arbitrary: i) (auto simp: Let_def less_Suc_eq split: if_splits prod.splits option.splits)

definition NAME_MAX_LEN :: nat where "NAME_MAX_LEN = 512"

text \<open>
  The loop of \<open>rt_names_read_file\<close>; \<open>id\<close> is not initialised, \<open>i\<close> is what it first holds. The result
  is the return value and the table.
\<close>

function read_lines :: "string list \<Rightarrow> u32 \<Rightarrow> rt_names_entry list \<Rightarrow> int \<times> rt_names_entry list" where
  "read_lines bufs i es =
     (case rt_names_fread_id_name bufs i of
        None \<Rightarrow> (0, es)
      | Some (Inl p, j, bufs') \<Rightarrow> (- 22, es)
      | Some (Inr name, j, bufs') \<Rightarrow> read_lines bufs' j (rt_names_add_entry j name es))"
  by pat_completeness auto
termination
  by (relation "measure (\<lambda>(bufs, i, es). length bufs)") (auto dest: fread_id_name_shorter)

declare read_lines.simps [simp del]

definition rt_names_read_file ::
  "(string \<Rightarrow> int + string) \<Rightarrow> u32 \<Rightarrow> string \<Rightarrow> rt_names_entry list \<Rightarrow> int \<times> rt_names_entry list" where
  "rt_names_read_file files i path es =
     (case files path of
        Inl err \<Rightarrow> (- err, es)
      | Inr content \<Rightarrow> read_lines (fgets_all NAME_MAX_LEN content) i es)"

section \<open>Directories\<close>

definition conf_name :: "string \<Rightarrow> bool" where
  "conf_name d \<longleftrightarrow> \<not> (d \<noteq> [] \<and> hd d = CHR ''.'') \<and> length d > 5 \<and> drop (length d - 5) d = ''.conf''"

definition PATH_MAX :: nat where "PATH_MAX = 4096"

definition join_path :: "string \<Rightarrow> string \<Rightarrow> string" where
  "join_path dir name = take (PATH_MAX - 1) (dir @ ''/'' @ name)"

fun read_entries ::
  "(string \<Rightarrow> int + string) \<Rightarrow> (string \<Rightarrow> bool) \<Rightarrow> u32 \<Rightarrow> string \<Rightarrow> string option \<Rightarrow> string list
     \<Rightarrow> rt_names_entry list \<Rightarrow> rt_names_entry list" where
  "read_entries files exists i base overload [] es = es"
| "read_entries files exists i base overload (d # ds) es =
     (if \<not> conf_name d then read_entries files exists i base overload ds es
      else if (case overload of None \<Rightarrow> False | Some dir \<Rightarrow> exists (join_path dir d))
        then read_entries files exists i base overload ds es
      else read_entries files exists i base overload ds
             (snd (rt_names_read_file files i (join_path base d) es)))"

definition rt_names_read_dir ::
  "(string \<Rightarrow> int + string) \<Rightarrow> (string \<Rightarrow> bool) \<Rightarrow> (string \<Rightarrow> string list option) \<Rightarrow> u32 \<Rightarrow> string \<Rightarrow> string option
     \<Rightarrow> rt_names_entry list \<Rightarrow> rt_names_entry list" where
  "rt_names_read_dir files exists dirs i base overload es =
     (case dirs base of None \<Rightarrow> es | Some ds \<Rightarrow> read_entries files exists i base overload ds es)"

definition CONF_ETC_DIR :: string where "CONF_ETC_DIR = ''/etc/iproute2''"
definition CONF_USR_DIR :: string where "CONF_USR_DIR = ''/usr/lin/iproute2''"
definition ENOENT :: int where "ENOENT = 2"

definition rt_names_load_names ::
  "(string \<Rightarrow> int + string) \<Rightarrow> (string \<Rightarrow> bool) \<Rightarrow> (string \<Rightarrow> string list option) \<Rightarrow> u32
     \<Rightarrow> rt_names_entry list \<Rightarrow> rt_names_entry list" where
  "rt_names_load_names files exists dirs i es =
     (let (ret, es) = rt_names_read_file files i (CONF_ETC_DIR @ ''/rt_tables'') es;
          es = (if ret = ENOENT then snd (rt_names_read_file files i (CONF_USR_DIR @ ''/rt_tables'') es) else es);
          es = rt_names_read_dir files exists dirs i (CONF_USR_DIR @ ''/rt_tables.d'')
                 (Some (CONF_ETC_DIR @ ''/rt_tables.d'')) es in
      rt_names_read_dir files exists dirs i (CONF_ETC_DIR @ ''/rt_tables.d'') None es)"

definition rt_names_init ::
  "(string \<Rightarrow> int + string) \<Rightarrow> (string \<Rightarrow> bool) \<Rightarrow> (string \<Rightarrow> string list option) \<Rightarrow> u32 \<Rightarrow> rt_names_entry list" where
  "rt_names_init files exists dirs i = rt_names_load_names files exists dirs i rt_names_static"

definition rt_names_free :: "rt_names_entry list \<Rightarrow> rt_names_entry list" where
  "rt_names_free es = rt_names_static"

section \<open>Properties of the table\<close>

lemma rt_names_lookup_append:
  "rt_names_lookup name (es @ fs) = (if name \<in> rt_name ` set es then rt_names_lookup name es else rt_names_lookup name fs)"
  by (induction es) auto

text \<open>Reading never changes or removes an entry, whatever the files hold.\<close>

lemma read_lines_extends: "\<exists>fs. snd (read_lines bufs i es) = es @ fs"
proof (induction bufs i es rule: read_lines.induct)
  case (1 bufs i es)
  show ?case
  proof (cases "rt_names_fread_id_name bufs i")
    case None
    then show ?thesis by (simp add: read_lines.simps [of bufs i es])
  next
    case (Some a)
    obtain x j bufs' where a: "a = (x, j, bufs')" by (cases a)
    show ?thesis
    proof (cases x)
      case (Inl p)
      then show ?thesis using Some a by (simp add: read_lines.simps [of bufs i es])
    next
      case (Inr name)
      with 1 [OF Some a [symmetric] Inr refl] obtain fs where "snd (read_lines bufs' j (rt_names_add_entry j name es)) = rt_names_add_entry j name es @ fs"
        by auto
      then show ?thesis using Some a Inr by (simp add: read_lines.simps [of bufs i es] rt_names_add_entry_def)
    qed
  qed
qed

lemma read_file_extends: "\<exists>fs. snd (rt_names_read_file files i path es) = es @ fs"
  using read_lines_extends by (simp add: rt_names_read_file_def split: sum.split)

lemma read_entries_extends: "\<exists>fs. read_entries files exists i base overload ds es = es @ fs"
proof (induction ds arbitrary: es)
  case (Cons d ds)
  obtain fs where "snd (rt_names_read_file files i (join_path base d) es) = es @ fs" using read_file_extends by blast
  with Cons.IH [of es] Cons.IH [of "es @ fs"] show ?case by auto
qed simp

lemma read_dir_extends: "\<exists>fs. rt_names_read_dir files exists dirs i base overload es = es @ fs"
  using read_entries_extends by (simp add: rt_names_read_dir_def split: option.split)

lemma extends_trans: "\<exists>fs. b = a @ fs \<Longrightarrow> \<exists>fs. c = b @ fs \<Longrightarrow> \<exists>fs. c = (a :: 'a list) @ fs"
  by auto

lemma load_names_extends: "\<exists>fs. rt_names_load_names files exists dirs i es = es @ fs"
proof -
  let ?f = "rt_names_read_file files i (CONF_ETC_DIR @ ''/rt_tables'') es"
  let ?g = "if fst ?f = ENOENT then snd (rt_names_read_file files i (CONF_USR_DIR @ ''/rt_tables'') (snd ?f)) else snd ?f"
  have "\<exists>fs. ?g = snd ?f @ fs" using read_file_extends by auto
  with read_file_extends have "\<exists>fs. ?g = es @ fs" by (rule extends_trans)
  from extends_trans [OF extends_trans [OF this read_dir_extends] read_dir_extends]
  show ?thesis by (simp add: rt_names_load_names_def Let_def split_def)
qed

text \<open>The three built-in tables keep their numbers and the table of the kernel's default names
  cannot be redefined, whatever the files of iproute2 say.\<close>

theorem rt_names_builtin:
  "rt_names_lookup ''default'' (rt_names_init files exists dirs i) = 253
   \<and> rt_names_lookup ''main'' (rt_names_init files exists dirs i) = 254
   \<and> rt_names_lookup ''local'' (rt_names_init files exists dirs i) = 255"
proof -
  obtain fs where "rt_names_init files exists dirs i = rt_names_static @ fs"
    unfolding rt_names_init_def using load_names_extends by blast
  then show ?thesis
    by (simp add: rt_names_lookup_append rt_names_static_def RT_TABLE_DEFAULT_def RT_TABLE_MAIN_def RT_TABLE_LOCAL_def)
qed

section \<open>Numbered lines\<close>

definition digits :: "string \<Rightarrow> bool" where
  "digits ds \<longleftrightarrow> ds \<noteq> [] \<and> (\<forall>c\<in>set ds. is_digit c)"

definition word_text :: "string \<Rightarrow> bool" where
  "word_text n \<longleftrightarrow> n \<noteq> [] \<and> (\<forall>c\<in>set n. \<not> is_space c)"

lemma digit_chars: "is_digit c \<Longrightarrow> \<not> is_space c \<and> c \<noteq> CHR ''-'' \<and> c \<noteq> CHR ''+'' \<and> c \<noteq> CHR ''x''"
  by (auto simp: is_digit_def in_range_def is_space_def)

lemma blank_chars: "is_blank c \<Longrightarrow> is_space c \<and> \<not> is_digit c \<and> c \<noteq> CHR ''x''"
  by (auto simp: is_digit_def in_range_def is_space_def is_blank_def)

lemma digit_val_nonneg: "is_digit c \<Longrightarrow> 0 \<le> digit_val c"
  by (auto simp: digit_val_def is_digit_def in_range_def)

lemma number_nonneg: "(\<forall>c\<in>set ds. is_digit c) \<Longrightarrow> 0 \<le> number 10 ds"
proof -
  have "(\<forall>c\<in>set ds. is_digit c) \<Longrightarrow> 0 \<le> n \<Longrightarrow> 0 \<le> foldl (\<lambda>n d. 10 * n + digit_val d) n ds" for n :: int
    by (induction ds arbitrary: n) (auto simp: digit_val_nonneg)
  then show "(\<forall>c\<in>set ds. is_digit c) \<Longrightarrow> 0 \<le> number 10 ds" by (simp add: number_def)
qed

lemma scan_sign_digits: "digits ds \<Longrightarrow> scan_sign (ds @ rest) = (False, ds @ rest)"
  by (cases ds) (auto simp: scan_sign_def digits_def dest: digit_chars)

lemma dropWhile_space_digits: "digits ds \<Longrightarrow> dropWhile is_space (ds @ rest) = ds @ rest"
  by (cases ds) (auto simp: digits_def dest: digit_chars)

lemma span_digits:
  assumes "digits ds" "is_blank b"
  shows "takeWhile is_digit (ds @ b # rest) = ds" "dropWhile is_digit (ds @ b # rest) = b # rest"
  using assms blank_chars [of b] by (simp_all add: digits_def)

lemma scan_d_digits:
  assumes "digits ds" "is_blank b" "number 10 ds < 2 ^ 31"
  shows "scan_d (ds @ b # rest) = Some (number 10 ds, b # rest)"
proof -
  have "0 \<le> number 10 ds" using assms(1) by (intro number_nonneg) (simp add: digits_def)
  with assms(3) have "to_int (number 10 ds) = number 10 ds" by (intro to_int_small) auto
  with assms(1,3) show ?thesis
    by (simp add: scan_d_def strtol_def dropWhile_space_digits scan_sign_digits span_digits [OF assms(1,2)] LONG_MAX_def
        digits_def [of ds])
qed

lemma scan_s_word:
  assumes "is_blank b" "word_text n"
  shows "scan_s (b # n @ CHR 0x0A # rest) = Some (n, CHR 0x0A # rest)"
proof -
  have nl: "is_space CHR 0x0A" by (simp add: is_space_def)
  have "dropWhile is_space (b # n @ CHR 0x0A # rest) = n @ CHR 0x0A # rest"
    using assms blank_chars by (cases n) (auto simp: word_text_def)
  moreover have "takeWhile (Not \<circ> is_space) (n @ CHR 0x0A # rest) = n"
    using assms(2) nl by (simp add: word_text_def)
  ultimately show ?thesis using assms(2) by (simp add: scan_s_def word_text_def)
qed

text \<open>A line with a decimal number and a name; the number zero leaves the variable alone.\<close>

lemma fread_decimal_line:
  assumes "digits ds" "is_blank b" "word_text n" "number 10 ds < 2 ^ 31"
  shows "rt_names_fread_id_name ((ds @ b # n @ [CHR 0x0A]) # bufs) i
    = Some (Inr n, if number 10 ds = 0 then i else word_of_int (number 10 ds), bufs)"
proof -
  obtain d ds' where ds: "ds = d # ds'" using assms(1) by (cases ds) (auto simp: digits_def)
  have d: "is_digit d" using assms(1) by (simp add: ds digits_def)
  have second: "take 2 (ds @ b # n @ [CHR 0x0A]) \<noteq> ''0x''"
    using assms(1,2) digit_chars blank_chars by (cases ds') (auto simp: ds digits_def numeral_2_eq_2)
  have "\<not> skip_line (ds @ b # n @ [CHR 0x0A])" "dropWhile is_blank (ds @ b # n @ [CHR 0x0A]) = ds @ b # n @ [CHR 0x0A]"
    using d by (auto simp: ds skip_line_def is_blank_def is_digit_def in_range_def)
  moreover have "0 \<le> number 10 ds" using assms(1) by (intro number_nonneg) (simp add: digits_def)
  ultimately show ?thesis
    using second assms
    by (simp add: scan_line_def sscanf_hex_def sscanf_dec_def scan_d_digits scan_s_word [where rest = "[]"])
qed

section \<open>Files of numbered lines\<close>

text \<open>
  A line of a file is a comment, or empty, or a decimal number, a blank and a name. The entries
  that the lines stand for: a name gets the number on its line, but with the number zero it gets
  the number of the line before it.
\<close>

type_synonym names_line = "string + string \<times> char \<times> string"

fun names_text :: "names_line \<Rightarrow> string" where
  "names_text (Inl comment) = comment"
| "names_text (Inr (ds, b, n)) = ds @ b # n"

fun names_line_ok :: "names_line \<Rightarrow> bool" where
  "names_line_ok (Inl comment) \<longleftrightarrow> comment = [] \<or> hd comment = CHR ''#''"
| "names_line_ok (Inr (ds, b, n)) \<longleftrightarrow> digits ds \<and> is_blank b \<and> word_text n \<and> number 10 ds < 2 ^ 31"

fun numbered :: "u32 \<Rightarrow> names_line list \<Rightarrow> rt_names_entry list" where
  "numbered i [] = []"
| "numbered i (Inl comment # ls) = numbered i ls"
| "numbered i (Inr (ds, b, n) # ls) =
     (let j = if number 10 ds = 0 then i else word_of_int (number 10 ds) in \<lparr>rt_id = j, rt_name = n\<rparr> # numbered j ls)"

lemma read_lines_comment:
  "skip_line (dropWhile is_blank buf) \<Longrightarrow> read_lines (buf # bufs) i es = read_lines bufs i es"
  by (simp add: read_lines.simps [of "buf # bufs"] read_lines.simps [of bufs i es])

lemma read_lines_numbered:
  "\<forall>l\<in>set ls. names_line_ok l \<Longrightarrow> read_lines (map (\<lambda>l. names_text l @ [CHR 0x0A]) ls) i es = (0, es @ numbered i ls)"
proof (induction i ls arbitrary: es rule: numbered.induct)
  case (1 i)
  show ?case by (simp add: read_lines.simps)
next
  case (2 i comment ls)
  have nl: "\<not> is_blank CHR 0x0A" "\<not> is_blank CHR ''#''" by (simp_all add: is_blank_def)
  have "skip_line (dropWhile is_blank (comment @ [CHR 0x0A]))"
    using 2(2) nl by (cases comment) (auto simp: skip_line_def)
  with 2 show ?case by (simp add: read_lines_comment)
next
  case (3 i ds b n ls)
  let ?j = "if number 10 ds = 0 then i else word_of_int (number 10 ds)"
  have "read_lines ((ds @ b # n @ [CHR 0x0A]) # bufs) i es = read_lines bufs ?j (rt_names_add_entry ?j n es)" for bufs
    using 3(2) by (simp add: read_lines.simps [of "(ds @ b # n @ [CHR 0x0A]) # bufs"] fread_decimal_line del: rt_names_fread_id_name.simps)
  with 3(1) [OF refl] 3(2) show ?case by (simp add: rt_names_add_entry_def Let_def)
qed

lemma rt_names_lookup_find:
  "rt_names_lookup name es = (case find (\<lambda>e. rt_name e = name) es of None \<Rightarrow> 0 | Some e \<Rightarrow> rt_id e)"
  by (induction es) auto

text \<open>C38. A file of numbered lines and comments is read without error: every numbered line enters its
  name under its number, after what was in the table, and a lookup finds the first entry of a
  name. But the number zero is taken for no number at all, and the name is entered under the
  number of the line before it.\<close>

theorem rt_names_decimal_line:
  assumes "files path = Inr (concat (map (\<lambda>l. names_text l @ [CHR 0x0A]) ls))"
    and "\<forall>l\<in>set ls. names_line_ok l" "\<forall>l\<in>set ls. CHR 0x0A \<notin> set (names_text l) \<and> CHR 0x00 \<notin> set (names_text l)"
    and "\<forall>l\<in>set ls. length (names_text l) \<le> 510"
  shows "rt_names_read_file files i path es = (0, es @ numbered i ls)
    \<and> rt_names_lookup name (snd (rt_names_read_file files i path es))
        = (case find (\<lambda>e. rt_name e = name) (es @ numbered i ls) of None \<Rightarrow> 0 | Some e \<Rightarrow> rt_id e)"
proof -
  have "fgets_all NAME_MAX_LEN (concat (map (\<lambda>l. l @ [CHR 0x0A]) (map names_text ls))) = map (\<lambda>l. l @ [CHR 0x0A]) (map names_text ls)"
    using assms(3,4) by (intro fgets_all_lines) (auto simp: NAME_MAX_LEN_def)
  then have "fgets_all NAME_MAX_LEN (concat (map (\<lambda>l. names_text l @ [CHR 0x0A]) ls)) = map (\<lambda>l. names_text l @ [CHR 0x0A]) ls"
    by (simp add: comp_def)
  with read_lines_numbered [OF assms(2), of i es] assms(1)
  have "rt_names_read_file files i path es = (0, es @ numbered i ls)" by (simp add: rt_names_read_file_def)
  then show ?thesis by (simp add: rt_names_lookup_find)
qed

definition demo_names :: "names_line list" where
  "demo_names = [Inl ''# tables'', Inr (''100'', CHR '' '', ''isp''), Inr (''0'', CHR 0x09, ''unspec'')]"

lemma rt_names_decimal_line_witness:
  "(let es = snd (rt_names_read_file (\<lambda>_. Inr (concat (map (\<lambda>l. names_text l @ [CHR 0x0A]) demo_names))) 7 ''rt_tables'' rt_names_static)
    in rt_names_lookup ''isp'' es = 100 \<and> rt_names_lookup ''unspec'' es = 100 \<and> rt_names_lookup ''main'' es = 254)"
proof -
  have ok: "\<forall>l\<in>set demo_names. names_line_ok l"
    "\<forall>l\<in>set demo_names. CHR 0x0A \<notin> set (names_text l) \<and> CHR 0x00 \<notin> set (names_text l)"
    "\<forall>l\<in>set demo_names. length (names_text l) \<le> 510"
    by code_simp+
  have entries: "numbered 7 demo_names = [\<lparr>rt_id = 100, rt_name = ''isp''\<rparr>, \<lparr>rt_id = 100, rt_name = ''unspec''\<rparr>]"
    by code_simp
  show ?thesis
    using rt_names_decimal_line [where i = 7 and es = rt_names_static and path = "''rt_tables''"
      and files = "\<lambda>_. Inr (concat (map (\<lambda>l. names_text l @ [CHR 0x0A]) demo_names))", OF refl ok]
    by (simp add: entries Let_def rt_names_static_def RT_TABLE_MAIN_def)
qed

text \<open>The fallback directory of the distribution is never consulted for \<open>rt_tables\<close>: the missing
  file is reported as a negative error number and compared with a positive one.\<close>

lemma rt_names_no_fallback:
  assumes "\<And>path err. files path = Inl err \<Longrightarrow> err > 0"
  shows "fst (rt_names_read_file files i path es) \<noteq> ENOENT"
proof -
  have "fst (read_lines bufs j es) \<le> 0" for bufs j es
  proof (induction bufs j es rule: read_lines.induct)
    case (1 bufs i es)
    then show ?case by (subst read_lines.simps) (auto split: option.split prod.split sum.split)
  qed
  then have "fst (read_lines bufs j es) \<noteq> 2" for bufs j es by (metis not_numeral_le_zero)
  moreover have "- err \<noteq> 2" if "files path = Inl err" for err using assms [OF that] by simp
  ultimately show ?thesis by (simp add: rt_names_read_file_def ENOENT_def split: sum.split)
qed

end
