(* ===== verification/Options.thy ===== *)
theory Options
  imports Onload RT_Names
begin

text \<open>
  \<open>src/options.c\<close>: the command line. \<open>getopt_long\<close> is the C library's: its answers are given in
  order, each with the option's code, its argument, and the next element of \<open>argv\<close> that
  \<open>get_second_argument\<close> looks at (none at the end). The run ends with an exit code or goes on with
  the configuration.
\<close>

datatype opt_code =
    Opt_iface | Opt_table | Opt_add_prefix | Opt_load_prefix | Opt_scan_interval | Opt_timeout
  | Opt_verbose | Opt_help | Opt_one_off | Opt_dry_run | Opt_skip_hw | Opt_version | Opt_unknown

record getopt_answer =
  go_code :: opt_code
  go_optarg :: string
  go_next :: "string option"

datatype run_modes = RUN_DAEMON | RUN_ONCE | SHOW_HELP | SHOW_VERSION

datatype exit_code = EXIT_SUCCESS | EXIT_FAILURE

text \<open>What the parser asks the system: addresses, files, interfaces and the routing tables' names.\<close>

record option_env =
  oe_inet_pton :: "u8 \<Rightarrow> string \<Rightarrow> bytes option"
  oe_files :: "string \<Rightarrow> int + string"
  oe_if_nametoindex :: "string \<Rightarrow> u32"
  oe_rt_names :: "rt_names_entry list"

definition UINT_MAX :: int where "UINT_MAX = 2 ^ 32 - 1"

definition validate_options :: "config \<Rightarrow> exit_code + config" where
  "validate_options cfg =
     (if cfg_table_id cfg = 0 then Inl EXIT_FAILURE
      else if cfg_ifidx cfg = 0 then Inl EXIT_FAILURE
      else Inr cfg)"

definition get_second_argument :: "string option \<Rightarrow> exit_code + string" where
  "get_second_argument next_arg =
     (case next_arg of
        None \<Rightarrow> Inl EXIT_FAILURE
      | Some a \<Rightarrow> if a \<noteq> [] \<and> hd a = CHR ''-'' then Inl EXIT_FAILURE else Inr a)"

definition parse_table_id :: "option_env \<Rightarrow> string \<Rightarrow> config \<Rightarrow> exit_code + config" where
  "parse_table_id env optarg cfg =
     (if cfg_table_id cfg \<noteq> 0 then Inl EXIT_FAILURE
      else
        (let t = rt_names_lookup optarg (oe_rt_names env);
             t = (if t = 0 then let (val, endptr) = strtol optarg in
                    if endptr = [] \<and> val \<ge> 0 \<and> val \<le> UINT_MAX then word_of_int val else t
                  else t) in
         if t = 0 then Inl EXIT_FAILURE else Inr (cfg\<lparr>cfg_table_id := t\<rparr>)))"

definition parse_iface :: "option_env \<Rightarrow> string \<Rightarrow> config \<Rightarrow> exit_code + config" where
  "parse_iface env optarg cfg =
     (if cfg_ifname cfg \<noteq> None then Inl EXIT_FAILURE
      else
        (let i = oe_if_nametoindex env optarg in
         if i \<noteq> 0 then Inr (cfg\<lparr>cfg_ifidx := i, cfg_ifname := Some optarg\<rparr>) else Inl EXIT_FAILURE))"

definition parse_seconds :: "string \<Rightarrow> exit_code + u32" where
  "parse_seconds optarg =
     (let (val, endptr) = strtol optarg in
      if endptr \<noteq> [] then Inl EXIT_FAILURE
      else if val \<le> 0 \<or> val > UINT_MAX then Inl EXIT_FAILURE
      else Inr (word_of_int val))"

definition parse_prefix ::
  "(string \<Rightarrow> string \<Rightarrow> config \<Rightarrow> int \<times> config) \<Rightarrow> getopt_answer \<Rightarrow> config \<Rightarrow> exit_code + config" where
  "parse_prefix add a cfg =
     (case get_second_argument (go_next a) of
        Inl e \<Rightarrow> Inl e
      | Inr arg2 \<Rightarrow>
          (let (ret, cfg) = add (go_optarg a) arg2 cfg in
           if ret = - EINVAL then Inl EXIT_FAILURE else Inr cfg))"

text \<open>One turn of the loop of \<open>options_parse\<close>.\<close>

definition parse_option :: "option_env \<Rightarrow> getopt_answer \<Rightarrow> run_modes \<Rightarrow> config \<Rightarrow> exit_code + run_modes \<times> config" where
  "parse_option env a mode cfg =
     (case go_code a of
        Opt_table \<Rightarrow> map_sum id (Pair mode) (parse_table_id env (go_optarg a) cfg)
      | Opt_iface \<Rightarrow> map_sum id (Pair mode) (parse_iface env (go_optarg a) cfg)
      | Opt_add_prefix \<Rightarrow> map_sum id (Pair mode) (parse_prefix (onload_add_prefix (oe_inet_pton env)) a cfg)
      | Opt_load_prefix \<Rightarrow> map_sum id (Pair mode) (parse_prefix (onload_load_prefixes (oe_inet_pton env) (oe_files env)) a cfg)
      | Opt_timeout \<Rightarrow> map_sum id (\<lambda>v. (mode, cfg\<lparr>cfg_timeout := v\<rparr>)) (parse_seconds (go_optarg a))
      | Opt_scan_interval \<Rightarrow> map_sum id (\<lambda>v. (mode, cfg\<lparr>cfg_scan_interval := v\<rparr>)) (parse_seconds (go_optarg a))
      | Opt_one_off \<Rightarrow> Inr (RUN_ONCE, cfg)
      | Opt_verbose \<Rightarrow> Inr (mode, cfg\<lparr>cfg_verbosity := cfg_verbosity cfg + 1\<rparr>)
      | Opt_help \<Rightarrow> Inr (SHOW_HELP, cfg)
      | Opt_dry_run \<Rightarrow> Inr (mode, cfg\<lparr>cfg_dry_run := 1\<rparr>)
      | Opt_skip_hw \<Rightarrow> Inr (mode, cfg\<lparr>cfg_flower_flags := TCA_CLS_FLAGS_SKIP_HW\<rparr>)
      | Opt_version \<Rightarrow> Inr (SHOW_VERSION, cfg)
      | Opt_unknown \<Rightarrow> Inl EXIT_FAILURE)"

fun parse_options :: "option_env \<Rightarrow> getopt_answer list \<Rightarrow> run_modes \<Rightarrow> config \<Rightarrow> exit_code + run_modes \<times> config" where
  "parse_options env [] mode cfg = Inr (mode, cfg)"
| "parse_options env (a # as) mode cfg =
     (case parse_option env a mode cfg of
        Inl e \<Rightarrow> Inl e
      | Inr (mode, cfg) \<Rightarrow> parse_options env as mode cfg)"

text \<open>\<open>too_many\<close>: \<open>optind < argc\<close> after the last option.\<close>

definition options_parse :: "option_env \<Rightarrow> getopt_answer list \<Rightarrow> bool \<Rightarrow> config \<Rightarrow> exit_code + config" where
  "options_parse env answers too_many cfg =
     (case parse_options env answers RUN_DAEMON cfg of
        Inl e \<Rightarrow> Inl e
      | Inr (mode, cfg) \<Rightarrow>
          if too_many then Inl EXIT_FAILURE
          else case mode of
            SHOW_HELP \<Rightarrow> Inl EXIT_SUCCESS
          | SHOW_VERSION \<Rightarrow> Inl EXIT_SUCCESS
          | RUN_ONCE \<Rightarrow> validate_options (cfg\<lparr>cfg_exit_after_first_sync := True\<rparr>)
          | RUN_DAEMON \<Rightarrow> validate_options cfg)"

section \<open>What a successful parse guarantees\<close>

definition has_opt :: "opt_code \<Rightarrow> getopt_answer list \<Rightarrow> bool" where
  "has_opt c as \<longleftrightarrow> c \<in> go_code ` set as"

definition opt_count :: "opt_code \<Rightarrow> getopt_answer list \<Rightarrow> nat" where
  "opt_count c as = length (filter (\<lambda>a. go_code a = c) as)"

lemma opt_simps [simp]:
  "has_opt c [] \<longleftrightarrow> False" "has_opt c (a # as) \<longleftrightarrow> go_code a = c \<or> has_opt c as"
  "opt_count c [] = 0" "opt_count c (a # as) = (if go_code a = c then Suc else id) (opt_count c as)"
  by (auto simp: has_opt_def opt_count_def)

text \<open>The argument of the last option of a kind.\<close>

definition last_arg :: "opt_code \<Rightarrow> getopt_answer list \<Rightarrow> string option" where
  "last_arg c as = (if has_opt c as then Some (go_optarg (last (filter (\<lambda>a. go_code a = c) as))) else None)"

lemma opt_append [simp]:
  "has_opt c (as @ bs) \<longleftrightarrow> has_opt c as \<or> has_opt c bs" "opt_count c (as @ bs) = opt_count c as + opt_count c bs"
  by (auto simp: has_opt_def opt_count_def)

lemma last_arg_simps [simp]:
  "last_arg c [] = None" "last_arg c (as @ [a]) = (if go_code a = c then Some (go_optarg a) else last_arg c as)"
  by (simp_all add: last_arg_def)

text \<open>
  The text of a number from 1 to \<open>UINT_MAX\<close>, with nothing after it; and what a table's text stands
  for: the number of the table of that name, if there is one, otherwise such a number.
\<close>

definition positive_number :: "string \<Rightarrow> int option" where
  "positive_number s = (case strtol s of (v, rest) \<Rightarrow> if rest = [] \<and> 0 < v \<and> v \<le> UINT_MAX then Some v else None)"

lemma positive_number_decimal:
  assumes "digits ds" "0 < number 10 ds" "number 10 ds \<le> UINT_MAX"
  shows "positive_number ds = Some (number 10 ds)"
proof -
  have "takeWhile is_digit ds = ds" "dropWhile is_digit ds = []" using assms(1) by (auto simp: digits_def)
  then have "strtol ds = (number 10 ds, [])"
    using assms dropWhile_space_digits [of ds "[]"] scan_sign_digits [of ds "[]"]
    by (simp add: strtol_def digits_def UINT_MAX_def LONG_MAX_def Let_def del: takeWhile_eq_all_conv dropWhile_eq_Nil_conv)
  then show ?thesis using assms(2,3) by (simp add: positive_number_def)
qed

definition table_given :: "option_env \<Rightarrow> string \<Rightarrow> u32 \<Rightarrow> bool" where
  "table_given env s t \<longleftrightarrow> t \<noteq> 0
     \<and> (if rt_names_lookup s (oe_rt_names env) \<noteq> 0 then t = rt_names_lookup s (oe_rt_names env)
        else positive_number s = Some (uint t))"

text \<open>What a number of seconds is when the option is given, and when it is not.\<close>

definition seconds_given :: "opt_code \<Rightarrow> u32 \<Rightarrow> getopt_answer list \<Rightarrow> u32 \<Rightarrow> bool" where
  "seconds_given c dflt as v \<longleftrightarrow> (case last_arg c as of None \<Rightarrow> v = dflt | Some s \<Rightarrow> positive_number s = Some (uint v))"

definition table_opt :: "option_env \<Rightarrow> getopt_answer list \<Rightarrow> u32 \<Rightarrow> bool" where
  "table_opt env as t \<longleftrightarrow> (case last_arg Opt_table as of None \<Rightarrow> t = 0 | Some s \<Rightarrow> table_given env s t)"

definition iface_opt :: "option_env \<Rightarrow> getopt_answer list \<Rightarrow> string option \<Rightarrow> u32 \<Rightarrow> bool" where
  "iface_opt env as name idx \<longleftrightarrow> name = last_arg Opt_iface as \<and>
     (case name of None \<Rightarrow> idx = 0 | Some s \<Rightarrow> idx \<noteq> 0 \<and> idx = oe_if_nametoindex env s)"

lemma given_append [simp]:
  "seconds_given c dflt (as @ [a]) v \<longleftrightarrow>
     (if go_code a = c then positive_number (go_optarg a) = Some (uint v) else seconds_given c dflt as v)"
  "table_opt env (as @ [a]) t \<longleftrightarrow> (if go_code a = Opt_table then table_given env (go_optarg a) t else table_opt env as t)"
  "go_code a \<noteq> Opt_iface \<Longrightarrow> iface_opt env (as @ [a]) name idx \<longleftrightarrow> iface_opt env as name idx"
  by (simp_all add: seconds_given_def table_opt_def iface_opt_def)

text \<open>Adding prefixes touches the prefix lists only.\<close>

definition same_options :: "config \<Rightarrow> config \<Rightarrow> bool" where
  "same_options cfg cfg' \<longleftrightarrow> (\<exists>ls. cfg' = cfg\<lparr>cfg_prefix_lists := ls\<rparr>)"

lemma same_options_refl [simp]: "same_options cfg cfg"
  unfolding same_options_def by (rule exI [of _ "cfg_prefix_lists cfg"]) simp

lemma same_options_trans: "same_options a b \<Longrightarrow> same_options b c \<Longrightarrow> same_options a c"
  by (auto simp: same_options_def)

lemma add_prefix_same: "same_options cfg (snd (onload_add_prefix f list_name text cfg))"
  by (auto simp: onload_add_prefix_def Let_def onload_store_prefix_def split: option.split prod.split)
    (auto simp: same_options_def)

lemma fread_lines_same: "same_options cfg (snd (fread_lines f list_name bufs cfg))"
proof (induction bufs arbitrary: cfg)
  case (Cons buf bufs)
  show ?case
    using add_prefix_same [of cfg f list_name] Cons.IH
    by (auto split: option.split prod.split intro: same_options_trans) (metis snd_conv same_options_trans)+
qed simp

lemma load_prefixes_same: "same_options cfg (snd (onload_load_prefixes f files list_name path cfg))"
  by (auto simp: onload_load_prefixes_def onload_fread_prefix_def fread_lines_same split: sum.split)

lemma parse_prefix_same:
  assumes "\<And>x y cfg. same_options cfg (snd (add x y cfg))" and "parse_prefix add a cfg = Inr cfg'"
  shows "same_options cfg cfg'"
  using assms(2) assms(1) [of cfg "go_optarg a"]
  by (auto simp: parse_prefix_def Let_def split: sum.splits prod.splits if_splits) (metis snd_conv)

lemma same_options_sel:
  assumes "same_options cfg cfg'"
  shows "cfg_table_id cfg' = cfg_table_id cfg" "cfg_ifidx cfg' = cfg_ifidx cfg" "cfg_ifname cfg' = cfg_ifname cfg"
    "cfg_scan_interval cfg' = cfg_scan_interval cfg" "cfg_timeout cfg' = cfg_timeout cfg" "cfg_dry_run cfg' = cfg_dry_run cfg"
    "cfg_flower_flags cfg' = cfg_flower_flags cfg" "cfg_verbosity cfg' = cfg_verbosity cfg"
    "cfg_exit_after_first_sync cfg' = cfg_exit_after_first_sync cfg"
  using assms by (auto simp: same_options_def)

text \<open>What the options given so far have made of the configuration.\<close>

definition options_inv :: "option_env \<Rightarrow> getopt_answer list \<Rightarrow> run_modes \<Rightarrow> config \<Rightarrow> bool" where
  "options_inv env as mode cfg \<longleftrightarrow>
     opt_count Opt_table as = (if cfg_table_id cfg = 0 then 0 else 1)
     \<and> opt_count Opt_iface as = (if cfg_ifname cfg = None then 0 else 1)
     \<and> table_opt env as (cfg_table_id cfg)
     \<and> iface_opt env as (cfg_ifname cfg) (cfg_ifidx cfg)
     \<and> seconds_given Opt_scan_interval 10 as (cfg_scan_interval cfg)
     \<and> seconds_given Opt_timeout 0 as (cfg_timeout cfg)
     \<and> (\<forall>a\<in>set as. go_code a \<in> {Opt_scan_interval, Opt_timeout} \<longrightarrow> positive_number (go_optarg a) \<noteq> None)
     \<and> \<not> has_opt Opt_unknown as
     \<and> cfg_dry_run cfg = (if has_opt Opt_dry_run as then 1 else 0)
     \<and> cfg_flower_flags cfg = (if has_opt Opt_skip_hw as then TCA_CLS_FLAGS_SKIP_HW else TCA_CLS_FLAGS_SKIP_SW OR TCA_CLS_FLAGS_IN_HW)
     \<and> cfg_verbosity cfg = of_nat (opt_count Opt_verbose as)
     \<and> \<not> cfg_exit_after_first_sync cfg
     \<and> (mode = RUN_ONCE \<longrightarrow> has_opt Opt_one_off as) \<and> (mode = RUN_DAEMON \<longrightarrow> \<not> has_opt Opt_one_off as)"

lemma options_inv_same: "options_inv env as mode cfg \<Longrightarrow> same_options cfg cfg' \<Longrightarrow> options_inv env as mode cfg'"
  unfolding same_options_def by (elim exE) (simp add: options_inv_def)

lemma parse_seconds_given: "parse_seconds s = Inr v \<Longrightarrow> positive_number s = Some (uint v)"
proof -
  assume "parse_seconds s = Inr v"
  then obtain val where val: "0 < val" "val \<le> UINT_MAX" "v = word_of_int val" "strtol s = (val, [])"
    by (auto simp: parse_seconds_def Let_def not_le not_less split: prod.splits if_splits)
  then have "uint v = val" by (simp add: UINT_MAX_def uint_word_of_int_eq take_bit_int_eq_self)
  with val show ?thesis by (simp add: positive_number_def)
qed

lemma map_sum_Inr: "map_sum id f x = Inr y \<longleftrightarrow> (\<exists>z. x = Inr z \<and> y = f z)"
  by (cases x) auto

lemma parse_table_id_InrD:
  assumes "parse_table_id env s cfg = Inr cfg'"
  shows "cfg_table_id cfg = 0 \<and> (\<exists>t. table_given env s t \<and> cfg' = cfg\<lparr>cfg_table_id := t\<rparr>)"
proof -
  let ?n = "rt_names_lookup s (oe_rt_names env)"
  obtain val rest where v: "strtol s = (val, rest)" by fastforce
  have "table_given env s (word_of_int val)" if "?n = 0" "rest = []" "0 \<le> val" "val \<le> UINT_MAX" "word_of_int val \<noteq> (0 :: u32)"
  proof -
    have "uint (word_of_int val :: u32) = val" using that by (simp add: UINT_MAX_def uint_word_of_int_eq take_bit_int_eq_self)
    moreover have "val \<noteq> 0" using that(5) by auto
    ultimately show ?thesis using that v by (simp add: table_given_def positive_number_def)
  qed
  moreover have "table_given env s ?n" if "?n \<noteq> 0" using that by (simp add: table_given_def)
  ultimately show ?thesis
    using assms v unfolding parse_table_id_def by (auto simp: Let_def split: if_split_asm)
qed

lemma parse_iface_InrD:
  "parse_iface env s cfg = Inr cfg' \<Longrightarrow> cfg_ifname cfg = None \<and> oe_if_nametoindex env s \<noteq> 0
    \<and> cfg' = cfg\<lparr>cfg_ifidx := oe_if_nametoindex env s, cfg_ifname := Some s\<rparr>"
  unfolding parse_iface_def by (auto simp: Let_def split: if_split_asm)

lemma parse_option_table:
  assumes "options_inv env as mode cfg" "parse_option env a mode cfg = Inr (mode', cfg')" "go_code a = Opt_table"
  shows "options_inv env (as @ [a]) mode' cfg'"
proof -
  obtain t where "cfg_table_id cfg = 0" "table_given env (go_optarg a) t" "mode' = mode" "cfg' = cfg\<lparr>cfg_table_id := t\<rparr>"
    using assms(2,3) by (auto simp: parse_option_def map_sum_Inr dest!: parse_table_id_InrD)
  with assms(1,3) show ?thesis by (simp add: options_inv_def table_given_def)
qed

lemma parse_option_iface:
  assumes "options_inv env as mode cfg" "parse_option env a mode cfg = Inr (mode', cfg')" "go_code a = Opt_iface"
  shows "options_inv env (as @ [a]) mode' cfg'"
proof -
  have "cfg_ifname cfg = None" "oe_if_nametoindex env (go_optarg a) \<noteq> 0" "mode' = mode"
    "cfg' = cfg\<lparr>cfg_ifidx := oe_if_nametoindex env (go_optarg a), cfg_ifname := Some (go_optarg a)\<rparr>"
    using assms(2,3) by (auto simp: parse_option_def map_sum_Inr dest!: parse_iface_InrD)
  with assms(1,3) show ?thesis by (simp add: options_inv_def iface_opt_def)
qed

lemma parse_option_inv:
  assumes "options_inv env as mode cfg" "parse_option env a mode cfg = Inr (mode', cfg')"
  shows "options_inv env (as @ [a]) mode' cfg'"
proof (cases "go_code a")
  case Opt_table
  with assms show ?thesis by (blast intro: parse_option_table)
next
  case Opt_iface
  with assms show ?thesis by (blast intro: parse_option_iface)
next
  case Opt_add_prefix
  with assms(2) have "mode' = mode" "same_options cfg cfg'"
    by (auto simp: parse_option_def map_sum_Inr intro: parse_prefix_same [OF add_prefix_same])
  with options_inv_same [OF assms(1)] Opt_add_prefix show ?thesis by (simp add: options_inv_def)
next
  case Opt_load_prefix
  with assms(2) have "mode' = mode" "same_options cfg cfg'"
    by (auto simp: parse_option_def map_sum_Inr intro: parse_prefix_same [OF load_prefixes_same])
  with options_inv_same [OF assms(1)] Opt_load_prefix show ?thesis by (simp add: options_inv_def)
next
  case Opt_scan_interval
  then obtain v where "parse_seconds (go_optarg a) = Inr v" "mode' = mode" "cfg' = cfg\<lparr>cfg_scan_interval := v\<rparr>"
    using assms(2) by (cases "parse_seconds (go_optarg a)") (auto simp: parse_option_def)
  with Opt_scan_interval assms(1) parse_seconds_given show ?thesis by (simp add: options_inv_def)
next
  case Opt_timeout
  then obtain v where "parse_seconds (go_optarg a) = Inr v" "mode' = mode" "cfg' = cfg\<lparr>cfg_timeout := v\<rparr>"
    using assms(2) by (cases "parse_seconds (go_optarg a)") (auto simp: parse_option_def)
  with Opt_timeout assms(1) parse_seconds_given show ?thesis by (simp add: options_inv_def)
next
  case Opt_verbose
  with assms have "mode' = mode" "cfg' = cfg\<lparr>cfg_verbosity := cfg_verbosity cfg + 1\<rparr>" by (auto simp: parse_option_def)
  with assms(1) Opt_verbose show ?thesis by (simp add: options_inv_def)
next
  case Opt_help
  with assms have "mode' = SHOW_HELP" "cfg' = cfg" by (auto simp: parse_option_def)
  with assms(1) Opt_help show ?thesis by (simp add: options_inv_def)
next
  case Opt_one_off
  with assms have "mode' = RUN_ONCE" "cfg' = cfg" by (auto simp: parse_option_def)
  with assms(1) Opt_one_off show ?thesis by (simp add: options_inv_def)
next
  case Opt_dry_run
  with assms have "mode' = mode" "cfg' = cfg\<lparr>cfg_dry_run := 1\<rparr>" by (auto simp: parse_option_def)
  with assms(1) Opt_dry_run show ?thesis by (simp add: options_inv_def)
next
  case Opt_skip_hw
  with assms have "mode' = mode" "cfg' = cfg\<lparr>cfg_flower_flags := TCA_CLS_FLAGS_SKIP_HW\<rparr>" by (auto simp: parse_option_def)
  with assms(1) Opt_skip_hw show ?thesis by (simp add: options_inv_def)
next
  case Opt_version
  with assms have "mode' = SHOW_VERSION" "cfg' = cfg" by (auto simp: parse_option_def)
  with assms(1) Opt_version show ?thesis by (simp add: options_inv_def)
next
  case Opt_unknown
  with assms show ?thesis by (simp add: parse_option_def)
qed

lemma parse_options_inv:
  "options_inv env as mode cfg \<Longrightarrow> parse_options env bs mode cfg = Inr (mode', cfg') \<Longrightarrow> options_inv env (as @ bs) mode' cfg'"
proof (induction bs arbitrary: as mode cfg)
  case (Cons b bs)
  then obtain m c where step: "parse_option env b mode cfg = Inr (m, c)" "parse_options env bs m c = Inr (mode', cfg')"
    by (auto split: sum.splits)
  from Cons.IH [OF parse_option_inv [OF Cons.prems(1) step(1)] step(2)] show ?case by simp
qed simp


definition demo_answers :: "getopt_answer list" where
  "demo_answers = [\<lparr>go_code = Opt_iface, go_optarg = ''eth0'', go_next = None\<rparr>,
     \<lparr>go_code = Opt_table, go_optarg = ''100'', go_next = None\<rparr>,
     \<lparr>go_code = Opt_timeout, go_optarg = ''60'', go_next = None\<rparr>,
     \<lparr>go_code = Opt_scan_interval, go_optarg = ''30'', go_next = None\<rparr>,
     \<lparr>go_code = Opt_one_off, go_optarg = [], go_next = None\<rparr>]"

definition demo_env :: option_env where
  "demo_env = \<lparr>oe_inet_pton = \<lambda>_ _. None, oe_files = \<lambda>_. Inl 2, oe_if_nametoindex = \<lambda>_. 7, oe_rt_names = rt_names_static\<rparr>"


end
