(* ===== verification/Onload_Props.thy ===== *)
theory Onload_Props
  imports Onload
begin

text \<open>
  The prefix lists as a map from names to lists of prefixes; what adding a prefix stores; the
  lines of a prefix file.
\<close>

section \<open>The lists as a map\<close>

definition prefix_map :: "config \<Rightarrow> string \<Rightarrow> af_addr list" where
  "prefix_map cfg list_name = (case onload_lookup_prefix_list list_name cfg of None \<Rightarrow> [] | Some l \<Rightarrow> pl_entries l)"

lemma find_store_entry:
  "find (\<lambda>l. pl_name l = x) (store_entry list_name pfx ls) =
     (if x = list_name then Some (case find (\<lambda>l. pl_name l = x) ls of None \<Rightarrow> \<lparr>pl_name = x, pl_entries = [pfx]\<rparr>
        | Some l \<Rightarrow> l\<lparr>pl_entries := pl_entries l @ [pfx]\<rparr>)
      else find (\<lambda>l. pl_name l = x) ls)"
  by (induction ls) auto

text \<open>Storing a prefix appends it to the list of its name, creating the list when there is none, and
  leaves every other list and the rest of the configuration alone.\<close>

theorem onload_store_prefix_correct:
  "prefix_map (onload_store_prefix list_name pfx cfg)
     = (prefix_map cfg)(list_name := prefix_map cfg list_name @ [pfx])
   \<and> (onload_store_prefix list_name pfx cfg)\<lparr>cfg_prefix_lists := cfg_prefix_lists cfg\<rparr> = cfg"
  by (auto simp: fun_eq_iff prefix_map_def onload_lookup_prefix_list_def onload_store_prefix_def find_store_entry
      split: option.splits)

section \<open>What is stored\<close>

text \<open>\<open>inet_pton\<close> yields four bytes for an IPv4 address and sixteen for an IPv6 address.\<close>

definition inet_pton_ok :: "(u8 \<Rightarrow> string \<Rightarrow> bytes option) \<Rightarrow> bool" where
  "inet_pton_ok f \<longleftrightarrow> (\<forall>s bs. (f AF_INET s = Some bs \<longrightarrow> length bs = 4) \<and> (f AF_INET6 s = Some bs \<longrightarrow> length bs = 16))"

lemma inet_pton_over_zero:
  assumes "4 \<le> length bs" "length bs \<le> 20"
  shows "aa_in (inet_pton_over bs zero_af_addr) = drop 4 bs @ replicate (20 - length bs) 0"
    and "aa_pad (inet_pton_over bs zero_af_addr) = take 2 (drop 2 bs)"
proof -
  have z: "af_addr_bytes zero_af_addr = replicate 20 0"
    by (simp add: af_addr_bytes_def zero_af_addr_def numeral_eq_Suc)
  show "aa_in (inet_pton_over bs zero_af_addr) = drop 4 bs @ replicate (20 - length bs) 0"
    using assms by (simp add: inet_pton_over_def af_addr_of_bytes_def z)
  show "aa_pad (inet_pton_over bs zero_af_addr) = take 2 (drop 2 bs)"
    using assms by (simp add: inet_pton_over_def af_addr_of_bytes_def z)
qed

lemma small_u8: "0 \<le> v \<Longrightarrow> v \<le> 128 \<Longrightarrow> uint (word_of_int v :: u8) = v"
  by (simp add: uint_word_of_int_eq take_bit_int_eq_self)

text \<open>The text before the slash, the family it names with the limit of its mask, and what is stored.\<close>

definition ip_text :: "string \<Rightarrow> string" where
  "ip_text text = takeWhile (\<lambda>c. c \<noteq> CHR ''/'') text"

definition text_af :: "string \<Rightarrow> u8" where
  "text_af text = (if CHR '':'' \<notin> set (ip_text text) then AF_INET else AF_INET6)"

definition mask_limit :: "u8 \<Rightarrow> int" where
  "mask_limit f = (if f = AF_INET then 32 else 128)"

definition parsed_prefix :: "u8 \<Rightarrow> bytes \<Rightarrow> int \<Rightarrow> af_addr" where
  "parsed_prefix f bs v = (inet_pton_over bs zero_af_addr)\<lparr>aa_mask_len := word_of_int v, aa_af := f\<rparr>"

lemma onload_add_prefix_eq:
  "onload_add_prefix inet_pton list_name text cfg =
    (case inet_pton (text_af text) (ip_text text) of None \<Rightarrow> (- EINVAL, cfg)
     | Some bs \<Rightarrow> (case if CHR ''/'' \<in> set text then Some (drop (Suc (length (ip_text text))) text) else None of
         None \<Rightarrow> (0, onload_store_prefix list_name (parsed_prefix (text_af text) bs (mask_limit (text_af text))) cfg)
       | Some m \<Rightarrow> (case strtol m of (v, endptr) \<Rightarrow>
           if endptr \<noteq> [] then (- EINVAL, cfg)
           else if to_int v < 0 \<or> to_int v > mask_limit (text_af text) then (- EINVAL, cfg)
           else (0, onload_store_prefix list_name (parsed_prefix (text_af text) bs (to_int v)) cfg))))"
  unfolding onload_add_prefix_def Let_def mask_limit_def text_af_def ip_text_def parsed_prefix_def by (rule refl)

text \<open>
  The mask length that a text names: the limit of its family without a slash, otherwise the number
  after the slash, if it is nothing but a number and is within the limit.
\<close>

definition text_mask :: "string \<Rightarrow> int option" where
  "text_mask text = (if CHR ''/'' \<notin> set text then Some (mask_limit (text_af text))
     else case strtol (drop (Suc (length (ip_text text))) text) of (v, rest) \<Rightarrow>
       if rest = [] \<and> 0 \<le> to_int v \<and> to_int v \<le> mask_limit (text_af text) then Some (to_int v) else None)"

lemma text_mask_bounds: "text_mask text = Some v \<Longrightarrow> 0 \<le> v \<and> v \<le> mask_limit (text_af text)"
  by (auto simp: text_mask_def mask_limit_def split: if_splits prod.splits)

lemma number_digits: "\<forall>c\<in>set ds. is_digit c \<Longrightarrow> 0 \<le> n \<Longrightarrow> n \<le> foldl (\<lambda>n d. 10 * n + digit_val d) n ds"
proof (induction ds arbitrary: n)
  case (Cons d ds)
  then have "0 \<le> digit_val d" by (auto simp: digit_val_def is_digit_def in_range_def)
  with Cons show ?case by (auto intro: order_trans [of n "10 * n + digit_val d"])
qed simp

text \<open>In particular a decimal number after the slash is the mask length.\<close>

lemma text_mask_decimal:
  assumes "CHR ''/'' \<notin> set addr" "ds \<noteq> []" "\<forall>c\<in>set ds. is_digit c"
    and "number 10 ds \<le> mask_limit (text_af (addr @ CHR ''/'' # ds))"
  shows "text_mask (addr @ CHR ''/'' # ds) = Some (number 10 ds)"
proof -
  have ip: "ip_text (addr @ CHR ''/'' # ds) = addr" using assms(1) unfolding ip_text_def by (subst takeWhile_append2) auto
  have 0: "0 \<le> number 10 ds" using number_digits [OF assms(3), of 0] by (simp add: number_def)
  have le: "number 10 ds \<le> 128" using assms(4) by (simp add: mask_limit_def split: if_splits)
  obtain c cs where c: "ds = c # cs" "is_digit c" using assms(2,3) by (cases ds) auto
  then have sp: "dropWhile is_space ds = ds" "scan_sign ds = (False, ds)"
    by (auto simp: is_space_def is_digit_def in_range_def scan_sign_def)
  have "strtol ds = (number 10 ds, [])"
    using sp c assms(3) le by (simp add: strtol_def LONG_MAX_def takeWhile_eq_all_conv [THEN iffD2] dropWhile_eq_Nil_conv [THEN iffD2])
  then show ?thesis using 0 le assms(4) by (simp add: text_mask_def ip to_int_small)
qed

lemma onload_add_prefix_run:
  "onload_add_prefix inet_pton list_name text cfg =
    (case (inet_pton (text_af text) (ip_text text), text_mask text) of
       (Some bs, Some v) \<Rightarrow> (0, onload_store_prefix list_name (parsed_prefix (text_af text) bs v) cfg)
     | _ \<Rightarrow> (- EINVAL, cfg))"
  by (auto simp: onload_add_prefix_eq text_mask_def not_less not_le split: option.split prod.split)

lemma onload_add_prefix_cases:
  assumes "onload_add_prefix inet_pton list_name text cfg = (ret, cfg')"
  obtains "ret = - EINVAL" "cfg' = cfg"
  | bs v where "inet_pton (text_af text) (ip_text text) = Some bs" "0 \<le> v" "v \<le> mask_limit (text_af text)"
      "ret = 0" "cfg' = onload_store_prefix list_name (parsed_prefix (text_af text) bs v) cfg"
  using assms text_mask_bounds [of "text"] by (auto simp: onload_add_prefix_run split: option.splits)

lemma parsed_prefix_ok:
  assumes "inet_pton_ok inet_pton" "inet_pton (text_af text) s = Some bs" "0 \<le> v" "v \<le> mask_limit (text_af text)"
  shows "wf_af_addr (parsed_prefix (text_af text) bs v)"
    "aa_af (parsed_prefix (text_af text) bs v) = text_af text"
    "text_af text = AF_INET \<and> uint (aa_mask_len (parsed_prefix (text_af text) bs v)) \<le> 32
      \<or> text_af text = AF_INET6 \<and> uint (aa_mask_len (parsed_prefix (text_af text) bs v)) \<le> 128"
    "aa_in (parsed_prefix (text_af text) bs v) = drop 4 bs @ replicate (20 - length bs) 0"
    "aa_pad (parsed_prefix (text_af text) bs v) = take 2 (drop 2 bs)"
proof -
  have f: "text_af text = AF_INET \<or> text_af text = AF_INET6" by (simp add: text_af_def)
  then have len: "length bs = 4 \<or> length bs = 16" using assms(1,2) by (auto simp: inet_pton_ok_def)
  then have over: "aa_in (inet_pton_over bs zero_af_addr) = drop 4 bs @ replicate (20 - length bs) 0"
    "aa_pad (inet_pton_over bs zero_af_addr) = take 2 (drop 2 bs)"
    by (intro inet_pton_over_zero; auto)+
  then show "wf_af_addr (parsed_prefix (text_af text) bs v)"
    "aa_in (parsed_prefix (text_af text) bs v) = drop 4 bs @ replicate (20 - length bs) 0"
    "aa_pad (parsed_prefix (text_af text) bs v) = take 2 (drop 2 bs)"
    using len by (auto simp: parsed_prefix_def wf_af_addr_def)
  show "aa_af (parsed_prefix (text_af text) bs v) = text_af text" by (simp add: parsed_prefix_def)
  show "text_af text = AF_INET \<and> uint (aa_mask_len (parsed_prefix (text_af text) bs v)) \<le> 32
      \<or> text_af text = AF_INET6 \<and> uint (aa_mask_len (parsed_prefix (text_af text) bs v)) \<le> 128"
    using f small_u8 [OF assms(3)] assms(4) by (auto simp: parsed_prefix_def mask_limit_def split: if_splits)
qed


section \<open>Prefix files\<close>

definition prefix_char :: "char \<Rightarrow> bool" where
  "prefix_char c \<longleftrightarrow> is_xdigit c \<or> c = CHR ''.'' \<or> c = CHR '':'' \<or> c = CHR ''/''"

lemma dropWhile_imp: "(\<And>x. P x \<Longrightarrow> Q x) \<Longrightarrow> dropWhile Q (dropWhile P xs) = dropWhile Q xs"
  by (induction xs) auto

lemma dropWhile_all: "(\<And>x. P x \<Longrightarrow> Q x) \<Longrightarrow> dropWhile P xs = ys \<Longrightarrow> dropWhile Q ys = dropWhile Q xs"
  using dropWhile_imp by blast

lemma token_turn_skips: "dropWhile prefix_char (token_turn p) = dropWhile prefix_char p"
proof -
  have "dropWhile prefix_char (dropWhile P q) = dropWhile prefix_char q"
    if "P = in_range CHR ''0'' CHR ''9'' \<or> P = in_range CHR ''a'' CHR ''f'' \<or> P = in_range CHR ''A'' CHR ''F''
      \<or> P = (\<lambda>c. c = CHR ''.'' \<or> c = CHR '':'' \<or> c = CHR ''/'')" for P q
    using that by (intro dropWhile_imp) (auto simp: prefix_char_def is_xdigit_def is_digit_def)
  then show ?thesis by (simp add: token_turn_def)
qed

lemma token_turn_stuck:
  assumes "\<not> length (token_turn p) < length p"
  shows "token_turn p = p \<and> dropWhile prefix_char p = p"
proof (cases p)
  case (Cons c cs)
  have drop: "length (dropWhile P q) \<le> length q" for P and q :: string by (rule length_dropWhile_le)
  have "\<not> prefix_char c"
  proof
    assume "prefix_char c"
    then have "length (token_turn p) \<le> length cs"
      unfolding token_turn_def Cons prefix_char_def is_xdigit_def is_digit_def
      by (auto intro: order_trans [OF drop] split: if_splits)
    with assms Cons show False by simp
  qed
  then show ?thesis
    by (auto simp: Cons token_turn_def prefix_char_def is_xdigit_def is_digit_def)
qed (simp add: token_turn_def)

text \<open>The nested loops that skip a prefix stop at the first character that cannot be part of one.\<close>

lemma token_end_eq: "token_end p = dropWhile prefix_char p"
proof (induction p rule: token_end.induct)
  case (1 p)
  show ?case
  proof (cases "length (token_turn p) < length p")
    case True
    with 1 show ?thesis by (subst token_end.simps) (simp add: token_turn_skips)
  next
    case False
    from token_turn_stuck [OF this] False show ?thesis by (subst token_end.simps) simp
  qed
qed

text \<open>A line of a prefix file: a prefix between blanks, and a comment; or no prefix at all.\<close>

definition comment_ok :: "string \<Rightarrow> bool" where
  "comment_ok com \<longleftrightarrow> (com = [] \<or> hd com = CHR ''#'') \<and> CHR 0x0A \<notin> set com \<and> CHR 0x00 \<notin> set com"

fun line_text :: "string \<times> string \<times> string \<times> string \<Rightarrow> string" where
  "line_text (ws, t, ws', com) = ws @ t @ ws' @ com"

fun line_ok :: "string \<times> string \<times> string \<times> string \<Rightarrow> bool" where
  "line_ok (ws, t, ws', com) \<longleftrightarrow> (\<forall>c\<in>set ws \<union> set ws'. is_blank c) \<and> (\<forall>c\<in>set t. prefix_char c) \<and> comment_ok com
     \<and> length (line_text (ws, t, ws', com)) < 511"

definition line_token :: "string \<times> string \<times> string \<times> string \<Rightarrow> string" where
  "line_token l = fst (snd l)"

lemma blank_prefix_char:
  "is_blank c \<Longrightarrow> \<not> prefix_char c" "prefix_char c \<Longrightarrow> c \<noteq> CHR ''#'' \<and> c \<noteq> CHR 0x0A \<and> c \<noteq> CHR 0x00"
  "is_blank c \<Longrightarrow> c \<noteq> CHR ''#'' \<and> c \<noteq> CHR 0x0A \<and> c \<noteq> CHR 0x00"
  by (auto simp: is_blank_def prefix_char_def is_xdigit_def is_digit_def in_range_def)

lemma dropWhile_append_all: "(\<forall>c\<in>set xs. P c) \<Longrightarrow> dropWhile P (xs @ ys) = dropWhile P ys"
  by (induction xs) auto

lemma comment_at_end:
  assumes "comment_ok com"
  shows "at_end (com @ [CHR 0x0A])" "dropWhile is_blank (com @ [CHR 0x0A]) = com @ [CHR 0x0A]"
    "dropWhile prefix_char (com @ [CHR 0x0A]) = com @ [CHR 0x0A]"
  using assms blank_prefix_char by (cases com; fastforce simp: comment_ok_def at_end_def)+

lemma line_prefix_line:
  assumes "line_ok l"
  shows "line_prefix (line_text l @ [CHR 0x0A]) = (if line_token l = [] then None else Some (line_token l))"
proof -
  obtain ws t ws' com where l: "l = (ws, t, ws', com)" by (cases l)
  let ?tail = "com @ [CHR 0x0A]"
  have ok: "\<forall>c\<in>set ws. is_blank c" "\<forall>c\<in>set ws'. is_blank c" "\<forall>c\<in>set t. prefix_char c" "comment_ok com"
    using assms by (auto simp: l)
  note ends = comment_at_end [OF ok(4)]
  have rest: "dropWhile prefix_char (ws' @ ?tail) = ws' @ ?tail"
    using ok(2) ends(3) blank_prefix_char(1) by (cases ws') auto
  show ?thesis
  proof (cases t)
    case Nil
    with ok ends show ?thesis by (simp add: l line_prefix_def line_token_def dropWhile_append_all)
  next
    case (Cons c cs)
    then have c: "prefix_char c" using ok(3) by simp
    then have "dropWhile is_blank (t @ ws' @ ?tail) = t @ ws' @ ?tail"
      using blank_prefix_char(1) by (auto simp: Cons)
    moreover have "\<not> at_end (t @ ws' @ ?tail)" using c blank_prefix_char(2) by (auto simp: Cons at_end_def)
    moreover have "token_end (t @ ws' @ ?tail) = ws' @ ?tail"
      using ok(3) rest by (simp add: token_end_eq dropWhile_append_all)
    ultimately show ?thesis
      using ok ends Cons by (simp add: l line_prefix_def line_token_def dropWhile_append_all Let_def)
  qed
qed

text \<open>The prefixes of a list of texts, added until one is refused.\<close>

fun add_prefixes :: "(u8 \<Rightarrow> string \<Rightarrow> bytes option) \<Rightarrow> string \<Rightarrow> string list \<Rightarrow> config \<Rightarrow> int \<times> config" where
  "add_prefixes inet_pton list_name [] cfg = (0, cfg)"
| "add_prefixes inet_pton list_name (t # ts) cfg =
     (let (ret, cfg) = onload_add_prefix inet_pton list_name t cfg in
      if ret \<noteq> 0 then (ret, cfg) else add_prefixes inet_pton list_name ts cfg)"

text \<open>C37. A file of lines, each with at most one prefix between blanks and before a comment, and shorter
  than the line buffer, loads as the prefixes on its lines, in order, up to the first one that
  is refused.\<close>

theorem onload_load_prefixes_correct:
  assumes "files path = Inr (concat (map (\<lambda>l. line_text l @ [CHR 0x0A]) ls))" and "\<forall>l\<in>set ls. line_ok l"
  shows "onload_load_prefixes inet_pton files list_name path cfg
    = add_prefixes inet_pton list_name (filter (\<lambda>t. t \<noteq> []) (map line_token ls)) cfg"
proof -
  have line: "CHR 0x0A \<notin> set t \<and> CHR 0x00 \<notin> set t \<and> Suc (length t) < LINE_MAX_LEN" if "t \<in> line_text ` set ls" for t
    using that assms(2) blank_prefix_char by (fastforce simp: comment_ok_def LINE_MAX_LEN_def)
  have "fgets_all LINE_MAX_LEN (concat (map (\<lambda>l. l @ [CHR 0x0A]) (map line_text ls))) = map (\<lambda>l. l @ [CHR 0x0A]) (map line_text ls)"
    using line by (intro fgets_all_lines) auto
  then have "onload_load_prefixes inet_pton files list_name path cfg
    = fread_lines inet_pton list_name (map (\<lambda>l. line_text l @ [CHR 0x0A]) ls) cfg"
    using assms(1) by (simp add: onload_load_prefixes_def onload_fread_prefix_def comp_def)
  also have "\<dots> = add_prefixes inet_pton list_name (filter (\<lambda>t. t \<noteq> []) (map line_token ls)) cfg"
    using assms(2) by (induction ls arbitrary: cfg) (auto simp: line_prefix_line split: prod.split)
  finally show ?thesis .
qed

section \<open>Concrete instances\<close>

definition doc_inet_pton :: "u8 \<Rightarrow> string \<Rightarrow> bytes option" where
  "doc_inet_pton f s = (if f = AF_INET \<and> s = ''192.0.2.0'' then Some [192, 0, 2, 0] else None)"

definition doc_lines :: "(string \<times> string \<times> string \<times> string) list" where
  "doc_lines = [([], [], [], ''# documentation''), ('' '', ''192.0.2.0/24'', '' '', ''# one'')]"


lemma onload_load_prefixes_witness:
  "onload_load_prefixes doc_inet_pton (\<lambda>_. Inr (concat (map (\<lambda>l. line_text l @ [CHR 0x0A]) doc_lines))) ''onload'' ''f'' (config_init ''fr'')
    = onload_add_prefix doc_inet_pton ''onload'' ''192.0.2.0/24'' (config_init ''fr'')"
proof -
  have ok: "\<forall>l\<in>set doc_lines. line_ok l"
    by (simp add: doc_lines_def comment_ok_def is_blank_def prefix_char_def is_xdigit_def is_digit_def in_range_def)
  have "filter (\<lambda>t. t \<noteq> []) (map line_token doc_lines) = [''192.0.2.0/24'']"
    by (simp add: doc_lines_def line_token_def)
  with onload_load_prefixes_correct [where ls = doc_lines and path = "''f''"
      and files = "\<lambda>_. Inr (concat (map (\<lambda>l. line_text l @ [CHR 0x0A]) doc_lines))", OF refl ok]
  show ?thesis by (simp split: prod.split)
qed

end
