(* ===== verification/NL_Receive.thy ===== *)
theory NL_Receive
  imports Daemon
begin

text \<open>
  \<open>src/nl_receive.c\<close>, \<open>src/nl_conn.c\<close> and \<open>src/monitor.c\<close>: opening the netlink sockets, the
  control messages that end an answer, and the loop that reads a socket until there is nothing
  left or the answer is complete. What libmnl's \<open>mnl_cb_run2\<close> makes of a buffer is the parameter
  \<open>run\<close>: the last callback's result with \<open>errno\<close>, and the state after the callbacks it ran.
\<close>

section \<open>Control messages\<close>

abbreviation (input) "NLMSGERR_ATTR_MSG \<equiv> 1 :: nat"
abbreviation (input) "NLMSGERR_ATTR_OFFS \<equiv> 2 :: nat"
abbreviation (input) "NLMSGERR_ATTR_MISS_TYPE \<equiv> 5 :: nat"
abbreviation (input) "NLMSGERR_ATTR_MISS_NEST \<equiv> 6 :: nat"
abbreviation (input) "NLMSGERR_ATTR_MAX \<equiv> 6 :: nat"

definition NLM_F_CAPPED :: u16 where "NLM_F_CAPPED = 0x100"
definition NLM_F_ACK_TLVS :: u16 where "NLM_F_ACK_TLVS = 0x200"
definition EBADMSG :: int where "EBADMSG = 74"

definition nlmsgerr_attr_types :: type_map where
  "nlmsgerr_attr_types = [(NLMSGERR_ATTR_MSG, MNL_TYPE_NUL_STRING), (NLMSGERR_ATTR_OFFS, MNL_TYPE_U32),
     (NLMSGERR_ATTR_MISS_TYPE, MNL_TYPE_U32), (NLMSGERR_ATTR_MISS_NEST, MNL_TYPE_U32)]"

text \<open>A control message: its length, flags, the error number in its payload, and what follows it.\<close>

record 'a ctl_msg =
  cm_len :: nat
  cm_flags :: u16
  cm_error :: int
  cm_attrs :: "'a list"

definition my_ext_ack_check :: "'a libmnl \<Rightarrow> 'a ctl_msg \<Rightarrow> mnl_cb option" where
  "my_ext_ack_check L m =
     (if cm_flags m AND NLM_F_ACK_TLVS = 0 then Some MNL_CB_OK
      else do {
        (ret, tb) \<leftarrow> parse_table L NLMSGERR_ATTR_MAX nlmsgerr_attr_types (cm_attrs m);
        Some (if ret \<noteq> MNL_CB_OK then ret else MNL_CB_OK)
      })"

definition my_mnl_cb_noop :: "'a ctl_msg \<Rightarrow> mnl_cb" where
  "my_mnl_cb_noop m = MNL_CB_OK"

text \<open>The callbacks return with \<open>errno\<close>, which \<open>my_mnl_cb_done\<close> leaves alone.\<close>

definition my_mnl_cb_done :: "'a libmnl \<Rightarrow> 'a ctl_msg \<Rightarrow> int \<Rightarrow> (mnl_cb \<times> int) option" where
  "my_mnl_cb_done L m errno =
     (if cm_error m < 0 then do { _ \<leftarrow> my_ext_ack_check L m; Some (MNL_CB_ERROR, errno) }
      else Some (MNL_CB_STOP, errno))"

definition my_mnl_cb_error :: "'a libmnl \<Rightarrow> 'a ctl_msg \<Rightarrow> int \<Rightarrow> (mnl_cb \<times> int) option" where
  "my_mnl_cb_error L m errno =
     (if cm_len m < 16 + 20 then Some (MNL_CB_ERROR, EBADMSG)
      else do {
        let code = (if cm_error m \<ge> 0 then cm_error m else - cm_error m);
        AN (cm_flags m AND NLM_F_CAPPED \<noteq> 0);
        _ \<leftarrow> (if code \<noteq> 0 then my_ext_ack_check L m else Some MNL_CB_OK);
        Some (if code \<noteq> 0 then MNL_CB_ERROR else MNL_CB_STOP, code)
      })"

section \<open>Reading a socket\<close>

text \<open>The results of \<open>mnl_socket_recvfrom\<close>; past the end of the list a read would block.\<close>

datatype 'b recv = Recv_data 'b | Recv_end | Recv_again | Recv_error

datatype loop_end = Would_block | Stopped | Completed int

fun receive_loop ::
  "('b \<Rightarrow> world \<Rightarrow> ((mnl_cb \<times> int) \<times> world) option) \<Rightarrow> 'b recv list \<Rightarrow> world \<Rightarrow> (loop_end \<times> world) option" where
  "receive_loop run [] w = Some (Would_block, w)"
| "receive_loop run (Recv_again # rs) w = Some (Would_block, w)"
| "receive_loop run (Recv_end # rs) w = Some (Stopped, w)"
| "receive_loop run (Recv_error # rs) w = Some (Stopped, w)"
| "receive_loop run (Recv_data b # rs) w = do {
     ((ret, errno), w) \<leftarrow> run b w;
     case ret of
       MNL_CB_OK \<Rightarrow> receive_loop run rs w
     | MNL_CB_STOP \<Rightarrow> Some (Completed 0, w)
     | MNL_CB_ERROR \<Rightarrow> Some (Completed errno, w)
   }"

text \<open>
  \<open>nl_receive_cb\<close>: the result says whether the socket is still watched. \<open>on_complete\<close> may watch it
  again, by sending the next request.
\<close>

definition nl_receive_cb ::
  "('b \<Rightarrow> world \<Rightarrow> ((mnl_cb \<times> int) \<times> world) option) \<Rightarrow> (int \<Rightarrow> world \<Rightarrow> world option)
     \<Rightarrow> 'b recv list \<Rightarrow> world \<Rightarrow> (bool \<times> world) option" where
  "nl_receive_cb run on_complete rs w = do {
     (r, w) \<leftarrow> receive_loop run rs w;
     case r of
       Would_block \<Rightarrow> Some (True, w)
     | Stopped \<Rightarrow> Some (False, w)
     | Completed retval \<Rightarrow> do { w \<leftarrow> on_complete retval w; Some (False, w) }
   }"

text \<open>The monitor's socket is watched again in any case, and its completion does nothing.\<close>

definition monitor_complete :: "int \<Rightarrow> world \<Rightarrow> world option" where
  "monitor_complete nl_errno w = Some w"

definition monitor_response_read_cb ::
  "('b \<Rightarrow> world \<Rightarrow> ((mnl_cb \<times> int) \<times> world) option) \<Rightarrow> 'b recv list \<Rightarrow> world \<Rightarrow> (bool \<times> world) option" where
  "monitor_response_read_cb run rs w = do {
     (_, w) \<leftarrow> nl_receive_cb run monitor_complete rs w;
     Some (True, w)
   }"

section \<open>Opening\<close>

text \<open>
  The answers of the operating system to \<open>nl_conn_open\<close>, in the order of the calls, the port
  that the socket is bound to and the time of the day.
\<close>

record open_env =
  op_socket :: bool
  op_rcvbuf :: bool
  op_strict_chk :: bool
  op_ext_ack :: bool
  op_cap_ack :: bool
  op_bind :: bool
  op_nonblock :: bool
  op_portid :: u32
  op_time :: u32

definition nl_conn_set_name :: "string \<Rightarrow> conn \<Rightarrow> conn option" where
  "nl_conn_set_name name c = do { AN (conn_name c = None); Some (c\<lparr>conn_name := Some name\<rparr>) }"

text \<open>The inner \<open>None\<close> is the null pointer.\<close>

definition nl_conn_open :: "open_env \<Rightarrow> u32 \<Rightarrow> conn \<Rightarrow> string \<Rightarrow> conn option option" where
  "nl_conn_open env groups c name = do {
     c \<leftarrow> nl_conn_set_name name c;
     Some (if \<not> (op_socket env \<and> op_rcvbuf env \<and> op_strict_chk env \<and> op_ext_ack env \<and> op_cap_ack env
             \<and> op_bind env \<and> op_nonblock env) then None
           else if groups = 0 then Some (c\<lparr>conn_portid := op_portid env, conn_seq := op_time env XOR op_portid env\<rparr>)
           else Some c)
   }"

definition nl_conn_close :: "conn \<Rightarrow> conn option" where
  "nl_conn_close c = do { AN (conn_name c \<noteq> None); Some (c\<lparr>conn_name := None\<rparr>) }"

definition nl_conn_get_name :: "conn \<Rightarrow> string option" where
  "nl_conn_get_name c = conn_name c"

abbreviation (input) "RTNLGRP_LINK \<equiv> 1 :: u32"
abbreviation (input) "RTNLGRP_NEIGH \<equiv> 3 :: u32"
abbreviation (input) "RTNLGRP_TC \<equiv> 4 :: u32"
abbreviation (input) "RTNLGRP_IPV4_ROUTE \<equiv> 7 :: u32"
abbreviation (input) "RTNLGRP_IPV6_ROUTE \<equiv> 11 :: u32"

definition monitor_groups :: u32 where
  "monitor_groups = RTNLGRP_LINK OR RTNLGRP_NEIGH OR RTNLGRP_TC OR RTNLGRP_IPV4_ROUTE OR RTNLGRP_IPV6_ROUTE"

definition monitor_init :: "open_env \<Rightarrow> conn option option" where
  "monitor_init env = nl_conn_open env monitor_groups \<lparr>conn_portid = 0, conn_seq = 0, conn_name = None\<rparr> ''monitor''"

section \<open>Properties\<close>

text \<open>Buffers that are all read without completing an answer.\<close>

fun runs_ok :: "('b \<Rightarrow> world \<Rightarrow> ((mnl_cb \<times> int) \<times> world) option) \<Rightarrow> 'b list \<Rightarrow> world \<Rightarrow> world option" where
  "runs_ok run [] w = Some w"
| "runs_ok run (b # bs) w = do {
     ((ret, errno), w) \<leftarrow> run b w;
     if ret = MNL_CB_OK then runs_ok run bs w else None
   }"

lemma receive_loop_prefix:
  "runs_ok run bs w = Some w1 \<Longrightarrow> receive_loop run (map Recv_data bs @ rs) w = receive_loop run rs w1"
  by (induction bs arbitrary: w) (auto elim!: bind_SomeE split: if_splits)

text \<open>C40. The buffers of a socket are processed in order until one completes the answer: then, and only
  then, the connection's completion is called, once, with the error number of a failed answer;
  what is left is not read. When the socket has nothing more, reading goes on later. When it
  reports an error, or its end, the socket is no longer watched and nothing is completed, so
  that a busy queue then waits for ever.\<close>

theorem nl_receive_cb_correct:
  assumes "runs_ok run bs w = Some w1"
  shows "nl_receive_cb run on_complete (map Recv_data bs) w = Some (True, w1)
    \<and> nl_receive_cb run on_complete (map Recv_data bs @ Recv_again # rest) w = Some (True, w1)
    \<and> nl_receive_cb run on_complete (map Recv_data bs @ Recv_error # rest) w = Some (False, w1)
    \<and> nl_receive_cb run on_complete (map Recv_data bs @ Recv_end # rest) w = Some (False, w1)
    \<and> (run b w1 = Some ((MNL_CB_STOP, e), w2) \<longrightarrow>
         nl_receive_cb run on_complete (map Recv_data bs @ Recv_data b # rest) w = map_option (Pair False) (on_complete 0 w2))
    \<and> (run b w1 = Some ((MNL_CB_ERROR, e), w2) \<longrightarrow>
         nl_receive_cb run on_complete (map Recv_data bs @ Recv_data b # rest) w = map_option (Pair False) (on_complete e w2))"
  using receive_loop_prefix [OF assms] receive_loop_prefix [OF assms, of "[]"]
  by (auto simp: nl_receive_cb_def map_option_case split: option.split)

text \<open>The multicast groups that the monitor subscribes to are the bits of a mask, but are given as an
  \<open>or\<close> of group numbers: it is told of links, neighbours and filters, and never of routes.\<close>

theorem monitor_groups_correct:
  "bit monitor_groups (unat RTNLGRP_LINK - 1) \<and> bit monitor_groups (unat RTNLGRP_NEIGH - 1)
   \<and> bit monitor_groups (unat RTNLGRP_TC - 1)
   \<and> \<not> bit monitor_groups (unat RTNLGRP_IPV4_ROUTE - 1) \<and> \<not> bit monitor_groups (unat RTNLGRP_IPV6_ROUTE - 1)"
  by (simp add: monitor_groups_def bit_simps)

definition count_run :: "nat \<Rightarrow> world \<Rightarrow> ((mnl_cb \<times> int) \<times> world) option" where
  "count_run b w = Some ((if b = 0 then MNL_CB_OK else MNL_CB_ERROR, int b), w\<lparr>w_pin_changes := w_pin_changes w + 1\<rparr>)"

lemma nl_receive_cb_witness:
  "nl_receive_cb count_run (\<lambda>e w. Some (w\<lparr>w_break := True\<rparr>)) [Recv_data 0, Recv_data 0, Recv_data 5, Recv_data 0] (initial_world (\<lambda>_. True) (config_init ''fr''))
     = Some (False, (initial_world (\<lambda>_. True) (config_init ''fr''))\<lparr>w_pin_changes := 3, w_break := True\<rparr>)"
proof -
  let ?w = "initial_world (\<lambda>_. True) (config_init ''fr'')"
  have runs: "runs_ok count_run [0, 0] w = Some (w\<lparr>w_pin_changes := w_pin_changes w + 2\<rparr>)" for w
    by (simp add: count_run_def)
  show ?thesis
    using nl_receive_cb_correct [OF runs [of ?w], of "\<lambda>e w. Some (w\<lparr>w_break := True\<rparr>)" "[Recv_data 0]" 5 5
        "?w\<lparr>w_pin_changes := 3\<rparr>"]
    by (simp add: count_run_def initial_world_def)
qed

end
