(* ===== verification/Flower_Main.thy ===== *)
theory Flower_Main
  imports Protocol_Props Options Onload_Props NL_Receive
begin

text \<open>
  \<open>src/main.c\<close> and the end of \<open>src/scan.c\<close>: the command line, the start, the event loop and the
  shutdown, put together. The events that libev delivers are a list, in their order.
\<close>

section \<open>The program\<close>

text \<open>\<open>timeout_init\<close> arms the timer when the configuration has a timeout.\<close>

definition timeout_init :: "config \<Rightarrow> u32 option" where
  "timeout_init cfg = (if cfg_timeout cfg > 0 then Some (cfg_timeout cfg) else None)"

definition timeout_cb :: "world \<Rightarrow> world" where
  "timeout_cb w = w\<lparr>w_break := True\<rparr>"

datatype 'a loop_event = Daemon_event "'a event" | Run_timeout

text \<open>\<open>ev_run\<close>: events are handled until one breaks the loop. The timer that is not armed does not fire.\<close>

fun ev_run ::
  "'a libmnl \<Rightarrow> ('a \<Rightarrow> (u32 \<times> 'a list) list) \<Rightarrow> nat \<Rightarrow> 'a loop_event list \<Rightarrow> world \<Rightarrow> world option" where
  "ev_run L rt_nexthops n [] w = Some w"
| "ev_run L rt_nexthops n (e # es) w =
     (if w_break w then Some w
      else case e of
        Run_timeout \<Rightarrow> ev_run L rt_nexthops n es (if timeout_init (w_config w) = None then w else timeout_cb w)
      | Daemon_event e \<Rightarrow> do { w \<leftarrow> handle_event L rt_nexthops n e w; ev_run L rt_nexthops n es w })"

definition scan_fini :: "world \<Rightarrow> world option" where
  "scan_fini w = do {
     queue_get_conn w;
     w \<leftarrow> queue_fini w;
     let w = mod_scan (\<lambda>s. s\<lparr>sc_timer := False\<rparr>) w;
     c \<leftarrow> nl_conn_close (sc_conn (w_scan w));
     Some (mod_scan (\<lambda>s. s\<lparr>sc_conn := c\<rparr>) w)
   }"

text \<open>
  What the program asks the system for: the files with the names of the routing tables (and what
  the uninitialised \<open>id\<close> of \<open>rt_names_read_file\<close> holds), what the options need, and the answers to
  the opening of the two sockets.
\<close>

record main_env =
  me_rt_files :: "string \<Rightarrow> int + string"
  me_rt_exists :: "string \<Rightarrow> bool"
  me_rt_dirs :: "string \<Rightarrow> string list option"
  me_rt_garbage :: u32
  me_options :: option_env
  me_monitor :: open_env
  me_scan :: open_env

definition null_conn :: conn where
  "null_conn = \<lparr>conn_portid = 0, conn_seq = 0, conn_name = None\<rparr>"

text \<open>\<open>main\<close> up to the options. The table of names is loaded before they are read.\<close>

definition main_config :: "main_env \<Rightarrow> getopt_answer list \<Rightarrow> bool \<Rightarrow> string \<Rightarrow> exit_code + config" where
  "main_config env answers too_many prog =
     options_parse ((me_options env)\<lparr>oe_rt_names :=
         rt_names_init (me_rt_files env) (me_rt_exists env) (me_rt_dirs env) (me_rt_garbage env)\<rparr>)
       answers too_many (config_init prog)"

text \<open>
  The scan's connection: \<open>advance_scan\<close> ignores the result of \<open>nl_conn_open\<close>, and a connection that
  could not be opened keeps its zero numbers.
\<close>

definition scan_conn :: "open_env \<Rightarrow> conn option" where
  "scan_conn env = do {
     c \<leftarrow> nl_conn_open env 0 null_conn ''scan'';
     Some (case c of None \<Rightarrow> null_conn\<lparr>conn_name := Some ''scan''\<rparr> | Some c \<Rightarrow> c)
   }"

definition main_start :: "main_env \<Rightarrow> nat \<Rightarrow> (u32 \<Rightarrow> bool) \<Rightarrow> config \<Rightarrow> world option" where
  "main_start env n send_ok cfg = do {
     _ \<leftarrow> monitor_init (me_monitor env);
     c \<leftarrow> scan_conn (me_scan env);
     start (oe_inet_pton (me_options env)) n send_ok cfg c
   }"

definition flower_main ::
  "main_env \<Rightarrow> getopt_answer list \<Rightarrow> bool \<Rightarrow> string \<Rightarrow> 'a libmnl \<Rightarrow> ('a \<Rightarrow> (u32 \<times> 'a list) list) \<Rightarrow> (u32 \<Rightarrow> bool)
     \<Rightarrow> nat \<Rightarrow> 'a loop_event list \<Rightarrow> (exit_code \<times> world option) option" where
  "flower_main env answers too_many prog L rt_nexthops send_ok n es =
     (case main_config env answers too_many prog of
        Inl e \<Rightarrow> Some (e, None)
      | Inr cfg \<Rightarrow> do {
          w \<leftarrow> main_start env n send_ok cfg;
          w \<leftarrow> ev_run L rt_nexthops n es w;
          w \<leftarrow> scan_fini w;
          Some (EXIT_SUCCESS, Some w)
        })"

section \<open>The prefixes that the options leave\<close>

definition prefixes_ok :: "config \<Rightarrow> bool" where
  "prefixes_ok cfg \<longleftrightarrow> (\<forall>l\<in>set (cfg_prefix_lists cfg). \<forall>pfx\<in>set (pl_entries l).
     wf_af_addr pfx \<and> aa_af pfx \<in> {AF_INET, AF_INET6})"

lemma store_entry_all:
  "\<forall>l\<in>set ls. \<forall>p\<in>set (pl_entries l). P p \<Longrightarrow> P pfx
    \<Longrightarrow> \<forall>l\<in>set (store_entry list_name pfx ls). \<forall>p\<in>set (pl_entries l). P p"
  by (induction ls) auto

lemma prefixes_ok_store:
  assumes "prefixes_ok cfg" "wf_af_addr pfx" "aa_af pfx \<in> {AF_INET, AF_INET6}"
  shows "prefixes_ok (onload_store_prefix list_name pfx cfg)"
  using assms store_entry_all [of "cfg_prefix_lists cfg" "\<lambda>p. wf_af_addr p \<and> aa_af p \<in> {AF_INET, AF_INET6}" pfx list_name]
  unfolding prefixes_ok_def onload_store_prefix_def by simp

lemma prefixes_ok_add:
  assumes "inet_pton_ok f" "prefixes_ok cfg" "onload_add_prefix f list_name text cfg = (ret, cfg')"
  shows "prefixes_ok cfg'"
  using assms(3)
proof (cases rule: onload_add_prefix_cases)
  case (2 bs v)
  have "text_af text \<in> {AF_INET, AF_INET6}" by (simp add: text_af_def)
  with parsed_prefix_ok(1,2) [OF assms(1) 2(1-3)] show ?thesis
    unfolding 2(5) by (intro prefixes_ok_store assms(2)) simp_all
qed (use assms(2) in simp)

lemma prefixes_ok_fread:
  "inet_pton_ok f \<Longrightarrow> prefixes_ok cfg \<Longrightarrow> fread_lines f list_name bufs cfg = (ret, cfg') \<Longrightarrow> prefixes_ok cfg'"
proof (induction bufs arbitrary: cfg)
  case (Cons buf bufs)
  show ?case
  proof (cases "line_prefix buf")
    case None
    with Cons show ?thesis by simp
  next
    case (Some t)
    obtain r c where add: "onload_add_prefix f list_name t cfg = (r, c)" by fastforce
    from prefixes_ok_add [OF Cons.prems(1,2) add] Cons.IH [OF Cons.prems(1), of c] Cons.prems(3) Some add
    show ?thesis by (simp split: if_splits)
  qed
qed simp

lemma prefixes_ok_load:
  "inet_pton_ok f \<Longrightarrow> prefixes_ok cfg \<Longrightarrow> onload_load_prefixes f files list_name path cfg = (ret, cfg') \<Longrightarrow> prefixes_ok cfg'"
  by (auto simp: onload_load_prefixes_def onload_fread_prefix_def split: sum.splits dest: prefixes_ok_fread)

lemma prefixes_ok_option:
  assumes f: "inet_pton_ok (oe_inet_pton env)" and ok: "prefixes_ok cfg"
    and step: "parse_option env a mode cfg = Inr (mode', cfg')"
  shows "prefixes_ok cfg'"
proof -
  have pfx: "prefixes_ok c" if "parse_prefix add a cfg = Inr c"
    "\<And>t s r c. add t s cfg = (r, c) \<Longrightarrow> prefixes_ok c" for add c
    using that by (auto simp: parse_prefix_def split: sum.splits prod.splits if_splits)
  show ?thesis
  proof (cases "go_code a")
    case Opt_add_prefix
    with step have "parse_prefix (onload_add_prefix (oe_inet_pton env)) a cfg = Inr cfg'"
      by (auto simp: parse_option_def map_sum_Inr)
    then show ?thesis by (rule pfx) (rule prefixes_ok_add [OF f ok])
  next
    case Opt_load_prefix
    with step have "parse_prefix (onload_load_prefixes (oe_inet_pton env) (oe_files env)) a cfg = Inr cfg'"
      by (auto simp: parse_option_def map_sum_Inr)
    then show ?thesis by (rule pfx) (rule prefixes_ok_load [OF f ok])
  qed (use step ok in \<open>auto simp: parse_option_def map_sum_Inr parse_table_id_def parse_iface_def prefixes_ok_def Let_def
      split: if_splits prod.splits\<close>)
qed

lemma prefixes_ok_options:
  assumes "inet_pton_ok (oe_inet_pton env)" "parse_options env as mode cfg = Inr (mode', cfg')" "prefixes_ok cfg"
  shows "prefixes_ok cfg'"
  using assms(2,3)
  by (induction as arbitrary: mode cfg) (auto split: sum.splits dest: prefixes_ok_option [OF assms(1)])

lemma options_parse_InrD:
  assumes "options_parse env as too_many cfg0 = Inr cfg"
  obtains mode c where "parse_options env as RUN_DAEMON cfg0 = Inr (mode, c)"
    "cfg = c \<or> cfg = c\<lparr>cfg_exit_after_first_sync := True\<rparr>"
proof -
  obtain mode c where c: "parse_options env as RUN_DAEMON cfg0 = Inr (mode, c)"
    using assms by (auto simp: options_parse_def split: sum.splits)
  have valid: "d = d'" if "validate_options d = Inr d'" for d d'
    using that by (simp add: validate_options_def split: if_splits)
  have "cfg = c \<or> cfg = c\<lparr>cfg_exit_after_first_sync := True\<rparr>"
  proof (cases mode)
    case RUN_DAEMON
    with assms c have "validate_options c = Inr cfg" by (simp add: options_parse_def split: if_splits)
    then show ?thesis by (auto dest: valid)
  next
    case RUN_ONCE
    with assms c have "validate_options (c\<lparr>cfg_exit_after_first_sync := True\<rparr>) = Inr cfg"
      by (simp add: options_parse_def split: if_splits)
    then show ?thesis by (auto dest: valid)
  qed (use assms c in \<open>simp_all add: options_parse_def split: if_splits\<close>)
  with c show thesis by (rule that)
qed

lemma main_config_prefixes:
  assumes "inet_pton_ok (oe_inet_pton (me_options env))" "main_config env answers too_many prog = Inr cfg"
  shows "prefixes_ok cfg"
proof -
  let ?env = "(me_options env)\<lparr>oe_rt_names :=
      rt_names_init (me_rt_files env) (me_rt_exists env) (me_rt_dirs env) (me_rt_garbage env)\<rparr>"
  obtain mode c where c: "parse_options ?env answers RUN_DAEMON (config_init prog) = Inr (mode, c)"
    "cfg = c \<or> cfg = c\<lparr>cfg_exit_after_first_sync := True\<rparr>"
    using assms(2) unfolding main_config_def by (rule options_parse_InrD)
  have "prefixes_ok (config_init prog)" by (simp add: prefixes_ok_def config_init_def)
  then have ok: "prefixes_ok c" using prefixes_ok_options [OF _ c(1)] assms(1) by simp
  then have "prefixes_ok (c\<lparr>cfg_exit_after_first_sync := True\<rparr>)" by (simp add: prefixes_ok_def)
  with ok c(2) show ?thesis by metis
qed

section \<open>The start\<close>

text \<open>The first turn of the scan sends the request for the queueing disciplines and returns.\<close>

lemma schedule_filters:
  assumes "w_queue w = empty_queue\<lparr>q_conn := True\<rparr>" "conn_seq (sc_conn (w_scan w)) \<noteq> 0"
    "w_send_ok w (conn_seq (sc_conn (w_scan w)) + 1)"
  shows "\<exists>w'. queue_schedule (calls (Suc m)) Exec_scan_filters (Some Done_advance_scan) w = Some w'
    \<and> w_rules w' = w_rules w \<and> w_tcrs w' = w_tcrs w \<and> w_pos_tree w' = w_pos_tree w
    \<and> w_sent w' = w_sent w @ [(conn_seq (sc_conn (w_scan w)) + 1, Req_dump_qdisc (cfg_ifidx (w_config w)))]"
  using assms
  by (simp add: empty_queue_def queue_schedule_def queue_process_loop_def queue_process_def execute_def scan_filters_def
      filter_dump_def nl_send_req_def common_netlink_set_seq_def queue_has_sent_request_def word_gt_0 mod_scan_def Let_def)

lemma scan_init_sends:
  assumes "w_queue w = empty_queue" "conn_seq c \<noteq> 0" "w_send_ok w (conn_seq c + 1)"
  shows "\<exists>w'. scan_init (calls (Suc m)) pin_fuel c w = Some w'
    \<and> w_rules w' = w_rules w \<and> w_tcrs w' = w_tcrs w \<and> w_pos_tree w' = w_pos_tree w
    \<and> w_sent w' = w_sent w @ [(conn_seq c + 1, Req_dump_qdisc (cfg_ifidx (w_config w)))]"
proof -
  have eight: "(8 :: nat) = Suc (Suc 6)" by simp
  let ?w = "w\<lparr>w_queue := empty_queue\<lparr>q_conn := True\<rparr>, w_scan := \<lparr>sc_state = SCAN_RUN_HELPERS,
    sc_helper_idx = 0, sc_next_chain = None, sc_q_chain_no = 0, sc_timer = False, sc_conn = c\<rparr>\<rparr>"
  from schedule_filters [of ?w m] assms obtain v where
    v: "queue_schedule (calls (Suc m)) Exec_scan_filters (Some Done_advance_scan) ?w = Some v"
    "w_rules v = w_rules w" "w_tcrs v = w_tcrs w" "w_pos_tree v = w_pos_tree w"
    "w_sent v = w_sent w @ [(conn_seq c + 1, Req_dump_qdisc (cfg_ifidx (w_config w)))]" by auto
  have "scan_init (calls (Suc m)) pin_fuel c w = Some (mod_scan (\<lambda>s. s\<lparr>sc_helper_idx := sc_helper_idx s + 1\<rparr>) v)"
    unfolding scan_init_def advance_scan_def eight advance_scan_loop.simps(2)
    using v(1) assms(1) by (simp add: queue_init_def empty_queue_def mod_scan_def AN_def scan_helpers_def del: calls.simps)
  with v(2-5) show ?thesis by (simp add: mod_scan_def)
qed

lemma table_cong_rules:
  assumes "w_rules w' = w_rules w" "w_tcrs w' = w_tcrs w" "w_pos_tree w' = w_pos_tree w"
  shows "table b w' = table b w"
proof -
  have "rule_pos w' = rule_pos w" "slots w' = slots w" using assms(1) by (auto simp: fun_eq_iff rule_pos_def slots_def)
  then show ?thesis unfolding table_def [abs_def] rule_at_def assms(2,3) by simp
qed

lemma start_wants:
  assumes inet: "inet_pton AF_INET6 ''2000::'' = Some (0x20 # replicate 15 0)"
    and pfxs: "pfxs = (case onload_lookup_prefix_list ''onload'' cfg of None \<Rightarrow> [] | Some l \<Rightarrow> pl_entries l)"
      "\<forall>pfx\<in>set pfxs. wf_af_addr pfx \<and> aa_af pfx \<in> {AF_INET, AF_INET6}" "length pfxs < 65000"
    and conn: "conn_seq c \<noteq> 0" "send_ok (conn_seq c + 1)"
  obtains w prios where "start inet_pton (Suc m) send_ok cfg c = Some w" "present w = Map.empty"
    "length prios = length pfxs" "\<forall>prio\<in>set prios. 10 \<le> prio" "distinct (prefix_keys pfxs prios)"
    "wanted w = initial_rules cfg ++ map_of (prefix_rules cfg pfxs prios)"
    "w_sent w = [(conn_seq c + 1, Req_dump_qdisc (cfg_ifidx cfg))]"
proof -
  let ?w = "initial_world send_ok cfg"
  have init: "rules_ok ?w" "w_pin_changes ?w = 0" "w_pos_tree ?w = Null" "w_config ?w = cfg" "w_queue ?w = empty_queue"
    "w_send_ok ?w = send_ok" "w_sent ?w = []"
    by (simp_all add: initial_world_def rules_ok_def pos_ok_def fresh_ok_def owned_def slots_def laf_ok_def rbt_ok_def)
  have pfx': "pfxs = (case onload_lookup_prefix_list ''onload'' (w_config ?w) of None \<Rightarrow> [] | Some l \<Rightarrow> pl_entries l)"
    using pfxs(1) init(4) by simp
  obtain v prios where v: "sched_init inet_pton (calls (Suc m)) ?w = Some v" "rules_ok v" "same_net ?w v" "present v = Map.empty"
    "length prios = length pfxs" "\<forall>prio\<in>set prios. 10 \<le> prio" "distinct (prefix_keys pfxs prios)"
    "wanted v = initial_rules (w_config ?w) ++ map_of (prefix_rules (w_config ?w) pfxs prios)"
    by (rule sched_init_placed [where inet_pton = inet_pton and K = "calls (Suc m)", OF init(1-3) inet pfx' pfxs(2,3)])
  have net: "w_queue v = empty_queue" "w_send_ok v (conn_seq c + 1)" "w_config v = cfg" "w_sent v = []"
    using v(3) init conn(2) by (simp_all add: same_net_def)
  from scan_init_sends [OF net(1) conn(1) net(2), of m "Suc m"] obtain u where
    u: "scan_init (calls (Suc m)) (Suc m) c v = Some u" "w_rules u = w_rules v" "w_tcrs u = w_tcrs v" "w_pos_tree u = w_pos_tree v"
    "w_sent u = [(conn_seq c + 1, Req_dump_qdisc (cfg_ifidx cfg))]" by (auto simp: net)
  have "start inet_pton (Suc m) send_ok cfg c = Some (obj_rule_init u)" using v(1) u(1) by (simp add: start_def)
  moreover have "table b (obj_rule_init u) = table b v" for b
    by (rule table_cong_rules) (simp_all add: u obj_rule_init_def)
  ultimately show thesis
    using that [of "obj_rule_init u" prios] v(4-8) u(5) init(4) by (simp add: obj_rule_init_def)
qed

section \<open>From the command line to the rules\<close>

lemma scan_conn_opened:
  assumes "op_socket e" "op_rcvbuf e" "op_strict_chk e" "op_ext_ack e" "op_cap_ack e" "op_bind e" "op_nonblock e"
  shows "scan_conn e = Some \<lparr>conn_portid = op_portid e, conn_seq = op_time e XOR op_portid e, conn_name = Some ''scan''\<rparr>"
  using assms by (simp add: scan_conn_def nl_conn_open_def nl_conn_set_name_def null_conn_def)

definition opened :: "open_env \<Rightarrow> bool" where
  "opened e \<longleftrightarrow> op_socket e \<and> op_rcvbuf e \<and> op_strict_chk e \<and> op_ext_ack e \<and> op_cap_ack e \<and> op_bind e \<and> op_nonblock e"

text \<open>C13. When the command line is accepted and the scan's socket can be opened and takes its first
  request, the start returns. The daemon then wants one rule that sends each address family to its
  chain, the two TTL checks, and for every prefix that the options gave or a file held for the list
  named onload a trap rule of its own, and it has asked the kernel for its queueing disciplines.\<close>

theorem main_starts:
  assumes inet: "inet_pton_ok (oe_inet_pton (me_options env))"
      "oe_inet_pton (me_options env) AF_INET6 ''2000::'' = Some (0x20 # replicate 15 0)"
    and cfg: "main_config env answers too_many prog = Inr cfg"
    and pfxs: "pfxs = (case onload_lookup_prefix_list ''onload'' cfg of None \<Rightarrow> [] | Some l \<Rightarrow> pl_entries l)" "length pfxs < 65000"
    and scan: "opened (me_scan env)" "seq = op_time (me_scan env) XOR op_portid (me_scan env)" "seq \<noteq> 0" "send_ok (seq + 1)"
  shows "\<exists>w prios. main_start env (Suc m) send_ok cfg = Some w \<and> present w = Map.empty
    \<and> length prios = length pfxs \<and> (\<forall>prio\<in>set prios. 10 \<le> prio)
    \<and> distinct (map2 (\<lambda>pfx prio. (af_chain pfx, prio)) pfxs prios)
    \<and> wanted w = initial_rules cfg ++ map_of (map2 (\<lambda>pfx prio. ((af_chain pfx, prio), onload_rule cfg pfx)) pfxs prios)
    \<and> w_sent w = [(seq + 1, Req_dump_qdisc (cfg_ifidx cfg))]"
proof -
  have ok: "\<forall>pfx\<in>set pfxs. wf_af_addr pfx \<and> aa_af pfx \<in> {AF_INET, AF_INET6}"
  proof (cases "onload_lookup_prefix_list ''onload'' cfg")
    case (Some l)
    then have "l \<in> set (cfg_prefix_lists cfg)" by (auto simp: onload_lookup_prefix_list_def find_Some_iff)
    with main_config_prefixes [OF inet(1) cfg] pfxs(1) Some show ?thesis by (simp add: prefixes_ok_def)
  qed (use pfxs(1) in simp)
  let ?c = "\<lparr>conn_portid = op_portid (me_scan env), conn_seq = seq, conn_name = Some ''scan''\<rparr>"
  obtain w prios where w: "start (oe_inet_pton (me_options env)) (Suc m) send_ok cfg ?c = Some w" "present w = Map.empty"
    "length prios = length pfxs" "\<forall>prio\<in>set prios. 10 \<le> prio" "distinct (prefix_keys pfxs prios)"
    "wanted w = initial_rules cfg ++ map_of (prefix_rules cfg pfxs prios)"
    "w_sent w = [(seq + 1, Req_dump_qdisc (cfg_ifidx cfg))]"
    by (rule start_wants [where inet_pton = "oe_inet_pton (me_options env)", OF inet(2) pfxs(1) ok pfxs(2), of ?c send_ok m]) (use scan in simp_all)
  moreover have "scan_conn (me_scan env) = Some ?c" using scan by (simp add: opened_def scan_conn_opened)
  moreover have "\<exists>r. monitor_init (me_monitor env) = Some r"
    by (simp add: monitor_init_def nl_conn_open_def nl_conn_set_name_def)
  ultimately have "main_start env (Suc m) send_ok cfg = Some w" by (auto simp: main_start_def)
  with w(2-) show ?thesis by (intro exI [of _ w] exI [of _ prios]) (simp add: prefix_keys_def prefix_rules_def)
qed

section \<open>The event loop and the shutdown\<close>

lemma qstep_conn_name: "qstep w w' \<Longrightarrow> conn_name (sc_conn (w_scan w')) = conn_name (sc_conn (w_scan w))"
  by (erule qstepE)
    (auto simp: local_upd_def push_item_def begin_item_def finish_item_def queue_init_def elim!: nl_send_req_cases split: if_splits)

lemma qsteps_conn_name: "qstep\<^sup>*\<^sup>* w w' \<Longrightarrow> conn_name (sc_conn (w_scan w')) = conn_name (sc_conn (w_scan w))"
  by (induction rule: rtranclp_induct) (simp_all add: qstep_conn_name)

lemma start_conn_name: "start inet_pton n send_ok cfg c = Some w \<Longrightarrow> conn_name (sc_conn (w_scan w)) = conn_name c"
  by (erule start_cases) (auto dest: qsteps_conn_name)

text \<open>What holds between the events of the loop, also after the timer has broken it.\<close>

definition loop_inv :: "(u32 \<Rightarrow> bool) \<Rightarrow> config \<Rightarrow> conn \<Rightarrow> world \<Rightarrow> bool" where
  "loop_inv send_ok cfg c w \<longleftrightarrow> reach_inv send_ok cfg c w \<and> conn_name (sc_conn (w_scan w)) = conn_name c"

lemma ev_run_inv:
  "loop_inv send_ok cfg c w \<Longrightarrow> ev_run L rt_nexthops n es w = Some w' \<Longrightarrow> loop_inv send_ok cfg c w'"
proof (induction es arbitrary: w)
  case (Cons e es)
  show ?case
  proof (cases "w_break w")
    case False
    show ?thesis
    proof (cases e)
      case (Daemon_event d)
      with Cons.prems(2) False obtain v where v: "handle_event L rt_nexthops n d w = Some v"
        "ev_run L rt_nexthops n es v = Some w'" by (auto elim!: bind_SomeE)
      have "loop_inv send_ok cfg c v"
        using Cons.prems(1) qsteps_store [OF handle_event_steps [OF v(1)], of "conn_seq c"]
          qsteps_queue_inv [OF handle_event_steps [OF v(1)]] handle_event_settled [OF v(1)]
          qsteps_conn_name [OF handle_event_steps [OF v(1)]]
        by (auto simp: loop_inv_def reach_inv_def)
      then show ?thesis using v(2) by (rule Cons.IH)
    next
      case Run_timeout
      have "loop_inv send_ok cfg c (if timeout_init (w_config w) = None then w else timeout_cb w)"
        using Cons.prems(1) sent_inv_cong [of "timeout_cb w" w]
        by (simp add: loop_inv_def reach_inv_def timeout_cb_def settled_def fresh_ok_def)
      with Cons.prems(2) False Run_timeout show ?thesis by (auto intro: Cons.IH)
    qed
  qed (use Cons.prems in simp)
qed simp

text \<open>C14. Whatever events come, once the loop has been left the shutdown never aborts: the queue is
  connected, so it can be emptied, and the connection has its name, so it can be closed. Nothing is
  sent any more, and what was sent, the objects and the configuration stay as they are.\<close>

theorem flower_main_exits:
  assumes "main_start env n send_ok cfg = Some w" and "ev_run L rt_nexthops n es w = Some w'"
  shows "\<exists>w''. scan_fini w' = Some w'' \<and> q_items (w_queue w'') = [] \<and> \<not> q_is_busy (w_queue w'')
    \<and> \<not> q_conn (w_queue w'') \<and> conn_name (sc_conn (w_scan w'')) = None \<and> \<not> sc_timer (w_scan w'')
    \<and> w_sent w'' = w_sent w' \<and> w_rules w'' = w_rules w' \<and> w_config w'' = cfg"
proof -
  obtain c where c: "scan_conn (me_scan env) = Some c" "start (oe_inet_pton (me_options env)) n send_ok cfg c = Some w"
    using assms(1) by (auto simp: main_start_def elim!: bind_SomeE)
  have "conn_name c = Some ''scan''"
    using c(1) by (auto simp: scan_conn_def nl_conn_open_def nl_conn_set_name_def null_conn_def split: if_splits)
  with start_reach_inv [OF c(2)] start_conn_name [OF c(2)] have "loop_inv send_ok cfg c w" by (simp add: loop_inv_def)
  from ev_run_inv [OF this assms(2)] \<open>conn_name c = Some ''scan''\<close>
  have "q_conn (w_queue w')" "conn_name (sc_conn (w_scan w')) = Some ''scan''" "w_config w' = cfg"
    by (simp_all add: loop_inv_def reach_inv_def)
  then show ?thesis
    by (simp add: scan_fini_def queue_get_conn_def queue_fini_def nl_conn_close_def mod_scan_def empty_queue_def)
qed

section \<open>A concrete run\<close>

definition run_inet_pton :: "u8 \<Rightarrow> string \<Rightarrow> bytes option" where
  "run_inet_pton f s = (if f = AF_INET \<and> s = ''192.0.2.0'' then Some [192, 0, 2, 0]
     else if f = AF_INET6 \<and> s = ''2000::'' then Some (0x20 # replicate 15 0) else None)"

definition run_open :: open_env where
  "run_open = \<lparr>op_socket = True, op_rcvbuf = True, op_strict_chk = True, op_ext_ack = True, op_cap_ack = True,
     op_bind = True, op_nonblock = True, op_portid = 4711, op_time = 1700000000\<rparr>"

definition run_env :: main_env where
  "run_env = \<lparr>me_rt_files = \<lambda>_. Inl 2, me_rt_exists = \<lambda>_. False, me_rt_dirs = \<lambda>_. None, me_rt_garbage = 0,
     me_options = \<lparr>oe_inet_pton = run_inet_pton, oe_files = \<lambda>_. Inl 2, oe_if_nametoindex = \<lambda>_. 7, oe_rt_names = []\<rparr>,
     me_monitor = run_open, me_scan = run_open\<rparr>"

definition run_answers :: "getopt_answer list" where
  "run_answers = [\<lparr>go_code = Opt_iface, go_optarg = ''eth0'', go_next = None\<rparr>,
     \<lparr>go_code = Opt_table, go_optarg = ''main'', go_next = None\<rparr>,
     \<lparr>go_code = Opt_timeout, go_optarg = ''60'', go_next = None\<rparr>,
     \<lparr>go_code = Opt_add_prefix, go_optarg = ''onload'', go_next = Some ''192.0.2.0/24''\<rparr>]"

definition run_config :: "config option" where
  "run_config = (case main_config run_env run_answers False ''fr'' of Inl e \<Rightarrow> None | Inr cfg \<Rightarrow> Some cfg)"

lemma run_config_eq:
  "map_option (\<lambda>cfg. (cfg_ifidx cfg, map pl_name (cfg_prefix_lists cfg), map (length \<circ> pl_entries) (cfg_prefix_lists cfg)))
     run_config = Some (7, [''onload''], [1])"
  by code_simp

lemma run_config_ok:
  obtains cfg l where "main_config run_env run_answers False ''fr'' = Inr cfg" "cfg_ifidx cfg = 7"
    "onload_lookup_prefix_list ''onload'' cfg = Some l" "length (pl_entries l) = 1"
proof -
  from run_config_eq obtain cfg l where "main_config run_env run_answers False ''fr'' = Inr cfg" "cfg_ifidx cfg = 7"
    "cfg_prefix_lists cfg = [l]" "pl_name l = ''onload''" "length (pl_entries l) = 1"
    by (auto simp: run_config_def split: sum.splits)
  then show thesis by (intro that [of cfg l]) (simp_all add: onload_lookup_prefix_list_def)
qed

lemma run_env_ok:
  "inet_pton_ok (oe_inet_pton (me_options run_env))"
  "oe_inet_pton (me_options run_env) AF_INET6 ''2000::'' = Some (0x20 # replicate 15 0)"
  "opened (me_scan run_env)" "op_time (me_scan run_env) XOR op_portid (me_scan run_env) = 1699996519"
  by (auto simp: run_env_def run_inet_pton_def inet_pton_ok_def run_open_def opened_def)

lemma main_starts_witness:
  "\<exists>cfg w. main_config run_env run_answers False ''fr'' = Inr cfg
     \<and> main_start run_env 9 (\<lambda>_. True) cfg = Some w \<and> w_sent w = [(1699996520, Req_dump_qdisc 7)] \<and> present w = Map.empty"
proof -
  obtain cfg l where cfg: "main_config run_env run_answers False ''fr'' = Inr cfg" "cfg_ifidx cfg = 7"
    "onload_lookup_prefix_list ''onload'' cfg = Some l" "length (pl_entries l) = 1" by (rule run_config_ok)
  have nine: "(9 :: nat) = Suc 8" by simp
  have pfxs: "pl_entries l = (case onload_lookup_prefix_list ''onload'' cfg of None \<Rightarrow> [] | Some l \<Rightarrow> pl_entries l)"
    using cfg(3) by simp
  from main_starts [where seq = 1699996519 and send_ok = "\<lambda>_. True" and m = 8, OF run_env_ok(1,2) cfg(1) pfxs _ run_env_ok(3)]
  show ?thesis using cfg run_env_ok(4) unfolding nine by auto
qed

lemma flower_main_exits_witness:
  "\<exists>cfg w w' w''. main_config run_env run_answers False ''fr'' = Inr cfg
     \<and> main_start run_env 9 (\<lambda>_. True) cfg = Some w
     \<and> ev_run tree_libmnl (\<lambda>_. []) 9 [Run_timeout] w = Some w' \<and> scan_fini w' = Some w'' \<and> q_items (w_queue w'') = []"
proof -
  have "case run_config of None \<Rightarrow> False | Some cfg \<Rightarrow>
      (case main_start run_env 9 (\<lambda>_. True) cfg of None \<Rightarrow> False | Some w \<Rightarrow> True)" by code_simp
  then obtain cfg w where w: "main_config run_env run_answers False ''fr'' = Inr cfg" "main_start run_env 9 (\<lambda>_. True) cfg = Some w"
    by (auto simp: run_config_def split: sum.splits option.splits)
  have "ev_run tree_libmnl (\<lambda>_. []) 9 [Run_timeout] w \<noteq> None" by simp
  then obtain w' where "ev_run tree_libmnl (\<lambda>_. []) 9 [Run_timeout] w = Some w'" by blast
  with flower_main_exits [OF w(2) this] w show ?thesis by blast
qed

end
