(* ===== verification/Queue_Progress.thy ===== *)
theory Queue_Progress
  imports Flower_Main TC_Codec_Props
begin

text \<open>
  Progress of the queue under the event loop: every answer of the kernel takes the item at the
  head away and has the request of the next one sent, whatever else arrives in between.
\<close>

section \<open>Progress of the queue\<close>

fun answers :: "'a loop_event list \<Rightarrow> nat" where
  "answers [] = 0"
| "answers (Daemon_event (Ev_complete _) # es) = Suc (answers es)"
| "answers (_ # es) = answers es"

lemma answers_other: "\<forall>nl_errno. e \<noteq> Ev_complete nl_errno \<Longrightarrow> answers (Daemon_event e # es) = answers es"
  by (cases e) simp_all

text \<open>
  The functions \<open>fns\<close> are at the head of the queue, the first awaiting its answer; the requests of
  those behind it are sent in turn as the answers come in.
\<close>

definition progress :: "config \<Rightarrow> nat \<Rightarrow> execute_fn list \<Rightarrow> world \<Rightarrow> world \<Rightarrow> bool" where
  "progress cfg m fns w w' \<longleftrightarrow>
     (\<exists>new. map qi_execute (q_items (w_queue w')) = drop m fns @ new)
     \<and> (m < length fns \<longrightarrow> (\<exists>reqs. map snd (w_sent w') = map snd (w_sent w) @ reqs
          \<and> list_all2 (request_fits cfg) (take m (tl fns)) reqs))"

lemma progress_answer:
  assumes "progress cfg m (g # fns) v w'" "request_fits cfg g req" "map snd (w_sent v) = map snd (w_sent w) @ [req]"
  shows "progress cfg (Suc m) (f # g # fns) w w'"
  using assms by (auto simp: progress_def)

lemma ev_run_progress:
  assumes "ev_run L rt_nexthops n es w = Some w'" "\<not> w_break w'"
    and "reachable inet_pton L rt_nexthops send_ok cfg c w" and ok: "\<And>s. send_ok s"
    and "map qi_execute (q_items (w_queue w)) = fns @ later" "Exec_scan_break \<notin> set fns" "answers es \<le> length fns"
  shows "progress cfg (answers es) fns w w'"
  using assms(1,3,5-7)
proof (induction es arbitrary: w fns later)
  case Nil
  then show ?case by (auto simp: progress_def)
next
  case (Cons e es)
  have br: "\<not> w_break w" using Cons.prems(1) assms(2) by auto
  show ?case
  proof (cases e)
    case Run_timeout
    with Cons.prems(1) br have "timeout_init (w_config w) = None"
      using assms(2) by (cases es) (auto simp: timeout_cb_def split: if_splits)
    with Cons br Run_timeout show ?thesis by simp
  next
    case (Daemon_event d)
    with Cons.prems(1) br obtain v where v: "handle_event L rt_nexthops n d w = Some v" "ev_run L rt_nexthops n es v = Some w'"
      by (auto elim!: bind_SomeE)
    have rv: "reachable inet_pton L rt_nexthops send_ok cfg c v" using Cons.prems(2) v(1) by (rule reach_event)
    show ?thesis
    proof (cases "\<exists>nl_errno. d = Ev_complete nl_errno")
      case True
      then obtain nl_errno where d: "d = Ev_complete nl_errno" by blast
      with Cons.prems(5) Daemon_event obtain f fs where fns: "fns = f # fs" by (cases fns) auto
      show ?thesis
      proof (cases fs)
        case Nil
        with Cons.prems(5) Daemon_event d fns have "answers es = 0" by simp
        with Daemon_event d fns Nil show ?thesis by (simp add: progress_def)
      next
        case (Cons g gs)
        obtain new req where "map qi_execute (q_items (w_queue v)) = g # (gs @ later) @ new" "request_fits cfg g req"
          "map snd (w_sent v) = map snd (w_sent w) @ [req]"
          using Cons.prems(2) v(1) [unfolded d] ok
          by (rule handle_event_answer [of _ _ _ _ _ _ _ _ _ _ f g "gs @ later"])
            (use Cons.prems(3,4) fns Cons in auto)
        then show ?thesis
          using progress_answer Cons.IH [OF v(2) rv, of "g # gs" "later @ new"] Cons.prems(4,5) fns Cons Daemon_event d
          by simp
      qed
    next
      case False
      then have other: "\<forall>nl_errno. d \<noteq> Ev_complete nl_errno" by blast
      show ?thesis
      proof (cases "fns = []")
        case True
        with Cons.prems(5) show ?thesis by (simp add: progress_def)
      next
        case False
        with Cons.prems(3) have "q_items (w_queue w) \<noteq> []" by auto
        with Cons.prems(2) v(1) other obtain new
          where "map qi_execute (q_items (w_queue v)) = map qi_execute (q_items (w_queue w)) @ new" "w_sent v = w_sent w"
          by (rule handle_event_other)
        with Cons.IH [OF v(2) rv, of fns "later @ new"] Cons.prems answers_other [OF other] Daemon_event
        show ?thesis by (simp add: progress_def)
      qed
    qed
  qed
qed




section \<open>A concrete run\<close>

text \<open>
  A run up to the second scan: the kernel reports the daemon's own rules as present, answers the
  seven requests of the first scan, the timer starts the next one, and while its first answer is
  awaited the kernel reports a rule that nobody wants. It is to be removed, and the answer has the request sent.
\<close>

lemma ev_run_reachable:
  "ev_run L rt_nexthops n (map Daemon_event es) w = Some w' \<Longrightarrow> reachable inet_pton L rt_nexthops send_ok cfg c w
    \<Longrightarrow> reachable inet_pton L rt_nexthops send_ok cfg c w'"
  by (induction es arbitrary: w) (auto split: if_splits elim!: bind_SomeE intro: reach_event)

definition bare_config :: config where
  "bare_config = config_init ''flower-route''"

definition report :: "u32 \<Rightarrow> u16 \<Rightarrow> tc_rule option \<Rightarrow> mnl_tree event list" where
  "report chain_no prio tcr = (case tc_encode_rule bare_config chain_no prio tcr TCE_FLAG_LOOPBACK of
     None \<Rightarrow> [] | Some m \<Rightarrow> [Ev_message (Msg_filter (rx_of m))])"

definition report_wanted :: "world \<Rightarrow> mnl_tree event list" where
  "report_wanted w = concat (map (\<lambda>p. case w_rules w p of None \<Rightarrow> []
     | Some r \<Rightarrow> report (oru_chain_no r) (oru_prio r) (oru_want r \<bind> w_tcrs w)) [1..<w_next w])"

definition bare_start :: "world option" where
  "bare_start = start demo_inet_pton 6 (\<lambda>_. True) bare_config demo_conn"

definition stray_goto :: tc_rule where
  "stray_goto = zero_tc_rule\<lparr>tcr_type := TC_RULE_TYPE_ROUTE_GOTO, tcr_flower_flags := 6, tcr_goto_target := 8,
     tcr_traits := 7, tcr_af_addr := zero_af_addr\<lparr>aa_af := AF_INET\<rparr>\<rparr>"

definition second_scan :: "world \<Rightarrow> mnl_tree event list" where
  "second_scan w = report_wanted w @ replicate 7 (Ev_complete 0) @ [Ev_timeout]
     @ report 7 1 (Some stray_goto)"

definition busy_run :: "world option" where
  "busy_run = bare_start \<bind> (\<lambda>w. ev_run tree_libmnl (\<lambda>_. []) 6 (map Daemon_event (second_scan w)) w)"

lemma busy_run_works:
  "map_option (\<lambda>w. map qi_execute (q_items (w_queue w))) busy_run = Some [Exec_scan_filters, Exec_tc_action 15]"
  by code_simp

lemma busy_run_answered:
  "map_option w_break (busy_run \<bind> ev_run tree_libmnl (\<lambda>_. []) 6 [Daemon_event (Ev_complete 0)]) = Some False"
  by code_simp


end
