(* ===== verification/Explain.thy ===== *)
theory Explain
  imports TC_Decode
begin

text \<open>
  \<open>src/rt_explain.c\<close>, \<open>src/tc_explain.c\<close> and \<open>src/hexdump.c\<close>: the texts of the log.
\<close>

section \<open>Names of the kernel's codes\<close>

text \<open>The tables of \<open>switch\<close> statements; \<open>None\<close> is the null pointer. The texts are the source's.\<close>

definition nud_states :: "(u8 \<times> string) list" where
  "nud_states = [(0x01, ''incomplete''), (0x02, ''reachable''), (0x04, ''stale''), (0x08, ''delay''),
     (0x10, ''probe''), (0x20, ''failed''), (0x40, ''noarp''), (0x80, ''permanent''), (0x00, ''none'')]"

definition rt_explain_nud_state :: "u8 \<Rightarrow> string option" where
  "rt_explain_nud_state s = map_of nud_states s"

definition rtm_types :: "(u8 \<times> string) list" where
  "rtm_types = [(1, ''unicast''), (2, ''local''), (3, ''broadcast''), (4, ''anycast''), (5, ''multicast''),
     (6, ''blackhole''), (7, ''unreachable''), (8, ''prohibit''), (9, ''throw''), (10, ''nat''), (11, ''xresolve '')]"

definition rt_explain_rtm_type :: "u8 \<Rightarrow> string option" where
  "rt_explain_rtm_type t = map_of rtm_types t"

definition rtm_scopes :: "(u8 \<times> string) list" where
  "rtm_scopes = [(0, ''universe''), (200, ''site''), (253, ''link''), (254, ''bost''), (255, ''nowhere'')]"

definition rt_explain_rtm_scope :: "u8 \<Rightarrow> string option" where
  "rt_explain_rtm_scope s = map_of rtm_scopes s"

definition tc_actions :: "(u32 \<times> string) list" where
  "tc_actions = [(0xFFFFFFFF, ''continue''), (0, ''pass''), (2, ''drop''), (1, ''reclassify''), (3, ''pipe''),
     (4, ''stolen''), (8, ''trap'')]"

text \<open>\<open>snprintf("%d")\<close> of an \<open>int\<close>.\<close>

fun decimal :: "nat \<Rightarrow> string" where
  "decimal n = (if n < 10 then [char_of (48 + n)] else decimal (n div 10) @ [char_of (48 + n mod 10)])"

declare decimal.simps [simp del]

definition print_int :: "u32 \<Rightarrow> string" where
  "print_int v = (if sint v < 0 then ''-'' @ decimal (nat (- sint v)) else decimal (nat (sint v)))"

definition tc_explain_action :: "u32 \<Rightarrow> string" where
  "tc_explain_action action =
     (if act_ext_cmp action TC_ACT_GOTO_CHAIN then ''goto''
      else if act_ext_cmp action TC_ACT_JUMP then ''jump''
      else case map_of tc_actions action of Some s \<Rightarrow> s | None \<Rightarrow> print_int action)"

section \<open>Hexdumps\<close>

definition bytes_per_row :: nat where "bytes_per_row = 16"
definition bytes_per_group :: nat where "bytes_per_group = 2"
definition byte_offset :: nat where "byte_offset = 2 * bytes_per_row + bytes_per_row div bytes_per_group + 1"
definition buf_len :: nat where "buf_len = byte_offset + bytes_per_row + 1"
definition hex_pos :: "nat \<Rightarrow> nat" where "hex_pos j = j * 2 + j div bytes_per_group"

lemmas hexdump_defs = bytes_per_row_def bytes_per_group_def byte_offset_def buf_len_def hex_pos_def

definition hexdigit :: "nat \<Rightarrow> char" where
  "hexdigit n = char_of (if n < 10 then 48 + n else 97 + (n - 10))"

definition printable :: "u8 \<Rightarrow> char" where
  "printable b = (if 0x20 \<le> b \<and> b < 0x7f then char_of (unat b) else CHR ''.'')"

text \<open>The stores of the inner loop for the byte at column \<open>j\<close>; the terminating zero is left out.\<close>

definition put_byte :: "nat \<Rightarrow> u8 \<Rightarrow> string \<Rightarrow> string" where
  "put_byte j b buf = buf[hex_pos j := hexdigit (unat b div 16), hex_pos j + 1 := hexdigit (unat b mod 16),
     byte_offset + j := printable b]"

fun fill_row :: "bytes \<Rightarrow> nat \<Rightarrow> nat \<Rightarrow> string" where
  "fill_row data row_offset 0 = replicate (buf_len - 1) CHR '' ''"
| "fill_row data row_offset (Suc j) = put_byte j (data ! (row_offset + j)) (fill_row data row_offset j)"

definition hexdump_row :: "bytes \<Rightarrow> nat \<Rightarrow> string" where
  "hexdump_row data row_offset = fill_row data row_offset (min bytes_per_row (length data - row_offset))"

text \<open>\<open>hexdumpf\<close>: the rows printed, each with its offset.\<close>

definition hexdump_rows :: "nat \<Rightarrow> nat" where
  "hexdump_rows len = len div bytes_per_row + (if len mod bytes_per_row > 0 then 1 else 0)"

definition hexdumpf :: "bytes \<Rightarrow> (nat \<times> string) list" where
  "hexdumpf data = map (\<lambda>i. (i * bytes_per_row, hexdump_row data (i * bytes_per_row))) [0..<hexdump_rows (length data)]"

section \<open>A dump shows every byte\<close>

definition unhex :: "char \<Rightarrow> nat" where
  "unhex c = (if (of_char c :: nat) < 58 then of_char c - 48 else of_char c - 87)"

lemma unhex_hexdigit: "n < 16 \<Longrightarrow> unhex (hexdigit n) = n"
  by (simp add: unhex_def hexdigit_def take_bit_nat_eq_self)

lemma hex_pos_mono: "j < m \<Longrightarrow> hex_pos j + 2 \<le> hex_pos m"
  unfolding hex_pos_def bytes_per_group_def by (simp add: add_mono div_le_mono)

lemma hex_pos_bound: "j < 16 \<Longrightarrow> hex_pos j + 1 < byte_offset"
  unfolding hexdump_defs by presburger

lemma length_fill_row [simp]: "length (fill_row data off m) = buf_len - 1"
  by (induction m) (auto simp: put_byte_def)

lemma fill_row_nth:
  "j < m \<Longrightarrow> m \<le> 16 \<Longrightarrow> fill_row data off m ! hex_pos j = hexdigit (unat (data ! (off + j)) div 16)
    \<and> fill_row data off m ! (hex_pos j + 1) = hexdigit (unat (data ! (off + j)) mod 16)
    \<and> fill_row data off m ! (byte_offset + j) = printable (data ! (off + j))"
proof (induction m)
  case (Suc m)
  have len: "byte_offset + 16 = buf_len - 1" by (simp add: hexdump_defs)
  have m: "hex_pos m + 1 < byte_offset" "hex_pos j + 1 < byte_offset" using Suc.prems by (intro hex_pos_bound; simp)+
  show ?case
  proof (cases "j = m")
    case True
    with m Suc.prems len show ?thesis by (simp add: put_byte_def nth_list_update)
  next
    case False
    with Suc.prems have "j < m" by simp
    with hex_pos_mono [of j m] Suc m len show ?thesis by (simp add: put_byte_def nth_list_update)
  qed
qed simp

lemma hexdump_rows_cover:
  assumes "pos < len" shows "pos div 16 < hexdump_rows len"
proof (cases "len mod 16 = 0")
  case True
  then have "len = len div 16 * 16" by (metis div_mult_mod_eq add.right_neutral)
  with assms have "pos div 16 < len div 16" by (simp add: less_mult_imp_div_less)
  with True show ?thesis by (simp add: hexdump_rows_def bytes_per_row_def)
next
  case False
  with assms show ?thesis by (simp add: hexdump_rows_def bytes_per_row_def le_imp_less_Suc div_le_mono)
qed

text \<open>A hexdump has a row for every sixteen bytes, every store stays within its buffer, and the two
  digits at a byte's place on its row give the byte back.\<close>

theorem hexdump_correct:
  assumes "pos < length data"
  shows "\<exists>row. hexdumpf data ! (pos div 16) = (pos - pos mod 16, row) \<and> pos div 16 < length (hexdumpf data)
    \<and> hex_pos (pos mod 16) + 1 < byte_offset \<and> byte_offset + pos mod 16 < length row \<and> length row < buf_len
    \<and> 16 * unhex (row ! hex_pos (pos mod 16)) + unhex (row ! (hex_pos (pos mod 16) + 1)) = unat (data ! pos)
    \<and> row ! (byte_offset + pos mod 16) = printable (data ! pos)"
proof -
  define i j where "i = pos div 16" and "j = pos mod 16"
  have pos: "pos = i * 16 + j" "j < 16" by (simp_all add: i_def j_def)
  have i: "i < hexdump_rows (length data)"
    unfolding i_def by (rule hexdump_rows_cover [OF assms])
  let ?row = "hexdump_row data (i * 16)"
  have "unat (data ! pos) < 256" by (rule less_le_trans [OF unsigned_less]) simp
  moreover have "j < min 16 (length data - i * 16)" using assms pos by simp
  ultimately have row: "16 * unhex (?row ! hex_pos j) + unhex (?row ! (hex_pos j + 1)) = unat (data ! pos)"
    "?row ! (byte_offset + j) = printable (data ! pos)"
    using fill_row_nth [of j "min 16 (length data - i * 16)" data "i * 16"]
    by (simp_all add: hexdump_row_def bytes_per_row_def unhex_hexdigit pos(1))
  moreover have "hexdumpf data ! i = (pos - j, ?row)" "i < length (hexdumpf data)"
    using i pos(1) by (simp_all add: hexdumpf_def bytes_per_row_def)
  moreover have "hex_pos j + 1 < byte_offset" by (rule hex_pos_bound [OF pos(2)])
  moreover have "byte_offset + j < length ?row" "length ?row < buf_len"
    using pos(2) by (simp_all add: hexdump_row_def hexdump_defs)
  ultimately have "hexdumpf data ! i = (pos - j, ?row) \<and> i < length (hexdumpf data)
    \<and> hex_pos j + 1 < byte_offset \<and> byte_offset + j < length ?row \<and> length ?row < buf_len
    \<and> 16 * unhex (?row ! hex_pos j) + unhex (?row ! (hex_pos j + 1)) = unat (data ! pos)
    \<and> ?row ! (byte_offset + j) = printable (data ! pos)"
    using row by (intro conjI)
  then show ?thesis unfolding i_def j_def by (intro exI [of _ "hexdump_row data (pos div 16 * 16)"])
qed

lemma hexdump_witness: "\<exists>row. hexdumpf [0x61, 0xff] ! 0 = (0, row) \<and> row ! 41 = CHR ''a''"
proof -
  have [simp]: "printable 0x61 = CHR ''a''" by code_simp
  from hexdump_correct [of 0 "[0x61, 0xff]"] obtain row where
    "hexdumpf [0x61, 0xff] ! 0 = (0, row)" "row ! (byte_offset + 0) = printable 0x61" by auto
  then show ?thesis by (intro exI [of _ row]) (simp add: byte_offset_def bytes_per_row_def bytes_per_group_def)
qed

end
