(* ===== verification/Obj_Print.thy ===== *)
theory Obj_Print
  imports Removal Explain
begin

text \<open>
  \<open>debug.h\<close> and the functions that only print: \<open>obj_rule_print_all\<close>, \<open>obj_link_print\<close>,
  \<open>obj_neigh_print\<close>, \<open>obj_target_print\<close>, \<open>tc_rule_print\<close> and \<open>print_af_addr\<close>. A function gives the text
  that goes to \<open>stderr\<close>, or \<open>None\<close> when it follows a pointer that is null or dangling.

  \<open>loc\<close> is the text that \<open>fr_printf\<close> makes of the file, the line and the function, which the
  compiler gives; \<open>ntop\<close> is \<open>inet_ntop\<close> and \<open>show_ptr\<close> the text of a pointer.
\<close>

section \<open>Conversions\<close>

definition pad_left :: "nat \<Rightarrow> char \<Rightarrow> string \<Rightarrow> string" where
  "pad_left n c s = replicate (n - length s) c @ s"

definition pad_right :: "nat \<Rightarrow> string \<Rightarrow> string" where
  "pad_right n s = s @ replicate (n - length s) CHR '' ''"

text \<open>\<open>% 6d\<close> and \<open>% 4d\<close>: a blank stands for the sign of a number that is not negative.\<close>

definition blank_int :: "nat \<Rightarrow> u32 \<Rightarrow> string" where
  "blank_int n v = pad_left n CHR '' '' (if sint v < 0 then print_int v else CHR '' '' # print_int v)"

fun hexadecimal :: "nat \<Rightarrow> string" where
  "hexadecimal n = (if n < 16 then [hexdigit n] else hexadecimal (n div 16) @ [hexdigit (n mod 16)])"

declare hexadecimal.simps [simp del]

definition print_lladdr :: "bytes \<Rightarrow> string" where
  "print_lladdr a = concat (map (\<lambda>i. (if i = 0 then '''' else '':'') @ pad_left 2 CHR ''0'' (hexadecimal (unat (a ! i)))) [0..<6])"

definition hexdump_text :: "bytes \<Rightarrow> string" where
  "hexdump_text data = ''hexdumping '' @ decimal (length data) @ '' byte'' @ (if length data \<noteq> 1 then ''s'' else '''') @ [CHR 0x0A]
     @ concat (map (\<lambda>(off, row). pad_left 8 CHR ''0'' (hexadecimal off) @ '': '' @ row @ [CHR 0x0A]) (hexdumpf data))"

section \<open>What the verbosity lets through\<close>

datatype verbosity_level = LEVEL_ERROR | LEVEL_INFO | LEVEL_DEBUG1 | LEVEL_DEBUG2 | LEVEL_DEBUG3

fun level_no :: "verbosity_level \<Rightarrow> u8" where
  "level_no LEVEL_ERROR = 0"
| "level_no LEVEL_INFO = 1"
| "level_no LEVEL_DEBUG1 = 2"
| "level_no LEVEL_DEBUG2 = 3"
| "level_no LEVEL_DEBUG3 = 4"

definition DBG_LEVEL :: "config \<Rightarrow> verbosity_level \<Rightarrow> bool" where
  "DBG_LEVEL cfg prio \<longleftrightarrow> cfg_verbosity cfg \<ge> level_no prio"

text \<open>The arguments of \<open>fr_printf\<close> are evaluated only when it prints.\<close>

definition fr_printf :: "config \<Rightarrow> verbosity_level \<Rightarrow> string \<Rightarrow> string option \<Rightarrow> string option" where
  "fr_printf cfg prio loc text =
     (if DBG_LEVEL cfg prio then do { s \<leftarrow> text; Some ((if DBG_LEVEL cfg LEVEL_DEBUG3 then loc else '''') @ s) }
      else Some '''')"

type_synonym location = "string \<Rightarrow> nat \<Rightarrow> string"
type_synonym ntop = "u8 \<Rightarrow> bytes \<Rightarrow> string option"

definition print_af_addr :: "location \<Rightarrow> ntop \<Rightarrow> config \<Rightarrow> af_addr \<Rightarrow> string option" where
  "print_af_addr loc ntop cfg a =
     (case ntop (aa_af a) (aa_in a) of
        None \<Rightarrow> Some ''''
      | Some out \<Rightarrow> fr_printf cfg LEVEL_INFO (loc ''print_af_addr'' 39)
          (Some (out @ ''/'' @ decimal (unat (aa_mask_len a)) @ [CHR 0x0A])))"

definition tc_rule_print :: "location \<Rightarrow> config \<Rightarrow> tc_rule \<Rightarrow> string option" where
  "tc_rule_print loc cfg rule = fr_printf cfg LEVEL_DEBUG1 (loc ''tc_rule_print'' 110)
     (Some (''rule '' @ tc_rule_state_str (tcr_type rule) @ [CHR 0x0A]))"

section \<open>Links, neighbours and targets\<close>

definition obj_link_print :: "location \<Rightarrow> ptr \<Rightarrow> world \<Rightarrow> string option" where
  "obj_link_print loc p w = do {
     l \<leftarrow> w_links w p;
     obj_assert_kind OBJ_KIND_LINK (ol_obj l);
     let out = (\<lambda>line text. fr_printf (w_config w) LEVEL_INFO (loc ''obj_link_print'' line) text);
     s1 \<leftarrow> out 201 (Some (''link: '' @ print_int (ol_ifindex l)));
     s2 \<leftarrow> out 202 (do { name \<leftarrow> ol_ifname l; Some ('' '' @ name) });
     s3 \<leftarrow> (if ol_lower_ifindex l \<noteq> 0 then out 204 (Some ('', lower: '' @ print_int (ol_lower_ifindex l))) else Some '''');
     s4 \<leftarrow> out 205 (Some ('', lladdr: '' @ print_lladdr (ol_lladdr l)));
     s5 \<leftarrow> out 208 (Some ('', mtu: '' @ print_int (ol_mtu l)));
     s6 \<leftarrow> out 209 (Some ('', vlan: '' @ print_int (ucast (ol_vlan_id l))));
     s7 \<leftarrow> out 210 (Some [CHR 0x0A]);
     Some (s1 @ s2 @ s3 @ s4 @ s5 @ s6 @ s7)
   }"

definition obj_neigh_print :: "location \<Rightarrow> ntop \<Rightarrow> ptr \<Rightarrow> world \<Rightarrow> string option" where
  "obj_neigh_print loc ntop p w = do {
     n \<leftarrow> w_neighs w p;
     obj_assert_kind OBJ_KIND_NEIGH (on_obj n);
     let out = (\<lambda>line text. fr_printf (w_config w) LEVEL_INFO (loc ''obj_neigh_print'' line) text);
     s1 \<leftarrow> out 134 (do {
         lp \<leftarrow> on_link n;
         l \<leftarrow> w_links w lp;
         name \<leftarrow> ol_ifname l;
         Some (''neigh: '' @ print_int (ol_ifindex l) @ '' '' @ name @ '' (vlan id: '' @ print_int (ucast (ol_vlan_id l)) @ '')'')
       });
     s2 \<leftarrow> (if aa_af (on_addr n) > 0 then
         (case ntop (aa_af (on_addr n)) (aa_in (on_addr n)) of
            None \<Rightarrow> Some ''''
          | Some text \<Rightarrow> out 137 (Some ('' '' @ text)))
       else Some '''');
     s3 \<leftarrow> out 139 (Some ('', lladdr: '' @ print_lladdr (on_lladdr n)));
     s4 \<leftarrow> out 142 (Some [CHR 0x0A]);
     Some (s1 @ s2 @ s3 @ s4)
   }"

definition first_neigh :: "obj_target \<Rightarrow> world \<Rightarrow> obj_neigh option" where
  "first_neigh t w = do { np \<leftarrow> (case ot_nexthop t of [] \<Rightarrow> None | np # _ \<Rightarrow> Some np); w_neighs w np }"

definition obj_target_print :: "location \<Rightarrow> ntop \<Rightarrow> (ptr \<Rightarrow> string) \<Rightarrow> ptr \<Rightarrow> world \<Rightarrow> string option" where
  "obj_target_print loc ntop show_ptr p w = do {
     t \<leftarrow> w_targets w p;
     obj_assert_kind OBJ_KIND_TARGET (ot_obj t);
     s1 \<leftarrow> fr_printf (w_config w) LEVEL_INFO (loc ''obj_target_print'' 226) (do {
         n \<leftarrow> first_neigh t w;
         lp \<leftarrow> on_link n;
         l \<leftarrow> w_links w lp;
         name \<leftarrow> ol_ifname l;
         Some (''obj_target'' @ [CHR 0x09] @ show_ptr p @ [CHR 0x09] @ print_int (ucast (ol_vlan_id l)) @ [CHR 0x09] @ name @ [CHR 0x0A])
       });
     n \<leftarrow> first_neigh t w;
     s2 \<leftarrow> print_af_addr loc ntop (w_config w) (on_addr n);
     Some (s1 @ s2)
   }"

section \<open>The tables of rules\<close>

fun rule_state_no :: "obj_rule_state \<Rightarrow> u32" where
  "rule_state_no OBJ_RULE_STATE_NEW = 0"
| "rule_state_no OBJ_RULE_STATE_ALIEN = 1"
| "rule_state_no OBJ_RULE_STATE_WANT = 2"
| "rule_state_no OBJ_RULE_STATE_QUEUED = 3"
| "rule_state_no OBJ_RULE_STATE_PENDING = 4"
| "rule_state_no OBJ_RULE_STATE_OK = 5"
| "rule_state_no OBJ_RULE_STATE_ZOMBIE = 6"

definition tcr_sz :: nat where "tcr_sz = 56"

text \<open>The loop that counts the bytes in which two rules agree.\<close>

function match_loop :: "bytes \<Rightarrow> bytes \<Rightarrow> nat \<Rightarrow> nat" where
  "match_loop h w i = (if i \<le> tcr_sz \<and> memcmp (take i h) (take i w) = 0 then match_loop h w (Suc i) else i)"
  by auto
termination by (relation "measure (\<lambda>(h, w, i). Suc tcr_sz - i)") auto

declare match_loop.simps [simp del]

definition tcr_of :: "ptr option \<Rightarrow> world \<Rightarrow> tc_rule option option" where
  "tcr_of h w = (case h of None \<Rightarrow> Some None | Some a \<Rightarrow> do { t \<leftarrow> w_tcrs w a; Some (Some t) })"

definition type_column :: "tc_rule option \<Rightarrow> string" where
  "type_column t = pad_right 12 (case t of None \<Rightarrow> '''' | Some t \<Rightarrow> tc_rule_state_str (tcr_type t)) @ '' ''"

text \<open>What is printed of two rules that are not the same.\<close>

definition print_difference :: "location \<Rightarrow> ntop \<Rightarrow> config \<Rightarrow> tc_rule \<Rightarrow> tc_rule \<Rightarrow> string option" where
  "print_difference loc ntop cfg h w = do {
     let out = (\<lambda>line text. fr_printf cfg LEVEL_INFO (loc ''obj_rule_print_all'' line) (Some text));
     let both = (\<lambda>f. blank_int 4 (f h) @ '' '' @ blank_int 4 (f w) @ [CHR 0x0A]);
     s1 \<leftarrow> out 480 (''vlan_id:'' @ [CHR 0x09] @ both (\<lambda>t. ucast (tcr_vlan_id t)));
     s2 \<leftarrow> out 481 (''flower_flags:'' @ [CHR 0x09] @ pad_left 4 CHR '' '' (hexadecimal (unat (tcr_flower_flags h))) @ '' ''
       @ pad_left 4 CHR '' '' (hexadecimal (unat (tcr_flower_flags w))) @ [CHR 0x0A]);
     s3 \<leftarrow> out 482 (''traits:'' @ [CHR 0x09, CHR 0x09] @ both tcr_traits);
     s4 \<leftarrow> out 483 (''goto:'' @ [CHR 0x09, CHR 0x09] @ both tcr_goto_target);
     s5 \<leftarrow> print_af_addr loc ntop cfg (tcr_af_addr h);
     s6 \<leftarrow> print_af_addr loc ntop cfg (tcr_af_addr w);
     Some (s1 @ s2 @ s3 @ s4 @ hexdump_text (tc_rule_bytes h) @ hexdump_text (tc_rule_bytes w) @ s5 @ s6
       @ hexdump_text (af_addr_bytes (tcr_af_addr h)) @ hexdump_text (af_addr_bytes (tcr_af_addr w)))
   }"

definition match_text :: "tc_rule \<Rightarrow> tc_rule \<Rightarrow> string" where
  "match_text h w = (if tc_rule_cmp h w = 0 then ''= matching''
     else decimal (match_loop (tc_rule_bytes h) (tc_rule_bytes w) 1 - 1) @ '' bytes matching'')"

definition print_rule :: "location \<Rightarrow> ntop \<Rightarrow> world \<Rightarrow> ptr \<Rightarrow> string option" where
  "print_rule loc ntop w p = do {
     let out = (\<lambda>line text. fr_printf (w_config w) LEVEL_INFO (loc ''obj_rule_print_all'' line) (Some text));
     r \<leftarrow> w_rules w p;
     h \<leftarrow> tcr_of (oru_have r) w;
     wn \<leftarrow> tcr_of (oru_want r) w;
     s1 \<leftarrow> out 451 (''rule '' @ blank_int 6 (oru_chain_no r) @ '' '' @ blank_int 6 (ucast (oru_prio r)) @ ''  ''
       @ print_int (rule_state_no (oru_state r)) @ ''  '');
     s2 \<leftarrow> out (if h \<noteq> None then 455 else 457) (type_column h);
     s3 \<leftarrow> out (if wn \<noteq> None then 461 else 463) (type_column wn);
     s4 \<leftarrow> (case (h, wn) of
         (Some h, Some wn) \<Rightarrow> out (if tc_rule_cmp h wn = 0 then 468 else 474) (match_text h wn)
       | _ \<Rightarrow> Some '''');
     s5 \<leftarrow> out 477 ('' '' @ print_int (oc_refcnt (oru_obj r)) @ '' '' @ print_int (oc_weak_refcnt (oru_obj r)) @ [CHR 0x0A]);
     s6 \<leftarrow> out 478 [CHR 0x0A];
     s7 \<leftarrow> (case (h, wn) of
         (Some h, Some wn) \<Rightarrow> if tc_rule_cmp h wn \<noteq> 0 then print_difference loc ntop (w_config w) h wn else Some ''''
       | (None, Some wn) \<Rightarrow> Some (hexdump_text (tc_rule_bytes wn))
       | (Some h, None) \<Rightarrow> Some (hexdump_text (tc_rule_bytes h))
       | (None, None) \<Rightarrow> Some '''');
     Some (s1 @ s2 @ s3 @ s4 @ s5 @ s6 @ s7)
   }"

definition print_found :: "location \<Rightarrow> world \<Rightarrow> ptr \<Rightarrow> string option" where
  "print_found loc w p = do {
     let out = (\<lambda>line text. fr_printf (w_config w) LEVEL_INFO (loc ''obj_rule_print_all'' line) (Some text));
     r \<leftarrow> w_rules w p;
     h \<leftarrow> tcr_of (oru_have r) w;
     s1 \<leftarrow> out 499 ('' ??? '' @ blank_int 6 (oru_chain_no r) @ '' '' @ blank_int 6 (ucast (oru_prio r)) @ '' '');
     s2 \<leftarrow> (case h of None \<Rightarrow> Some '''' | Some h \<Rightarrow> out 503 (pad_right 12 (tc_rule_state_str (tcr_type h))));
     s3 \<leftarrow> out 504 [CHR 0x0A];
     s4 \<leftarrow> (case h of None \<Rightarrow> Some '''' | Some h \<Rightarrow> tc_rule_print loc (w_config w) h);
     Some (s1 @ s2 @ s3 @ s4)
   }"

fun print_each :: "(ptr \<Rightarrow> string option) \<Rightarrow> ptr list \<Rightarrow> string option" where
  "print_each f [] = Some ''''"
| "print_each f (p # ps) = do { s \<leftarrow> f p; t \<leftarrow> print_each f ps; Some (s @ t) }"

text \<open>The loops walk the trees in order; \<open>RB_Props.rb_walk_correct\<close> is about such walks.\<close>

definition obj_rule_print_all :: "location \<Rightarrow> ntop \<Rightarrow> world \<Rightarrow> string option" where
  "obj_rule_print_all loc ntop w = do {
     s \<leftarrow> print_each (print_rule loc ntop w) (rb_inorder (w_pos_tree w));
     t \<leftarrow> print_each (print_found loc w) (rb_inorder (w_laf_tree w));
     Some (s @ t)
   }"

section \<open>Printing the rules\<close>

definition said :: "config \<Rightarrow> verbosity_level \<Rightarrow> string \<Rightarrow> string \<Rightarrow> string" where
  "said cfg prio loc s = (if DBG_LEVEL cfg prio then (if DBG_LEVEL cfg LEVEL_DEBUG3 then loc else '''') @ s else '''')"

lemma fr_printf_said: "fr_printf cfg prio loc (Some s) = Some (said cfg prio loc s)"
  by (simp add: fr_printf_def said_def)

lemma said_quiet: "cfg_verbosity cfg = 0 \<Longrightarrow> prio \<noteq> LEVEL_ERROR \<Longrightarrow> said cfg prio loc s = ''''"
  by (cases prio) (simp_all add: said_def DBG_LEVEL_def)

lemma print_each_total: "(\<And>p. p \<in> set ps \<Longrightarrow> \<exists>s. f p = Some s) \<Longrightarrow> \<exists>s. print_each f ps = Some s"
  by (induction ps) (simp, fastforce)

lemma print_each_nil:
  "(\<And>p. p \<in> set ps \<Longrightarrow> \<exists>s. f p = Some s \<and> (s = '''' \<longleftrightarrow> Q p)) \<Longrightarrow>
   \<exists>s. print_each f ps = Some s \<and> (s = '''' \<longleftrightarrow> (\<forall>p\<in>set ps. Q p))"
  by (induction ps) (simp, fastforce)

lemma tcr_of_slot:
  assumes "rules_ok w" "w_rules w p = Some r"
  shows "tcr_of (slot_of r b) w = Some (slots w (p, b) \<bind> w_tcrs w)"
proof (cases "slot_of r b")
  case (Some h)
  then have "slots w (p, b) = Some h" using assms(2) by (simp add: slots_def)
  moreover have "owned (slots w) (w_tcrs w)" using assms(1) by (simp add: rules_ok_def)
  ultimately have "w_tcrs w h \<noteq> None" unfolding owned_def by blast
  with Some \<open>slots w (p, b) = Some h\<close> show ?thesis by (auto simp: tcr_of_def)
qed (use assms(2) in \<open>simp add: tcr_of_def slots_def\<close>)

lemma tcr_of_table:
  assumes ok: "rules_ok w" and p: "p \<in> set (rb_inorder (w_pos_tree w))"
  obtains r where "w_rules w p = Some r" "tcr_of (oru_have r) w = Some (present w (rule_pos w p))"
    "tcr_of (oru_want r) w = Some (wanted w (rule_pos w p))"
proof -
  have "pos_ok w" using ok by (simp add: rules_ok_def)
  then have "w_rules w p \<noteq> None" "rule_at w (rule_pos w p) = Some p"
    using p by (auto simp: pos_ok_def rule_at_eq_Some)
  then show thesis
    using that tcr_of_slot [OF ok, of p _ Have] tcr_of_slot [OF ok, of p _ Want] by (auto simp: table_def)
qed

lemma print_af_addr_total: "\<exists>s. print_af_addr loc ntop cfg a = Some s"
  by (simp add: print_af_addr_def fr_printf_said split: option.split)

lemma hexdump_text_nonempty: "hexdump_text data \<noteq> ''''"
  by (simp add: hexdump_text_def)

lemma print_difference_total: "\<exists>s. print_difference loc ntop cfg h w = Some s \<and> s \<noteq> ''''"
proof -
  obtain s t where "print_af_addr loc ntop cfg (tcr_af_addr h) = Some s" "print_af_addr loc ntop cfg (tcr_af_addr w) = Some t"
    using print_af_addr_total by blast
  then show ?thesis by (simp add: print_difference_def fr_printf_said hexdump_text_nonempty)
qed

text \<open>At the lowest verbosity a rule is only dumped when it is not what is wanted.\<close>

lemma print_rule_total:
  assumes ok: "rules_ok w" and p: "p \<in> set (rb_inorder (w_pos_tree w))"
  shows "\<exists>s. print_rule loc ntop w p = Some s \<and> (cfg_verbosity (w_config w) = 0 \<longrightarrow>
    (s = '''' \<longleftrightarrow> present w (rule_pos w p) = wanted w (rule_pos w p)))"
proof -
  obtain r where r: "w_rules w p = Some r" "tcr_of (oru_have r) w = Some (present w (rule_pos w p))"
    "tcr_of (oru_want r) w = Some (wanted w (rule_pos w p))" using ok p by (rule tcr_of_table)
  have wf: "wf_tc_rule t" if "table b w k = Some t" for b k t
    using that ok by (auto simp: table_def rules_ok_def bind_eq_Some_conv)
  show ?thesis
  proof (cases "present w (rule_pos w p)")
    case None
    then show ?thesis
      by (cases "wanted w (rule_pos w p)") (simp_all add: print_rule_def r fr_printf_said said_quiet hexdump_text_nonempty)
  next
    case (Some h)
    show ?thesis
    proof (cases "wanted w (rule_pos w p)")
      case None
      with Some show ?thesis by (simp add: print_rule_def r fr_printf_said said_quiet hexdump_text_nonempty)
    next
      case want: (Some x)
      obtain s where "print_difference loc ntop (w_config w) h x = Some s" "s \<noteq> ''''"
        using print_difference_total by blast
      with Some want wf [OF Some] wf [OF want] show ?thesis
        by (simp add: print_rule_def r fr_printf_said said_quiet tc_rule_cmp_0)
    qed
  qed
qed

lemma print_found_total:
  assumes ok: "rules_ok w" and p: "p \<in> set (rb_inorder (w_laf_tree w))"
  shows "\<exists>s. print_found loc w p = Some s \<and> (cfg_verbosity (w_config w) = 0 \<longrightarrow> s = '''')"
proof -
  have "p \<in> set (rb_inorder (w_pos_tree w))" using assms by (auto simp: rules_ok_def laf_ok_def)
  with ok obtain r where r: "w_rules w p = Some r" "tcr_of (oru_have r) w = Some (present w (rule_pos w p))" by (rule tcr_of_table)
  then show ?thesis
    by (cases "present w (rule_pos w p)") (simp_all add: print_found_def fr_printf_said said_quiet tc_rule_print_def)
qed

lemma obj_rule_print_all_total:
  assumes ok: "rules_ok w" shows "\<exists>s. obj_rule_print_all loc ntop w = Some s"
proof -
  obtain s where "print_each (print_rule loc ntop w) (rb_inorder (w_pos_tree w)) = Some s"
    using print_each_total [of "rb_inorder (w_pos_tree w)" "print_rule loc ntop w"] print_rule_total [OF ok] by blast
  moreover obtain t where "print_each (print_found loc w) (rb_inorder (w_laf_tree w)) = Some t"
    using print_each_total [of "rb_inorder (w_laf_tree w)" "print_found loc w"] print_found_total [OF ok] by blast
  ultimately show ?thesis by (simp add: obj_rule_print_all_def)
qed

lemma tables_equal:
  assumes "rules_ok w"
  shows "present w = wanted w \<longleftrightarrow> (\<forall>p\<in>set (rb_inorder (w_pos_tree w)). present w (rule_pos w p) = wanted w (rule_pos w p))"
proof
  assume all: "\<forall>p\<in>set (rb_inorder (w_pos_tree w)). present w (rule_pos w p) = wanted w (rule_pos w p)"
  show "present w = wanted w"
  proof
    fix k show "present w k = wanted w k"
      using all assms by (cases "rule_at w k") (auto simp: table_None rules_ok_def rule_at_eq_Some)
  qed
qed simp

text \<open>C34. The summary of the rules follows no pointer that is null or dangling, and at the lowest verbosity
  it is empty exactly when the kernel has what is wanted and nothing else: the dumps of the rules
  that differ are printed whatever the verbosity.\<close>

theorem obj_rule_print_all_quiet:
  assumes "rules_ok w" and "cfg_verbosity (w_config w) = 0"
  shows "\<exists>s. obj_rule_print_all loc ntop w = Some s \<and> (s = '''' \<longleftrightarrow> present w = wanted w)"
proof -
  let ?Q = "\<lambda>p. present w (rule_pos w p) = wanted w (rule_pos w p)"
  have rules: "\<exists>s. print_rule loc ntop w p = Some s \<and> (s = '''' \<longleftrightarrow> ?Q p)" if "p \<in> set (rb_inorder (w_pos_tree w))" for p
    using print_rule_total [OF assms(1) that] assms(2) by blast
  from print_each_nil [of "rb_inorder (w_pos_tree w)" _ ?Q, OF rules] obtain s where s: "print_each (print_rule loc ntop w) (rb_inorder (w_pos_tree w)) = Some s"
    "s = '''' \<longleftrightarrow> present w = wanted w" unfolding tables_equal [OF assms(1)] by blast
  have found: "\<exists>t. print_found loc w p = Some t \<and> (t = '''' \<longleftrightarrow> True)" if "p \<in> set (rb_inorder (w_laf_tree w))" for p
    using print_found_total [OF assms(1) that] assms(2) by blast
  from print_each_nil [of "rb_inorder (w_laf_tree w)" "print_found loc w" "\<lambda>_. True", OF found] obtain t where "print_each (print_found loc w) (rb_inorder (w_laf_tree w)) = Some t" "t = ''''"
    by blast
  with s show ?thesis by (simp add: obj_rule_print_all_def)
qed

text \<open>The loop ends inside the two rules, and the number printed is that of the bytes they have in common
  before the first that differs.\<close>

lemma memcmp_take: "length h = length w \<Longrightarrow> memcmp (take i h) (take i w) = 0 \<longleftrightarrow> take i h = take i w"
  by (simp add: memcmp_0_iff)

lemma match_loop_stops:
  assumes "length h = length w" "take i h = take i w" "take n h = take n w" "take (Suc n) h \<noteq> take (Suc n) w" "i \<le> n" "n < tcr_sz"
  shows "match_loop h w (Suc i) = Suc n"
  using assms(2,5)
proof (induction "n - i" arbitrary: i)
  case 0
  then have "i = n" by simp
  with assms show ?case by (subst match_loop.simps) (simp add: memcmp_take)
next
  case (Suc d)
  have "take (Suc i) h = take (Suc i) w"
    using assms(3) Suc(2,4) by (metis Suc_leI diff_is_0_eq' min.absorb1 nat.distinct(1) nat_le_linear not_less_eq_eq take_take)
  moreover have "match_loop h w (Suc (Suc i)) = Suc n" by (rule Suc(1)) (use Suc calculation in auto)
  ultimately show ?case using assms(1,6) Suc by (subst match_loop.simps) (simp add: memcmp_take)
qed

lemma match_loop_prefix:
  assumes "wf_tc_rule h" "wf_tc_rule w" "h \<noteq> w"
  shows "\<exists>n<tcr_sz. match_loop (tc_rule_bytes h) (tc_rule_bytes w) 1 = Suc n
    \<and> take n (tc_rule_bytes h) = take n (tc_rule_bytes w) \<and> tc_rule_bytes h ! n \<noteq> tc_rule_bytes w ! n"
proof -
  let ?h = "tc_rule_bytes h" and ?w = "tc_rule_bytes w"
  have len: "length ?h = tcr_sz" "length ?w = tcr_sz" using assms by (simp_all add: length_tc_rule_bytes tcr_sz_def)
  have "?h \<noteq> ?w" using assms by (simp add: tc_rule_bytes_inject)
  then have "\<exists>n. n < tcr_sz \<and> ?h ! n \<noteq> ?w ! n" using len by (auto simp: list_eq_iff_nth_eq)
  then obtain n where n: "n < tcr_sz" "?h ! n \<noteq> ?w ! n" "\<forall>m<n. \<not> (m < tcr_sz \<and> ?h ! m \<noteq> ?w ! m)"
    using exists_least_iff [of "\<lambda>n. n < tcr_sz \<and> ?h ! n \<noteq> ?w ! n"] by auto
  then have "take n ?h = take n ?w" using len by (intro nth_equalityI) auto
  moreover have "take (Suc n) ?h \<noteq> take (Suc n) ?w" using n(1,2) len by (simp add: take_Suc_conv_app_nth)
  ultimately have "match_loop ?h ?w (Suc 0) = Suc n"
    using match_loop_stops [of ?h ?w 0 n] len n(1) by simp
  with n \<open>take n ?h = take n ?w\<close> show ?thesis by (intro exI [of _ n]) simp
qed

text \<open>C26. What is said of two rules at one position. If they are the same they are said to match; if not,
  the loop that counts ends within the two rules, so that no byte after them is compared, and
  the number said is that of the bytes in which they agree before the first difference.\<close>

theorem match_text_correct:
  assumes "wf_tc_rule h" "wf_tc_rule w"
  shows "match_text h w = (if h = w then ''= matching''
      else decimal (length (takeWhile (\<lambda>(a, b). a = b) (zip (tc_rule_bytes h) (tc_rule_bytes w)))) @ '' bytes matching'')
    \<and> (h \<noteq> w \<longrightarrow> match_loop (tc_rule_bytes h) (tc_rule_bytes w) 1 \<le> length (tc_rule_bytes h))"
proof (cases "h = w")
  case True
  then show ?thesis using assms by (simp add: match_text_def tc_rule_cmp_0)
next
  case False
  let ?h = "tc_rule_bytes h" and ?w = "tc_rule_bytes w"
  have len: "length ?h = tcr_sz" "length ?w = tcr_sz" using assms by (simp_all add: length_tc_rule_bytes tcr_sz_def)
  obtain n where n: "n < tcr_sz" "match_loop ?h ?w 1 = Suc n" "take n ?h = take n ?w" "?h ! n \<noteq> ?w ! n"
    using match_loop_prefix [OF assms False] by blast
  have "takeWhile (\<lambda>(a, b). a = b) (zip ?h ?w) = take n (zip ?h ?w)"
  proof (rule takeWhile_eq_take_P_nth)
    show "case zip ?h ?w ! i of (a, b) \<Rightarrow> a = b" if "i < n" "i < length (zip ?h ?w)" for i
      using that arg_cong [OF n(3), of "\<lambda>xs. xs ! i"] by simp
    show "\<not> (case zip ?h ?w ! n of (a, b) \<Rightarrow> a = b)" if "n < length (zip ?h ?w)"
      using that n(4) by simp
  qed
  then have "length (takeWhile (\<lambda>(a, b). a = b) (zip ?h ?w)) = n" using n(1) len by simp
  with False n(1,2) len assms show ?thesis by (simp add: match_text_def tc_rule_cmp_0)
qed

lemma match_text_correct_witness:
  "match_text demo_old_tcr demo_tcr = ''20 bytes matching''"
proof -
  have "wf_tc_rule demo_old_tcr" "wf_tc_rule demo_tcr" by code_simp+
  moreover have "demo_old_tcr \<noteq> demo_tcr" using demo_differs by (auto simp: tc_rule_cmp_def)
  moreover have "decimal (length (takeWhile (\<lambda>(a, b). a = b) (zip (tc_rule_bytes demo_old_tcr) (tc_rule_bytes demo_tcr)))) = ''20''"
    by code_simp
  ultimately show ?thesis using match_text_correct [of demo_old_tcr demo_tcr] by simp
qed

lemma obj_rule_print_all_witness:
  "\<exists>s. obj_rule_print_all (\<lambda>_ _. '''') (\<lambda>_ _. None) (demo_old_world 0 (Some 2)) = Some s \<and> s \<noteq> ''''"
proof -
  have "demo_old_tcr \<noteq> demo_tcr" using demo_differs by (auto simp: tc_rule_cmp_def)
  then have "[(1 :: u32, 1 :: u16) \<mapsto> demo_old_tcr] \<noteq> [(1, 1) \<mapsto> demo_tcr]" by (metis fun_upd_eqD option.inject)
  moreover have "cfg_verbosity (w_config (demo_old_world 0 (Some 2))) = 0" by (simp add: demo_config_def config_init_def)
  ultimately show ?thesis
    using obj_rule_print_all_quiet [OF demo_old_world_ok(1), of "Some 2" 0 "\<lambda>_ _. ''''" "\<lambda>_ _. None"]
    by (simp add: demo_old_world_ok)
qed

end
