(* ===== verification/Hack.thy ===== *)
theory Hack
  imports TC_Rule
begin

text \<open>
  \<open>src/hack.c\<close>: a script of requests for experiments with the hardware. No build includes it: the functions that send
  its requests, and the header that would declare them, are not in the repository, so a request is the value that the
  script passes to them. Every step fills in a rule that was never initialised: what it held in step \<open>k\<close> is \<open>g k\<close>.
\<close>

datatype hack_request = Drop_tc_rule u32 u16 | Drop_tc_chain u32 | Add_tc_rule u32 u16 tc_rule

section \<open>Rules\<close>

definition prepare_onload_rule :: "(u8 \<Rightarrow> string \<Rightarrow> bytes option) \<Rightarrow> string \<Rightarrow> u8 \<Rightarrow> tc_rule \<Rightarrow> tc_rule" where
  "prepare_onload_rule inet_pton ipstr mask_len rule =
     (let f = (if CHR '':'' \<in> set ipstr then AF_INET6 else AF_INET);
          rule = rule\<lparr>tcr_af_addr := (tcr_af_addr rule)\<lparr>aa_af := f\<rparr>\<rparr> in
      case inet_pton f ipstr of
        None \<Rightarrow> rule
      | Some bs \<Rightarrow> rule\<lparr>tcr_af_addr := (tcr_af_addr rule)\<lparr>
            aa_in := bs @ drop (length bs) (aa_in (tcr_af_addr rule)), aa_mask_len := mask_len\<rparr>,
          tcr_type := TC_RULE_TYPE_ROUTE_TRAP\<rparr>)"

definition prepare_goto_rule ::
  "(u8 \<Rightarrow> string \<Rightarrow> bytes option) \<Rightarrow> string \<Rightarrow> u8 \<Rightarrow> u32 \<Rightarrow> tc_rule \<Rightarrow> tc_rule" where
  "prepare_goto_rule inet_pton ipstr mask_len goto_target rule =
     (prepare_onload_rule inet_pton ipstr mask_len rule)\<lparr>tcr_goto_target := goto_target, tcr_type := TC_RULE_TYPE_ROUTE_GOTO\<rparr>"

definition prepare_forward_rule :: "u16 \<Rightarrow> u16 \<Rightarrow> bytes \<Rightarrow> bytes \<Rightarrow> tc_rule \<Rightarrow> tc_rule" where
  "prepare_forward_rule vid f dst src rule =
     rule\<lparr>tcr_vlan_id := vid, tcr_lladdr := take 6 dst @ take 6 src,
       tcr_af_addr := (tcr_af_addr rule)\<lparr>aa_af := ucast f\<rparr>, tcr_type := TC_RULE_TYPE_FORWARD\<rparr>"

definition prepare_ttl_rule :: "u8 \<Rightarrow> tc_rule \<Rightarrow> tc_rule" where
  "prepare_ttl_rule f rule = rule\<lparr>tcr_af_addr := (tcr_af_addr rule)\<lparr>aa_af := f\<rparr>, tcr_type := TC_RULE_TYPE_TTL_CHECK\<rparr>"

section \<open>The script\<close>

definition hack_drops :: "hack_request list" where
  "hack_drops =
    [Drop_tc_rule 14 1,
     Drop_tc_chain 14,
     Drop_tc_chain 16,
     Drop_tc_chain 24,
     Drop_tc_chain 26,
     Drop_tc_chain 34,
     Drop_tc_chain 36,
     Drop_tc_chain 0,
     Drop_tc_chain 0]"

definition hack_traps :: "(u8 \<Rightarrow> string \<Rightarrow> bytes option) \<Rightarrow> (nat \<Rightarrow> tc_rule) \<Rightarrow> hack_request list" where
  "hack_traps inet_pton g =
    [Add_tc_rule 0 1 (prepare_ttl_rule AF_INET (g 9)),
     Add_tc_rule 0 2 (prepare_ttl_rule AF_INET6 (g 10)),
     Add_tc_rule 0 10 (prepare_onload_rule inet_pton ''192.0.2.0'' 24 (g 11)),
     Add_tc_rule 0 11 (prepare_onload_rule inet_pton ''2001:db8:ffff::'' 48 (g 12))]"

definition hack_gotos :: "(u8 \<Rightarrow> string \<Rightarrow> bytes option) \<Rightarrow> (nat \<Rightarrow> tc_rule) \<Rightarrow> hack_request list" where
  "hack_gotos inet_pton g =
    [Add_tc_rule 0 100 (prepare_goto_rule inet_pton ''198.51.100.0'' 25 14 (g 13)),
     Add_tc_rule 0 101 (prepare_goto_rule inet_pton ''2001:db8:1::'' 48 16 (g 14)),
     Add_tc_rule 0 102 (prepare_goto_rule inet_pton ''198.51.100.128'' 25 24 (g 15)),
     Add_tc_rule 0 103 (prepare_goto_rule inet_pton ''2001:db8:2::'' 48 26 (g 16)),
     Add_tc_rule 0 104 (prepare_goto_rule inet_pton ''203.0.113.0'' 25 34 (g 17)),
     Add_tc_rule 0 105 (prepare_goto_rule inet_pton ''2001:db8:3::'' 48 36 (g 18)),
     Add_tc_rule 0 110 (prepare_goto_rule inet_pton ''2001:db8:3::'' 49 36 (g 19)),
     Add_tc_rule 0 111 (prepare_goto_rule inet_pton ''2001:db8:3::'' 50 36 (g 20)),
     Add_tc_rule 0 112 (prepare_goto_rule inet_pton ''2001:db8:3::'' 51 36 (g 21)),
     Add_tc_rule 0 113 (prepare_goto_rule inet_pton ''2001:db8:3::'' 52 36 (g 22)),
     Add_tc_rule 0 114 (prepare_goto_rule inet_pton ''2001:db8:3::'' 53 36 (g 23)),
     Add_tc_rule 0 115 (prepare_goto_rule inet_pton ''2001:db8:3::'' 54 36 (g 24)),
     Add_tc_rule 0 116 (prepare_goto_rule inet_pton ''2001:db8:3::'' 55 36 (g 25)),
     Add_tc_rule 0 117 (prepare_goto_rule inet_pton ''2001:db8:3::'' 56 36 (g 26)),
     Add_tc_rule 0 118 (prepare_goto_rule inet_pton ''2001:db8:3::'' 57 36 (g 27)),
     Add_tc_rule 0 119 (prepare_goto_rule inet_pton ''2001:db8:3::'' 58 36 (g 28)),
     Add_tc_rule 0 120 (prepare_goto_rule inet_pton ''2001:db8:3::'' 128 36 (g 29)),
     Add_tc_rule 0 121 (prepare_goto_rule inet_pton ''2001:db8:3::'' 0 36 (g 30)),
     Add_tc_rule 0 122 (prepare_goto_rule inet_pton ''2001:db8:3::'' 1 36 (g 31)),
     Add_tc_rule 0 123 (prepare_goto_rule inet_pton ''2001:db8:3::'' 2 36 (g 32)),
     Add_tc_rule 0 124 (prepare_goto_rule inet_pton ''2001:db8:3::'' 127 36 (g 33))]"

definition hack_forwards :: "(nat \<Rightarrow> tc_rule) \<Rightarrow> hack_request list" where
  "hack_forwards g =
    [Add_tc_rule 14 1 (prepare_forward_rule 710 (ucast AF_INET) [0x0a, 0x12, 0x34, 0x56, 0x00, 0x12] [0x0a, 0x12, 0x34, 0x56, 0x00, 0x11] (g 34)),
     Add_tc_rule 16 1 (prepare_forward_rule 710 (ucast AF_INET6) [0x0a, 0x12, 0x34, 0x56, 0x00, 0x12] [0x0a, 0x12, 0x34, 0x56, 0x00, 0x11] (g 35)),
     Add_tc_rule 24 1 (prepare_forward_rule 720 (ucast AF_INET) [0x0a, 0x12, 0x34, 0x56, 0x00, 0x22] [0x0a, 0x12, 0x34, 0x56, 0x00, 0x21] (g 36)),
     Add_tc_rule 26 1 (prepare_forward_rule 720 (ucast AF_INET6) [0x0a, 0x12, 0x34, 0x56, 0x00, 0x22] [0x0a, 0x12, 0x34, 0x56, 0x00, 0x21] (g 37)),
     Add_tc_rule 34 1 (prepare_forward_rule 730 (ucast AF_INET) [0x0a, 0x12, 0x34, 0x56, 0x00, 0x32] [0x0a, 0x12, 0x34, 0x56, 0x00, 0x31] (g 38)),
     Add_tc_rule 36 1 (prepare_forward_rule 730 (ucast AF_INET6) [0x0a, 0x12, 0x34, 0x56, 0x00, 0x32] [0x0a, 0x12, 0x34, 0x56, 0x00, 0x31] (g 39))]"

definition hack_script :: "(u8 \<Rightarrow> string \<Rightarrow> bytes option) \<Rightarrow> (nat \<Rightarrow> tc_rule) \<Rightarrow> hack_request list" where
  "hack_script inet_pton g = hack_drops @ hack_traps inet_pton g @ hack_gotos inet_pton g @ hack_forwards g"

section \<open>The state machine\<close>

text \<open>
  The state is a counter. The cases of the switch are the even numbers from 2 on, in the order of the script, and the
  last use of \<open>NEW_HACK_STEP\<close> is the first even number past them.
\<close>

record my_state =
  ms_state :: nat
  ms_open :: bool
  ms_chain_no :: "u32 option"

definition increase_state :: "my_state \<Rightarrow> my_state" where
  "increase_state s = s\<lparr>ms_state := ms_state s + 1\<rparr>"

definition last_step :: "hack_request list \<Rightarrow> nat" where
  "last_step reqs = 2 + 2 * length reqs"

text \<open>The new state, the request made, and whether the next item is scheduled.\<close>

definition advance_state :: "hack_request list \<Rightarrow> my_state \<Rightarrow> my_state \<times> hack_request option \<times> bool" where
  "advance_state reqs s =
     (let s = increase_state s; n = ms_state s;
          s = (if n = 1 then s\<lparr>ms_open := True\<rparr> else if n = 14 then s\<lparr>ms_chain_no := Some 36\<rparr> else s);
          req = (if even n \<and> 2 \<le> n \<and> n < last_step reqs then Some (reqs ! ((n - 2) div 2)) else None) in
      (s, req, odd n \<and> n < last_step reqs))"

text \<open>
  An item of the queue: \<open>prepare_state\<close> advances the state when the item is executed, and \<open>advance_state\<close> is called once more
  when the kernel has answered. The executions of the items follow each other; the first argument bounds their number.
\<close>

fun hack_items :: "nat \<Rightarrow> hack_request list \<Rightarrow> my_state \<Rightarrow> (my_state \<times> hack_request list) option" where
  "hack_items 0 reqs s = None"
| "hack_items (Suc fuel) reqs s =
     (case advance_state reqs s of (s, req, _) \<Rightarrow>
        case advance_state reqs s of (s, _, again) \<Rightarrow>
          let log = (case req of None \<Rightarrow> [] | Some r \<Rightarrow> [r]) in
          if again then map_option (\<lambda>(s, rs). (s, log @ rs)) (hack_items fuel reqs s) else Some (s, log))"

definition hack_static :: "nat \<Rightarrow> hack_request list \<Rightarrow> (my_state \<times> hack_request list) option" where
  "hack_static fuel reqs =
     (case advance_state reqs \<lparr>ms_state = 0, ms_open = False, ms_chain_no = None\<rparr> of (s, _, again) \<Rightarrow>
        if again then hack_items fuel reqs s else Some (s, []))"

text \<open>The script runs to its last line, every request once and in order, and then stops.\<close>

lemma hack_items_run:
  "k \<le> length reqs \<Longrightarrow> ms_state s = 2 * k + 1 \<Longrightarrow>
   \<exists>s'. hack_items (Suc (length reqs - k)) reqs s = Some (s', drop k reqs) \<and> ms_state s' = last_step reqs + 1"
proof (induction "length reqs - k" arbitrary: k s)
  case 0
  then have "k = length reqs" by simp
  with 0 show ?case by (simp add: advance_state_def increase_state_def last_step_def Let_def)
next
  case (Suc d)
  then have k: "k < length reqs" by simp
  let ?s = "fst (advance_state reqs (fst (advance_state reqs s)))"
  have s: "ms_state ?s = 2 * Suc k + 1" using Suc.prems(2) by (simp add: advance_state_def increase_state_def Let_def)
  have "d = length reqs - Suc k" using Suc.hyps(2) k by simp
  from Suc.hyps(1) [OF this _ s] k obtain s' where
    s': "hack_items (Suc (length reqs - Suc k)) reqs ?s = Some (s', drop (Suc k) reqs)" "ms_state s' = last_step reqs + 1" by auto
  have "fst (snd (advance_state reqs s)) = Some (reqs ! k)" "snd (snd (advance_state reqs (fst (advance_state reqs s))))"
    using Suc.prems(2) k by (simp_all add: advance_state_def increase_state_def last_step_def Let_def)
  moreover have "Suc (length reqs - k) = Suc (Suc (length reqs - Suc k))" using k by simp
  ultimately have "hack_items (Suc (length reqs - k)) reqs s = Some (s', reqs ! k # drop (Suc k) reqs)"
    using s'(1) by (simp add: split_beta del: hack_items.simps(2) add: hack_items.simps(2) [of "Suc (length reqs - Suc k)"])
  with s'(2) k show ?case by (simp add: Cons_nth_drop_Suc)
qed

lemma hack_static_runs:
  "\<exists>s. hack_static (Suc (length reqs)) reqs = Some (s, reqs) \<and> ms_state s = last_step reqs + 1"
  using hack_items_run [of 0 reqs "fst (advance_state reqs \<lparr>ms_state = 0, ms_open = False, ms_chain_no = None\<rparr>)"]
  by (simp add: hack_static_def split_beta) (simp add: advance_state_def increase_state_def last_step_def Let_def)

lemma hack_script_length: "length (hack_script inet_pton g) = 40"
  by (simp add: hack_script_def hack_drops_def hack_traps_def hack_gotos_def hack_forwards_def)

end
