(* ===== verification/Spec2Isabelle.thy ===== *)
theory Spec2Isabelle
  imports TC_Codec_Props RB_Augment Rule_Props Scan_Props Adopt Confirm Neigh_Props Queue_Progress Obj_Print Hack
begin

text \<open>
  A verification library for \<open>flower-route\<close>, a daemon that offloads the routing of a router to its network
  card: it follows the kernel's links, neighbours and routes over netlink and asks the kernel for the TC
  flower rules that forward the same packets in hardware. File names are below \<open>src/\<close>.

  \<^bold>\<open>The program.\<close> \<open>main.c\<close> reads the options (\<open>options.c\<close>, \<open>rt_names.c\<close>, \<open>onload.c\<close>) into the configuration,
  opens the monitor's socket (\<open>monitor.c\<close>), lets the scheduler want its static rules (\<open>sched.c\<close>,
  \<open>sched_basic.c\<close>), and starts the scan (\<open>scan.c\<close>). The scan asks the kernel for everything it has, one
  dump after another, through a queue of requests (\<open>nl_queue.c\<close>, \<open>nl_send.c\<close>, \<open>nl_dump.c\<close>) that has one
  request outstanding at a time. Every message read (\<open>nl_receive.c\<close>) is decoded (\<open>nl_decode.c\<close>,
  \<open>tc_decode.c\<close>) and told to the objects: links and neighbours (\<open>obj_link.c\<close>, \<open>obj_neigh.c\<close>), targets and
  routes (\<open>obj_target.c\<close>, \<open>obj_route.c\<close>), and rules (\<open>obj_rule.c\<close>). A target is a neighbour behind a VLAN link; it
  wants a forwarding rule in a chain of its own. When that rule is in the kernel, each of its routes
  wants a rule that goes to this chain. When the first scan is done the pins on the rules
  are removed, what is wanted and missing is installed and what is there and not wanted is removed, by
  requests (\<open>tc_action.c\<close>, \<open>tc_encode.c\<close>) that go through the same queue.

  \<^bold>\<open>The state.\<close> \<open>Obj_Core.world\<close> holds the whole daemon: the stores of objects by pointer, the trees that index
  them, the queue, the scan with its connection, the table of chains, and the log of requests sent. A pointer
  is a number that is handed out once (\<open>w_next\<close>); memory that is freed is gone from its store, and
  reading it has no result. An operation of the code is a function to \<open>world option\<close>; \<open>None\<close> is an
  abort: an assertion \<open>AN\<close> or \<open>AZ\<close> that fails, a null pointer or freed memory that is read, or a bound that is used up.

  \<^bold>\<open>Theories and the code they model.\<close>
  \<^item> \<open>FR_Prelude\<close>, \<open>FR_Common\<close>, \<open>C_Text\<close>: machine words, byte order, \<open>memcmp\<close>, the assertions (\<open>common.h\<close>); addresses and the
    configuration (\<open>common.c\<close>, \<open>config.c\<close>); the C library's text functions that the parsers call.
  \<^item> \<open>RB_Tree\<close>: \<open>rbtree.h\<close> and \<open>rbtree.c\<close>. A node's place is the path to it, and the loops that climb by parent
    pointers are recursions along that path. Erasing a node that is not in the tree has no result. \<open>RB_Augment\<close>: the
    hooks of an erasure; those of an insertion are in \<open>RB_Props\<close>.
  \<^item> \<open>TC_Rule\<close>, \<open>NL_Attr\<close>, \<open>TC_Encode\<close>, \<open>TC_Decode\<close>: \<open>tc_rule.c\<close>, the netlink helpers, \<open>tc_encode.c\<close> and \<open>tc_decode.c\<close>.
  \<^item> \<open>NL_Filter\<close>, \<open>NL_Queue\<close>: the table of chains (\<open>nl_filter.c\<close>), and the queue, the sending of requests and the rule actions.
  \<^item> \<open>Obj_Core\<close>, \<open>Obj_Rule\<close>, \<open>Obj_Target\<close>, \<open>Obj_Link\<close>: \<open>obj.h\<close>, \<open>obj.c\<close>, \<open>obj_rule.c\<close> with the scheduler, targets and routes,
    links and neighbours.
  \<^item> \<open>Daemon\<close>: the scan, the decoding of messages, and the knot: \<open>calls n\<close> ties the function pointers of the queue and
    the calls that lead back up from one object to another, to depth \<open>n\<close>.
  \<^item> \<open>Onload\<close>, \<open>RT_Names\<close>, \<open>Options\<close>, \<open>NL_Receive\<close>: prefix lists, table names, the command line, the sockets and the
    reading loop.
  \<^item> \<open>Explain\<close>, \<open>Obj_Print\<close>: the texts of the log (\<open>rt_explain.c\<close>, \<open>tc_explain.c\<close>, \<open>hexdump.c\<close>, \<open>debug.h\<close>, the \<open>_print\<close> functions). They
    change nothing, and the operations above leave out the calls that print.
  \<^item> \<open>Flower_Main\<close>: \<open>main\<close> from the command line to the shutdown, over a list of events.
  \<^item> \<open>Hack\<close>: \<open>hack.c\<close>, a script of hardware experiments that no build includes.

  \<^bold>\<open>Interfaces.\<close> \<open>RB_Index.key_order\<close> is what a comparison promises, \<open>RB_Index.rb_index\<close> a tree searched by it, \<open>RB_Index.keyed_table\<close> what
    its users rely on: a finite map. \<open>Store_Index.store_index\<close> is the same for nodes that are pointers into a store whose
    objects change. They are interpreted for the chains, for the rules by position and by content, for links, for the neighbours of a link and for routes.
    \<open>World_Rel.ops_rel\<close> is the contract of a relation on states that every operation keeps except the sending of a request, and
    \<open>World_Rel.world_rel\<close> and \<open>Protocol.daemon_rel\<close> that of one which the sending keeps as well. The first is interpreted
    by \<open>Stop_And_Wait.work_rel\<close>, the last by the steps of the queue and by the relation that says that the queue does not stall.
    \<open>Depth.deeper\<close> is the contract of two depths of the knot.

  \<^bold>\<open>What is shown.\<close>
  \<^item> \<open>RB_Props\<close>: insertion, erasure and replacement keep the red-black invariants and change the sequence of nodes as they
    should; the walks visit the nodes in order; whatever was inserted and erased, the height is logarithmic.
  \<^item> \<open>TC_Codec\<close>, \<open>TC_Codec_Props\<close>: an \<open>encodable\<close> rule encoded and dumped decodes to itself, two kinds of traps that the daemon may
    want do not; decoding is sound on whatever the kernel sends; masks and prefix lengths. \<open>MNL_Tree\<close> is a libmnl that has the documented behaviour these rest on.
  \<^item> \<open>Rule_Props\<close>, \<open>Link_Props\<close>, \<open>NL_Filter\<close>: the tables refine finite maps, free priorities and chains are free, the start wants
    exactly its static rules.
  \<^item> \<open>Install\<close>, \<open>Forwarding\<close>, \<open>Confirm\<close>, \<open>Target_Props\<close>, \<open>Neigh_Props\<close>: from a resolved next hop to the forwarding request, from its confirmation
    or from a new route to the requests of the routes, from the decision to install to the message sent; and the
    four places where this goes wrong.
  \<^item> \<open>Removal\<close>: from the decision to remove to the message sent, and what becomes of a rule whose filter is gone: freed, asked
    for again, or, when it is static, forgotten.
  \<^item> \<open>Adopt\<close>: the lost and found tree as a map from contents to rules; a filter that was there before it is wanted is adopted
    without a request; a rule that nobody wants any more is withdrawn; and the two ways in which this goes wrong.
  \<^item> \<open>Protocol\<close>, \<open>Stop_And_Wait\<close>, \<open>Protocol_Props\<close>, \<open>Queue_Progress\<close>: every operation is a sequence of steps of the queue;
    \<open>Stop_And_Wait.work_step\<close> is the protocol with the kernel, in which nothing but an answer ends the wait for one, and an
    event does no more than its steps; the queue never stalls, request numbers are consecutive, every answer takes one item away
    and has the request of the next one sent.
  \<^item> \<open>Scan_Props\<close>, \<open>Flower_Main\<close>, \<open>Onload_Props\<close>, \<open>RT_Names\<close>, \<open>Options\<close>, \<open>NL_Receive\<close>: the scan, the start and the shutdown, and the
    parsers.
  \<^item> \<open>Explain\<close>, \<open>Obj_Print\<close>: a hexdump shows every byte; the summary of the rules never fails, and counts the bytes in which two rules agree.

  \<^bold>\<open>Bounds.\<close> Loops over the trees and the lists of the code are structural. A walk that follows pointers through the store, or
  looks up the next node after each turn, has fuel: the number of objects ever allocated, or the argument
  \<open>n\<close> of an event, which is also the depth of the knot. \<open>Depth.depth_irrelevant\<close>: more depth and fuel
  never change a result, so a theorem about a result holds for the code, where there is no bound.
  Theorems that something returns state the depth (one level is enough to install a rule) or hold at every one.
  \<open>Scan_Props.advance_scan_fuel_enough\<close>: the eight turns given to the scan's loop are never used up.
  \<open>Scan_Props.knot\<close> is the daemon cut off at a depth, where a recursion of the code that does not end can be watched.

  \<^bold>\<open>Parameters.\<close> libmnl is a record of its functions (\<open>NL_Attr.libmnl\<close>); \<open>mnl_cb_run2\<close> is the function a reading loop is
  given. The kernel is what arrives: messages, completions, and for each sequence number whether the
  socket takes the request. libev is the order of the events. \<open>inet_pton\<close>, \<open>if_nametoindex\<close>, the file system and
  the answers of \<open>getopt_long\<close> are functions or values given.

  \<^bold>\<open>Not modelled.\<close> The fixed texts of the help and the version; the memory of the
  configuration and of file buffers, which is never used after it is freed; the failure of \<open>malloc\<close>, which ends the program; file descriptors.
\<close>

end
